(* ===== verification/Prelude.thy ===== *)
theory Prelude
  imports Main "HOL-Library.Word" "HOL-Library.Char_ord"
begin

text \<open>
  Shared vocabulary of the development: the machine integers of the x64 Windows build
  (\<open>uint8_t\<close>, \<open>uint32_t\<close>, \<open>uint64_t\<close>, \<open>wchar_t\<close>), wide and narrow strings, chains of fallible
  calls (\<open>a() && b() && ...\<close> with early exit), little-endian byte encodings, the number
  formatting that \<open>std::ostream\<close> performs, and the list and word lemmas the components share.
\<close>

unbundle bit_operations_syntax

section \<open>Types\<close>

type_synonym u8 = "8 word"
type_synonym u16 = "16 word"
type_synonym u32 = "32 word"
type_synonym u64 = "64 word"
type_synonym bytes = "u8 list"
type_synonym wchar = u16
type_synonym wstring = "wchar list"

text \<open>A wide literal \<open>L"..."\<close>: every character of the program's literals is ASCII.\<close>

definition wide :: "string \<Rightarrow> wstring" where
  "wide s = map of_char s"

text \<open>The bytes of a narrow string.\<close>

definition ascii :: "string \<Rightarrow> bytes" where
  "ascii s = map of_char s"

text \<open>\<open>towlower\<close> in the C locale, which the program never leaves.\<close>

definition towlower :: "wchar \<Rightarrow> wchar" where
  "towlower c = (if 0x41 \<le> c \<and> c \<le> 0x5A then c + 0x20 else c)"

section \<open>Hint collections\<close>

named_theorems laws \<comment> \<open>contract laws of the interfaces, as conditional rewrite or destruction rules\<close>
named_theorems frames \<comment> \<open>fields and state parts an operation leaves alone\<close>

section \<open>Fallible calls\<close>

text \<open>
  Most operations of the program return \<open>bool\<close> and mutate their object. They are modelled as
  functions from a state to the returned flag and the new state; \<open>all_ok\<close> is the short-circuit
  chain \<open>if (!f() || !g() || ...) return false\<close>: it stops at the first call that fails and
  keeps the state that call left.
\<close>

type_synonym 's fallible = "'s \<Rightarrow> bool \<times> 's"

fun all_ok :: "'s fallible list \<Rightarrow> 's fallible" where
  "all_ok [] s = (True, s)"
| "all_ok (f # fs) s = (case f s of (True, s') \<Rightarrow> all_ok fs s' | (False, s') \<Rightarrow> (False, s'))"

lemma all_ok_Cons_True [simp]:
  "all_ok (f # fs) s = (True, t) \<longleftrightarrow> (\<exists>s'. f s = (True, s') \<and> all_ok fs s' = (True, t))"
  by (auto split: prod.splits bool.splits)

lemma all_ok_append:
  "all_ok (fs @ gs) s = (case all_ok fs s of (True, s') \<Rightarrow> all_ok gs s' | (False, s') \<Rightarrow> (False, s'))"
  by (induction fs arbitrary: s) (auto split: prod.splits bool.splits)

lemma all_ok_append_True:
  "all_ok (fs @ gs) s = (True, t) \<longleftrightarrow> (\<exists>u. all_ok fs s = (True, u) \<and> all_ok gs u = (True, t))"
  by (induction fs arbitrary: s) (auto split: prod.splits bool.splits)

lemmas all_ok_Cons = all_ok.simps(2)

declare all_ok.simps(2) [simp del]

text \<open>A relation that every call of a chain respects is respected by the chain, failed or not.\<close>

lemma all_ok_preserves:
  assumes "\<And>f s r s'. f \<in> set fs \<Longrightarrow> f s = (r, s') \<Longrightarrow> I s \<Longrightarrow> I s'"
    and "all_ok fs s = (r, s')" and "I s"
  shows "I s'"
  using assms
proof (induction fs arbitrary: s)
  case Nil
  then show ?case by simp
next
  case (Cons f fs)
  obtain b t where ft: "f s = (b, t)" by (cases "f s")
  have "I t" using Cons.prems(1) [of f s b t] ft Cons.prems(3) by simp
  then show ?case
    using Cons.IH [of t] Cons.prems(1,2) ft by (cases b) (auto simp: all_ok_Cons)
qed

lemma fst_TrueE: "fst x \<Longrightarrow> \<exists>y. x = (True, y)"
  by (cases x) simp

section \<open>Words\<close>

definition u64_max :: u64 where
  "u64_max = 0xFFFFFFFFFFFFFFFF"

lemma unat_u64_max [simp]: "unat u64_max = 18446744073709551615"
  by (simp add: u64_max_def)

lemma unat_lt_u64 [simp]: "unat (x :: u64) < 18446744073709551616"
  using unsigned_less [of x, where 'a = nat] by simp

lemma unat_lt_u32 [simp]: "unat (x :: u32) < 4294967296"
  using unsigned_less [of x, where 'a = nat] by simp

lemma unat_diff_u64:
  "(b :: u64) \<le> a \<Longrightarrow> unat (a - b) = unat a - unat b"
  by (simp add: unat_sub_if' word_le_nat_alt)

lemma unat_add_u64:
  "unat (a :: u64) + unat b < 2 ^ 64 \<Longrightarrow> unat (a + b) = unat a + unat b"
  by (simp add: unat_plus_if')

lemma word_gt_max_minus_iff:
  "(b :: u64) > u64_max - a \<longleftrightarrow> 2 ^ 64 \<le> unat a + unat b"
proof -
  have "unat (u64_max - a) = 18446744073709551615 - unat a"
    using unat_lt_u64 [of a] by (subst unat_diff_u64) (simp_all add: word_le_nat_alt del: unat_lt_u64)
  moreover have "unat a < 18446744073709551616" by (rule unat_lt_u64)
  ultimately show ?thesis
    by (simp add: word_less_nat_alt del: unat_lt_u64) linarith
qed

lemma word_le_max_minus_iff:
  "(b :: u64) \<le> u64_max - a \<longleftrightarrow> unat a + unat b < 2 ^ 64"
  using word_gt_max_minus_iff [of a b] by (auto simp: not_less [symmetric])

lemma unat_ucast_32_64 [simp]: "unat (ucast (x :: u32) :: u64) = unat x"
  by (simp add: unsigned_ucast_eq take_bit_nat_eq_self less_le_trans [OF unat_lt_u32])

lemma unat_ucast_64_32: "unat x < 2 ^ 32 \<Longrightarrow> unat (ucast (x :: u64) :: u32) = unat x"
  by (simp add: unsigned_ucast_eq take_bit_nat_eq_self)

lemma unat_min_u64: "unat (min (a :: u64) b) = min (unat a) (unat b)"
  by (simp add: min_def word_le_nat_alt)

lemma unat_of_nat_small: "n < 2 ^ 64 \<Longrightarrow> unat (of_nat n :: u64) = n"
  by (simp add: unat_of_nat)

lemma unat_of_nat_small32: "n < 2 ^ 32 \<Longrightarrow> unat (of_nat n :: u32) = n"
  by (simp add: unat_of_nat)

section \<open>Checked addition (\<open>CheckedAdd\<close> of \<open>cli/acquire.cpp\<close>)\<close>

text \<open>
  \<open>bool CheckedAdd(uint64_t& value, uint64_t increment)\<close> leaves \<open>value\<close> alone when the sum does
  not fit; the model returns the new value.
\<close>

definition CheckedAdd :: "u64 \<Rightarrow> u64 \<Rightarrow> u64 option" where
  "CheckedAdd value increment =
     (if increment > u64_max - value then None else Some (value + increment))"

lemma CheckedAdd_Some_iff:
  "CheckedAdd v i = Some r \<longleftrightarrow> unat v + unat i < 2 ^ 64 \<and> r = v + i"
  by (auto simp: CheckedAdd_def word_gt_max_minus_iff not_less)

lemma CheckedAdd_SomeD:
  "CheckedAdd v i = Some r \<Longrightarrow> unat r = unat v + unat i"
  by (auto simp: CheckedAdd_Some_iff unat_add_u64)

lemma CheckedAdd_None_iff:
  "CheckedAdd v i = None \<longleftrightarrow> 2 ^ 64 \<le> unat v + unat i"
  by (simp add: CheckedAdd_def word_gt_max_minus_iff)

section \<open>Byte buffers\<close>

text \<open>Writing \<open>xs\<close> at offset \<open>n\<close> of a buffer; a gap past its end reads as zeros.\<close>

definition overlay :: "bytes \<Rightarrow> nat \<Rightarrow> bytes \<Rightarrow> bytes" where
  "overlay c n xs =
     take n c @ replicate (n - length c) 0 @ xs @ drop (n + length xs) c"

lemma overlay_within:
  "n + length xs \<le> length c \<Longrightarrow> overlay c n xs = take n c @ xs @ drop (n + length xs) c"
  by (simp add: overlay_def)

lemma length_overlay [simp]: "length (overlay c n xs) = max (length c) (n + length xs)"
  by (auto simp: overlay_def)

lemma overlay_Nil [simp]: "n \<le> length c \<Longrightarrow> overlay c n [] = c"
  by (simp add: overlay_def)

lemma overlay_append:
  "overlay (overlay c n xs) (n + length xs) ys = overlay c n (xs @ ys)"
  by (auto simp: overlay_def min_def ac_simps not_le)

lemma overlay_at_end: "overlay c (length c) xs = c @ xs"
  by (simp add: overlay_def)

text \<open>The new size of a file after \<open>SetEndOfFile\<close>: cut, or extended with zeros.\<close>

definition resize :: "bytes \<Rightarrow> nat \<Rightarrow> bytes" where
  "resize c n = take n c @ replicate (n - length c) 0"

lemma length_resize [simp]: "length (resize c n) = n"
  by (auto simp: resize_def)

lemma resize_Nil [simp]: "resize [] n = replicate n 0"
  by (simp add: resize_def)

end
