(* ===== verification/Interfaces.thy ===== *)
theory Interfaces
  imports Prelude
begin

text \<open>
  The shared data types of \<open>shared/interfaces.hpp\<close>, \<open>shared/phylaram.h\<close> and
  \<open>cli/phylaram.hpp\<close>, and the three abstract classes the acquisition engine is written
  against. A C++ abstract class is a record of functions over the implementing object's state
  (\<open>IDeviceSession\<close>, \<open>IRawWriter\<close>, \<open>IHasher\<close>); an out-parameter is part of the result, so a method
  \<open>bool m(args, T& out)\<close> becomes \<open>args \<Rightarrow> 's \<Rightarrow> bool \<times> T \<times> 's\<close>. What a caller may rely on is
  stated here as a locale per class; the components that implement a class interpret it.
  \<open>long\<close> is 32 bits wide on Windows and is kept as its bit pattern (\<open>u32\<close>).
\<close>

section \<open>Protocol constants (\<open>shared/phylaram.h\<close>)\<close>

definition PHYLA_PROTOCOL_VERSION :: u32 where "PHYLA_PROTOCOL_VERSION = 2"
definition PHYLA_MAX_TRANSFER :: u32 where "PHYLA_MAX_TRANSFER = 16 * 1024 * 1024"
definition PHYLA_PAGE_SIZE :: u32 where "PHYLA_PAGE_SIZE = 4096"

lemma unat_PHYLA_MAX_TRANSFER [simp]: "unat PHYLA_MAX_TRANSFER = 16777216"
  by (simp add: PHYLA_MAX_TRANSFER_def)

lemma unat_PHYLA_PAGE_SIZE [simp]: "unat PHYLA_PAGE_SIZE = 4096"
  by (simp add: PHYLA_PAGE_SIZE_def)

section \<open>Data (\<open>shared/interfaces.hpp\<close>)\<close>

record MemoryRun =
  mr_driverIndex :: u32
  mr_base :: u64
  mr_length :: u64

record ReadResult =
  rr_physicalAddress :: u64
  rr_requested :: u32
  rr_copied :: u32
  rr_copyStatus :: u32
  rr_data :: bytes

record UnreadableSpan =
  us_start :: u64
  us_length :: u64
  us_status :: u32

record KernelHints =
  kh_available :: bool
  kh_hypervisorPresent :: bool
  kh_majorVersion :: u32
  kh_minorVersion :: u32
  kh_buildNumber :: u32
  kh_numberOfProcessors :: u32
  kh_directoryTableBase :: u64
  kh_kpcrAddress :: u64
  kh_kernelBase :: u64
  kh_kernelSize :: u64

text \<open>A value-initialised \<open>KernelHints{}\<close>.\<close>

definition KernelHints_default :: KernelHints where
  "KernelHints_default = \<lparr> kh_available = False, kh_hypervisorPresent = False,
     kh_majorVersion = 0, kh_minorVersion = 0, kh_buildNumber = 0, kh_numberOfProcessors = 0,
     kh_directoryTableBase = 0, kh_kpcrAddress = 0, kh_kernelBase = 0, kh_kernelSize = 0 \<rparr>"

record AcquisitionSummary =
  as_completed :: bool
  as_topologyChanged :: bool
  as_logicalSize :: u64
  as_physicalBytes :: u64
  as_acquiredBytes :: u64
  as_unreadableBytes :: u64
  as_sha256 :: string
  as_hints :: KernelHints
  as_ranges :: "MemoryRun list"
  as_unreadable :: "UnreadableSpan list"

text \<open>A value-initialised \<open>AcquisitionSummary{}\<close>.\<close>

definition AcquisitionSummary_default :: AcquisitionSummary where
  "AcquisitionSummary_default = \<lparr> as_completed = False, as_topologyChanged = False,
     as_logicalSize = 0, as_physicalBytes = 0, as_acquiredBytes = 0, as_unreadableBytes = 0,
     as_sha256 = [], as_hints = KernelHints_default, as_ranges = [], as_unreadable = [] \<rparr>"

datatype OutputFormat = Raw | Zdmp | E01

record EvidenceMetadata =
  em_caseNumber :: wstring
  em_evidenceNumber :: wstring
  em_examiner :: wstring
  em_description :: wstring
  em_notes :: wstring

definition EvidenceMetadata_default :: EvidenceMetadata where
  "EvidenceMetadata_default = \<lparr> em_caseNumber = [], em_evidenceNumber = [], em_examiner = [],
     em_description = [], em_notes = [] \<rparr>"

text \<open>
  \<open>AcquisitionConfig\<close>: the callback pointer is kept as whether one is installed, and the calls it
  receives are recorded in the state of the acquisition.
\<close>

record AcquisitionConfig =
  cfg_quiet :: bool
  cfg_rateLimitMBps :: u32
  cfg_format :: OutputFormat
  cfg_metadata :: EvidenceMetadata
  cfg_onProgress :: bool

section \<open>The abstract classes\<close>

record 'd IDeviceSession =
  dev_Open :: "'d \<Rightarrow> bool \<times> 'd"
  dev_Close :: "'d \<Rightarrow> 'd"
  dev_Query :: "'d \<Rightarrow> bool \<times> (u64 \<times> u64 \<times> MemoryRun list) \<times> 'd"
  dev_QueryHints :: "'d \<Rightarrow> bool \<times> KernelHints \<times> 'd"
  dev_Read :: "u32 \<Rightarrow> u64 \<Rightarrow> u32 \<Rightarrow> 'd \<Rightarrow> bool \<times> ReadResult \<times> 'd"
  dev_End :: "'d \<Rightarrow> bool \<times> bool \<times> 'd"
  dev_LastError :: "'d \<Rightarrow> u32"

record 'w IRawWriter =
  wr_Configure :: "MemoryRun list \<Rightarrow> KernelHints \<Rightarrow> EvidenceMetadata \<Rightarrow> 'w \<Rightarrow> 'w"
  wr_PreflightAndOpen :: "wstring \<Rightarrow> u64 \<Rightarrow> u64 \<Rightarrow> 'w \<Rightarrow> bool \<times> 'w"
  wr_WriteAt :: "u64 \<Rightarrow> bytes \<Rightarrow> 'w \<Rightarrow> bool \<times> 'w"
  wr_FlushAndClose :: "'w \<Rightarrow> bool \<times> 'w"
  wr_Close :: "'w \<Rightarrow> 'w"
  wr_IsSparse :: "'w \<Rightarrow> bool"
  wr_LastError :: "'w \<Rightarrow> u32"

record 'h IHasher =
  hs_Initialize :: "'h \<Rightarrow> bool \<times> 'h"
  hs_Update :: "bytes \<Rightarrow> 'h \<Rightarrow> bool \<times> 'h"
  hs_UpdateZeros :: "u64 \<Rightarrow> 'h \<Rightarrow> bool \<times> 'h"
  hs_Finish :: "'h \<Rightarrow> bool \<times> string \<times> 'h"
  hs_Reset :: "'h \<Rightarrow> 'h"

section \<open>Physical memory runs\<close>

text \<open>The addresses a run covers, as natural numbers (no wrap-around).\<close>

definition run_addresses :: "MemoryRun \<Rightarrow> nat set" where
  "run_addresses r = {unat (mr_base r) ..< unat (mr_base r) + unat (mr_length r)}"

definition span_addresses :: "UnreadableSpan \<Rightarrow> nat set" where
  "span_addresses s = {unat (us_start s) ..< unat (us_start s) + unat (us_length s)}"

definition runs_total :: "MemoryRun list \<Rightarrow> nat" where
  "runs_total rs = sum_list (map (\<lambda>r. unat (mr_length r)) rs)"

definition spans_total :: "UnreadableSpan list \<Rightarrow> nat" where
  "spans_total ss = sum_list (map (\<lambda>s. unat (us_length s)) ss)"

lemma runs_total_simps [simp]:
  "runs_total [] = 0"
  "runs_total (r # rs) = unat (mr_length r) + runs_total rs"
  "runs_total (rs @ rs') = runs_total rs + runs_total rs'"
  by (simp_all add: runs_total_def)

lemma spans_total_simps [simp]:
  "spans_total [] = 0"
  "spans_total (s # ss) = unat (us_length s) + spans_total ss"
  "spans_total (ss @ ss') = spans_total ss + spans_total ss'"
  by (simp_all add: spans_total_def)

text \<open>A run that can be read: not empty, and ending inside the 64-bit address space.\<close>

definition run_ok :: "MemoryRun \<Rightarrow> bool" where
  "run_ok r \<longleftrightarrow> mr_length r \<noteq> 0 \<and> unat (mr_base r) + unat (mr_length r) < 2 ^ 64"

text \<open>Ordered by base and disjoint: what a device session promises of the runs it reports.\<close>

fun runs_ordered :: "MemoryRun list \<Rightarrow> bool" where
  "runs_ordered [] \<longleftrightarrow> True"
| "runs_ordered [r] \<longleftrightarrow> True"
| "runs_ordered (r # r' # rs) \<longleftrightarrow>
     unat (mr_base r) + unat (mr_length r) \<le> unat (mr_base r') \<and> runs_ordered (r' # rs)"

definition runs_wf :: "MemoryRun list \<Rightarrow> bool" where
  "runs_wf rs \<longleftrightarrow> (\<forall>r \<in> set rs. run_ok r) \<and> runs_ordered rs"

section \<open>Contracts\<close>

text \<open>
  A device session: \<open>dinv\<close> is the session invariant, and every successful query reports
  readable, ordered, disjoint runs.
\<close>

locale device_contract =
  fixes D :: "'d IDeviceSession"
    and dinv :: "'d \<Rightarrow> bool"
  assumes query_inv: "dinv d \<Longrightarrow> dev_Query D d = (ok, out, d') \<Longrightarrow> dinv d'"
    and query_runs: "dinv d \<Longrightarrow> dev_Query D d = (True, (hi, tot, rs), d') \<Longrightarrow> runs_wf rs"
    and hints_inv: "dinv d \<Longrightarrow> dev_QueryHints D d = (ok, hints, d') \<Longrightarrow> dinv d'"
    and read_inv: "dinv d \<Longrightarrow> dev_Read D i off len d = (ok, res, d') \<Longrightarrow> dinv d'"
    and end_inv: "dinv d \<Longrightarrow> dev_End D d = (ok, changed, d') \<Longrightarrow> dinv d'"

text \<open>A device whose topology does not change and whose reads show the memory \<open>mem\<close>.\<close>

definition frozen_memory ::
  "'d IDeviceSession \<Rightarrow> ('d \<Rightarrow> bool) \<Rightarrow> (nat \<Rightarrow> u8) \<Rightarrow> u64 \<Rightarrow> u64 \<Rightarrow> MemoryRun list \<Rightarrow> bool" where
  "frozen_memory D dinv mem hi tot runs \<longleftrightarrow>
     (\<forall>d x d'. dinv d \<longrightarrow> dev_Query D d = (True, x, d') \<longrightarrow> x = (hi, tot, runs)) \<and>
     (\<forall>d i off n r d' j. dinv d \<longrightarrow> dev_Read D i off n d = (True, r, d') \<longrightarrow> j < length (rr_data r) \<longrightarrow>
        rr_data r ! j = mem (unat (rr_physicalAddress r) + j))"

text \<open>
  A hasher: \<open>fed h\<close> are the bytes absorbed since \<open>Initialize\<close> (\<open>None\<close> when there is no live
  hash), and \<open>Finish\<close> returns the hexadecimal digest of exactly these bytes.
\<close>

locale hasher_contract =
  fixes H :: "'h IHasher"
    and fed :: "'h \<Rightarrow> bytes option"
    and digest_hex :: "bytes \<Rightarrow> string"
  assumes initialize_fed: "hs_Initialize H h = (True, h') \<Longrightarrow> fed h' = Some []"
    and update_fed: "fed h = Some bs \<Longrightarrow> hs_Update H xs h = (True, h') \<Longrightarrow> fed h' = Some (bs @ xs)"
    and zeros_fed:
      "fed h = Some bs \<Longrightarrow> hs_UpdateZeros H n h = (True, h') \<Longrightarrow>
       fed h' = Some (bs @ replicate (unat n) 0)"
    and finish_hex:
      "fed h = Some bs \<Longrightarrow> hs_Finish H h = (True, hex, h') \<Longrightarrow> hex = digest_hex bs"

text \<open>
  A flat image writer: \<open>image w\<close> is the content of the open image file. Opening it makes
  \<open>logicalSize\<close> zero bytes, and a successful \<open>WriteAt\<close> replaces exactly the bytes addressed.
\<close>

locale image_writer_contract =
  fixes W :: "'w IRawWriter"
    and image :: "'w \<Rightarrow> bytes option"
  assumes open_image:
      "wr_PreflightAndOpen W path lsize phys w = (True, w') \<Longrightarrow>
       image w' = Some (replicate (unat lsize) 0)"
    and write_image:
      "image w = Some c \<Longrightarrow> wr_WriteAt W off xs w = (True, w') \<Longrightarrow>
       unat off + length xs \<le> length c \<and> image w' = Some (overlay c (unat off) xs)"

end
