(* ===== verification/Host.thy ===== *)
theory Host
  imports Complex_Main Prelude
begin

text \<open>
  What the engine observes of its host besides its three objects: the monotonic clock
  (\<open>std::chrono::steady_clock\<close>, in nanoseconds), the \<open>std::atomic_bool\<close> another thread raises to
  cancel, \<open>std::this_thread::sleep_for\<close>, and the rounding of \<open>long double\<close> arithmetic.

  Time and the other threads are oracles of the state: between the n-th and the next observation
  \<open>h_delay n\<close> nanoseconds pass, and the n-th observation of the flag reads \<open>h_cancel n\<close>. Nothing
  is assumed of either, so a theorem holds for every schedule. The clock never goes back and
  \<open>sleep_for\<close> blocks at least as long as it is asked to, which is what the standard
  promises. \<open>h_round\<close> rounds an exact rational to the nearest \<open>long double\<close>.

  \<open>h_ns\<close> is the count of the clock since the machine was started. The program holds it in a signed
  64-bit word, which lasts for 292 years; where the program computes with such counts, the words are
  written out.
\<close>

record host =
  h_ns :: nat
  h_step :: nat
  h_delay :: "nat \<Rightarrow> nat"
  h_cancel :: "nat \<Rightarrow> bool"
  h_round :: "rat \<Rightarrow> rat"

abbreviation h_now :: "host \<Rightarrow> int" where "h_now h \<equiv> int (h_ns h)"

definition host_tick :: "host \<Rightarrow> host" where
  "host_tick h = h\<lparr> h_ns := h_ns h + h_delay h (h_step h), h_step := Suc (h_step h) \<rparr>"

text \<open>\<open>std::chrono::steady_clock::now()\<close>\<close>

definition clock_now :: "host \<Rightarrow> int \<times> host" where
  "clock_now h = (let h' = host_tick h in (h_now h', h'))"

text \<open>\<open>cancelled.load()\<close>\<close>

definition cancel_load :: "host \<Rightarrow> bool \<times> host" where
  "cancel_load h = (h_cancel h (h_step h), host_tick h)"

text \<open>\<open>std::this_thread::sleep_for(d)\<close>\<close>

definition sleep_for :: "int \<Rightarrow> host \<Rightarrow> host" where
  "sleep_for d h = host_tick (h\<lparr> h_ns := h_ns h + nat d \<rparr>)"

lemma host_tick_simps [simp]:
  "h_step (host_tick h) = Suc (h_step h)"
  "h_delay (host_tick h) = h_delay h"
  "h_cancel (host_tick h) = h_cancel h"
  "h_round (host_tick h) = h_round h"
  "h_ns h \<le> h_ns (host_tick h)"
  by (simp_all add: host_tick_def)

lemma clock_nowD:
  "clock_now h = (t, h') \<Longrightarrow> h' = host_tick h \<and> t = h_now h' \<and> h_now h \<le> t"
  by (auto simp: clock_now_def Let_def)

lemma sleep_for_now: "h_now h + max 0 d \<le> h_now (sleep_for d h)"
  using host_tick_simps(5) [of "h\<lparr>h_ns := h_ns h + nat d\<rparr>"] by (simp add: sleep_for_def)

text \<open>The oracles are the same in every later state of a host, and observations only add up.\<close>

definition host_after :: "host \<Rightarrow> host \<Rightarrow> bool" where
  "host_after h h' \<longleftrightarrow> h_delay h' = h_delay h \<and> h_cancel h' = h_cancel h \<and> h_round h' = h_round h \<and>
     h_step h \<le> h_step h' \<and> h_now h \<le> h_now h'"

lemma host_after_refl [simp]: "host_after h h"
  by (simp add: host_after_def)

lemma host_after_trans: "host_after h h' \<Longrightarrow> host_after h' h'' \<Longrightarrow> host_after h h''"
  by (auto simp: host_after_def)

lemma host_after_tick [simp]: "host_after h (host_tick h)"
  by (simp add: host_after_def)

lemma host_after_sleep [simp]: "host_after h (sleep_for d h)"
  by (auto simp: host_after_def sleep_for_def host_tick_def)

text \<open>A cancellation request is never withdrawn: the console handler only stores \<open>true\<close>.\<close>

definition cancel_sticky :: "host \<Rightarrow> bool" where
  "cancel_sticky h \<longleftrightarrow> (\<forall>m n. m \<le> n \<longrightarrow> h_cancel h m \<longrightarrow> h_cancel h n)"

end
