(* ===== verification/Acquire.thy ===== *)
theory Acquire
  imports Interfaces Host
begin

text \<open>
  The acquisition engine, \<open>cli/acquire.cpp\<close>: bulk reads of at most 16 MiB over every physical
  run, page-granular retries of the part a bulk read did not return, accounting of acquired and
  unreadable bytes, the streaming hash of the flat image, pacing, cancellation and progress.
  The engine runs against the three abstract classes only, so every definition takes the records
  of the device session, the writer and the hasher it works on.
\<close>

section \<open>Summary accounting\<close>

definition AddUnreadable ::
  "AcquisitionSummary \<Rightarrow> u64 \<Rightarrow> u64 \<Rightarrow> u32 \<Rightarrow> bool \<times> AcquisitionSummary" where
  "AddUnreadable summary start len status =
     (if len = 0 then (False, summary)
      else case CheckedAdd (as_unreadableBytes summary) len of
        None \<Rightarrow> (False, summary)
      | Some total' \<Rightarrow>
          (let summary = summary\<lparr> as_unreadableBytes := total' \<rparr>;
               spans = as_unreadable summary;
               previous = last spans
           in if spans \<noteq> [] \<and>
                 us_start previous \<le> u64_max - us_length previous \<and>
                 us_start previous + us_length previous = start \<and>
                 us_status previous = status \<and>
                 us_length previous \<le> u64_max - len
              then (True, summary\<lparr> as_unreadable :=
                      butlast spans @ [previous\<lparr> us_length := us_length previous + len \<rparr>] \<rparr>)
              else (True, summary\<lparr> as_unreadable :=
                      spans @ [\<lparr> us_start = start, us_length = len, us_status = status \<rparr>] \<rparr>)))"

definition ValidateReadResult :: "ReadResult \<Rightarrow> u64 \<Rightarrow> u32 \<Rightarrow> bool" where
  "ValidateReadResult result expectedPhysicalAddress requestedBytes \<longleftrightarrow>
     rr_physicalAddress result = expectedPhysicalAddress \<and>
     rr_requested result = requestedBytes \<and>
     rr_copied result \<le> requestedBytes \<and>
     length (rr_data result) = unat (rr_copied result)"

section \<open>Pacing and progress figures\<close>

definition kMebibyte :: u64 where "kMebibyte = 1024 * 1024"
definition kCancellationPollingInterval :: int where "kCancellationPollingInterval = 100 * 1000000"

text \<open>A count of nanoseconds, \<open>steady_clock::rep\<close>, is a signed 64-bit integer; \<open>sint\<close> reads it.\<close>

lemma sint_of_small: "- (2 ^ 63) \<le> k \<Longrightarrow> k < 2 ^ 63 \<Longrightarrow> sint (word_of_int k :: u64) = k"
  by (simp add: sint_sbintrunc' signed_take_bit_int_eq_self)

lemma sint_remaining:
  assumes "0 \<le> t" and "t \<le> sint (targetTime :: u64)"
  shows "sint (targetTime - word_of_int t) = sint targetTime - t"
proof -
  have "sint targetTime < 2 ^ 63" using sint_less [of targetTime] by simp
  then have "sint (word_of_int (sint targetTime - t) :: u64) = sint targetTime - t"
    using assms by (intro sint_of_small) simp_all
  then show ?thesis by simp
qed

lemma pace_step_decreases:
  assumes "clock_now h = (t, h1)" and "t < sint (targetTime :: u64)" and "cancel_load h1 = (c, h2)"
    and "clock_now h2 = (t', h3)"
  shows "h_ns h < nat (sint targetTime)"
    and "h_ns h < h_ns (sleep_for (min (sint (targetTime - word_of_int t')) kCancellationPollingInterval) h3)"
proof -
  let ?d = "min (sint (targetTime - word_of_int t')) kCancellationPollingInterval"
  have step: "h_now h \<le> t" "t \<le> t'" "t' = h_now h3" "0 \<le> t"
    using assms by (auto simp: clock_now_def cancel_load_def Let_def host_tick_def)
  then show "h_ns h < nat (sint targetTime)" using assms(2) by linarith
  have slept: "h_now h3 + max 0 ?d \<le> h_now (sleep_for ?d h3)"
    by (rule sleep_for_now)
  show "h_ns h < h_ns (sleep_for ?d h3)"
  proof (cases "t' \<le> sint targetTime")
    case True
    then have "sint (targetTime - word_of_int t') = sint targetTime - t'"
      using sint_remaining [of t' targetTime] step by simp
    then have "t < h_now (sleep_for ?d h3)"
      using slept step assms(2) by (auto simp: min_def max_def kCancellationPollingInterval_def split: if_splits)
    then show ?thesis using step by simp
  next
    case False
    then show ?thesis using slept step assms(2) by linarith
  qed
qed

text \<open>
  The waiting loop of \<open>PaceTransfer\<close>. It ends: between two looks at the clock the loop sleeps for
  the time that is left or 100 ms, or has seen that no time is left.
\<close>

function PaceLoop :: "u64 \<Rightarrow> host \<Rightarrow> bool \<times> host" where
  "PaceLoop targetTime h =
     (case clock_now h of (t, h1) \<Rightarrow>
        if t < sint targetTime
        then (case cancel_load h1 of (cancelled, h2) \<Rightarrow>
                if cancelled then (False, h2)
                else (case clock_now h2 of (t', h3) \<Rightarrow>
                        let remaining = targetTime - word_of_int t'
                        in PaceLoop targetTime
                             (sleep_for (min (sint remaining) kCancellationPollingInterval) h3)))
        else (case cancel_load h1 of (cancelled, h2) \<Rightarrow> (\<not> cancelled, h2)))"
  by pat_completeness auto

termination
  by (relation "measure (\<lambda>(targetTime, h). nat (sint targetTime) - h_ns h)")
    (auto intro!: diff_less_mono2 intro: pace_step_decreases [OF sym _ sym sym])

declare PaceLoop.simps [simp del]

text \<open>
  \<open>static_cast<long long>\<close> of a floating-point number on x64: truncation, and the most negative
  integer when the result does not fit.
\<close>

definition int64_of_double :: "rat \<Rightarrow> u64" where
  "int64_of_double x =
     (let n = (if x < 0 then \<lceil>x\<rceil> else \<lfloor>x\<rfloor>)
      in if - (2 ^ 63) \<le> n \<and> n < 2 ^ 63 then word_of_int n else 0x8000000000000000)"

text \<open>
  The time \<open>bytesTransferred / (rate * 2^20)\<close> seconds take, in \<open>long double\<close>, cast to whole
  nanoseconds by \<open>duration_cast\<close>; the deadline is the wrapping sum with the start.
\<close>

definition pace_target_ns :: "(rat \<Rightarrow> rat) \<Rightarrow> u64 \<Rightarrow> u32 \<Rightarrow> u64" where
  "pace_target_ns rnd bytesTransferred rateLimitMBps =
     (let bytesPerSecond = rnd (rnd (of_nat (unat rateLimitMBps)) * rnd (of_nat (unat kMebibyte)));
          targetElapsed = rnd (rnd (of_nat (unat bytesTransferred)) / bytesPerSecond)
      in int64_of_double (rnd (targetElapsed * 1000000000)))"

definition PaceTransfer :: "u64 \<Rightarrow> u32 \<Rightarrow> int \<Rightarrow> host \<Rightarrow> bool \<times> host" where
  "PaceTransfer bytesTransferred rateLimitMBps startedAt h =
     (if rateLimitMBps = 0 then (True, h)
      else PaceLoop (word_of_int startedAt + pace_target_ns (h_round h) bytesTransferred rateLimitMBps) h)"

definition ClampEtaSeconds :: "rat \<Rightarrow> u32" where
  "ClampEtaSeconds seconds =
     (if seconds \<le> 0 then 0 else word_of_int \<lfloor>min seconds 4294967295\<rfloor>)"

text \<open>One progress report: what the callback is given and what the console line shows.\<close>

record progress_event =
  pe_percent :: u64
  pe_processed :: u64
  pe_total :: u64
  pe_speed :: rat
  pe_eta :: u32
  pe_callback :: bool
  pe_console :: bool

section \<open>The state of a call to \<open>Acquire\<close>\<close>

record ('d, 'w, 'h) acq =
  a_dev :: 'd
  a_wr :: 'w
  a_hash :: 'h
  a_host :: host
  a_summary :: AcquisitionSummary
  a_hashPosition :: u64
  a_offset :: u64 \<comment> \<open>\<open>offsetWithinRun\<close>\<close>
  a_processed :: u64 \<comment> \<open>\<open>processedPhysicalBytes\<close>\<close>
  a_transferred :: u64 \<comment> \<open>\<open>transferredBytes\<close>\<close>
  a_lastPercent :: u64
  a_lastProgressMs :: int
  a_startedAt :: int
  a_progress :: "progress_event list"

text \<open>The chained \<open>CheckedAdd\<close> calls on the engine's counters.\<close>

definition add_hashPosition :: "u64 \<Rightarrow> ('d, 'w, 'h) acq fallible" where
  "add_hashPosition n st = (case CheckedAdd (a_hashPosition st) n of
     None \<Rightarrow> (False, st) | Some v \<Rightarrow> (True, st\<lparr> a_hashPosition := v \<rparr>))"

definition add_offset :: "u64 \<Rightarrow> ('d, 'w, 'h) acq fallible" where
  "add_offset n st = (case CheckedAdd (a_offset st) n of
     None \<Rightarrow> (False, st) | Some v \<Rightarrow> (True, st\<lparr> a_offset := v \<rparr>))"

definition add_processed :: "u64 \<Rightarrow> ('d, 'w, 'h) acq fallible" where
  "add_processed n st = (case CheckedAdd (a_processed st) n of
     None \<Rightarrow> (False, st) | Some v \<Rightarrow> (True, st\<lparr> a_processed := v \<rparr>))"

definition add_acquired :: "u64 \<Rightarrow> ('d, 'w, 'h) acq fallible" where
  "add_acquired n st = (case CheckedAdd (as_acquiredBytes (a_summary st)) n of
     None \<Rightarrow> (False, st)
   | Some v \<Rightarrow> (True, st\<lparr> a_summary := (a_summary st)\<lparr> as_acquiredBytes := v \<rparr> \<rparr>))"

definition add_transferred :: "u64 \<Rightarrow> ('d, 'w, 'h) acq fallible" where
  "add_transferred n st = (case CheckedAdd (a_transferred st) n of
     None \<Rightarrow> (False, st) | Some v \<Rightarrow> (True, st\<lparr> a_transferred := v \<rparr>))"

text \<open>The lambda \<open>hashZerosTo\<close>: hash logical zeros up to the next physical address.\<close>

definition hashZerosTo :: "'h IHasher \<Rightarrow> u64 \<Rightarrow> ('d, 'w, 'h) acq fallible" where
  "hashZerosTo H nextPhysicalAddress st =
     (if nextPhysicalAddress < a_hashPosition st then (False, st)
      else if nextPhysicalAddress > a_hashPosition st
      then (case hs_UpdateZeros H (nextPhysicalAddress - a_hashPosition st) (a_hash st) of
              (True, h) \<Rightarrow> (True, st\<lparr> a_hash := h, a_hashPosition := nextPhysicalAddress \<rparr>)
            | (False, h) \<Rightarrow> (False, st\<lparr> a_hash := h \<rparr>))
      else (True, st\<lparr> a_hashPosition := nextPhysicalAddress \<rparr>))"

definition write_data :: "'w IRawWriter \<Rightarrow> u64 \<Rightarrow> bytes \<Rightarrow> ('d, 'w, 'h) acq fallible" where
  "write_data W off xs st =
     (case wr_WriteAt W off xs (a_wr st) of (ok, w) \<Rightarrow> (ok, st\<lparr> a_wr := w \<rparr>))"

definition hash_data :: "'h IHasher \<Rightarrow> bytes \<Rightarrow> ('d, 'w, 'h) acq fallible" where
  "hash_data H xs st = (case hs_Update H xs (a_hash st) of (ok, h) \<Rightarrow> (ok, st\<lparr> a_hash := h \<rparr>))"

definition pace :: "AcquisitionConfig \<Rightarrow> ('d, 'w, 'h) acq fallible" where
  "pace cfg st =
     (case PaceTransfer (a_transferred st) (cfg_rateLimitMBps cfg) (a_startedAt st) (a_host st) of
        (ok, h) \<Rightarrow> (ok, st\<lparr> a_host := h \<rparr>))"

text \<open>
  The condition under \<open>if (result.copied != 0)\<close>, which the bulk path and the page path share: hash
  the gap, store and hash the bytes, advance every counter, keep the pace.
\<close>

definition StoreCopied ::
  "'w IRawWriter \<Rightarrow> 'h IHasher \<Rightarrow> AcquisitionConfig \<Rightarrow> ReadResult \<Rightarrow> ('d, 'w, 'h) acq fallible" where
  "StoreCopied W H cfg result =
     all_ok
       [hashZerosTo H (rr_physicalAddress result),
        write_data W (rr_physicalAddress result) (rr_data result),
        hash_data H (rr_data result),
        add_hashPosition (ucast (rr_copied result)),
        add_offset (ucast (rr_copied result)),
        add_processed (ucast (rr_copied result)),
        add_acquired (ucast (rr_copied result)),
        add_transferred (ucast (rr_copied result)),
        pace cfg]"

definition load_cancelled :: "('d, 'w, 'h) acq \<Rightarrow> bool \<times> ('d, 'w, 'h) acq" where
  "load_cancelled st = (case cancel_load (a_host st) of (c, h) \<Rightarrow> (c, st\<lparr> a_host := h \<rparr>))"

text \<open>\<open>device.Read\<close> followed by \<open>ValidateReadResult\<close>; the flag is their conjunction.\<close>

definition read_run ::
  "'d IDeviceSession \<Rightarrow> u32 \<Rightarrow> u64 \<Rightarrow> u32 \<Rightarrow> u64 \<Rightarrow> ('d, 'w, 'h) acq \<Rightarrow>
   bool \<times> ReadResult \<times> ('d, 'w, 'h) acq" where
  "read_run D driverIndex offset requested expected st =
     (case dev_Read D driverIndex offset requested (a_dev st) of
        (ok, result, d) \<Rightarrow>
          (ok \<and> ValidateReadResult result expected requested, result, st\<lparr> a_dev := d \<rparr>))"

section \<open>The page loop\<close>

text \<open>How one turn of the inner loop ends: \<open>break\<close>, \<open>continue\<close> (or falling out of the body), or
  \<open>return false\<close> from the whole function.\<close>

datatype flow = Break | Continue | Fail

definition page_request_bytes :: "u64 \<Rightarrow> u64 \<Rightarrow> u64 \<Rightarrow> u32" where
  "page_request_bytes physicalAddress chunkEnd offset =
     (let bytesToPageBoundary =
            ucast PHYLA_PAGE_SIZE - (physicalAddress AND (ucast PHYLA_PAGE_SIZE - 1))
      in ucast (min bytesToPageBoundary (chunkEnd - offset)))"

definition PageStep ::
  "'d IDeviceSession \<Rightarrow> 'w IRawWriter \<Rightarrow> 'h IHasher \<Rightarrow> AcquisitionConfig \<Rightarrow> MemoryRun \<Rightarrow> u64 \<Rightarrow>
   ('d, 'w, 'h) acq \<Rightarrow> flow \<times> ('d, 'w, 'h) acq" where
  "PageStep D W H cfg run chunkEnd st =
     (case load_cancelled st of (cancelled, st) \<Rightarrow>
        if cancelled then (Fail, st)
        else
          (let physicalAddress = mr_base run + a_offset st;
               pageRequestBytes = page_request_bytes physicalAddress chunkEnd (a_offset st)
           in case read_run D (mr_driverIndex run) (a_offset st) pageRequestBytes physicalAddress st of
                (valid, pageResult, st) \<Rightarrow>
                  if \<not> valid then (Fail, st)
                  else if rr_copied pageResult \<noteq> 0
                  then (case StoreCopied W H cfg pageResult st of
                          (False, st) \<Rightarrow> (Fail, st)
                        | (True, st) \<Rightarrow>
                            (if rr_copied pageResult = pageRequestBytes then Break else Continue, st))
                  else (case AddUnreadable (a_summary st) physicalAddress (ucast pageRequestBytes)
                               (rr_copyStatus pageResult) of
                          (False, summary) \<Rightarrow> (Fail, st\<lparr> a_summary := summary \<rparr>)
                        | (True, summary) \<Rightarrow>
                            (case all_ok [add_processed (ucast pageRequestBytes),
                                          add_offset (ucast pageRequestBytes)]
                                    (st\<lparr> a_summary := summary \<rparr>) of
                               (False, st) \<Rightarrow> (Fail, st)
                             | (True, st) \<Rightarrow> (Continue, st)))))"

text \<open>What a stored read leaves behind, all checks passed.\<close>

definition stored_state ::
  "ReadResult \<Rightarrow> 'w \<Rightarrow> 'h \<Rightarrow> host \<Rightarrow> ('d, 'w, 'h) acq \<Rightarrow> ('d, 'w, 'h) acq" where
  "stored_state r w h hst st =
     st\<lparr> a_wr := w, a_hash := h, a_host := hst,
         a_hashPosition := rr_physicalAddress r + ucast (rr_copied r),
         a_offset := a_offset st + ucast (rr_copied r),
         a_processed := a_processed st + ucast (rr_copied r),
         a_transferred := a_transferred st + ucast (rr_copied r),
         a_summary := (a_summary st)\<lparr> as_acquiredBytes :=
                         as_acquiredBytes (a_summary st) + ucast (rr_copied r) \<rparr> \<rparr>"

lemma stored_state_simps [simp]:
  "a_dev (stored_state r w h hst st) = a_dev st"
  "a_wr (stored_state r w h hst st) = w"
  "a_hash (stored_state r w h hst st) = h"
  "a_host (stored_state r w h hst st) = hst"
  "a_hashPosition (stored_state r w h hst st) = rr_physicalAddress r + ucast (rr_copied r)"
  "a_offset (stored_state r w h hst st) = a_offset st + ucast (rr_copied r)"
  "a_processed (stored_state r w h hst st) = a_processed st + ucast (rr_copied r)"
  "a_transferred (stored_state r w h hst st) = a_transferred st + ucast (rr_copied r)"
  "a_summary (stored_state r w h hst st) = (a_summary st)\<lparr> as_acquiredBytes :=
                         as_acquiredBytes (a_summary st) + ucast (rr_copied r) \<rparr>"
  "a_progress (stored_state r w h hst st) = a_progress st"
  "a_startedAt (stored_state r w h hst st) = a_startedAt st"
  by (simp_all add: stored_state_def)

text \<open>The hasher step of a gap: nothing to do, or zeros absorbed.\<close>

definition gap_hashed :: "'h IHasher \<Rightarrow> u64 \<Rightarrow> u64 \<Rightarrow> 'h \<Rightarrow> 'h \<Rightarrow> bool" where
  "gap_hashed H pos p h h' \<longleftrightarrow>
     pos \<le> p \<and> (if pos = p then h' = h else hs_UpdateZeros H (p - pos) h = (True, h'))"

lemma hashZerosTo_True:
  assumes "hashZerosTo H p st = (True, st')"
  obtains h where "gap_hashed H (a_hashPosition st) p (a_hash st) h"
    and "st' = st\<lparr> a_hash := h, a_hashPosition := p \<rparr>"
proof (cases "a_hashPosition st = p")
  case True
  then have "st' = st\<lparr> a_hash := a_hash st, a_hashPosition := p \<rparr>"
    using assms by (cases st; cases st') (simp add: hashZerosTo_def)
  with True that show ?thesis by (simp add: gap_hashed_def)
next
  case False
  with assms show ?thesis
    using that by (auto simp: hashZerosTo_def gap_hashed_def not_less split: if_splits prod.splits bool.splits)
qed

lemma counters_True:
  "add_hashPosition n st = (True, st') \<longleftrightarrow>
     unat (a_hashPosition st) + unat n < 2 ^ 64 \<and> st' = st\<lparr> a_hashPosition := a_hashPosition st + n \<rparr>"
  "add_offset n st = (True, st') \<longleftrightarrow>
     unat (a_offset st) + unat n < 2 ^ 64 \<and> st' = st\<lparr> a_offset := a_offset st + n \<rparr>"
  "add_processed n st = (True, st') \<longleftrightarrow>
     unat (a_processed st) + unat n < 2 ^ 64 \<and> st' = st\<lparr> a_processed := a_processed st + n \<rparr>"
  "add_transferred n st = (True, st') \<longleftrightarrow>
     unat (a_transferred st) + unat n < 2 ^ 64 \<and> st' = st\<lparr> a_transferred := a_transferred st + n \<rparr>"
  "add_acquired n st = (True, st') \<longleftrightarrow>
     unat (as_acquiredBytes (a_summary st)) + unat n < 2 ^ 64 \<and>
     st' = st\<lparr> a_summary := (a_summary st)\<lparr> as_acquiredBytes :=
                 as_acquiredBytes (a_summary st) + n \<rparr> \<rparr>"
  by (auto simp: add_hashPosition_def add_offset_def add_processed_def add_transferred_def
      add_acquired_def CheckedAdd_Some_iff CheckedAdd_None_iff split: option.splits)

text \<open>The room a stored read needs in each counter.\<close>

definition room :: "u64 \<Rightarrow> u32 \<Rightarrow> bool" where
  "room v n \<longleftrightarrow> unat v + unat n < 2 ^ 64"

lemma room_unat: "room v n \<Longrightarrow> unat (v + ucast n) = unat v + unat n"
  by (simp add: room_def unat_add_u64)

lemma StoreCopied_True:
  assumes "StoreCopied W H cfg r st = (True, st')"
  obtains h1 w h2 hst where
    "gap_hashed H (a_hashPosition st) (rr_physicalAddress r) (a_hash st) h1"
    and "wr_WriteAt W (rr_physicalAddress r) (rr_data r) (a_wr st) = (True, w)"
    and "hs_Update H (rr_data r) h1 = (True, h2)"
    and "room (rr_physicalAddress r) (rr_copied r)" and "room (a_offset st) (rr_copied r)"
    and "room (a_processed st) (rr_copied r)"
    and "room (as_acquiredBytes (a_summary st)) (rr_copied r)"
    and "PaceTransfer (a_transferred st + ucast (rr_copied r)) (cfg_rateLimitMBps cfg)
           (a_startedAt st) (a_host st) = (True, hst)"
    and "st' = stored_state r w h2 hst st"
proof -
  let ?p = "rr_physicalAddress r" and ?n = "ucast (rr_copied r) :: u64"
  obtain s1 s2 s3 s4 s5 s6 s7 s8 where
    1: "hashZerosTo H ?p st = (True, s1)" and
    2: "write_data W ?p (rr_data r) s1 = (True, s2)" and
    3: "hash_data H (rr_data r) s2 = (True, s3)" and
    4: "add_hashPosition ?n s3 = (True, s4)" "add_offset ?n s4 = (True, s5)"
       "add_processed ?n s5 = (True, s6)" "add_acquired ?n s6 = (True, s7)"
       "add_transferred ?n s7 = (True, s8)" and
    5: "pace cfg s8 = (True, st')"
    using assms unfolding StoreCopied_def all_ok_Cons_True by auto
  obtain h1 where h1: "gap_hashed H (a_hashPosition st) ?p (a_hash st) h1"
    and s1: "s1 = st\<lparr> a_hash := h1, a_hashPosition := ?p \<rparr>"
    using 1 by (rule hashZerosTo_True)
  obtain w where w: "wr_WriteAt W ?p (rr_data r) (a_wr st) = (True, w)"
    and s2: "s2 = s1\<lparr> a_wr := w \<rparr>"
    using 2 by (auto simp: write_data_def s1 split: prod.splits)
  obtain h2 where h2: "hs_Update H (rr_data r) h1 = (True, h2)" and s3: "s3 = s2\<lparr> a_hash := h2 \<rparr>"
    using 3 by (auto simp: hash_data_def s2 s1 split: prod.splits)
  note eqs = s1 s2 s3
  have rooms: "room ?p (rr_copied r)" "room (a_offset st) (rr_copied r)"
    "room (a_processed st) (rr_copied r)" "room (as_acquiredBytes (a_summary st)) (rr_copied r)"
    using 4 by (simp_all add: counters_True eqs room_def)
  have s8: "s8 = s3\<lparr> a_hashPosition := ?p + ?n, a_offset := a_offset st + ?n,
      a_processed := a_processed st + ?n, a_transferred := a_transferred st + ?n,
      a_summary := (a_summary st)\<lparr> as_acquiredBytes := as_acquiredBytes (a_summary st) + ?n \<rparr> \<rparr>"
    using 4 by (simp add: counters_True eqs)
  obtain hst where "PaceTransfer (a_transferred st + ?n) (cfg_rateLimitMBps cfg)
        (a_startedAt st) (a_host st) = (True, hst)" and "st' = s8\<lparr> a_host := hst \<rparr>"
    using 5 by (auto simp: pace_def s8 eqs split: prod.splits)
  then show ?thesis
    using that [OF h1 w h2 rooms] by (simp add: stored_state_def s8 eqs)
qed

text \<open>
  A successful turn of the page loop either stores the bytes returned (and leaves the loop when
  the whole page request was satisfied) or records the page request as unreadable.
\<close>

lemma AddUnreadable_True:
  assumes "AddUnreadable s start len status = (True, s')"
  shows "len \<noteq> 0 \<and> unat (as_unreadableBytes s) + unat len < 2 ^ 64 \<and>
    as_unreadableBytes s' = as_unreadableBytes s + len"
  using assms
  by (auto simp: AddUnreadable_def Let_def CheckedAdd_Some_iff split: if_splits option.splits)

lemma AddUnreadable_frame:
  assumes "AddUnreadable s start len status = (ok, s')"
  shows "as_completed s' = as_completed s" "as_topologyChanged s' = as_topologyChanged s"
    "as_logicalSize s' = as_logicalSize s" "as_physicalBytes s' = as_physicalBytes s"
    "as_acquiredBytes s' = as_acquiredBytes s" "as_sha256 s' = as_sha256 s"
    "as_hints s' = as_hints s" "as_ranges s' = as_ranges s"
  using assms
  by (auto simp: AddUnreadable_def Let_def split: if_splits option.splits)

lemma PageStep_cases:
  assumes "PageStep D W H cfg run chunkEnd st = (f, st')" and "f \<noteq> Fail"
  obtains (stored) r d h where
      "h = host_tick (a_host st)" and "\<not> h_cancel (a_host st) (h_step (a_host st))"
      "dev_Read D (mr_driverIndex run) (a_offset st)
         (page_request_bytes (mr_base run + a_offset st) chunkEnd (a_offset st)) (a_dev st) = (True, r, d)"
      "ValidateReadResult r (mr_base run + a_offset st)
         (page_request_bytes (mr_base run + a_offset st) chunkEnd (a_offset st))"
      "rr_copied r \<noteq> 0"
      "StoreCopied W H cfg r (st\<lparr> a_host := h, a_dev := d \<rparr>) = (True, st')"
      "f = (if rr_copied r = page_request_bytes (mr_base run + a_offset st) chunkEnd (a_offset st)
            then Break else Continue)"
  | (unreadable) r d h s n where
      "h = host_tick (a_host st)" and "\<not> h_cancel (a_host st) (h_step (a_host st))"
      "n = page_request_bytes (mr_base run + a_offset st) chunkEnd (a_offset st)"
      "dev_Read D (mr_driverIndex run) (a_offset st) n (a_dev st) = (True, r, d)"
      "ValidateReadResult r (mr_base run + a_offset st) n" "rr_copied r = 0"
      "AddUnreadable (a_summary st) (mr_base run + a_offset st) (ucast n) (rr_copyStatus r) = (True, s)"
      "room (a_offset st) n" "room (a_processed st) n" "n \<noteq> 0" "f = Continue"
      "st' = st\<lparr> a_host := h, a_dev := d, a_summary := s,
                  a_processed := a_processed st + ucast n, a_offset := a_offset st + ucast n \<rparr>"
proof -
  let ?n = "page_request_bytes (mr_base run + a_offset st) chunkEnd (a_offset st)"
  let ?h = "host_tick (a_host st)"
  obtain ok r d where rd: "dev_Read D (mr_driverIndex run) (a_offset st) ?n (a_dev st) = (ok, r, d)"
    by (cases "dev_Read D (mr_driverIndex run) (a_offset st) ?n (a_dev st)") auto
  have run: "\<not> h_cancel (a_host st) (h_step (a_host st))"
    and ok: "ok" and valid: "ValidateReadResult r (mr_base run + a_offset st) ?n"
    using assms rd
    by (auto simp: PageStep_def load_cancelled_def cancel_load_def read_run_def Let_def split: if_splits)
  show ?thesis
  proof (cases "rr_copied r = 0")
    case False
    then have "StoreCopied W H cfg r (st\<lparr> a_host := ?h, a_dev := d \<rparr>) = (True, st')"
      and "f = (if rr_copied r = ?n then Break else Continue)"
      using assms rd run ok valid
      by (auto simp: PageStep_def load_cancelled_def cancel_load_def read_run_def Let_def
          split: if_splits prod.splits bool.splits)
    then show ?thesis
      using stored [OF refl run _ valid False, of d] rd ok by simp
  next
    case True
    obtain s where s: "AddUnreadable (a_summary st) (mr_base run + a_offset st) (ucast ?n)
        (rr_copyStatus r) = (True, s)"
      and t: "all_ok [add_processed (ucast ?n), add_offset (ucast ?n)]
          (st\<lparr> a_host := ?h, a_dev := d, a_summary := s \<rparr>) = (True, st')"
      and f: "f = Continue"
      using assms rd run ok valid True
      by (auto simp: PageStep_def load_cancelled_def cancel_load_def read_run_def Let_def
          split: if_splits prod.splits bool.splits)
    have "?n \<noteq> 0"
    proof
      assume "?n = 0"
      then show False using AddUnreadable_True [OF s] by simp
    qed
    then show ?thesis
      using unreadable [OF refl run refl _ valid True s, of d] rd ok t f
      by (simp add: counters_True room_def)
  qed
qed

lemma PageStep_advances:
  assumes "PageStep D W H cfg run chunkEnd st = (f, st')" and "f \<noteq> Fail"
  shows "unat (a_offset st) < unat (a_offset st')"
  using assms
proof (cases rule: PageStep_cases)
  case (stored r d h)
  then show ?thesis
    by (elim StoreCopied_True) (simp add: room_unat unat_gt_0)
next
  case (unreadable r d h s n)
  then show ?thesis by (simp add: room_unat unat_gt_0)
qed

lemma PageStep_decreases:
  assumes "a_offset st < chunkEnd" and "(Continue, st') = PageStep D W H cfg run chunkEnd st"
  shows "unat chunkEnd - unat (a_offset st') < unat chunkEnd - unat (a_offset st)"
  using assms PageStep_advances [OF assms(2) [symmetric]] by (simp add: word_less_nat_alt)

function PageLoop ::
  "'d IDeviceSession \<Rightarrow> 'w IRawWriter \<Rightarrow> 'h IHasher \<Rightarrow> AcquisitionConfig \<Rightarrow> MemoryRun \<Rightarrow> u64 \<Rightarrow>
   ('d, 'w, 'h) acq fallible" where
  "PageLoop D W H cfg run chunkEnd st =
     (if a_offset st < chunkEnd
      then (case PageStep D W H cfg run chunkEnd st of
              (Fail, st') \<Rightarrow> (False, st')
            | (Break, st') \<Rightarrow> (True, st')
            | (Continue, st') \<Rightarrow> PageLoop D W H cfg run chunkEnd st')
      else (True, st))"
  by pat_completeness auto

termination
  by (relation "measure (\<lambda>(D, W, H, cfg, run, chunkEnd, st). unat chunkEnd - unat (a_offset st))")
    (simp_all add: PageStep_decreases)

declare PageLoop.simps [simp del]

text \<open>The rule for the page loop: an invariant of its turns holds when it returns \<open>True\<close>.\<close>

lemma PageLoop_rule:
  assumes "PageLoop D W H cfg run chunkEnd st = (True, st')" and "I st"
    and "\<And>s f s'. I s \<Longrightarrow> a_offset s < chunkEnd \<Longrightarrow>
           PageStep D W H cfg run chunkEnd s = (f, s') \<Longrightarrow> f \<noteq> Fail \<Longrightarrow> I s'"
  shows "I st'"
  using assms
proof (induction D W H cfg run chunkEnd st rule: PageLoop.induct)
  case (1 D W H cfg run chunkEnd st)
  show ?case
  proof (cases "a_offset st < chunkEnd")
    case False
    then show ?thesis using 1(2,3) by (simp add: PageLoop.simps [of D])
  next
    case True
    obtain f s where fs: "PageStep D W H cfg run chunkEnd st = (f, s)"
      by fastforce
    with 1(2) True have f: "f \<noteq> Fail" by (cases f) (auto simp: PageLoop.simps [of D])
    then have "I s" using 1(4) 1(3) True fs by blast
    then show ?thesis
      using 1(1) [OF True fs [symmetric] _ _ \<open>I s\<close> 1(4)] 1(2) True fs f
      by (cases f) (auto simp: PageLoop.simps [of D W H cfg run chunkEnd st])
  qed
qed

lemma PageLoop_advances:
  assumes "PageLoop D W H cfg run chunkEnd st = (True, st')" and "a_offset st < chunkEnd"
  shows "unat (a_offset st) < unat (a_offset st')"
proof -
  obtain f s where fs: "PageStep D W H cfg run chunkEnd st = (f, s)" by fastforce
  have f: "f \<noteq> Fail"
    using assms fs by (cases f) (auto simp: PageLoop.simps [of D])
  have "s = st' \<or> PageLoop D W H cfg run chunkEnd s = (True, st')"
    using assms fs f by (cases f) (auto simp: PageLoop.simps [of D W H cfg run chunkEnd st])
  moreover have "unat (a_offset s) \<le> unat (a_offset st')"
    if "PageLoop D W H cfg run chunkEnd s = (True, st')"
    by (rule PageLoop_rule [OF that, of "\<lambda>t. unat (a_offset s) \<le> unat (a_offset t)"])
      (auto dest: PageStep_advances)
  ultimately show ?thesis
    using PageStep_advances [OF fs f] by auto
qed

section \<open>Progress reports\<close>

definition progress_percent :: "(rat \<Rightarrow> rat) \<Rightarrow> u64 \<Rightarrow> u64 \<Rightarrow> u64" where
  "progress_percent rnd processed physical =
     word_of_int \<lfloor>rnd (rnd (rnd (of_nat (unat processed)) * 100) / rnd (of_nat (unat physical)))\<rfloor>"

definition progress_speed :: "(rat \<Rightarrow> rat) \<Rightarrow> u64 \<Rightarrow> int \<Rightarrow> rat" where
  "progress_speed rnd transferred elapsedMilliseconds =
     (let elapsedSeconds = (if elapsedMilliseconds > 0
                            then rnd (rnd (of_int elapsedMilliseconds) / 1000) else 0)
      in if elapsedSeconds > 0
         then rnd (rnd (rnd (of_nat (unat transferred)) / rnd (of_nat (unat kMebibyte))) / elapsedSeconds)
         else 0)"

definition progress_eta :: "(rat \<Rightarrow> rat) \<Rightarrow> u64 \<Rightarrow> u64 \<Rightarrow> rat \<Rightarrow> u32" where
  "progress_eta rnd physical processed speedMBps =
     (let remainingBytes = (if physical > processed then physical - processed else 0)
      in ClampEtaSeconds
           (if speedMBps > 0
            then rnd (rnd (rnd (of_nat (unat remainingBytes)) / rnd (of_nat (unat kMebibyte))) / speedMBps)
            else 0))"

definition ReportProgress :: "AcquisitionConfig \<Rightarrow> ('d, 'w, 'h) acq \<Rightarrow> ('d, 'w, 'h) acq" where
  "ReportProgress cfg st =
     (if as_physicalBytes (a_summary st) = 0 then st
      else
        (let rnd = h_round (a_host st);
             physical = as_physicalBytes (a_summary st);
             percent = progress_percent rnd (a_processed st) physical
         in case clock_now (a_host st) of (now, h) \<Rightarrow>
              (let st = st\<lparr> a_host := h \<rparr>;
                   elapsedMilliseconds = (now - a_startedAt st) div 1000000
               in if percent \<noteq> a_lastPercent st \<or>
                     elapsedMilliseconds - a_lastProgressMs st \<ge> 250
                  then (let speedMBps = progress_speed rnd (a_transferred st) elapsedMilliseconds;
                            eta = progress_eta rnd physical (a_processed st) speedMBps;
                            event = \<lparr> pe_percent = percent, pe_processed = a_processed st,
                                      pe_total = physical, pe_speed = speedMBps, pe_eta = eta,
                                      pe_callback = cfg_onProgress cfg,
                                      pe_console = \<not> cfg_quiet cfg \<rparr>
                        in st\<lparr> a_lastPercent := percent,
                               a_lastProgressMs := elapsedMilliseconds,
                               a_progress := a_progress st @
                                 (if cfg_onProgress cfg \<or> \<not> cfg_quiet cfg then [event] else []) \<rparr>)
                  else st)))"

text \<open>Reporting looks at the clock and nothing else moves.\<close>

lemma ReportProgress_frame [simp, frames]:
  "a_dev (ReportProgress cfg st) = a_dev st"
  "a_wr (ReportProgress cfg st) = a_wr st"
  "a_hash (ReportProgress cfg st) = a_hash st"
  "a_summary (ReportProgress cfg st) = a_summary st"
  "a_hashPosition (ReportProgress cfg st) = a_hashPosition st"
  "a_offset (ReportProgress cfg st) = a_offset st"
  "a_processed (ReportProgress cfg st) = a_processed st"
  "a_transferred (ReportProgress cfg st) = a_transferred st"
  "a_startedAt (ReportProgress cfg st) = a_startedAt st"
  by (simp_all add: ReportProgress_def Let_def split: prod.splits)

section \<open>The bulk loop\<close>

definition bulk_request_bytes :: "MemoryRun \<Rightarrow> u64 \<Rightarrow> u32" where
  "bulk_request_bytes run offset = ucast (min (ucast PHYLA_MAX_TRANSFER) (mr_length run - offset))"

text \<open>One turn of \<open>while (offsetWithinRun < run.length)\<close>.\<close>

definition BulkStep ::
  "'d IDeviceSession \<Rightarrow> 'w IRawWriter \<Rightarrow> 'h IHasher \<Rightarrow> AcquisitionConfig \<Rightarrow> MemoryRun \<Rightarrow>
   ('d, 'w, 'h) acq fallible" where
  "BulkStep D W H cfg run st =
     (case load_cancelled st of (cancelled, st) \<Rightarrow>
        if cancelled then (False, st)
        else
          (let requestedBytes = bulk_request_bytes run (a_offset st);
               expectedPhysicalAddress = mr_base run + a_offset st
           in case read_run D (mr_driverIndex run) (a_offset st) requestedBytes
                     expectedPhysicalAddress st of
                (valid, result, st) \<Rightarrow>
                  if \<not> valid then (False, st)
                  else
                    (case (if rr_copied result \<noteq> 0 then StoreCopied W H cfg result st else (True, st)) of
                       (False, st) \<Rightarrow> (False, st)
                     | (True, st) \<Rightarrow>
                         if rr_copied result \<noteq> requestedBytes
                         then
                           (let unreadableWindowBytes = ucast (requestedBytes - rr_copied result)
                            in if a_offset st > u64_max - unreadableWindowBytes then (False, st)
                               else
                                 (let chunkEnd = min (mr_length run) (a_offset st + unreadableWindowBytes)
                                  in case PageLoop D W H cfg run chunkEnd st of
                                       (False, st) \<Rightarrow> (False, st)
                                     | (True, st) \<Rightarrow> (True, ReportProgress cfg st)))
                         else (True, ReportProgress cfg st))))"

lemma BulkStep_cases:
  assumes "BulkStep D W H cfg run st = (True, st')"
  obtains r d h st1 st2 n where
      "h = host_tick (a_host st)" and "\<not> h_cancel (a_host st) (h_step (a_host st))"
    and "n = bulk_request_bytes run (a_offset st)"
    and "dev_Read D (mr_driverIndex run) (a_offset st) n (a_dev st) = (True, r, d)"
    and "ValidateReadResult r (mr_base run + a_offset st) n"
    and "if rr_copied r \<noteq> 0 then StoreCopied W H cfg r (st\<lparr> a_host := h, a_dev := d \<rparr>) = (True, st1)
         else st1 = st\<lparr> a_host := h, a_dev := d \<rparr>"
    and "if rr_copied r \<noteq> n
         then a_offset st1 \<le> u64_max - ucast (n - rr_copied r) \<and>
              PageLoop D W H cfg run (min (mr_length run) (a_offset st1 + ucast (n - rr_copied r))) st1
                = (True, st2)
         else st2 = st1"
    and "st' = ReportProgress cfg st2"
proof -
  let ?n = "bulk_request_bytes run (a_offset st)"
  let ?h = "host_tick (a_host st)"
  obtain ok r d where rd: "dev_Read D (mr_driverIndex run) (a_offset st) ?n (a_dev st) = (ok, r, d)"
    by (cases "dev_Read D (mr_driverIndex run) (a_offset st) ?n (a_dev st)") auto
  let ?s = "st\<lparr> a_host := ?h, a_dev := d \<rparr>"
  have run: "\<not> h_cancel (a_host st) (h_step (a_host st))"
    and ok: "ok" and valid: "ValidateReadResult r (mr_base run + a_offset st) ?n"
    using assms rd
    by (auto simp: BulkStep_def load_cancelled_def cancel_load_def read_run_def Let_def split: if_splits)
  obtain b st1 where sc: "(if rr_copied r \<noteq> 0 then StoreCopied W H cfg r ?s else (True, ?s)) = (b, st1)"
    by fastforce
  have rest: "b \<and> (if rr_copied r \<noteq> ?n
     then \<not> a_offset st1 > u64_max - ucast (?n - rr_copied r) \<and>
          (\<exists>st2. PageLoop D W H cfg run (min (mr_length run) (a_offset st1 + ucast (?n - rr_copied r))) st1
            = (True, st2) \<and> st' = ReportProgress cfg st2)
     else st' = ReportProgress cfg st1)"
    using assms rd run ok valid sc
    by (auto simp: BulkStep_def load_cancelled_def cancel_load_def read_run_def Let_def
        split: if_splits prod.splits bool.splits)
  then obtain st2 where "st' = ReportProgress cfg st2"
    and "if rr_copied r \<noteq> ?n
         then a_offset st1 \<le> u64_max - ucast (?n - rr_copied r) \<and>
              PageLoop D W H cfg run (min (mr_length run) (a_offset st1 + ucast (?n - rr_copied r))) st1
                = (True, st2)
         else st2 = st1"
    by (auto split: if_splits)
  then show ?thesis
    using that [OF refl run refl _ valid, of d st1 st2] rd ok sc rest by (auto split: if_splits)
qed

lemma unat_bulk_request_bytes:
  assumes "off \<le> mr_length run"
  shows "unat (bulk_request_bytes run off) = min 16777216 (unat (mr_length run) - unat off)"
proof -
  have "unat (min (ucast PHYLA_MAX_TRANSFER) (mr_length run - off)) =
      min 16777216 (unat (mr_length run) - unat off)"
    using assms by (simp add: unat_min_u64 unat_diff_u64)
  then show ?thesis
    unfolding bulk_request_bytes_def by (subst unat_ucast_64_32) simp_all
qed

lemma PageLoop_offset_mono:
  "PageLoop D W H cfg run chunkEnd st = (True, st') \<Longrightarrow> unat (a_offset st) \<le> unat (a_offset st')"
  by (erule PageLoop_rule [where I = "\<lambda>s. unat (a_offset st) \<le> unat (a_offset s)"])
    (auto dest: PageStep_advances)

lemma BulkStep_advances:
  assumes "BulkStep D W H cfg run st = (True, st')" and "a_offset st < mr_length run"
  shows "unat (a_offset st) < unat (a_offset st')"
  using assms(1)
proof (cases rule: BulkStep_cases)
  case (1 r d h st1 st2 n)
  show ?thesis
  proof (cases "rr_copied r = 0")
    case False
    with 1(6) have "unat (a_offset st) < unat (a_offset st1)"
      by (auto elim!: StoreCopied_True simp: room_unat unat_gt_0)
    moreover have "unat (a_offset st1) \<le> unat (a_offset st2)"
      using 1(7) by (auto dest: PageLoop_offset_mono split: if_splits)
    ultimately show ?thesis using 1(8) by simp
  next
    case True
    have n: "unat n = min 16777216 (unat (mr_length run) - unat (a_offset st))"
      using assms(2) unat_bulk_request_bytes [of "a_offset st" run] 1(3) by simp
    then have n0: "n \<noteq> 0" using assms(2) by (auto simp: word_less_nat_alt)
    with True 1(6,7) have pl: "PageLoop D W H cfg run (min (mr_length run) (a_offset st1 + ucast n)) st1 = (True, st2)"
      and fits: "a_offset st1 \<le> u64_max - ucast n" and off: "a_offset st1 = a_offset st"
      by auto
    have "unat (a_offset st1 + ucast n) = unat (a_offset st1) + unat n"
      using fits by (simp add: word_le_max_minus_iff unat_add_u64 add.commute)
    then have "a_offset st1 < min (mr_length run) (a_offset st1 + ucast n)"
      using assms(2) off n0 by (simp add: word_less_nat_alt unat_min_u64 unat_gt_0)
    then show ?thesis
      using PageLoop_advances [OF pl] off 1(8) by simp
  qed
qed

text \<open>The loop over one run.\<close>

lemma BulkStep_decreases:
  assumes "a_offset st < mr_length run" and "(True, st') = BulkStep D W H cfg run st"
  shows "unat (mr_length run) - unat (a_offset st') < unat (mr_length run) - unat (a_offset st)"
  using BulkStep_advances [OF assms(2) [symmetric] assms(1)] assms(1) by (simp add: word_less_nat_alt)

function AcquireRun ::
  "'d IDeviceSession \<Rightarrow> 'w IRawWriter \<Rightarrow> 'h IHasher \<Rightarrow> AcquisitionConfig \<Rightarrow> MemoryRun \<Rightarrow>
   ('d, 'w, 'h) acq fallible" where
  "AcquireRun D W H cfg run st =
     (if a_offset st < mr_length run
      then (case BulkStep D W H cfg run st of
              (False, st') \<Rightarrow> (False, st')
            | (True, st') \<Rightarrow> AcquireRun D W H cfg run st')
      else (True, st))"
  by pat_completeness auto

termination
  by (relation "measure (\<lambda>(D, W, H, cfg, run, st). unat (mr_length run) - unat (a_offset st))")
    (simp_all add: BulkStep_decreases)

declare AcquireRun.simps [simp del]

lemma AcquireRun_rule:
  assumes "AcquireRun D W H cfg run st = (True, st')" and "I st"
    and "\<And>s s'. I s \<Longrightarrow> a_offset s < mr_length run \<Longrightarrow> BulkStep D W H cfg run s = (True, s') \<Longrightarrow> I s'"
  shows "I st' \<and> mr_length run \<le> a_offset st'"
  using assms
proof (induction D W H cfg run st rule: AcquireRun.induct)
  case (1 D W H cfg run st)
  show ?case
  proof (cases "a_offset st < mr_length run")
    case False
    then have "AcquireRun D W H cfg run st = (True, st)"
      by (simp add: AcquireRun.simps [of D W H cfg run st])
    then show ?thesis using 1(2,3) False by (simp add: not_less)
  next
    case True
    obtain s where bs: "BulkStep D W H cfg run st = (True, s)"
      and rest: "AcquireRun D W H cfg run s = (True, st')"
      using 1(2) True
      by (auto simp: AcquireRun.simps [of D W H cfg run st] split: prod.splits bool.splits)
    then have "I s" using 1(4) 1(3) True by blast
    then show ?thesis
      using 1(1) [OF True bs [symmetric] refl rest \<open>I s\<close>] 1(4) by blast
  qed
qed

text \<open>\<open>for (const MemoryRun& run : runs)\<close> with the check in front of each run.\<close>

fun AcquireRuns ::
  "'d IDeviceSession \<Rightarrow> 'w IRawWriter \<Rightarrow> 'h IHasher \<Rightarrow> AcquisitionConfig \<Rightarrow> MemoryRun list \<Rightarrow>
   ('d, 'w, 'h) acq fallible" where
  "AcquireRuns D W H cfg [] st = (True, st)"
| "AcquireRuns D W H cfg (run # runs) st =
     (if mr_length run = 0 \<or> mr_base run > u64_max - mr_length run then (False, st)
      else (case AcquireRun D W H cfg run (st\<lparr> a_offset := 0 \<rparr>) of
              (False, st) \<Rightarrow> (False, st)
            | (True, st) \<Rightarrow> AcquireRuns D W H cfg runs st))"

section \<open>\<open>Acquire\<close>\<close>

record ('d, 'w, 'h) acq_result =
  ar_dev :: 'd
  ar_wr :: 'w
  ar_hash :: 'h
  ar_host :: host
  ar_summary :: AcquisitionSummary
  ar_progress :: "progress_event list"

definition acq_out :: "('d, 'w, 'h) acq \<Rightarrow> ('d, 'w, 'h) acq_result" where
  "acq_out st = \<lparr> ar_dev = a_dev st, ar_wr = a_wr st, ar_hash = a_hash st, ar_host = a_host st,
     ar_summary = a_summary st, ar_progress = a_progress st \<rparr>"

text \<open>The locals as they stand before the first run.\<close>

definition acq_start ::
  "AcquisitionSummary \<Rightarrow> 'd \<Rightarrow> 'w \<Rightarrow> 'h \<Rightarrow> host \<Rightarrow> ('d, 'w, 'h) acq" where
  "acq_start summary d w h host =
     \<lparr> a_dev = d, a_wr = w, a_hash = h, a_host = host, a_summary = summary, a_hashPosition = 0,
       a_offset = 0, a_processed = 0, a_transferred = 0, a_lastPercent = u64_max,
       a_lastProgressMs = - 1, a_startedAt = 0, a_progress = [] \<rparr>"

text \<open>After the last run: the trailing zeros, the end of the session, the terminal flags.\<close>

definition FinishAcquire ::
  "'d IDeviceSession \<Rightarrow> 'h IHasher \<Rightarrow> ('d, 'w, 'h) acq fallible" where
  "FinishAcquire D H st =
     (case hashZerosTo H (as_logicalSize (a_summary st)) st of
        (False, st) \<Rightarrow> (False, st)
      | (True, st) \<Rightarrow>
          (case dev_End D (a_dev st) of
             (ok, topologyChanged, d) \<Rightarrow>
               (let st = st\<lparr> a_dev := d \<rparr> in
                if \<not> ok then (False, st)
                else (True, st\<lparr> a_summary := (a_summary st)\<lparr>
                        as_topologyChanged := topologyChanged, as_completed := True \<rparr> \<rparr>))))"

definition Acquire ::
  "'d IDeviceSession \<Rightarrow> 'w IRawWriter \<Rightarrow> 'h IHasher \<Rightarrow> AcquisitionConfig \<Rightarrow> 'd \<Rightarrow> 'w \<Rightarrow> 'h \<Rightarrow> host \<Rightarrow>
   bool \<times> ('d, 'w, 'h) acq_result" where
  "Acquire D W H cfg d w h host =
     (let summary = AcquisitionSummary_default in
      case dev_Query D d of
        (ok, (highestPhysicalEnd, totalPhysicalBytes, runs), d) \<Rightarrow>
          if \<not> ok \<or> highestPhysicalEnd = 0 \<or> totalPhysicalBytes = 0 \<or> runs = []
          then (False, acq_out (acq_start summary d w h host))
          else
            (case dev_QueryHints D d of
               (hintsOk, hints, d) \<Rightarrow>
                 (let summary = (if hintsOk then summary\<lparr> as_hints := hints \<rparr> else summary);
                      summary = summary\<lparr> as_logicalSize := highestPhysicalEnd,
                                         as_physicalBytes := totalPhysicalBytes,
                                         as_ranges := runs \<rparr>
                  in case clock_now host of
                       (startedAt, host) \<Rightarrow>
                         (case AcquireRuns D W H cfg runs
                                 ((acq_start summary d w h host)\<lparr> a_startedAt := startedAt \<rparr>) of
                            (False, st) \<Rightarrow> (False, acq_out st)
                          | (True, st) \<Rightarrow>
                              (case FinishAcquire D H st of (ok, st) \<Rightarrow> (ok, acq_out st))))))"

end
