(* ===== verification/AcquireAccounting.thy ===== *)
theory AcquireAccounting
  imports Acquire
begin

text \<open>
  Byte accounting of the acquisition engine: request sizes, the balance of acquired and
  unreadable bytes against the run lengths, and the geometry of the unreadable spans. None of
  these facts assumes anything of the device, the writer or the hasher.
\<close>

section \<open>Request sizes\<close>

lemma unat_and_page_mask: "unat ((p :: u64) AND 4095) = unat p mod 4096"
proof -
  have "p AND 4095 = take_bit 12 p"
    by (simp add: take_bit_eq_mask mask_eq_exp_minus_1)
  then have "p AND 4095 = p mod 4096"
    by (simp add: take_bit_eq_mod)
  then show ?thesis
    by (simp add: unat_mod)
qed

lemma unat_page_request_bytes:
  assumes "off < chunkEnd"
  shows "unat (page_request_bytes p chunkEnd off) =
    min (4096 - unat p mod 4096) (unat chunkEnd - unat off)"
proof -
  have "ucast PHYLA_PAGE_SIZE - (p AND (ucast PHYLA_PAGE_SIZE - 1)) = 4096 - (p AND 4095)"
    by (simp add: PHYLA_PAGE_SIZE_def)
  moreover have "unat (4096 - (p AND 4095)) = 4096 - unat p mod 4096"
    by (subst unat_diff_u64) (simp_all add: word_le_nat_alt unat_and_page_mask)
  ultimately have m: "unat (min (ucast PHYLA_PAGE_SIZE - (p AND (ucast PHYLA_PAGE_SIZE - 1))) (chunkEnd - off)) =
      min (4096 - unat p mod 4096) (unat chunkEnd - unat off)"
    using assms by (simp add: unat_min_u64 unat_diff_u64)
  have "min (4096 - unat p mod 4096) (unat chunkEnd - unat off) < 2 ^ 32"
    by (auto simp: min_def)
  then show ?thesis
    unfolding page_request_bytes_def Let_def by (subst unat_ucast_64_32) (simp_all only: m)
qed

section \<open>The balance\<close>

definition acct :: "nat \<Rightarrow> ('d, 'w, 'h) acq \<Rightarrow> bool" where
  "acct finished st \<longleftrightarrow>
     unat (a_processed st) = finished + unat (a_offset st) \<and>
     unat (as_acquiredBytes (a_summary st)) + unat (as_unreadableBytes (a_summary st)) =
       unat (a_processed st) \<and>
     spans_total (as_unreadable (a_summary st)) = unat (as_unreadableBytes (a_summary st))"

lemma AddUnreadable_total:
  assumes "AddUnreadable s start len status = (True, s')"
    and "spans_total (as_unreadable s) = unat (as_unreadableBytes s)"
  shows "spans_total (as_unreadable s') = unat (as_unreadableBytes s')"
proof -
  have len: "unat (as_unreadableBytes s') = unat (as_unreadableBytes s) + unat len"
    using AddUnreadable_True [OF assms(1)] by (simp add: unat_add_u64)
  show ?thesis
  proof (cases "as_unreadable s = []")
    case True
    with assms len show ?thesis
      by (auto simp: AddUnreadable_def Let_def CheckedAdd_Some_iff split: if_splits option.splits)
  next
    case False
    have "spans_total (butlast (as_unreadable s) @ [last (as_unreadable s)]) =
        spans_total (as_unreadable s)"
      using False by simp
    then have "spans_total (butlast (as_unreadable s)) + unat (us_length (last (as_unreadable s))) =
        unat (as_unreadableBytes s)"
      using assms(2) by simp
    then show ?thesis
      using assms len False
      by (auto simp: AddUnreadable_def Let_def CheckedAdd_Some_iff word_le_max_minus_iff unat_add_u64
          add.commute split: if_splits option.splits)
  qed
qed

lemma StoreCopied_acct:
  assumes "StoreCopied W H cfg r st = (True, st')" and "acct n st"
  shows "acct n st'" and "unat (a_offset st') = unat (a_offset st) + unat (rr_copied r)"
  using assms by (auto elim!: StoreCopied_True simp: acct_def room_unat)

lemma acct_host_dev [simp]:
  "acct n (st\<lparr> a_host := h, a_dev := d \<rparr>) = acct n st"
  "acct n (ReportProgress cfg st) = acct n st"
  by (simp_all add: acct_def)

lemma PageStep_acct:
  assumes "PageStep D W H cfg run chunkEnd st = (f, st')" and "f \<noteq> Fail"
    and "acct n st" and "a_offset st < chunkEnd"
  shows "acct n st' \<and> a_offset st' \<le> chunkEnd"
  using assms(1,2)
proof (cases rule: PageStep_cases)
  case (stored r d h)
  then have "unat (rr_copied r) \<le> unat chunkEnd - unat (a_offset st)"
    using unat_page_request_bytes [OF assms(4), of "mr_base run + a_offset st"]
    by (simp add: ValidateReadResult_def word_le_nat_alt)
  then show ?thesis
    using StoreCopied_acct [OF stored(6)] assms(3,4) by (simp add: word_le_nat_alt word_less_nat_alt)
next
  case (unreadable r d h s m)
  have "unat m \<le> unat chunkEnd - unat (a_offset st)"
    using unat_page_request_bytes [OF assms(4), of "mr_base run + a_offset st"] unreadable(3) by simp
  moreover have "spans_total (as_unreadable s) = unat (as_unreadableBytes s)"
    using AddUnreadable_total [OF unreadable(7)] assms(3) by (simp add: acct_def)
  moreover have "unat (as_unreadableBytes s) = unat (as_unreadableBytes (a_summary st)) + unat m"
    and "as_acquiredBytes s = as_acquiredBytes (a_summary st)"
    using AddUnreadable_True [OF unreadable(7)] AddUnreadable_frame [OF unreadable(7)]
    by (simp_all add: unat_add_u64)
  ultimately show ?thesis
    using assms(3,4) unreadable(8,9,12)
    by (simp add: acct_def room_unat word_le_nat_alt word_less_nat_alt)
qed

lemma BulkStep_acct:
  assumes "BulkStep D W H cfg run st = (True, st')" and "acct n st"
    and "a_offset st < mr_length run"
  shows "acct n st' \<and> a_offset st' \<le> mr_length run"
  using assms(1)
proof (cases rule: BulkStep_cases)
  case (1 r d h st1 st2 m)
  have m: "unat m = min 16777216 (unat (mr_length run) - unat (a_offset st))"
    using unat_bulk_request_bytes [of "a_offset st" run] assms(3) 1(3) by simp
  have c: "unat (rr_copied r) \<le> unat m"
    using 1(5) by (simp add: ValidateReadResult_def word_le_nat_alt)
  have st1: "acct n st1 \<and> unat (a_offset st1) = unat (a_offset st) + unat (rr_copied r)"
    using 1(6) assms(2) StoreCopied_acct [of W H cfg r "st\<lparr>a_host := h, a_dev := d\<rparr>" st1 n]
    by (auto split: if_splits)
  then have le1: "a_offset st1 \<le> mr_length run"
    using m c assms(3) by (simp add: word_le_nat_alt word_less_nat_alt) linarith
  have "acct n st2 \<and> a_offset st2 \<le> mr_length run"
  proof (cases "rr_copied r = m")
    case True
    then show ?thesis using 1(7) st1 le1 by simp
  next
    case False
    let ?stop = "min (mr_length run) (a_offset st1 + ucast (m - rr_copied r))"
    have pl: "PageLoop D W H cfg run ?stop st1 = (True, st2)" using 1(7) False by simp
    have "acct n st2 \<and> (a_offset st2 = a_offset st1 \<or> a_offset st2 \<le> ?stop)"
      by (rule PageLoop_rule [OF pl, of "\<lambda>s. acct n s \<and> (a_offset s = a_offset st1 \<or> a_offset s \<le> ?stop)"])
        (use st1 PageStep_acct in blast)+
    then show ?thesis using le1 by auto
  qed
  then show ?thesis using 1(8) by simp
qed

lemma AcquireRun_acct:
  assumes "AcquireRun D W H cfg run st = (True, st')" and "acct n st" and "a_offset st = 0"
  shows "acct n st' \<and> a_offset st' = mr_length run"
proof -
  have "(acct n st' \<and> a_offset st' \<le> mr_length run) \<and> mr_length run \<le> a_offset st'"
    by (rule AcquireRun_rule [OF assms(1)]) (auto simp: assms dest: BulkStep_acct)
  then show ?thesis by auto
qed

lemma AcquireRuns_acct:
  assumes "AcquireRuns D W H cfg runs st = (True, st')" and "acct n (st\<lparr> a_offset := 0 \<rparr>)"
  shows "acct (n + runs_total runs) (st'\<lparr> a_offset := 0 \<rparr>)"
  using assms
proof (induction runs arbitrary: st n)
  case Nil
  then show ?case by simp
next
  case (Cons run runs)
  then obtain s where s: "AcquireRun D W H cfg run (st\<lparr> a_offset := 0 \<rparr>) = (True, s)"
    and rest: "AcquireRuns D W H cfg runs s = (True, st')"
    by (auto split: if_splits prod.splits bool.splits)
  have "acct (n + unat (mr_length run)) (s\<lparr> a_offset := 0 \<rparr>)"
    using AcquireRun_acct [OF s] Cons.prems(2) by (auto simp: acct_def)
  from Cons.IH [OF rest this] show ?case by (simp add: add.assoc)
qed

lemma AcquireRuns_run_ok:
  "AcquireRuns D W H cfg runs st = (True, st') \<Longrightarrow> run \<in> set runs \<Longrightarrow> run_ok run"
  by (induction runs arbitrary: st)
    (auto simp: run_ok_def word_gt_max_minus_iff word_unat_eq_iff split: if_splits prod.splits bool.splits)

section \<open>A successful acquisition, taken apart\<close>

lemma hashZerosTo_frame:
  "hashZerosTo H p st = (ok, st') \<Longrightarrow> a_summary st' = a_summary st \<and> a_dev st' = a_dev st \<and> a_wr st' = a_wr st"
  by (auto simp: hashZerosTo_def split: if_splits prod.splits bool.splits)

lemma Acquire_cases:
  assumes "Acquire D W H cfg d w h host = (True, r)"
  obtains d1 hi tot runs d2 ok hints st1 st2 h' d3 changed startedAt host1 summary where
      "dev_Query D d = (True, (hi, tot, runs), d1)" and "hi \<noteq> 0" and "tot \<noteq> 0" and "runs \<noteq> []"
    and "dev_QueryHints D d1 = (ok, hints, d2)"
    and "summary = AcquisitionSummary_default\<lparr>
           as_hints := (if ok then hints else KernelHints_default),
           as_logicalSize := hi, as_physicalBytes := tot, as_ranges := runs \<rparr>"
    and "clock_now host = (startedAt, host1)"
    and "AcquireRuns D W H cfg runs
           ((acq_start summary d2 w h host1)\<lparr> a_startedAt := startedAt \<rparr>) = (True, st1)"
    and "hashZerosTo H (as_logicalSize (a_summary st1)) st1 = (True, st2)"
    and "dev_End D (a_dev st2) = (True, changed, d3)"
    and "r = acq_out (st2\<lparr> a_dev := d3, a_summary := (a_summary st2)\<lparr>
               as_topologyChanged := changed, as_completed := True \<rparr> \<rparr>)"
proof -
  obtain b hi tot runs d1 where q: "dev_Query D d = (b, (hi, tot, runs), d1)"
    by (metis prod.collapse)
  obtain ok hints d2 where hq: "dev_QueryHints D d1 = (ok, hints, d2)" by (metis prod.collapse)
  obtain t host1 where c: "clock_now host = (t, host1)" by fastforce
  let ?summary = "AcquisitionSummary_default\<lparr>
           as_hints := (if ok then hints else KernelHints_default),
           as_logicalSize := hi, as_physicalBytes := tot, as_ranges := runs \<rparr>"
  have sum: "(if ok then AcquisitionSummary_default\<lparr> as_hints := hints \<rparr> else AcquisitionSummary_default)
      \<lparr> as_logicalSize := hi, as_physicalBytes := tot, as_ranges := runs \<rparr> = ?summary"
    by (simp add: AcquisitionSummary_default_def)
  let ?st0 = "(acq_start ?summary d2 w h host1)\<lparr> a_startedAt := t \<rparr>"
  obtain b1 st1 where ar: "AcquireRuns D W H cfg runs ?st0 = (b1, st1)" by fastforce
  have guards: "b \<and> hi \<noteq> 0 \<and> tot \<noteq> 0 \<and> runs \<noteq> []"
    using assms q by (auto simp: Acquire_def Let_def split: if_splits)
  then have fin: "b1 \<and> (\<exists>st. FinishAcquire D H st1 = (True, st) \<and> r = acq_out st)"
    using assms q hq c ar unfolding Acquire_def Let_def sum
    by (auto simp: sum split: if_splits prod.splits bool.splits)
  then obtain st where f: "FinishAcquire D H st1 = (True, st)" and r: "r = acq_out st" by blast
  obtain st2 changed d3 where
    "hashZerosTo H (as_logicalSize (a_summary st1)) st1 = (True, st2)"
    "dev_End D (a_dev st2) = (True, changed, d3)"
    "st = st2\<lparr> a_dev := d3, a_summary := (a_summary st2)\<lparr>
               as_topologyChanged := changed, as_completed := True \<rparr> \<rparr>"
    using f by (auto simp: FinishAcquire_def Let_def split: prod.splits bool.splits if_splits)
  then show ?thesis
    using that [of hi tot runs d1 ok hints d2 ?summary t host1 st1 st2 changed d3] q hq c ar fin guards r
    by simp
qed

section \<open>Invariants of a run, leaf by leaf\<close>

text \<open>
  An invariant of one run need only be checked for the leaves of the engine: a validated read
  within the run, a stored read, an unreadable request, a progress report.
\<close>

definition request_ok :: "MemoryRun \<Rightarrow> u64 \<Rightarrow> u32 \<Rightarrow> bool" where
  "request_ok run off n \<longleftrightarrow>
     n \<noteq> 0 \<and> n \<le> PHYLA_MAX_TRANSFER \<and> unat off + unat n \<le> unat (mr_length run)"

definition unreadable_state ::
  "AcquisitionSummary \<Rightarrow> u32 \<Rightarrow> ('d, 'w, 'h) acq \<Rightarrow> ('d, 'w, 'h) acq" where
  "unreadable_state s n st = st\<lparr> a_summary := s, a_processed := a_processed st + ucast n,
     a_offset := a_offset st + ucast n \<rparr>"

definition run_invariant ::
  "'d IDeviceSession \<Rightarrow> 'w IRawWriter \<Rightarrow> 'h IHasher \<Rightarrow> AcquisitionConfig \<Rightarrow> MemoryRun \<Rightarrow>
   (('d, 'w, 'h) acq \<Rightarrow> bool) \<Rightarrow> bool" where
  "run_invariant D W H cfg run I \<longleftrightarrow>
     (\<forall>s n r d. I s \<longrightarrow> request_ok run (a_offset s) n \<longrightarrow>
        dev_Read D (mr_driverIndex run) (a_offset s) n (a_dev s) = (True, r, d) \<longrightarrow>
        I (s\<lparr> a_host := host_tick (a_host s), a_dev := d \<rparr>)) \<and>
     (\<forall>s n r d s'. I s \<longrightarrow> request_ok run (a_offset s) n \<longrightarrow>
        dev_Read D (mr_driverIndex run) (a_offset s) n (a_dev s) = (True, r, d) \<longrightarrow>
        ValidateReadResult r (mr_base run + a_offset s) n \<longrightarrow> rr_copied r \<noteq> 0 \<longrightarrow>
        StoreCopied W H cfg r (s\<lparr> a_host := host_tick (a_host s), a_dev := d \<rparr>) = (True, s') \<longrightarrow> I s') \<and>
     (\<forall>s n st x. I s \<longrightarrow> request_ok run (a_offset s) n \<longrightarrow>
        AddUnreadable (a_summary s) (mr_base run + a_offset s) (ucast n) x = (True, st) \<longrightarrow>
        room (a_offset s) n \<longrightarrow> room (a_processed s) n \<longrightarrow> I (unreadable_state st n s)) \<and>
     (\<forall>s. I s \<longrightarrow> I (ReportProgress cfg s))"

lemma run_invariantI:
  assumes "\<And>s n r d. I s \<Longrightarrow> request_ok run (a_offset s) n \<Longrightarrow>
        dev_Read D (mr_driverIndex run) (a_offset s) n (a_dev s) = (True, r, d) \<Longrightarrow>
        I (s\<lparr> a_host := host_tick (a_host s), a_dev := d \<rparr>)"
    and "\<And>s n r d s'. I s \<Longrightarrow> request_ok run (a_offset s) n \<Longrightarrow>
        dev_Read D (mr_driverIndex run) (a_offset s) n (a_dev s) = (True, r, d) \<Longrightarrow>
        ValidateReadResult r (mr_base run + a_offset s) n \<Longrightarrow> rr_copied r \<noteq> 0 \<Longrightarrow>
        StoreCopied W H cfg r (s\<lparr> a_host := host_tick (a_host s), a_dev := d \<rparr>) = (True, s') \<Longrightarrow> I s'"
    and "\<And>s n st x. I s \<Longrightarrow> request_ok run (a_offset s) n \<Longrightarrow>
        AddUnreadable (a_summary s) (mr_base run + a_offset s) (ucast n) x = (True, st) \<Longrightarrow>
        room (a_offset s) n \<Longrightarrow> room (a_processed s) n \<Longrightarrow> I (unreadable_state st n s)"
    and "\<And>s. I s \<Longrightarrow> I (ReportProgress cfg s)"
  shows "run_invariant D W H cfg run I"
  using assms unfolding run_invariant_def by blast

lemmas run_invariant_read = run_invariant_def [THEN iffD1, THEN conjunct1, rule_format]
lemmas run_invariant_store = run_invariant_def [THEN iffD1, THEN conjunct2, THEN conjunct1, rule_format]
lemmas run_invariant_unreadable =
  run_invariant_def [THEN iffD1, THEN conjunct2, THEN conjunct2, THEN conjunct1, rule_format]
lemmas run_invariant_report =
  run_invariant_def [THEN iffD1, THEN conjunct2, THEN conjunct2, THEN conjunct2, rule_format]

lemma PageStep_invariant:
  assumes "PageStep D W H cfg run chunkEnd st = (f, st')" and "f \<noteq> Fail"
    and "run_invariant D W H cfg run I" and "I st"
    and "a_offset st < chunkEnd" and "chunkEnd \<le> mr_length run"
  shows "I st'"
proof -
  have n: "unat (page_request_bytes (mr_base run + a_offset st) chunkEnd (a_offset st)) =
    min (4096 - unat (mr_base run + a_offset st) mod 4096) (unat chunkEnd - unat (a_offset st))"
    by (rule unat_page_request_bytes [OF assms(5)])
  have "request_ok run (a_offset st) (page_request_bytes (mr_base run + a_offset st) chunkEnd (a_offset st))"
    using assms(5,6) n
    by (auto simp: request_ok_def word_le_nat_alt word_less_nat_alt word_unat_eq_iff)
  note req = this
  show ?thesis
    using assms(1,2)
  proof (cases rule: PageStep_cases)
    case (stored r d h)
    then show ?thesis
      using run_invariant_store [OF assms(3,4) req stored(3,4,5)] by simp
  next
    case (unreadable r d h s m)
    have "I (st\<lparr> a_host := h, a_dev := d \<rparr>)"
      using run_invariant_read [OF assms(3,4)] req unreadable(1,3,4) by simp
    from run_invariant_unreadable [OF assms(3) this, of m "rr_copyStatus r" s]
    show ?thesis
      using req unreadable by (simp add: unreadable_state_def)
  qed
qed

lemma BulkStep_invariant:
  assumes "BulkStep D W H cfg run st = (True, st')"
    and "run_invariant D W H cfg run I" and "I st" and "a_offset st < mr_length run"
  shows "I st'"
  using assms(1)
proof (cases rule: BulkStep_cases)
  case (1 r d h st1 st2 n)
  have n: "unat n = min 16777216 (unat (mr_length run) - unat (a_offset st))"
    using unat_bulk_request_bytes [of "a_offset st" run] assms(4) 1(3) by simp
  have req: "request_ok run (a_offset st) n"
    using n assms(4) by (auto simp: request_ok_def word_le_nat_alt word_less_nat_alt word_unat_eq_iff)
  have st1: "I st1"
    using run_invariant_store [OF assms(2,3) req 1(4,5)] run_invariant_read [OF assms(2,3) req 1(4)] 1(1,6)
    by (auto split: if_splits)
  have "I st2"
  proof (cases "rr_copied r = n")
    case True
    then show ?thesis using 1(7) st1 by simp
  next
    case False
    then have pl: "PageLoop D W H cfg run (min (mr_length run) (a_offset st1 + ucast (n - rr_copied r))) st1
        = (True, st2)"
      using 1(7) by simp
    show ?thesis
      by (rule PageLoop_rule [OF pl]) (use st1 PageStep_invariant [OF _ _ assms(2)] in auto)
  qed
  then show ?thesis
    using run_invariant_report [OF assms(2)] 1(8) by simp
qed

lemma AcquireRun_invariant:
  assumes "AcquireRun D W H cfg run st = (True, st')"
    and "run_invariant D W H cfg run I" and "I st"
  shows "I st'"
  using AcquireRun_rule [OF assms(1), of I] assms(2,3) BulkStep_invariant by blast

text \<open>An invariant indexed by the runs that are done carries over the whole loop.\<close>

lemma AcquireRuns_invariant:
  assumes "AcquireRuns D W H cfg runs st = (True, st')"
    and "J 0 st"
    and "\<And>k s. k < length runs \<Longrightarrow> J k s \<Longrightarrow> run_ok (runs ! k) \<Longrightarrow> I k (s\<lparr> a_offset := 0 \<rparr>)"
    and "\<And>k. k < length runs \<Longrightarrow> run_ok (runs ! k) \<Longrightarrow> run_invariant D W H cfg (runs ! k) (I k)"
    and "\<And>k s. k < length runs \<Longrightarrow> run_ok (runs ! k) \<Longrightarrow> I k s \<Longrightarrow>
           a_offset s = mr_length (runs ! k) \<Longrightarrow> J (Suc k) s"
    and "\<And>k s. I k s \<Longrightarrow> k < length runs \<Longrightarrow> a_offset s \<le> mr_length (runs ! k)"
  shows "J (length runs) st'"
  using assms
proof (induction runs arbitrary: st I J)
  case Nil
  then show ?case by simp
next
  case (Cons run runs)
  then obtain s where ok: "run_ok run"
    and s: "AcquireRun D W H cfg run (st\<lparr> a_offset := 0 \<rparr>) = (True, s)"
    and rest: "AcquireRuns D W H cfg runs s = (True, st')"
    by (auto simp: run_ok_def word_gt_max_minus_iff word_unat_eq_iff
        split: if_splits prod.splits bool.splits)
  have i0: "I 0 (st\<lparr> a_offset := 0 \<rparr>)"
    using Cons.prems(3) [of 0 st] Cons.prems(2) ok by simp
  have inv: "run_invariant D W H cfg run (I 0)"
    using Cons.prems(4) [of 0] ok by simp
  have "I 0 s" by (rule AcquireRun_invariant [OF s inv i0])
  moreover have "a_offset s = mr_length run"
    using AcquireRun_rule [OF s, of "I 0"] i0 BulkStep_invariant [OF _ inv] Cons.prems(6) [of 0 s]
    by (metis calculation length_greater_0_conv list.discI nth_Cons_0 order_antisym)
  ultimately have "J (Suc 0) s"
    using Cons.prems(5) [of 0 s] ok by simp
  then show ?case
    using Cons.IH [OF rest, of "\<lambda>k. J (Suc k)" "\<lambda>k. I (Suc k)"]
      Cons.prems(3) [of "Suc _"] Cons.prems(4) [of "Suc _"] Cons.prems(5) [of "Suc _"]
      Cons.prems(6) [of "Suc _"]
    by simp
qed

end
