(* ===== verification/AcquireSafety.thy ===== *)
theory AcquireSafety
  imports AcquireAccounting
begin

text \<open>
  What holds of an acquisition on every path, the failing ones included: which requests reach the
  device, what a raised cancellation flag stops, when the summary is marked complete, and the
  pacing of transfers.
\<close>

section \<open>Invariants of every path\<close>

text \<open>
  A property of the engine's state that each primitive step keeps, whatever it returns. Device
  reads need it only for requests inside the run.
\<close>

definition path_invariant ::
  "'d IDeviceSession \<Rightarrow> 'w IRawWriter \<Rightarrow> 'h IHasher \<Rightarrow> AcquisitionConfig \<Rightarrow> MemoryRun \<Rightarrow>
   (('d, 'w, 'h) acq \<Rightarrow> bool) \<Rightarrow> bool" where
  "path_invariant D W H cfg run I \<longleftrightarrow>
     (\<forall>s. I s \<longrightarrow> I (snd (load_cancelled s))) \<and>
     (\<forall>s n e. I s \<longrightarrow> request_ok run (a_offset s) n \<longrightarrow>
        I (snd (snd (read_run D (mr_driverIndex run) (a_offset s) n e s)))) \<and>
     (\<forall>s r. I s \<longrightarrow> I (snd (StoreCopied W H cfg r s))) \<and>
     (\<forall>s p n x. I s \<longrightarrow> I (s\<lparr> a_summary := snd (AddUnreadable (a_summary s) p n x) \<rparr>)) \<and>
     (\<forall>s n. I s \<longrightarrow> I (snd (add_processed n s)) \<and> I (snd (add_offset n s))) \<and>
     (\<forall>s. I s \<longrightarrow> I (ReportProgress cfg s))"

lemma path_invariantI:
  assumes "\<And>s. I s \<Longrightarrow> I (snd (load_cancelled s))"
    and "\<And>s n e. I s \<Longrightarrow> request_ok run (a_offset s) n \<Longrightarrow>
        I (snd (snd (read_run D (mr_driverIndex run) (a_offset s) n e s)))"
    and "\<And>s r. I s \<Longrightarrow> I (snd (StoreCopied W H cfg r s))"
    and "\<And>s p n x. I s \<Longrightarrow> I (s\<lparr> a_summary := snd (AddUnreadable (a_summary s) p n x) \<rparr>)"
    and "\<And>s n. I s \<Longrightarrow> I (snd (add_processed n s))"
    and "\<And>s n. I s \<Longrightarrow> I (snd (add_offset n s))"
    and "\<And>s. I s \<Longrightarrow> I (ReportProgress cfg s)"
  shows "path_invariant D W H cfg run I"
  unfolding path_invariant_def
  by (intro conjI allI impI) (erule assms, assumption?)+

lemma path_invariantD:
  assumes "path_invariant D W H cfg run I" and "I s"
  shows "load_cancelled s = (c, s') \<Longrightarrow> I s'"
    and "request_ok run (a_offset s) n \<Longrightarrow>
      read_run D (mr_driverIndex run) (a_offset s) n e s = (b, r, s') \<Longrightarrow> I s'"
    and "StoreCopied W H cfg r s = (b, s') \<Longrightarrow> I s'"
    and "AddUnreadable (a_summary s) p m x = (b, sm) \<Longrightarrow> I (s\<lparr> a_summary := sm \<rparr>)"
    and "add_processed m s = (b, s') \<Longrightarrow> I s'"
    and "add_offset m s = (b, s') \<Longrightarrow> I s'"
    and "I (ReportProgress cfg s)"
  using assms unfolding path_invariant_def by (metis snd_conv)+

lemma load_cancelled_offset [simp]: "load_cancelled s = (c, s') \<Longrightarrow> a_offset s' = a_offset s"
  by (auto simp: load_cancelled_def split: prod.splits)

lemma page_request_ok:
  assumes "off < chunkEnd" and "chunkEnd \<le> mr_length run"
  shows "request_ok run off (page_request_bytes p chunkEnd off)"
  using assms unat_page_request_bytes [OF assms(1), of p]
  by (auto simp: request_ok_def word_le_nat_alt word_less_nat_alt word_unat_eq_iff)

lemma bulk_request_ok:
  assumes "off < mr_length run"
  shows "request_ok run off (bulk_request_bytes run off)"
  using assms unat_bulk_request_bytes [of off run]
  by (auto simp: request_ok_def word_le_nat_alt word_less_nat_alt word_unat_eq_iff)

lemma PageStep_path:
  assumes "path_invariant D W H cfg run I" and "I st" and "PageStep D W H cfg run chunkEnd st = (f, st')"
    and "a_offset st < chunkEnd" and "chunkEnd \<le> mr_length run"
  shows "I st'"
proof -
  note inv = path_invariantD [OF assms(1)]
  obtain c s where c: "load_cancelled st = (c, s)" by fastforce
  have s: "I s" "a_offset s = a_offset st"
    using inv(1) [OF assms(2) c] c by simp_all
  let ?n = "page_request_bytes (mr_base run + a_offset s) chunkEnd (a_offset s)"
  obtain v r t where rd: "read_run D (mr_driverIndex run) (a_offset s) ?n (mr_base run + a_offset s) s = (v, r, t)"
    by (metis prod.collapse)
  have t: "I t"
    using inv(2) [OF s(1) page_request_ok rd] s(2) assms(4,5) by simp
  obtain b u where sc: "StoreCopied W H cfg r t = (b, u)" by fastforce
  have u: "I u" by (rule inv(3) [OF t sc])
  obtain b' sm where au: "AddUnreadable (a_summary t) (mr_base run + a_offset s) (ucast ?n) (rr_copyStatus r) = (b', sm)"
    by fastforce
  have sm: "I (t\<lparr> a_summary := sm \<rparr>)" by (rule inv(4) [OF t au])
  obtain b'' x where ao: "all_ok [add_processed (ucast ?n), add_offset (ucast ?n)] (t\<lparr> a_summary := sm \<rparr>) = (b'', x)"
    by fastforce
  have x: "I x"
    by (rule all_ok_preserves [where I = I, OF _ ao sm]) (auto dest: inv(5) inv(6))
  show ?thesis
    using assms(3) c s t rd sc u au sm ao x
    by (auto simp: PageStep_def Let_def split: if_splits bool.splits prod.splits)
qed

lemma PageLoop_path:
  assumes "path_invariant D W H cfg run I" and "I st" and "PageLoop D W H cfg run chunkEnd st = (b, st')"
    and "chunkEnd \<le> mr_length run"
  shows "I st'"
  using assms
proof (induction D W H cfg run chunkEnd st rule: PageLoop.induct)
  case (1 D W H cfg run chunkEnd st)
  show ?case
  proof (cases "a_offset st < chunkEnd")
    case False
    then show ?thesis using 1(3,4) by (simp add: PageLoop.simps [of D])
  next
    case True
    obtain f s where fs: "PageStep D W H cfg run chunkEnd st = (f, s)" by fastforce
    have s: "I s" by (rule PageStep_path [OF 1(2,3) fs True 1(5)])
    show ?thesis
      using 1(1) [OF True fs [symmetric] _ 1(2) s _ 1(5)] 1(4) True fs s
      by (cases f) (auto simp: PageLoop.simps [of D W H cfg run chunkEnd st])
  qed
qed

lemma BulkStep_path:
  assumes "path_invariant D W H cfg run I" and "I st" and "BulkStep D W H cfg run st = (b, st')"
    and "a_offset st < mr_length run"
  shows "I st'"
proof -
  note inv = path_invariantD [OF assms(1)]
  obtain c s where c: "load_cancelled st = (c, s)" by fastforce
  have s: "I s" "a_offset s = a_offset st"
    using inv(1) [OF assms(2) c] c by simp_all
  let ?n = "bulk_request_bytes run (a_offset s)"
  obtain v r t where rd: "read_run D (mr_driverIndex run) (a_offset s) ?n (mr_base run + a_offset s) s = (v, r, t)"
    by (metis prod.collapse)
  have t: "I t"
    using inv(2) [OF s(1) bulk_request_ok rd] s(2) assms(4) by simp
  obtain b1 u where sc: "(if rr_copied r \<noteq> 0 then StoreCopied W H cfg r t else (True, t)) = (b1, u)"
    by fastforce
  have u: "I u"
    using inv(3) [OF t] t sc by (auto split: if_splits)
  obtain b2 x where pl: "PageLoop D W H cfg run
      (min (mr_length run) (a_offset u + ucast (?n - rr_copied r))) u = (b2, x)"
    by fastforce
  have x: "I x" by (rule PageLoop_path [OF assms(1) u pl]) simp
  show ?thesis
    using assms(3) c s t rd sc u pl x inv(7) [OF x] inv(7) [OF u]
    by (simp add: BulkStep_def Let_def split: if_splits bool.splits)
qed

lemma AcquireRun_path:
  assumes "path_invariant D W H cfg run I" and "I st" and "AcquireRun D W H cfg run st = (b, st')"
  shows "I st'"
  using assms
proof (induction D W H cfg run st rule: AcquireRun.induct)
  case (1 D W H cfg run st)
  show ?case
  proof (cases "a_offset st < mr_length run")
    case False
    then show ?thesis using 1(3,4) by (simp add: AcquireRun.simps [of D])
  next
    case True
    obtain f s where fs: "BulkStep D W H cfg run st = (f, s)" by fastforce
    have s: "I s" by (rule BulkStep_path [OF 1(2,3) fs True])
    show ?thesis
      using 1(1) [OF True fs [symmetric] _ 1(2) s] 1(4) True fs s
      by (cases f) (auto simp: AcquireRun.simps [of D W H cfg run st])
  qed
qed

lemma AcquireRuns_path:
  assumes "\<And>run. run \<in> set runs \<Longrightarrow> path_invariant D W H cfg run I"
    and "\<And>s. I s \<Longrightarrow> I (s\<lparr> a_offset := 0 \<rparr>)"
    and "I st" and "AcquireRuns D W H cfg runs st = (b, st')"
  shows "I st'"
  using assms
proof (induction runs arbitrary: st)
  case Nil
  then show ?case by simp
next
  case (Cons run runs)
  obtain c s where s: "AcquireRun D W H cfg run (st\<lparr> a_offset := 0 \<rparr>) = (c, s)" by fastforce
  have "I s"
    by (rule AcquireRun_path [OF _ _ s]) (use Cons.prems in auto)
  then show ?case
    using Cons.prems(4) s Cons.IH [OF Cons.prems(1,2), of s] Cons.prems(3)
    by (auto split: if_splits bool.splits)
qed

section \<open>Frames of the failing paths\<close>

text \<open>A property that only looks at the device state and at \<open>completed\<close>.\<close>

definition dev_view :: "('d, 'w, 'h) acq \<Rightarrow> 'd \<times> bool" where
  "dev_view s = (a_dev s, as_completed (a_summary s))"

lemma all_ok_view:
  assumes "\<And>f s. f \<in> set fs \<Longrightarrow> v (snd (f s)) = v s"
  shows "v (snd (all_ok fs s)) = v s"
proof (rule all_ok_preserves [where I = "\<lambda>t. v t = v s"])
  show "all_ok fs s = (fst (all_ok fs s), snd (all_ok fs s))" by simp
  show "v s' = v s" if "f \<in> set fs" "f t = (r, s')" "v t = v s" for f t r s'
    using assms [OF that(1), of t] that by simp
qed simp

lemma AddUnreadable_completed [simp]:
  "as_completed (snd (AddUnreadable s p n x)) = as_completed s"
  by (cases "AddUnreadable s p n x") (simp add: AddUnreadable_frame(1))

lemma primitive_dev_view [simp]:
  "dev_view (snd (load_cancelled s)) = dev_view s"
  "dev_view (snd (hashZerosTo H p s)) = dev_view s"
  "dev_view (snd (write_data W p xs s)) = dev_view s"
  "dev_view (snd (hash_data H xs s)) = dev_view s"
  "dev_view (snd (add_hashPosition n s)) = dev_view s"
  "dev_view (snd (add_offset n s)) = dev_view s"
  "dev_view (snd (add_processed n s)) = dev_view s"
  "dev_view (snd (add_acquired n s)) = dev_view s"
  "dev_view (snd (add_transferred n s)) = dev_view s"
  "dev_view (snd (pace cfg s)) = dev_view s"
  "dev_view (ReportProgress cfg s) = dev_view s"
  "dev_view (s\<lparr> a_summary := snd (AddUnreadable (a_summary s) p n x) \<rparr>) = dev_view s"
  "dev_view (s\<lparr> a_offset := m \<rparr>) = dev_view s"
  by (auto simp: dev_view_def load_cancelled_def hashZerosTo_def write_data_def hash_data_def
      add_hashPosition_def add_offset_def add_processed_def add_acquired_def add_transferred_def
      pace_def split: prod.splits option.splits bool.splits)

lemma StoreCopied_dev_view [simp]: "dev_view (snd (StoreCopied W H cfg r s)) = dev_view s"
  unfolding StoreCopied_def by (rule all_ok_view) auto

lemma read_run_dev:
  "dev_view (snd (snd (read_run D i off n e s))) =
    (snd (snd (dev_Read D i off n (a_dev s))), as_completed (a_summary s))"
  by (simp add: read_run_def dev_view_def split: prod.splits)

text \<open>Such a property need only survive the reads the engine issues.\<close>

lemma path_invariant_dev:
  assumes "\<And>d c off n. P (d, c) \<Longrightarrow> request_ok run off n \<Longrightarrow>
    P (snd (snd (dev_Read D (mr_driverIndex run) off n d)), c)"
  shows "path_invariant D W H cfg run (\<lambda>s. P (dev_view s))"
  using assms by (intro path_invariantI) (simp_all add: read_run_dev, simp add: dev_view_def)

lemma AcquireRuns_dev:
  assumes "AcquireRuns D W H cfg runs st = (b, st')" and "P (dev_view st)"
    and "\<And>run d c off n. run \<in> set runs \<Longrightarrow> P (d, c) \<Longrightarrow> request_ok run off n \<Longrightarrow>
    P (snd (snd (dev_Read D (mr_driverIndex run) off n d)), c)"
  shows "P (dev_view st')"
  by (rule AcquireRuns_path [where I = "\<lambda>s. P (dev_view s)", OF _ _ assms(2,1)])
    (simp_all add: path_invariant_dev assms(3))

section \<open>The requests that reach the device\<close>

text \<open>A device session that also records every read request it is given.\<close>

definition tracing ::
  "'d IDeviceSession \<Rightarrow> ('d \<times> (u32 \<times> u64 \<times> u32) list) IDeviceSession" where
  "tracing D = \<lparr>
     dev_Open = (\<lambda>(d, l). case dev_Open D d of (ok, d') \<Rightarrow> (ok, d', l)),
     dev_Close = (\<lambda>(d, l). (dev_Close D d, l)),
     dev_Query = (\<lambda>(d, l). case dev_Query D d of (ok, x, d') \<Rightarrow> (ok, x, d', l)),
     dev_QueryHints = (\<lambda>(d, l). case dev_QueryHints D d of (ok, x, d') \<Rightarrow> (ok, x, d', l)),
     dev_Read = (\<lambda>i off n (d, l). case dev_Read D i off n d of (ok, x, d') \<Rightarrow>
                   (ok, x, d', l @ [(i, off, n)])),
     dev_End = (\<lambda>(d, l). case dev_End D d of (ok, x, d') \<Rightarrow> (ok, x, d', l)),
     dev_LastError = (\<lambda>(d, l). dev_LastError D d) \<rparr>"

definition legal_request :: "MemoryRun list \<Rightarrow> u32 \<times> u64 \<times> u32 \<Rightarrow> bool" where
  "legal_request runs q = (case q of (i, off, n) \<Rightarrow>
     \<exists>run \<in> set runs. mr_driverIndex run = i \<and> n \<noteq> 0 \<and> n \<le> PHYLA_MAX_TRANSFER \<and>
       unat off + unat n \<le> unat (mr_length run))"

lemma tracing_sel [simp]:
  "dev_Query (tracing D) (d, l) = (case dev_Query D d of (ok, x, d') \<Rightarrow> (ok, x, d', l))"
  "dev_QueryHints (tracing D) (d, l) = (case dev_QueryHints D d of (ok, y, d') \<Rightarrow> (ok, y, d', l))"
  "dev_Read (tracing D) i off n (d, l) =
     (case dev_Read D i off n d of (ok, z, d') \<Rightarrow> (ok, z, d', l @ [(i, off, n)]))"
  "dev_End (tracing D) (d, l) = (case dev_End D d of (ok, c, d') \<Rightarrow> (ok, c, d', l))"
  by (simp_all add: tracing_def)

text \<open>What a whole acquisition does to a view of the device, on any path.\<close>

lemma FinishAcquire_dev_view:
  assumes "FinishAcquire D H st = (ok, st')"
  shows "as_completed (a_summary st') = (ok \<or> as_completed (a_summary st))"
    and "a_dev st' = a_dev st \<or> a_dev st' = snd (snd (dev_End D (a_dev st)))"
proof -
  obtain b s where hz: "hashZerosTo H (as_logicalSize (a_summary st)) st = (b, s)" by fastforce
  obtain c t e where en: "dev_End D (a_dev s) = (c, t, e)" by (metis prod.collapse)
  have "a_summary s = a_summary st \<and> a_dev s = a_dev st"
    using hashZerosTo_frame [OF hz] by simp
  then show "as_completed (a_summary st') = (ok \<or> as_completed (a_summary st))"
    and "a_dev st' = a_dev st \<or> a_dev st' = snd (snd (dev_End D (a_dev st)))"
    using assms hz en
    by (auto simp: FinishAcquire_def Let_def split: bool.splits if_splits)
qed

text \<open>
  A property of the device state that the query, the hints, the end of the session and every
  request inside a reported run keep holds of the device after the acquisition.
\<close>

lemma Acquire_dev:
  assumes "dev_Query D d = (ok, (hi, tot, runs), d1)" and "P d1"
    and "\<And>d. P d \<Longrightarrow> P (snd (snd (dev_QueryHints D d)))"
    and "\<And>d. P d \<Longrightarrow> P (snd (snd (dev_End D d)))"
    and "\<And>run d off n. run \<in> set runs \<Longrightarrow> P d \<Longrightarrow> request_ok run off n \<Longrightarrow>
           P (snd (snd (dev_Read D (mr_driverIndex run) off n d)))"
  shows "P (ar_dev (snd (Acquire D W H cfg d w h host)))"
    and "as_completed (ar_summary (snd (Acquire D W H cfg d w h host))) = fst (Acquire D W H cfg d w h host)"
proof -
  obtain hok hints d2 where hq: "dev_QueryHints D d1 = (hok, hints, d2)" by (metis prod.collapse)
  obtain t host1 where c: "clock_now host = (t, host1)" by fastforce
  let ?summary = "(if hok then AcquisitionSummary_default\<lparr> as_hints := hints \<rparr>
                   else AcquisitionSummary_default)
      \<lparr> as_logicalSize := hi, as_physicalBytes := tot, as_ranges := runs \<rparr>"
  let ?st0 = "(acq_start ?summary d2 w h host1)\<lparr> a_startedAt := t \<rparr>"
  obtain b st1 where ar: "AcquireRuns D W H cfg runs ?st0 = (b, st1)" by fastforce
  obtain b2 st2 where fin: "FinishAcquire D H st1 = (b2, st2)" by fastforce
  have d2: "P d2" using assms(3) [OF assms(2)] hq by simp
  have start: "dev_view ?st0 = (d2, False)"
    by (simp add: dev_view_def acq_start_def AcquisitionSummary_default_def)
  have "P (fst (dev_view st1)) \<and> \<not> snd (dev_view st1)"
    by (rule AcquireRuns_dev [OF ar, where P = "\<lambda>v. P (fst v) \<and> \<not> snd v"])
      (use d2 start assms(5) in simp_all)
  then have s1: "P (a_dev st1)" "\<not> as_completed (a_summary st1)"
    by (simp_all add: dev_view_def)
  have s2: "P (a_dev st2)" "as_completed (a_summary st2) = b2"
    using FinishAcquire_dev_view [OF fin] s1 assms(4) by auto
  have eq: "Acquire D W H cfg d w h host =
      (if \<not> ok \<or> hi = 0 \<or> tot = 0 \<or> runs = []
       then (False, acq_out (acq_start AcquisitionSummary_default d1 w h host))
       else if b then (b2, acq_out st2) else (False, acq_out st1))"
    using assms(1) hq c ar fin by (simp add: Acquire_def Let_def)
  have "\<not> as_completed AcquisitionSummary_default" by (simp add: AcquisitionSummary_default_def)
  then show "P (ar_dev (snd (Acquire D W H cfg d w h host)))"
    and "as_completed (ar_summary (snd (Acquire D W H cfg d w h host))) = fst (Acquire D W H cfg d w h host)"
    using assms(2) s1 s2 by (simp_all add: eq acq_out_def acq_start_def)
qed

section \<open>Cancellation\<close>

lemma BulkStep_cancelled:
  assumes "h_cancel (a_host st) (h_step (a_host st))"
  shows "BulkStep D W H cfg run st = (False, st\<lparr> a_host := host_tick (a_host st) \<rparr>)"
  using assms by (simp add: BulkStep_def load_cancelled_def cancel_load_def)

lemma PageStep_cancelled:
  assumes "h_cancel (a_host st) (h_step (a_host st))"
  shows "PageStep D W H cfg run chunkEnd st = (Fail, st\<lparr> a_host := host_tick (a_host st) \<rparr>)"
  using assms by (simp add: PageStep_def load_cancelled_def cancel_load_def)

lemma AcquireRuns_cancelled:
  assumes "AcquireRuns D W H cfg runs st = (b, st')" and "runs \<noteq> []"
    and "h_cancel (a_host st) (h_step (a_host st))"
  shows "\<not> b \<and> a_wr st' = a_wr st \<and> a_hash st' = a_hash st \<and> a_dev st' = a_dev st \<and>
    a_summary st' = a_summary st"
proof -
  obtain run rest where runs: "runs = run # rest" using assms(2) by (cases runs) auto
  show ?thesis
  proof (cases "mr_length run = 0 \<or> mr_base run > u64_max - mr_length run")
    case True
    then show ?thesis using assms(1) by (auto simp: runs)
  next
    case False
    then have "(0 :: u64) < mr_length run" by (simp add: word_gt_0)
    then have "AcquireRun D W H cfg run (st\<lparr> a_offset := 0 \<rparr>) =
        (False, st\<lparr> a_offset := 0, a_host := host_tick (a_host st) \<rparr>)"
      using assms(3) BulkStep_cancelled [of "st\<lparr> a_offset := 0 \<rparr>" D W H cfg run]
      by (subst AcquireRun.simps) simp
    then show ?thesis using assms(1) False by (auto simp: runs)
  qed
qed

section \<open>Pacing\<close>

text \<open>
  The waiting loop ends at its deadline with the flag down, or earlier or later with the flag up:
  either way at an observation it really made.
\<close>

lemma PaceLoop_result:
  "PaceLoop target h = (ok, h') \<Longrightarrow>
     host_after h h' \<and>
     (ok \<longrightarrow> sint target \<le> h_now h') \<and>
     (\<not> ok \<longrightarrow> (\<exists>k \<ge> h_step h. k < h_step h' \<and> h_cancel h k))"
proof (induction target h arbitrary: ok h' rule: PaceLoop.induct)
  case (1 target h)
  obtain t h1 where t: "clock_now h = (t, h1)" by fastforce
  obtain c h2 where c: "cancel_load h1 = (c, h2)" by fastforce
  obtain t' h3 where t': "clock_now h2 = (t', h3)" by fastforce
  let ?h4 = "sleep_for (min (sint (target - word_of_int t')) kCancellationPollingInterval) h3"
  have steps: "h1 = host_tick h" "t = h_now h1" "h2 = host_tick h1" "h3 = host_tick h2"
    "c = h_cancel h (h_step h1)"
    using t c t' by (auto simp: clock_now_def cancel_load_def Let_def)
  have after: "host_after h h2" "host_after h ?h4"
    unfolding steps by (meson host_after_tick host_after_sleep host_after_trans)+
  show ?case
  proof (cases "t < sint target \<and> \<not> c")
    case True
    then have p: "PaceLoop target ?h4 = (ok, h')"
      using "1.prems" t c t' by (simp add: PaceLoop.simps [of target h])
    note ih = "1.IH" [OF t [symmetric] _ c [symmetric] _ t' [symmetric] refl p]
    have s4: "h_step h \<le> h_step ?h4" "h_cancel ?h4 = h_cancel h"
      using after(2) by (auto simp: host_after_def)
    show ?thesis
      using ih True after(2) s4 by (auto intro: host_after_trans order_trans)
  next
    case False
    then have "h' = h2" "ok \<longrightarrow> sint target \<le> h_now h1 \<and> \<not> c" "\<not> ok \<longrightarrow> c"
      using "1.prems" t c t' steps(2) by (auto simp: PaceLoop.simps [of target h] split: if_splits)
    moreover have "h_now h1 \<le> h_now h2" using steps(3) by simp
    ultimately have "ok \<longrightarrow> sint target \<le> h_now h'" by (auto intro: order_trans)
    then show ?thesis
      using \<open>h' = h2\<close> \<open>\<not> ok \<longrightarrow> c\<close> after(1) steps by (auto intro: exI [of _ "h_step h1"])
  qed
qed

end
