(* ===== verification/AcquireSpans.thy ===== *)
theory AcquireSpans
  imports AcquireAccounting
begin

text \<open>
  The unreadable spans an acquisition records: where they lie, that they are ordered and
  disjoint, and when each of them stays inside one physical run, as \<open>docs/MAP_SCHEMA.md\<close>
  section 5 asks.
\<close>

section \<open>Well-placed spans\<close>

definition span_end :: "UnreadableSpan \<Rightarrow> nat" where
  "span_end s = unat (us_start s) + unat (us_length s)"

definition spans_ordered :: "UnreadableSpan list \<Rightarrow> bool" where
  "spans_ordered ss \<longleftrightarrow> sorted_wrt (\<lambda>s t. span_end s \<le> unat (us_start t)) ss"

text \<open>Every span is non-empty and inside \<open>A\<close>, spans are ordered, none reaches past \<open>fr\<close>.\<close>

definition spans_ok :: "nat set \<Rightarrow> nat \<Rightarrow> UnreadableSpan list \<Rightarrow> bool" where
  "spans_ok A fr ss \<longleftrightarrow>
     (\<forall>s \<in> set ss. us_length s \<noteq> 0 \<and> span_addresses s \<subseteq> A \<and> span_end s \<le> fr) \<and> spans_ordered ss"

lemma spans_ok_mono: "spans_ok A fr ss \<Longrightarrow> A \<subseteq> B \<Longrightarrow> fr \<le> fr' \<Longrightarrow> spans_ok B fr' ss"
  by (fastforce simp: spans_ok_def)

lemma spans_ok_Nil [simp]: "spans_ok A fr []"
  by (simp add: spans_ok_def spans_ordered_def)

lemma spans_ok_snoc:
  assumes "spans_ok A fr ss" and "fr \<le> unat (us_start s)" and "us_length s \<noteq> 0"
  shows "spans_ok (A \<union> span_addresses s) (span_end s) (ss @ [s])"
  using assms by (fastforce simp: spans_ok_def spans_ordered_def sorted_wrt_append span_end_def)

text \<open>How \<open>AddUnreadable\<close> changes the list: it extends the last span or appends a new one.\<close>

lemma AddUnreadable_list:
  assumes "AddUnreadable sm start len status = (True, sm')"
  obtains (extended) ss p where "as_unreadable sm = ss @ [p]"
      "unat (us_start p) + unat (us_length p) = unat start" "us_status p = status"
      "unat (us_length p) + unat len < 2 ^ 64"
      "as_unreadable sm' = ss @ [p\<lparr> us_length := us_length p + len \<rparr>]"
  | (appended)
      "as_unreadable sm' = as_unreadable sm @ [\<lparr> us_start = start, us_length = len, us_status = status \<rparr>]"
proof (cases "as_unreadable sm \<noteq> [] \<and>
    us_start (last (as_unreadable sm)) \<le> u64_max - us_length (last (as_unreadable sm)) \<and>
    us_start (last (as_unreadable sm)) + us_length (last (as_unreadable sm)) = start \<and>
    us_status (last (as_unreadable sm)) = status \<and> us_length (last (as_unreadable sm)) \<le> u64_max - len")
  case True
  let ?ss = "butlast (as_unreadable sm)" and ?p = "last (as_unreadable sm)"
  have fits: "unat (us_start ?p) + unat (us_length ?p) < 2 ^ 64"
    and fits2: "unat (us_length ?p) + unat len < 2 ^ 64"
    using True by (auto simp: word_le_max_minus_iff add.commute)
  show ?thesis
  proof (rule extended)
    show "as_unreadable sm = ?ss @ [?p]" using True by simp
    show "unat (us_start ?p) + unat (us_length ?p) = unat start"
      using True fits by (metis unat_add_u64)
    show "us_status ?p = status" using True by simp
    show "unat (us_length ?p) + unat len < 2 ^ 64" by (rule fits2)
    show "as_unreadable sm' = ?ss @ [?p\<lparr> us_length := us_length ?p + len \<rparr>]"
      using assms True by (auto simp: AddUnreadable_def Let_def split: if_splits option.splits)
  qed
next
  case False
  then show ?thesis
    using appended assms by (auto simp: AddUnreadable_def Let_def split: if_splits option.splits)
qed

lemma AddUnreadable_spans_ok:
  assumes "AddUnreadable sm start len status = (True, sm')"
    and "spans_ok A (unat start) (as_unreadable sm)"
  shows "spans_ok (A \<union> {unat start ..< unat start + unat len}) (unat start + unat len) (as_unreadable sm')"
  using assms(1)
proof (cases rule: AddUnreadable_list)
  case (extended ss p)
  let ?p = "p\<lparr> us_length := us_length p + len \<rparr>"
  have l: "unat (us_length p + len) = unat (us_length p) + unat len"
    using extended(4) by (simp add: unat_add_u64)
  have p: "us_length p \<noteq> 0" "span_addresses p \<subseteq> A" and ss: "spans_ok A (unat (us_start p)) ss"
    using assms(2) extended(1) by (auto simp: spans_ok_def spans_ordered_def sorted_wrt_append)
  have "us_length ?p \<noteq> 0"
    using l p(1) by (auto simp: word_unat_eq_iff)
  then have "spans_ok (A \<union> span_addresses ?p) (span_end ?p) (ss @ [?p])"
    by (intro spans_ok_snoc [OF ss]) simp_all
  moreover have "span_addresses ?p \<subseteq> A \<union> {unat start ..< unat start + unat len}"
    using p(2) l extended(2) by (auto simp: span_addresses_def)
  moreover have "span_end ?p = unat start + unat len"
    using l extended(2) by (simp add: span_end_def)
  ultimately show ?thesis
    using extended(5) by (auto elim!: spans_ok_mono)
next
  case appended
  have "len \<noteq> 0" using AddUnreadable_True [OF assms(1)] by simp
  then show ?thesis
    using spans_ok_snoc [OF assms(2), of "\<lparr> us_start = start, us_length = len, us_status = status \<rparr>"]
    by (simp add: appended span_addresses_def span_end_def)
qed

section \<open>Spans over the runs\<close>

definition done_addresses :: "MemoryRun list \<Rightarrow> nat \<Rightarrow> nat set" where
  "done_addresses rs k = (\<Union>r \<in> set (take k rs). run_addresses r)"

lemma done_addresses_Suc:
  "k < length rs \<Longrightarrow> done_addresses rs (Suc k) = done_addresses rs k \<union> run_addresses (rs ! k)"
  by (auto simp: done_addresses_def take_Suc_conv_app_nth)

lemma done_addresses_all: "done_addresses rs (length rs) = (\<Union>r \<in> set rs. run_addresses r)"
  by (simp add: done_addresses_def)

definition run_end :: "MemoryRun \<Rightarrow> nat" where
  "run_end r = unat (mr_base r) + unat (mr_length r)"

text \<open>How far the spans may reach before run \<open>k\<close>: the end of the run in front of it.\<close>

definition frontier :: "MemoryRun list \<Rightarrow> nat \<Rightarrow> nat" where
  "frontier rs k = (if k = 0 then 0 else run_end (rs ! (k - 1)))"

lemma runs_ordered_tail: "runs_ordered (r # rs) \<Longrightarrow> runs_ordered rs"
  by (cases rs) auto

lemma runs_ordered_Cons_base:
  "runs_ordered (r # rs) \<Longrightarrow> r' \<in> set rs \<Longrightarrow> run_end r \<le> unat (mr_base r')"
proof (induction rs arbitrary: r)
  case (Cons q rs)
  have "run_end r \<le> unat (mr_base q)" "runs_ordered (q # rs)"
    using Cons.prems(1) by (simp_all add: run_end_def)
  moreover have "unat (mr_base q) \<le> run_end q" by (simp add: run_end_def)
  ultimately show ?case using Cons.IH [of q] Cons.prems(2) by auto
qed simp

lemma runs_ordered_nth:
  "runs_ordered rs \<Longrightarrow> Suc k < length rs \<Longrightarrow> run_end (rs ! k) \<le> unat (mr_base (rs ! Suc k))"
proof (induction rs arbitrary: k rule: runs_ordered.induct)
  case (3 r r' rs)
  then show ?case by (cases k) (auto simp: run_end_def)
qed simp_all

lemma frontier_le_base:
  "runs_ordered rs \<Longrightarrow> k < length rs \<Longrightarrow> frontier rs k \<le> unat (mr_base (rs ! k))"
  using runs_ordered_nth [of rs "k - 1"] by (auto simp: frontier_def)

lemma done_addresses_frontier:
  "runs_ordered rs \<Longrightarrow> k \<le> length rs \<Longrightarrow> done_addresses rs k \<subseteq> {..<frontier rs k}"
proof (induction k)
  case 0
  then show ?case by (simp add: done_addresses_def)
next
  case (Suc k)
  have "done_addresses rs k \<subseteq> {..<frontier rs k}" and "frontier rs k \<le> unat (mr_base (rs ! k))"
    using Suc frontier_le_base [of rs k] by simp_all
  then show ?case
    using Suc.prems by (fastforce simp: done_addresses_Suc run_addresses_def frontier_def run_end_def)
qed

text \<open>Inside run \<open>k\<close>: the spans lie in the finished runs and the part of the run behind the offset.\<close>

definition spans_in_run :: "MemoryRun list \<Rightarrow> nat \<Rightarrow> ('d, 'w, 'h) acq \<Rightarrow> bool" where
  "spans_in_run rs k st \<longleftrightarrow>
     a_offset st \<le> mr_length (rs ! k) \<and>
     spans_ok (done_addresses rs k \<union>
                {unat (mr_base (rs ! k)) ..< unat (mr_base (rs ! k)) + unat (a_offset st)})
       (unat (mr_base (rs ! k)) + unat (a_offset st)) (as_unreadable (a_summary st))"

definition spans_between :: "MemoryRun list \<Rightarrow> nat \<Rightarrow> ('d, 'w, 'h) acq \<Rightarrow> bool" where
  "spans_between rs k st \<longleftrightarrow> spans_ok (done_addresses rs k) (frontier rs k) (as_unreadable (a_summary st))"

lemma unat_run_address:
  assumes "run_ok run" and "unat off \<le> unat (mr_length run)"
  shows "unat (mr_base run + off) = unat (mr_base run) + unat off"
  using assms by (intro unat_add_u64) (simp add: run_ok_def)

lemma spans_in_run_invariant:
  assumes "run_ok (rs ! k)"
  shows "run_invariant D W H cfg (rs ! k) (spans_in_run rs k)"
proof (rule run_invariantI)
  fix s n r d s'
  assume i: "spans_in_run rs k s" and req: "request_ok (rs ! k) (a_offset s) n"
    and v: "ValidateReadResult r (mr_base (rs ! k) + a_offset s) n"
    and st: "StoreCopied W H cfg r (s\<lparr> a_host := host_tick (a_host s), a_dev := d \<rparr>) = (True, s')"
  have off: "unat (a_offset s') = unat (a_offset s) + unat (rr_copied r)"
    and same: "as_unreadable (a_summary s') = as_unreadable (a_summary s)"
    using st by (auto elim!: StoreCopied_True simp: room_unat)
  have "unat (rr_copied r) \<le> unat n"
    using v by (simp add: ValidateReadResult_def word_le_nat_alt)
  then have "a_offset s' \<le> mr_length (rs ! k)"
    using req off by (simp add: request_ok_def word_le_nat_alt)
  then show "spans_in_run rs k s'"
    using i off same by (auto simp: spans_in_run_def elim!: spans_ok_mono)
next
  fix s n sm x
  assume i: "spans_in_run rs k s" and req: "request_ok (rs ! k) (a_offset s) n"
    and au: "AddUnreadable (a_summary s) (mr_base (rs ! k) + a_offset s) (ucast n) x = (True, sm)"
    and rm: "room (a_offset s) n"
  have a: "unat (mr_base (rs ! k) + a_offset s) = unat (mr_base (rs ! k)) + unat (a_offset s)"
    using req by (intro unat_run_address [OF assms]) (simp add: request_ok_def)
  have "spans_ok (done_addresses rs k \<union>
          {unat (mr_base (rs ! k)) ..< unat (mr_base (rs ! k)) + unat (a_offset s)} \<union>
          {unat (mr_base (rs ! k)) + unat (a_offset s) ..<
             unat (mr_base (rs ! k)) + unat (a_offset s) + unat n})
        (unat (mr_base (rs ! k)) + unat (a_offset s) + unat n) (as_unreadable sm)"
    using AddUnreadable_spans_ok [OF au] i by (simp add: a spans_in_run_def)
  then show "spans_in_run rs k (unreadable_state sm n s)"
    using req room_unat [OF rm]
    by (auto simp: spans_in_run_def unreadable_state_def request_ok_def word_le_nat_alt
        elim!: spans_ok_mono)
qed (simp_all add: spans_in_run_def)

lemma AcquireRuns_spans:
  assumes "AcquireRuns D W H cfg rs st = (True, st')" and "runs_ordered rs"
    and "as_unreadable (a_summary st) = []"
  shows "spans_between rs (length rs) st'"
proof (rule AcquireRuns_invariant [OF assms(1), where J = "spans_between rs" and I = "spans_in_run rs"])
  show "spans_between rs 0 st" using assms(3) by (simp add: spans_between_def)
next
  fix k and s :: "('a, 'b, 'c) acq"
  assume "k < length rs" "spans_between rs k s" "run_ok (rs ! k)"
  then show "spans_in_run rs k (s\<lparr> a_offset := 0 \<rparr>)"
    using frontier_le_base [OF assms(2)]
    by (auto simp: spans_between_def spans_in_run_def elim!: spans_ok_mono)
next
  fix k and s :: "('a, 'b, 'c) acq"
  assume "k < length rs" "spans_in_run rs k s" "a_offset s = mr_length (rs ! k)"
  then show "spans_between rs (Suc k) s"
    by (auto simp: spans_between_def spans_in_run_def frontier_def run_end_def done_addresses_Suc
        run_addresses_def)
qed (auto simp: spans_in_run_def intro: spans_in_run_invariant)

end
