(* ===== verification/AcquireImage.thy ===== *)
theory AcquireImage
  imports AcquireSpans
begin

text \<open>
  What an acquisition leaves in the image and in the hash. For a device that returns the bytes of
  a memory \<open>mem\<close>, a writer that keeps the image contract and a hasher that keeps the hash
  contract, the finished image holds every acquired byte at its physical address and zero
  everywhere else, and the bytes hashed are exactly the image, in order.
\<close>

section \<open>What a run leaves alone\<close>

text \<open>The parts of the summary that only \<open>Acquire\<close> itself writes.\<close>

definition same_frame :: "AcquisitionSummary \<Rightarrow> AcquisitionSummary \<Rightarrow> bool" where
  "same_frame s s' \<longleftrightarrow> as_ranges s' = as_ranges s \<and> as_logicalSize s' = as_logicalSize s \<and>
     as_physicalBytes s' = as_physicalBytes s \<and> as_hints s' = as_hints s \<and>
     as_sha256 s' = as_sha256 s \<and> as_completed s' = as_completed s \<and>
     as_topologyChanged s' = as_topologyChanged s"

lemma same_frame_invariant:
  "run_invariant D W H cfg run (\<lambda>s. same_frame s0 (a_summary s))"
  by (rule run_invariantI)
    (auto simp: same_frame_def unreadable_state_def dest: AddUnreadable_frame elim!: StoreCopied_True)

lemma AcquireRuns_frame:
  assumes "AcquireRuns D W H cfg runs st = (True, st')"
  shows "same_frame (a_summary st) (a_summary st')"
  using assms
proof (induction runs arbitrary: st)
  case Nil
  then show ?case by (simp add: same_frame_def)
next
  case (Cons run runs)
  then obtain s where s: "AcquireRun D W H cfg run (st\<lparr> a_offset := 0 \<rparr>) = (True, s)"
    and rest: "AcquireRuns D W H cfg runs s = (True, st')"
    by (auto split: if_splits prod.splits bool.splits)
  have "same_frame (a_summary st) (a_summary s)"
    by (rule AcquireRun_invariant [OF s same_frame_invariant]) (simp add: same_frame_def)
  with Cons.IH [OF rest] show ?case by (simp add: same_frame_def)
qed

text \<open>The facts about a successful acquisition the properties start from.\<close>

lemma Acquire_summary:
  assumes "Acquire D W H cfg d w h host = (True, r)"
  obtains hi tot runs d1 d2 ok hints st0 st1 where
    "dev_Query D d = (True, (hi, tot, runs), d1)"
    and "dev_QueryHints D d1 = (ok, hints, d2)"
    and "as_ranges (ar_summary r) = runs" and "as_logicalSize (ar_summary r) = hi"
    and "as_physicalBytes (ar_summary r) = tot" and "as_completed (ar_summary r)"
    and "as_unreadable (ar_summary r) = as_unreadable (a_summary st1)"
    and "as_acquiredBytes (ar_summary r) = as_acquiredBytes (a_summary st1)"
    and "as_unreadableBytes (ar_summary r) = as_unreadableBytes (a_summary st1)"
    and "ar_wr r = a_wr st1"
    and "a_dev st0 = d2" and "a_wr st0 = w" and "a_hash st0 = h"
    and "a_hashPosition st0 = 0" and "a_processed st0 = 0"
    and "as_unreadable (a_summary st0) = []" and "as_unreadableBytes (a_summary st0) = 0"
    and "as_acquiredBytes (a_summary st0) = 0"
    and "AcquireRuns D W H cfg runs st0 = (True, st1)"
    and "gap_hashed H (a_hashPosition st1) hi (a_hash st1) (ar_hash r)"
    and "hi \<noteq> 0" and "tot \<noteq> 0" and "runs \<noteq> []"
proof -
  from Acquire_cases [OF assms] obtain d1 hi tot runs d2 ok hints st1 st2 h' d3 changed startedAt host1 summary where
      q: "dev_Query D d = (True, (hi, tot, runs), d1)" "hi \<noteq> 0" "tot \<noteq> 0" "runs \<noteq> []"
    and hq: "dev_QueryHints D d1 = (ok, hints, d2)"
    and sm: "summary = AcquisitionSummary_default\<lparr>
           as_hints := (if ok then hints else KernelHints_default),
           as_logicalSize := hi, as_physicalBytes := tot, as_ranges := runs \<rparr>"
    and c: "clock_now host = (startedAt, host1)"
    and ar: "AcquireRuns D W H cfg runs
           ((acq_start summary d2 w h host1)\<lparr> a_startedAt := startedAt \<rparr>) = (True, st1)"
    and hz: "hashZerosTo H (as_logicalSize (a_summary st1)) st1 = (True, st2)"
    and r: "r = acq_out (st2\<lparr> a_dev := d3, a_summary := (a_summary st2)\<lparr>
               as_topologyChanged := changed, as_completed := True \<rparr> \<rparr>)"
    by (rule Acquire_cases [OF assms]) (rule that; assumption)
  let ?st0 = "(acq_start summary d2 w h host1)\<lparr> a_startedAt := startedAt \<rparr>"
  have f: "same_frame summary (a_summary st1)"
    using AcquireRuns_frame [OF ar] by (simp add: acq_start_def)
  have fr: "a_summary st2 = a_summary st1" "a_wr st2 = a_wr st1"
    using hashZerosTo_frame [OF hz] by simp_all
  have hi: "as_logicalSize (a_summary st1) = hi"
    using f sm by (simp add: same_frame_def)
  have g: "gap_hashed H (a_hashPosition st1) hi (a_hash st1) (a_hash st2)"
    using hz unfolding hi by (auto elim!: hashZerosTo_True)
  show ?thesis
    by (rule that [OF q(1) hq, where ?st0.0 = ?st0 and ?st1.0 = st1])
      (use q c ar f fr g sm r in \<open>simp_all add: acq_out_def same_frame_def acq_start_def clock_now_def
          Let_def AcquisitionSummary_default_def\<close>)
qed

section \<open>The image\<close>

definition spans_addresses :: "UnreadableSpan list \<Rightarrow> nat set" where
  "spans_addresses ss = (\<Union>s \<in> set ss. span_addresses s)"

lemma AddUnreadable_addresses:
  assumes "AddUnreadable sm start len status = (True, sm')"
  shows "spans_addresses (as_unreadable sm') =
    spans_addresses (as_unreadable sm) \<union> {unat start ..< unat start + unat len}"
  using assms
proof (cases rule: AddUnreadable_list)
  case (extended ss p)
  have "span_addresses (p\<lparr> us_length := us_length p + len \<rparr>) =
      span_addresses p \<union> {unat start ..< unat start + unat len}"
    using extended(2,4) by (auto simp: span_addresses_def unat_add_u64)
  then show ?thesis using extended(1,5) by (auto simp: spans_addresses_def)
next
  case appended
  then show ?thesis by (auto simp: spans_addresses_def span_addresses_def)
qed

text \<open>
  The bytes a flat image should hold when the addresses \<open>A\<close> have been acquired from \<open>mem\<close>: holes
  and unreadable bytes are zero.
\<close>

definition image_of :: "(nat \<Rightarrow> u8) \<Rightarrow> nat set \<Rightarrow> nat \<Rightarrow> bytes" where
  "image_of mem A n = map (\<lambda>a. if a \<in> A then mem a else 0) [0..<n]"

lemma length_image_of [simp]: "length (image_of mem A n) = n"
  by (simp add: image_of_def)

lemma nth_image_of [simp]: "a < n \<Longrightarrow> image_of mem A n ! a = (if a \<in> A then mem a else 0)"
  by (simp add: image_of_def)

lemma image_of_empty: "image_of mem {} n = replicate n 0"
  by (simp add: image_of_def map_replicate_const)

lemma nth_overlay_within:
  assumes "n + length xs \<le> length c" and "a < length c"
  shows "overlay c n xs ! a = (if n \<le> a \<and> a < n + length xs then xs ! (a - n) else c ! a)"
  using assms by (auto simp: overlay_within nth_append)

lemma overlay_image_of:
  assumes "p + length xs \<le> n" and "\<And>j. j < length xs \<Longrightarrow> xs ! j = mem (p + j)"
  shows "overlay (image_of mem A n) p xs = image_of mem (A \<union> {p ..< p + length xs}) n"
proof (rule nth_equalityI)
  fix a assume "a < length (overlay (image_of mem A n) p xs)"
  then have a: "a < n" using assms(1) by simp
  show "overlay (image_of mem A n) p xs ! a = image_of mem (A \<union> {p ..< p + length xs}) n ! a"
    using a assms(1) assms(2) [of "a - p"] by (auto simp: nth_overlay_within)
qed (use assms in simp)

text \<open>Zeros up to an address past everything acquired are the image up to that address.\<close>

lemma image_of_append_zeros:
  assumes "hp \<le> p" and "A \<subseteq> {..<hp}"
  shows "image_of mem A hp @ replicate (p - hp) 0 = image_of mem A p"
proof (rule nth_equalityI)
  fix a assume "a < length (image_of mem A hp @ replicate (p - hp) 0)"
  then have a: "a < p" using assms by simp
  show "(image_of mem A hp @ replicate (p - hp) 0) ! a = image_of mem A p ! a"
  proof (cases "a < hp")
    case True
    then show ?thesis using a by (simp add: nth_append)
  next
    case False
    then have "a \<notin> A" using assms(2) by auto
    then show ?thesis using False a by (simp add: nth_append)
  qed
qed (use assms in simp)

lemma image_of_append:
  assumes "\<And>j. j < length xs \<Longrightarrow> xs ! j = mem (p + j)"
  shows "image_of mem A p @ xs = image_of mem (A \<union> {p ..< p + length xs}) (p + length xs)"
proof (rule nth_equalityI)
  fix a assume "a < length (image_of mem A p @ xs)"
  then show "(image_of mem A p @ xs) ! a = image_of mem (A \<union> {p ..< p + length xs}) (p + length xs) ! a"
    using assms [of "a - p"] by (auto simp: nth_append)
qed simp

section \<open>Image and hash during an acquisition\<close>

text \<open>
  What a writer must keep for an acquisition of the memory \<open>mem\<close> over \<open>runs\<close>: \<open>holds A w\<close> says that
  its file represents the bytes of the addresses \<open>A\<close>. A successful write of bytes of one run,
  behind everything that was written before, adds their addresses. The writers of the program
  differ in what \<open>holds\<close> says of the file.
\<close>

locale acquisition =
  hasher_contract H fed digest_hex + device_contract D dinv
  for H :: "'h IHasher" and fed :: "'h \<Rightarrow> bytes option" and digest_hex :: "bytes \<Rightarrow> string"
    and D :: "'d IDeviceSession" and dinv :: "'d \<Rightarrow> bool" +
  fixes W :: "'w IRawWriter"
    and mem :: "nat \<Rightarrow> u8"
    and runs :: "MemoryRun list"
    and holds :: "nat set \<Rightarrow> 'w \<Rightarrow> bool"
  assumes reads_memory:
      "dinv d \<Longrightarrow> dev_Read D i off n d = (True, r, d') \<Longrightarrow> j < length (rr_data r) \<Longrightarrow>
       rr_data r ! j = mem (unat (rr_physicalAddress r) + j)"
    and write_holds:
      "holds A w \<Longrightarrow> A \<subseteq> {..<unat p} \<Longrightarrow> xs \<noteq> [] \<Longrightarrow> run \<in> set runs \<Longrightarrow> run_ok run \<Longrightarrow>
       {unat p ..< unat p + length xs} \<subseteq> run_addresses run \<Longrightarrow>
       (\<And>j. j < length xs \<Longrightarrow> xs ! j = mem (unat p + j)) \<Longrightarrow>
       wr_WriteAt W p xs w = (True, w') \<Longrightarrow> holds (A \<union> {unat p ..< unat p + length xs}) w'"
begin

text \<open>
  \<open>synced A st\<close>: the file holds the addresses \<open>A\<close>, the hash has absorbed the flat image up to the
  hash position, and nothing was acquired past that position.
\<close>

definition synced :: "nat set \<Rightarrow> ('d, 'w, 'h) acq \<Rightarrow> bool" where
  "synced A st \<longleftrightarrow>
     holds A (a_wr st) \<and>
     fed (a_hash st) = Some (image_of mem A (unat (a_hashPosition st))) \<and>
     A \<subseteq> {..<unat (a_hashPosition st)}"

lemma gap_fed:
  assumes "gap_hashed H pos p h h'" and "fed h = Some (image_of mem A (unat pos))"
    and "A \<subseteq> {..<unat pos}"
  shows "fed h' = Some (image_of mem A (unat p))"
proof (cases "pos = p")
  case True
  then show ?thesis using assms by (simp add: gap_hashed_def)
next
  case False
  then have z: "hs_UpdateZeros H (p - pos) h = (True, h')" and le: "pos \<le> p"
    using assms(1) by (auto simp: gap_hashed_def)
  then have "unat (p - pos) = unat p - unat pos" by (simp add: unat_diff_u64)
  then show ?thesis
    using zeros_fed [OF assms(2) z] image_of_append_zeros [of "unat pos" "unat p" A mem] le assms(3)
    by (simp add: word_le_nat_alt)
qed

lemma StoreCopied_synced:
  assumes "StoreCopied W H cfg r st = (True, st')" and "synced A st"
    and "length (rr_data r) = unat (rr_copied r)" and "rr_copied r \<noteq> 0"
    and "run \<in> set runs" and "run_ok run"
    and "{unat (rr_physicalAddress r) ..< unat (rr_physicalAddress r) + unat (rr_copied r)} \<subseteq>
      run_addresses run"
    and "\<And>j. j < length (rr_data r) \<Longrightarrow> rr_data r ! j = mem (unat (rr_physicalAddress r) + j)"
  shows "synced (A \<union> {unat (rr_physicalAddress r) ..<
           unat (rr_physicalAddress r) + unat (rr_copied r)}) st'"
  using assms(1)
proof (rule StoreCopied_True)
  fix h1 w h2 hst
  let ?p = "unat (rr_physicalAddress r)" and ?n = "unat (rr_copied r)"
  assume g: "gap_hashed H (a_hashPosition st) (rr_physicalAddress r) (a_hash st) h1"
    and w: "wr_WriteAt W (rr_physicalAddress r) (rr_data r) (a_wr st) = (True, w)"
    and u: "hs_Update H (rr_data r) h1 = (True, h2)"
    and rm: "room (rr_physicalAddress r) (rr_copied r)"
    and st': "st' = stored_state r w h2 hst st"
  let ?A = "A \<union> {?p ..< ?p + ?n}"
  have hp: "unat (a_hashPosition st) \<le> ?p"
    using g by (simp add: gap_hashed_def word_le_nat_alt)
  have A: "A \<subseteq> {..<?p}" using assms(2) hp by (auto simp: synced_def)
  have ne: "rr_data r \<noteq> []" using assms(3,4) by (auto simp: unat_gt_0 [symmetric])
  have "holds A (a_wr st)" using assms(2) by (simp add: synced_def)
  from write_holds [OF this A ne assms(5,6) _ assms(8) w] have "holds ?A w"
    using assms(3,7) by simp
  moreover have h1: "fed h1 = Some (image_of mem A ?p)"
    using gap_fed [OF g] assms(2) by (simp add: synced_def)
  have "fed h2 = Some (image_of mem ?A (?p + ?n))"
    using update_fed [OF h1 u] image_of_append [of "rr_data r" mem ?p A] assms(3,8) by simp
  ultimately show ?thesis
    using st' A room_unat [OF rm] by (auto simp: synced_def)
qed

definition acquired_in_run :: "MemoryRun list \<Rightarrow> nat \<Rightarrow> ('d, 'w, 'h) acq \<Rightarrow> nat set" where
  "acquired_in_run rs k st =
     (done_addresses rs k \<union>
        {unat (mr_base (rs ! k)) ..< unat (mr_base (rs ! k)) + unat (a_offset st)}) -
     spans_addresses (as_unreadable (a_summary st))"

definition synced_in_run :: "nat \<Rightarrow> ('d, 'w, 'h) acq \<Rightarrow> bool" where
  "synced_in_run k st \<longleftrightarrow> spans_in_run runs k st \<and> dinv (a_dev st) \<and>
     synced (acquired_in_run runs k st) st \<and>
     unat (a_hashPosition st) \<le> unat (mr_base (runs ! k)) + unat (a_offset st)"

definition synced_between :: "nat \<Rightarrow> ('d, 'w, 'h) acq \<Rightarrow> bool" where
  "synced_between k st \<longleftrightarrow> spans_between runs k st \<and> dinv (a_dev st) \<and>
     synced (done_addresses runs k - spans_addresses (as_unreadable (a_summary st))) st \<and>
     unat (a_hashPosition st) \<le> frontier runs k"

lemma spans_ok_addresses: "spans_ok A fr ss \<Longrightarrow> spans_addresses ss \<subseteq> A \<inter> {..<fr}"
  by (fastforce simp: spans_ok_def spans_addresses_def span_addresses_def span_end_def)

lemma synced_in_run_store:
  assumes ok: "run_ok (runs ! k)" and k: "k < length runs" and i: "synced_in_run k s"
    and req: "request_ok (runs ! k) (a_offset s) m"
    and rd: "dev_Read D (mr_driverIndex (runs ! k)) (a_offset s) m (a_dev s) = (True, r, d)"
    and v: "ValidateReadResult r (mr_base (runs ! k) + a_offset s) m" and ne: "rr_copied r \<noteq> 0"
    and st: "StoreCopied W H cfg r (s\<lparr> a_host := host_tick (a_host s), a_dev := d \<rparr>) = (True, s')"
  shows "synced_in_run k s'"
proof -
  let ?p = "unat (mr_base (runs ! k)) + unat (a_offset s)" and ?c = "unat (rr_copied r)"
  let ?s = "s\<lparr> a_host := host_tick (a_host s), a_dev := d \<rparr>"
  have p: "unat (rr_physicalAddress r) = ?p"
    using v req unat_run_address [OF ok, of "a_offset s"]
    by (simp add: ValidateReadResult_def request_ok_def)
  have sp: "spans_in_run runs k s'"
    using run_invariant_store [OF spans_in_run_invariant [of runs k], OF ok _ req rd v ne st] i
    by (simp add: synced_in_run_def)
  have off: "unat (a_offset s') = unat (a_offset s) + ?c"
    and hp: "unat (a_hashPosition s') = ?p + ?c"
    and same: "as_unreadable (a_summary s') = as_unreadable (a_summary s)" "a_dev s' = d"
    using st p by (auto elim!: StoreCopied_True simp: room_unat)
  have sub: "spans_addresses (as_unreadable (a_summary s)) \<subseteq> {..<?p}"
    using i spans_ok_addresses by (fastforce simp: synced_in_run_def spans_in_run_def)
  have "synced (acquired_in_run runs k s) ?s"
    using i by (simp add: synced_in_run_def synced_def)
  moreover have "?c \<le> unat m" "length (rr_data r) = ?c"
    using v by (simp_all add: ValidateReadResult_def word_le_nat_alt)
  moreover from this have "{?p ..< ?p + ?c} \<subseteq> run_addresses (runs ! k)"
    using req by (auto simp: run_addresses_def request_ok_def)
  ultimately have "synced (acquired_in_run runs k s \<union> {?p ..< ?p + ?c}) s'"
    using StoreCopied_synced [OF st _ _ ne nth_mem [OF k] ok] reads_memory [OF _ rd] i p
    by (simp add: synced_in_run_def)
  also have "acquired_in_run runs k s \<union> {?p ..< ?p + ?c} = acquired_in_run runs k s'"
    using sub by (fastforce simp: acquired_in_run_def off same)
  finally show ?thesis
    using sp hp off same read_inv [OF _ rd] i by (simp add: synced_in_run_def)
qed

lemma synced_in_run_unreadable:
  assumes ok: "run_ok (runs ! k)" and ord: "runs_ordered runs" "k < length runs"
    and i: "synced_in_run k s" and req: "request_ok (runs ! k) (a_offset s) m"
    and au: "AddUnreadable (a_summary s) (mr_base (runs ! k) + a_offset s) (ucast m) x = (True, sm)"
    and rm: "room (a_offset s) m" "room (a_processed s) m"
  shows "synced_in_run k (unreadable_state sm m s)"
proof -
  let ?s' = "unreadable_state sm m s"
  let ?b = "unat (mr_base (runs ! k))" and ?o = "unat (a_offset s)"
  have p: "unat (mr_base (runs ! k) + a_offset s) = ?b + ?o"
    using req by (intro unat_run_address [OF ok]) (simp add: request_ok_def)
  have sp: "spans_in_run runs k ?s'"
    using run_invariant_unreadable [OF spans_in_run_invariant [of runs k], OF ok _ req au rm] i
    by (simp add: synced_in_run_def)
  have off: "unat (a_offset ?s') = ?o + unat m"
    using room_unat [OF rm(1)] by (simp add: unreadable_state_def)
  have add: "spans_addresses (as_unreadable (a_summary ?s')) =
      spans_addresses (as_unreadable (a_summary s)) \<union> {?b + ?o ..< ?b + ?o + unat m}"
    using AddUnreadable_addresses [OF au] p by (simp add: unreadable_state_def)
  have "done_addresses runs k \<subseteq> {..<?b}"
    using done_addresses_frontier [OF ord(1), of k] frontier_le_base [OF ord] ord(2) by fastforce
  then have "acquired_in_run runs k ?s' = acquired_in_run runs k s"
    unfolding acquired_in_run_def add off by auto
  then show ?thesis
    using sp i off by (simp add: synced_in_run_def synced_def unreadable_state_def)
qed

lemma synced_in_run_invariant:
  assumes "run_ok (runs ! k)" and "runs_ordered runs" "k < length runs"
  shows "run_invariant D W H cfg (runs ! k) (synced_in_run k)"
proof (rule run_invariantI)
  show "synced_in_run k (s\<lparr> a_host := host_tick (a_host s), a_dev := d \<rparr>)"
    if "synced_in_run k s"
      and "dev_Read D (mr_driverIndex (runs ! k)) (a_offset s) m (a_dev s) = (True, r, d)" for s m r d
    using that read_inv [OF _ that(2)]
    by (simp add: synced_in_run_def synced_def spans_in_run_def acquired_in_run_def)
next
  fix s n' r d s'
  assume "synced_in_run k s" "request_ok (runs ! k) (a_offset s) n'"
    "dev_Read D (mr_driverIndex (runs ! k)) (a_offset s) n' (a_dev s) = (True, r, d)"
    "ValidateReadResult r (mr_base (runs ! k) + a_offset s) n'" "rr_copied r \<noteq> 0"
    "StoreCopied W H cfg r (s\<lparr> a_host := host_tick (a_host s), a_dev := d \<rparr>) = (True, s')"
  then show "synced_in_run k s'" by (rule synced_in_run_store [OF assms(1,3)])
next
  fix s n' st x
  assume "synced_in_run k s" "request_ok (runs ! k) (a_offset s) n'"
    "AddUnreadable (a_summary s) (mr_base (runs ! k) + a_offset s) (ucast n') x = (True, st)"
    "room (a_offset s) n'" "room (a_processed s) n'"
  then show "synced_in_run k (unreadable_state st n' s)"
    by (rule synced_in_run_unreadable [OF assms])
next
  fix s assume "synced_in_run k s"
  then show "synced_in_run k (ReportProgress cfg s)"
    by (simp add: synced_in_run_def synced_def spans_in_run_def acquired_in_run_def)
qed

lemma AcquireRuns_synced:
  assumes "AcquireRuns D W H cfg runs st = (True, st')" and "runs_ordered runs"
    and "synced_between 0 st"
  shows "synced_between (length runs) st'"
proof (rule AcquireRuns_invariant [OF assms(1), where J = "synced_between" and I = "synced_in_run"])
  fix k and s :: "('d, 'w, 'h) acq"
  assume k: "k < length runs" and s: "synced_between k s"
  have "spans_in_run runs k (s\<lparr> a_offset := 0 \<rparr>)"
    using frontier_le_base [OF assms(2) k] s
    by (auto simp: synced_between_def spans_between_def spans_in_run_def elim!: spans_ok_mono)
  then show "synced_in_run k (s\<lparr> a_offset := 0 \<rparr>)"
    using frontier_le_base [OF assms(2) k] s
    by (simp add: synced_between_def synced_in_run_def acquired_in_run_def synced_def)
next
  fix k and s :: "('d, 'w, 'h) acq"
  assume k: "k < length runs" and s: "synced_in_run k s" and o: "a_offset s = mr_length (runs ! k)"
  then show "synced_between (Suc k) s"
    by (simp add: synced_between_def synced_in_run_def spans_between_def spans_in_run_def frontier_def
        run_end_def done_addresses_Suc run_addresses_def acquired_in_run_def)
qed (use assms in \<open>auto simp: synced_in_run_def spans_in_run_def intro: synced_in_run_invariant\<close>)

lemma Acquire_holds:
  assumes "Acquire D W H cfg d w h host = (True, r)" and "dinv d"
    and "as_ranges (ar_summary r) = runs"
    and "holds {} w" and "fed h = Some []"
  defines "A \<equiv> (\<Union>run \<in> set runs. run_addresses run) - spans_addresses (as_unreadable (ar_summary r))"
  shows "holds A (ar_wr r)"
    and "fed (ar_hash r) = Some (image_of mem A (unat (as_logicalSize (ar_summary r))))"
    and "A \<subseteq> {..<unat (as_logicalSize (ar_summary r))}"
proof -
  obtain hi tot rs d1 d2 ok hints st0 st1 where
      q: "dev_Query D d = (True, (hi, tot, rs), d1)"
    and hq: "dev_QueryHints D d1 = (ok, hints, d2)"
    and sum: "as_ranges (ar_summary r) = rs" "as_logicalSize (ar_summary r) = hi"
      "as_unreadable (ar_summary r) = as_unreadable (a_summary st1)" "ar_wr r = a_wr st1"
    and parts: "a_dev st0 = d2" "a_wr st0 = w" "a_hash st0 = h" "a_hashPosition st0 = 0"
    and st0: "as_unreadable (a_summary st0) = []"
    and ar: "AcquireRuns D W H cfg rs st0 = (True, st1)"
    and g: "gap_hashed H (a_hashPosition st1) hi (a_hash st1) (ar_hash r)"
    by (rule Acquire_summary [OF assms(1)]) (rule that; assumption)
  have rs: "rs = runs" using sum(1) assms(3) by simp
  have wf: "runs_ordered runs" and "dinv d2"
    using query_runs [OF assms(2) q] query_inv [OF assms(2) q] hints_inv [OF _ hq] rs
    by (auto simp: runs_wf_def)
  then have "synced_between 0 st0"
    using st0 assms(4,5) parts
    by (simp add: synced_between_def spans_between_def synced_def image_of_empty done_addresses_def
        spans_addresses_def)
  from AcquireRuns_synced [OF ar [unfolded rs] wf this]
  have s: "synced A st1"
    by (simp add: synced_between_def A_def sum done_addresses_all)
  have hp: "unat (a_hashPosition st1) \<le> unat hi"
    using g by (simp add: gap_hashed_def word_le_nat_alt)
  show "holds A (ar_wr r)" and "A \<subseteq> {..<unat (as_logicalSize (ar_summary r))}"
    using s hp by (auto simp: synced_def sum)
  show "fed (ar_hash r) = Some (image_of mem A (unat (as_logicalSize (ar_summary r))))"
    using gap_fed [OF g] s by (simp add: synced_def sum)
qed

end

section \<open>Flat images\<close>

text \<open>A writer that keeps the image contract holds the flat image of the addresses.\<close>

locale flat_acquisition =
  image_writer_contract W image + hasher_contract H fed digest_hex + device_contract D dinv
  for W :: "'w IRawWriter" and image :: "'w \<Rightarrow> bytes option"
    and H :: "'h IHasher" and fed :: "'h \<Rightarrow> bytes option" and digest_hex :: "bytes \<Rightarrow> string"
    and D :: "'d IDeviceSession" and dinv :: "'d \<Rightarrow> bool" +
  fixes mem :: "nat \<Rightarrow> u8" and n :: nat
  assumes device_reads_memory:
    "dinv d \<Longrightarrow> dev_Read D i off m d = (True, r, d') \<Longrightarrow> j < length (rr_data r) \<Longrightarrow>
     rr_data r ! j = mem (unat (rr_physicalAddress r) + j)"

sublocale flat_acquisition \<subseteq>
  acquisition H fed digest_hex D dinv W mem runs "\<lambda>A w. image w = Some (image_of mem A n)" for runs
proof
  fix d i off m r d' j
  assume "dinv d" "dev_Read D i off m d = (True, r, d')" "j < length (rr_data r)"
  then show "rr_data r ! j = mem (unat (rr_physicalAddress r) + j)"
    by (rule device_reads_memory)
next
  fix A w p xs run w'
  assume img: "image w = Some (image_of mem A n)"
    and data: "\<And>j. j < length xs \<Longrightarrow> xs ! j = mem (unat p + j)"
    and wr: "wr_WriteAt W p xs w = (True, w')"
  show "image w' = Some (image_of mem (A \<union> {unat p ..< unat p + length xs}) n)"
    using write_image [OF img wr] overlay_image_of [of "unat p" xs n mem A] data by simp
qed

context flat_acquisition
begin

lemma Acquire_flat:
  assumes "Acquire D W H cfg d w h host = (True, r)" and "dinv d"
    and "image w = Some (replicate n 0)" and "fed h = Some []"
  defines "A \<equiv> (\<Union>run \<in> set (as_ranges (ar_summary r)). run_addresses run) -
                spans_addresses (as_unreadable (ar_summary r))"
  shows "image (ar_wr r) = Some (image_of mem A n)"
    and "fed (ar_hash r) = Some (image_of mem A (unat (as_logicalSize (ar_summary r))))"
  using Acquire_holds [OF assms(1,2) refl] assms(3,4) by (simp_all add: A_def image_of_empty)

end

end
