(* ===== verification/AcquireProgress.thy ===== *)
theory AcquireProgress
  imports AcquireSafety AcquireImage
begin

text \<open>
  Progress of the acquisition engine: when the device answers every legal request with a valid
  result, the writer and the hasher do not fail and nobody cancels, \<open>Acquire\<close> returns \<open>true\<close>. None
  of its own checks (validation, overflow of a counter, order of the hash position) can stop it,
  and its loops end.
\<close>

lemma PaceTransfer_uncancelled:
  assumes "\<forall>n. \<not> h_cancel h n"
  shows "\<exists>h'. PaceTransfer b r t h = (True, h') \<and> (\<forall>n. \<not> h_cancel h' n)"
proof -
  obtain ok h' where p: "PaceTransfer b r t h = (ok, h')" by fastforce
  show ?thesis
  proof (cases "r = 0")
    case True
    then show ?thesis using assms by (simp add: PaceTransfer_def)
  next
    case False
    then have "PaceLoop (word_of_int t + pace_target_ns (h_round h) b r) h = (ok, h')"
      using p by (simp add: PaceTransfer_def)
    from PaceLoop_result [OF this] assms show ?thesis
      using p by (auto simp: host_after_def)
  qed
qed

lemma AddUnreadable_succeeds:
  assumes "len \<noteq> 0" and "unat (as_unreadableBytes s) + unat len < 2 ^ 64"
  shows "\<exists>s'. AddUnreadable s start len status = (True, s')"
  using assms by (simp add: AddUnreadable_def CheckedAdd_def Let_def word_gt_max_minus_iff)

lemma ReportProgress_cancel [simp]: "h_cancel (a_host (ReportProgress cfg st)) = h_cancel (a_host st)"
  by (auto simp: ReportProgress_def clock_now_def Let_def)

locale reliable_acquisition =
  fixes D :: "'d IDeviceSession" and W :: "'w IRawWriter" and H :: "'h IHasher"
    and dinv :: "'d \<Rightarrow> bool" and winv :: "'w \<Rightarrow> bool" and hinv :: "'h \<Rightarrow> bool"
    and hi tot :: u64 and runs :: "MemoryRun list"
  assumes query: "dinv d \<Longrightarrow> \<exists>d'. dev_Query D d = (True, (hi, tot, runs), d') \<and> dinv d'"
    and hints: "dinv d \<Longrightarrow> dev_QueryHints D d = (ok, x, d') \<Longrightarrow> dinv d'"
    and read: "dinv d \<Longrightarrow> run \<in> set runs \<Longrightarrow> request_ok run off n \<Longrightarrow>
       \<exists>r d'. dev_Read D (mr_driverIndex run) off n d = (True, r, d') \<and>
              ValidateReadResult r (mr_base run + off) n \<and> dinv d'"
    and end_ok: "dinv d \<Longrightarrow> \<exists>c d'. dev_End D d = (True, c, d')"
    and write_succeeds: "winv w \<Longrightarrow> run \<in> set runs \<Longrightarrow> xs \<noteq> [] \<Longrightarrow>
       {unat p ..< unat p + length xs} \<subseteq> run_addresses run \<Longrightarrow>
       \<exists>w'. wr_WriteAt W p xs w = (True, w') \<and> winv w'"
    and update: "hinv h \<Longrightarrow> \<exists>h'. hs_Update H xs h = (True, h') \<and> hinv h'"
    and zeros: "hinv h \<Longrightarrow> \<exists>h'. hs_UpdateZeros H m h = (True, h') \<and> hinv h'"
    and shape: "runs \<noteq> []" "runs_wf runs" "runs_total runs < 2 ^ 64" "hi \<noteq> 0" "tot \<noteq> 0"
      "\<forall>r \<in> set runs. run_end r \<le> unat hi"
begin

text \<open>The state inside a run: everything live, every counter bounded by the bytes passed.\<close>

definition live :: "('d, 'w, 'h) acq \<Rightarrow> bool" where
  "live st \<longleftrightarrow> dinv (a_dev st) \<and> winv (a_wr st) \<and> hinv (a_hash st) \<and> (\<forall>n. \<not> h_cancel (a_host st) n) \<and>
     unat (as_acquiredBytes (a_summary st)) \<le> unat (a_processed st) \<and>
     unat (as_unreadableBytes (a_summary st)) \<le> unat (a_processed st) \<and>
     unat (a_transferred st) \<le> unat (a_processed st)"

definition ready :: "nat \<Rightarrow> MemoryRun \<Rightarrow> ('d, 'w, 'h) acq \<Rightarrow> bool" where
  "ready before run st \<longleftrightarrow> live st \<and> before + unat (mr_length run) < 2 ^ 64 \<and> run \<in> set runs \<and>
     unat (a_hashPosition st) \<le> unat (mr_base run) + unat (a_offset st) \<and>
     a_offset st \<le> mr_length run \<and> unat (a_processed st) = before + unat (a_offset st)"

lemma ready_address:
  assumes "ready before run st"
  shows "unat (mr_base run + a_offset st) = unat (mr_base run) + unat (a_offset st)" and "run_ok run"
proof -
  show ok: "run_ok run" using assms shape(2) by (simp add: ready_def runs_wf_def)
  show "unat (mr_base run + a_offset st) = unat (mr_base run) + unat (a_offset st)"
    by (rule unat_run_address [OF ok]) (use assms in \<open>simp add: ready_def word_le_nat_alt\<close>)
qed

lemma read_succeeds:
  assumes "ready before run st" and "request_ok run (a_offset st) n"
  shows "\<exists>r st'. read_run D (mr_driverIndex run) (a_offset st) n (mr_base run + a_offset st) st = (True, r, st') \<and>
    ValidateReadResult r (mr_base run + a_offset st) n \<and> ready before run st' \<and>
    a_offset st' = a_offset st \<and> a_summary st' = a_summary st"
proof -
  have "dinv (a_dev st)" "run \<in> set runs" using assms(1) by (simp_all add: ready_def live_def)
  from read [OF this assms(2)] obtain r d where
    "dev_Read D (mr_driverIndex run) (a_offset st) n (a_dev st) = (True, r, d)"
    "ValidateReadResult r (mr_base run + a_offset st) n" "dinv d" by blast
  then show ?thesis
    using assms(1) by (auto simp: read_run_def ready_def live_def)
qed

lemma hashZerosTo_succeeds:
  assumes "hinv (a_hash st)" and "a_hashPosition st \<le> p"
  shows "\<exists>h. hinv h \<and> hashZerosTo H p st = (True, st\<lparr> a_hash := h, a_hashPosition := p \<rparr>)"
proof (cases "a_hashPosition st = p")
  case True
  then show ?thesis using assms(1) by (auto simp: hashZerosTo_def intro: exI [of _ "a_hash st"])
next
  case False
  then have "\<not> p < a_hashPosition st" "a_hashPosition st < p" using assms(2) by simp_all
  moreover obtain h where "hs_UpdateZeros H (p - a_hashPosition st) (a_hash st) = (True, h)" "hinv h"
    using zeros [OF assms(1)] by blast
  ultimately show ?thesis by (auto simp: hashZerosTo_def)
qed

lemma StoreCopied_succeeds:
  assumes "ready before run st" and "request_ok run (a_offset st) n"
    and "ValidateReadResult r (mr_base run + a_offset st) n" and "rr_copied r \<noteq> 0"
  shows "\<exists>st'. StoreCopied W H cfg r st = (True, st') \<and> ready before run st'"
proof -
  let ?p = "mr_base run + a_offset st" and ?n = "rr_copied r" and ?b = "mr_base run"
  note rd = assms(1) [unfolded ready_def live_def]
  have p: "rr_physicalAddress r = ?p" and len: "length (rr_data r) = unat ?n" and le: "unat ?n \<le> unat n"
    using assms(3) by (simp_all add: ValidateReadResult_def word_le_nat_alt)
  have fit: "unat (a_offset st) + unat ?n \<le> unat (mr_length run)"
    using assms(2) le by (simp add: request_ok_def)
  have addr: "unat ?p = unat ?b + unat (a_offset st)" by (rule ready_address(1) [OF assms(1)])
  have ok: "unat ?b + unat (mr_length run) < 2 ^ 64"
    using ready_address(2) [OF assms(1)] by (simp add: run_ok_def)
  have ge: "a_hashPosition st \<le> ?p" using rd addr by (simp add: word_le_nat_alt)
  obtain h1 where h1: "hinv h1" "hashZerosTo H ?p st = (True, st\<lparr> a_hash := h1, a_hashPosition := ?p \<rparr>)"
    using hashZerosTo_succeeds [OF _ ge] rd by blast
  have "rr_data r \<noteq> []" using len assms(4) by (metis unat_eq_zero length_0_conv)
  moreover have "{unat ?p ..< unat ?p + length (rr_data r)} \<subseteq> run_addresses run"
    using addr fit by (auto simp: run_addresses_def len)
  ultimately obtain w where w: "wr_WriteAt W ?p (rr_data r) (a_wr st) = (True, w)" "winv w"
    using write_succeeds [of "a_wr st" run "rr_data r" ?p] rd by blast
  obtain h2 where h2: "hs_Update H (rr_data r) h1 = (True, h2)" "hinv h2"
    using update [OF h1(1)] by blast
  have room: "unat ?p + unat ?n < 2 ^ 64" "unat (a_offset st) + unat ?n < 2 ^ 64"
    "unat (a_processed st) + unat ?n < 2 ^ 64" "unat (as_acquiredBytes (a_summary st)) + unat ?n < 2 ^ 64"
    "unat (a_transferred st) + unat ?n < 2 ^ 64"
    using addr fit ok rd by linarith+
  obtain hst where pace: "PaceTransfer (a_transferred st + ucast ?n) (cfg_rateLimitMBps cfg)
        (a_startedAt st) (a_host st) = (True, hst)" "\<forall>n. \<not> h_cancel hst n"
    using PaceTransfer_uncancelled rd by blast
  have sc: "StoreCopied W H cfg r st = (True, stored_state r w h2 hst st)"
    unfolding StoreCopied_def
    using h1(2) w(1) h2(1) room pace(1)
    by (simp add: all_ok_Cons p write_data_def hash_data_def add_hashPosition_def add_offset_def
        add_processed_def add_acquired_def add_transferred_def CheckedAdd_def word_gt_max_minus_iff
        pace_def stored_state_def add.commute)
  have "ready before run (stored_state r w h2 hst st)"
    using rd w(2) h2(2) pace(2) room fit addr
    by (auto simp: ready_def live_def p unat_add_u64 word_le_nat_alt)
  with sc show ?thesis by blast
qed

lemma PageStep_succeeds:
  assumes "ready before run st" and "a_offset st < chunkEnd" and "chunkEnd \<le> mr_length run"
  shows "\<exists>f st'. PageStep D W H cfg run chunkEnd st = (f, st') \<and> f \<noteq> Fail \<and> ready before run st'"
proof -
  let ?n = "page_request_bytes (mr_base run + a_offset st) chunkEnd (a_offset st)"
  let ?st = "st\<lparr> a_host := host_tick (a_host st) \<rparr>"
  have req: "request_ok run (a_offset st) ?n" by (rule page_request_ok [OF assms(2,3)])
  have rd: "ready before run ?st" using assms(1) by (simp add: ready_def live_def)
  have nc: "load_cancelled st = (False, ?st)"
    using assms(1) by (simp add: load_cancelled_def cancel_load_def ready_def live_def)
  obtain r st1 where r: "read_run D (mr_driverIndex run) (a_offset st) ?n (mr_base run + a_offset st) ?st = (True, r, st1)"
    and v: "ValidateReadResult r (mr_base run + a_offset st) ?n" and rd1: "ready before run st1"
    and same: "a_offset st1 = a_offset st" "a_summary st1 = a_summary st"
    using read_succeeds [OF rd, of ?n] req by auto
  show ?thesis
  proof (cases "rr_copied r = 0")
    case False
    from StoreCopied_succeeds [OF rd1, of ?n r cfg] req v False same obtain st2 where
      "StoreCopied W H cfg r st1 = (True, st2)" "ready before run st2" by auto
    then show ?thesis
      using nc r False by (simp add: PageStep_def Let_def split: if_splits)
  next
    case True
    note rdx = rd1 [unfolded ready_def live_def]
    have fit: "unat (a_offset st) + unat ?n \<le> unat (mr_length run)" "?n \<noteq> 0"
      using req by (simp_all add: request_ok_def)
    have room: "unat (a_offset st1) + unat ?n < 2 ^ 64" "unat (a_processed st1) + unat ?n < 2 ^ 64"
      "unat (as_unreadableBytes (a_summary st1)) + unat (ucast ?n :: u64) < 2 ^ 64"
      using rdx fit(1) same unat_lt_u64 [of "mr_length run"] by (simp_all del: unat_lt_u64)
    have "(ucast ?n :: u64) \<noteq> 0" using fit(2) by (metis unat_ucast_32_64 unat_eq_zero)
    from AddUnreadable_succeeds [OF this room(3)] obtain s where
      s: "AddUnreadable (a_summary st1) (mr_base run + a_offset st) (ucast ?n) (rr_copyStatus r) = (True, s)" by blast
    let ?st2 = "unreadable_state s ?n st1"
    have "unat (as_unreadableBytes s) = unat (as_unreadableBytes (a_summary st1)) + unat ?n"
      "as_acquiredBytes s = as_acquiredBytes (a_summary st1)"
      using AddUnreadable_True [OF s] AddUnreadable_frame(5) [OF s] by (simp_all add: unat_add_u64)
    then have "ready before run ?st2"
      using rdx room fit(1) same
      by (auto simp: ready_def live_def unreadable_state_def unat_add_u64 word_le_nat_alt)
    moreover have "all_ok [add_processed (ucast ?n), add_offset (ucast ?n)] (st1\<lparr> a_summary := s \<rparr>) = (True, ?st2)"
      using room by (simp add: counters_True unreadable_state_def)
    ultimately show ?thesis
      using nc r True s by (simp add: PageStep_def Let_def del: all_ok_Cons_True)
  qed
qed

lemma PageLoop_succeeds:
  assumes "ready before run st" and "chunkEnd \<le> mr_length run"
  shows "\<exists>st'. PageLoop D W H cfg run chunkEnd st = (True, st') \<and> ready before run st'"
  using assms(1)
proof (induction "unat chunkEnd - unat (a_offset st)" arbitrary: st rule: less_induct)
  case less
  show ?case
  proof (cases "a_offset st < chunkEnd")
    case False
    then show ?thesis using less.prems by (simp add: PageLoop.simps [of D])
  next
    case True
    obtain f st1 where st: "PageStep D W H cfg run chunkEnd st = (f, st1)" "f \<noteq> Fail" "ready before run st1"
      using PageStep_succeeds [OF less.prems True assms(2)] by blast
    show ?thesis
    proof (cases f)
      case Break
      then show ?thesis using True st by (simp add: PageLoop.simps [of D W H cfg run chunkEnd st])
    next
      case Continue
      then have "unat chunkEnd - unat (a_offset st1) < unat chunkEnd - unat (a_offset st)"
        using PageStep_decreases [OF True] st(1) by metis
      from less.hyps [OF this st(3)] show ?thesis
        using True st Continue by (simp add: PageLoop.simps [of D W H cfg run chunkEnd st])
    qed (use st in simp)
  qed
qed

lemma BulkStep_succeeds:
  assumes "ready before run st" and "a_offset st < mr_length run"
  shows "\<exists>st'. BulkStep D W H cfg run st = (True, st') \<and> ready before run st'"
proof -
  let ?n = "bulk_request_bytes run (a_offset st)"
  let ?st = "st\<lparr> a_host := host_tick (a_host st) \<rparr>"
  have req: "request_ok run (a_offset st) ?n" by (rule bulk_request_ok [OF assms(2)])
  have rd: "ready before run ?st" using assms(1) by (simp add: ready_def live_def)
  have nc: "load_cancelled st = (False, ?st)"
    using assms(1) by (simp add: load_cancelled_def cancel_load_def ready_def live_def)
  obtain r st1 where r: "read_run D (mr_driverIndex run) (a_offset st) ?n (mr_base run + a_offset st) ?st = (True, r, st1)"
    and v: "ValidateReadResult r (mr_base run + a_offset st) ?n" and rd1: "ready before run st1"
    and same: "a_offset st1 = a_offset st" "a_summary st1 = a_summary st"
    using read_succeeds [OF rd, of ?n] req by auto
  obtain st2 where sc: "(if rr_copied r \<noteq> 0 then StoreCopied W H cfg r st1 else (True, st1)) = (True, st2)"
    and rd2: "ready before run st2"
    and off2: "unat (a_offset st2) = unat (a_offset st) + unat (rr_copied r)"
  proof (cases "rr_copied r = 0")
    case True
    then show ?thesis using that [of st1] rd1 same by simp
  next
    case False
    from StoreCopied_succeeds [OF rd1, of ?n r cfg] req v False same obtain st2 where
      s2: "StoreCopied W H cfg r st1 = (True, st2)" "ready before run st2" by auto
    have "unat (a_offset st2) = unat (a_offset st1) + unat (rr_copied r)"
      using s2(1) by (auto elim!: StoreCopied_True simp: room_unat)
    then show ?thesis using that [of st2] s2 False same by simp
  qed
  have report: "ready before run (ReportProgress cfg t)" if "ready before run t" for t
    using that by (simp add: ready_def live_def)
  let ?w = "?n - rr_copied r"
  show ?thesis
  proof (cases "rr_copied r = ?n")
    case True
    then show ?thesis
      using nc r sc report [OF rd2] by (simp add: BulkStep_def Let_def)
  next
    case False
    have le: "rr_copied r \<le> ?n" using v by (simp add: ValidateReadResult_def)
    have "unat ?w = unat ?n - unat (rr_copied r)"
      using le by (simp add: unat_sub_if' word_le_nat_alt)
    then have "unat (a_offset st2) + unat ?w \<le> unat (mr_length run)"
      using req off2 le by (simp add: request_ok_def word_le_nat_alt)
    then have "\<not> a_offset st2 > u64_max - ucast ?w"
      using unat_lt_u64 [of "mr_length run"] by (simp add: word_gt_max_minus_iff del: unat_lt_u64)
    moreover obtain st3 where "PageLoop D W H cfg run (min (mr_length run) (a_offset st2 + ucast ?w)) st2 = (True, st3)"
      "ready before run st3"
      using PageLoop_succeeds [OF rd2, of "min (mr_length run) (a_offset st2 + ucast ?w)"] by auto
    ultimately show ?thesis
      using nc r sc False report [of st3] by (simp add: BulkStep_def Let_def)
  qed
qed

lemma AcquireRun_succeeds:
  assumes "ready before run st"
  shows "\<exists>st'. AcquireRun D W H cfg run st = (True, st') \<and> ready before run st' \<and> a_offset st' = mr_length run"
  using assms
proof (induction "unat (mr_length run) - unat (a_offset st)" arbitrary: st rule: less_induct)
  case less
  show ?case
  proof (cases "a_offset st < mr_length run")
    case False
    then show ?thesis
      using less.prems by (auto simp: AcquireRun.simps [of D W H cfg run st] ready_def)
  next
    case True
    obtain st1 where st: "BulkStep D W H cfg run st = (True, st1)" "ready before run st1"
      using BulkStep_succeeds [OF less.prems True] by blast
    have "unat (mr_length run) - unat (a_offset st1) < unat (mr_length run) - unat (a_offset st)"
      by (rule BulkStep_decreases [OF True st(1) [symmetric]])
    from less.hyps [OF this st(2)] show ?thesis
      using True st by (simp add: AcquireRun.simps [of D W H cfg run st])
  qed
qed

definition between :: "nat \<Rightarrow> nat \<Rightarrow> ('d, 'w, 'h) acq \<Rightarrow> bool" where
  "between before front st \<longleftrightarrow> live st \<and> unat (a_processed st) = before \<and> unat (a_hashPosition st) \<le> front"

lemma AcquireRuns_succeeds:
  assumes "between before front st" and "runs_ordered rs" and "\<forall>r \<in> set rs. front \<le> unat (mr_base r)"
    and "set rs \<subseteq> set runs" and "before + runs_total rs < 2 ^ 64" and "front \<le> unat hi"
  shows "\<exists>st'. AcquireRuns D W H cfg rs st = (True, st') \<and> live st' \<and> unat (a_hashPosition st') \<le> unat hi"
  using assms
proof (induction rs arbitrary: before front st)
  case Nil
  then show ?case by (auto simp: between_def)
next
  case (Cons run rs)
  have ok: "run_ok run" using Cons.prems(4) shape(2) by (simp add: runs_wf_def)
  then have guard: "\<not> (mr_length run = 0 \<or> mr_base run > u64_max - mr_length run)"
    by (simp add: run_ok_def word_gt_max_minus_iff add.commute)
  have rd: "ready before run (st\<lparr> a_offset := 0 \<rparr>)"
    using Cons.prems by (auto simp: ready_def live_def between_def)
  obtain st1 where st1: "AcquireRun D W H cfg run (st\<lparr> a_offset := 0 \<rparr>) = (True, st1)"
    "ready before run st1" "a_offset st1 = mr_length run"
    using AcquireRun_succeeds [OF rd] by blast
  have "between (before + unat (mr_length run)) (run_end run) st1"
    using st1(2,3) by (simp add: between_def ready_def run_end_def)
  moreover have "run_end run \<le> unat hi" using shape(6) Cons.prems(4) by simp
  moreover have "\<forall>r \<in> set rs. run_end run \<le> unat (mr_base r)"
    using runs_ordered_Cons_base [OF Cons.prems(2)] by blast
  ultimately obtain st' where "AcquireRuns D W H cfg rs st1 = (True, st')" "live st'" "unat (a_hashPosition st') \<le> unat hi"
    using Cons.IH [of "before + unat (mr_length run)" "run_end run" st1] Cons.prems runs_ordered_tail
    by (auto simp: add.assoc)
  then show ?case using guard st1(1) by auto
qed

lemma Acquire_succeeds_live:
  assumes "dinv d" and "winv w" and "hinv h" and "\<forall>n. \<not> h_cancel host n"
  shows "\<exists>r. Acquire D W H cfg d w h host = (True, r) \<and> as_ranges (ar_summary r) = runs \<and> as_logicalSize (ar_summary r) = hi \<and>
    as_physicalBytes (ar_summary r) = tot \<and> winv (ar_wr r) \<and> hinv (ar_hash r)"
proof -
  obtain d1 where q: "dev_Query D d = (True, (hi, tot, runs), d1)" "dinv d1" using query [OF assms(1)] by blast
  obtain ok x d2 where hq: "dev_QueryHints D d1 = (ok, x, d2)" by (metis prod.collapse)
  have d2: "dinv d2" by (rule hints [OF q(2) hq])
  obtain t host1 where t: "clock_now host = (t, host1)" by fastforce
  let ?s = "(if ok then AcquisitionSummary_default\<lparr> as_hints := x \<rparr> else AcquisitionSummary_default)
      \<lparr> as_logicalSize := hi, as_physicalBytes := tot, as_ranges := runs \<rparr>"
  let ?st = "(acq_start ?s d2 w h host1)\<lparr> a_startedAt := t \<rparr>"
  have "between 0 0 ?st"
    using d2 assms t by (auto simp: between_def live_def acq_start_def clock_now_def Let_def AcquisitionSummary_default_def)
  then obtain st1 where st1: "AcquireRuns D W H cfg runs ?st = (True, st1)" "live st1" "unat (a_hashPosition st1) \<le> unat hi"
    using AcquireRuns_succeeds [of 0 0 ?st runs] shape(2,3) by (auto simp: runs_wf_def)
  have same: "same_frame (a_summary ?st) (a_summary st1)" using AcquireRuns_frame [OF st1(1)] .
  then have sm: "as_logicalSize (a_summary st1) = hi" "as_ranges (a_summary st1) = runs" "as_physicalBytes (a_summary st1) = tot"
    by (simp_all add: same_frame_def acq_start_def)
  obtain h2 where h2: "hashZerosTo H hi st1 = (True, st1\<lparr> a_hash := h2, a_hashPosition := hi \<rparr>)" "hinv h2"
    using hashZerosTo_succeeds [of st1 hi] st1(2,3) by (auto simp: live_def word_le_nat_alt)
  obtain c d3 where e: "dev_End D (a_dev st1) = (True, c, d3)" using end_ok [of "a_dev st1"] st1(2) unfolding live_def by blast
  have "winv (a_wr st1)" using st1(2) by (simp add: live_def)
  then show ?thesis
    using q hq t st1(1) h2 e sm shape(1,4,5)
    by (simp add: Acquire_def Let_def FinishAcquire_def acq_out_def split: if_splits)
qed

lemma Acquire_succeeds:
  assumes "dinv d" and "winv w" and "hinv h" and "\<forall>n. \<not> h_cancel host n"
  shows "\<exists>r. Acquire D W H cfg d w h host = (True, r) \<and> as_ranges (ar_summary r) = runs \<and> as_logicalSize (ar_summary r) = hi"
  using Acquire_succeeds_live [OF assms] by blast

end

end
