(* ===== verification/Bench.thy ===== *)
theory Bench
  imports AcquireProgress
begin

text \<open>
  A small deterministic test bench for the engine: a device over a memory with a fixed set of
  unreadable addresses, a writer and a hasher that keep the bytes they are given. It keeps every
  contract, so the theorems about the engine can be applied to a run that is evaluated.
\<close>

definition bench_copied :: "(nat \<Rightarrow> bool) \<Rightarrow> nat \<Rightarrow> nat \<Rightarrow> nat" where
  "bench_copied bad p n = length (takeWhile (\<lambda>j. \<not> bad (p + j)) [0..<n])"

definition bench_read ::
  "MemoryRun list \<Rightarrow> (nat \<Rightarrow> u8) \<Rightarrow> (nat \<Rightarrow> bool) \<Rightarrow> u32 \<Rightarrow> u64 \<Rightarrow> u32 \<Rightarrow> ReadResult" where
  "bench_read runs mem bad i off n =
     (let run = runs ! unat i; p = mr_base run + off; c = bench_copied bad (unat p) (unat n)
      in \<lparr> rr_physicalAddress = p, rr_requested = n, rr_copied = of_nat c,
           rr_copyStatus = (if c = unat n then 0 else 0x8000000D),
           rr_data = map (\<lambda>j. mem (unat p + j)) [0..<c] \<rparr>)"

definition bench_device ::
  "u64 \<Rightarrow> u64 \<Rightarrow> MemoryRun list \<Rightarrow> (nat \<Rightarrow> u8) \<Rightarrow> (nat \<Rightarrow> bool) \<Rightarrow> nat IDeviceSession" where
  "bench_device hi tot runs mem bad = \<lparr>
     dev_Open = (\<lambda>d. (True, d)),
     dev_Close = (\<lambda>d. d),
     dev_Query = (\<lambda>d. (True, (hi, tot, runs), d)),
     dev_QueryHints = (\<lambda>d. (False, KernelHints_default, d)),
     dev_Read = (\<lambda>i off n d. (True, bench_read runs mem bad i off n, Suc d)),
     dev_End = (\<lambda>d. (True, False, d)),
     dev_LastError = (\<lambda>d. 0) \<rparr>"

definition bench_writer :: "bytes option IRawWriter" where
  "bench_writer = \<lparr>
     wr_Configure = (\<lambda>_ _ _ w. w),
     wr_PreflightAndOpen = (\<lambda>_ lsize _ _. (True, Some (replicate (unat lsize) 0))),
     wr_WriteAt = (\<lambda>off xs w. case w of None \<Rightarrow> (False, None)
        | Some c \<Rightarrow> if unat off + length xs \<le> length c then (True, Some (overlay c (unat off) xs))
                    else (False, Some c)),
     wr_FlushAndClose = (\<lambda>w. (True, w)),
     wr_Close = (\<lambda>w. w),
     wr_IsSparse = (\<lambda>w. True),
     wr_LastError = (\<lambda>w. 0) \<rparr>"

definition bench_hasher :: "bytes option IHasher" where
  "bench_hasher = \<lparr>
     hs_Initialize = (\<lambda>h. (True, Some [])),
     hs_Update = (\<lambda>xs h. (h \<noteq> None, map_option (\<lambda>bs. bs @ xs) h)),
     hs_UpdateZeros = (\<lambda>n h. (h \<noteq> None, map_option (\<lambda>bs. bs @ replicate (unat n) 0) h)),
     hs_Finish = (\<lambda>h. (h \<noteq> None, map (\<lambda>b. char_of (unat b)) (the h), None)),
     hs_Reset = (\<lambda>h. None) \<rparr>"

definition bench_host :: host where
  "bench_host = \<lparr> h_ns = 0, h_step = 0, h_delay = (\<lambda>n. n), h_cancel = (\<lambda>_. False), h_round = (\<lambda>x. x) \<rparr>"

definition bench_config :: AcquisitionConfig where
  "bench_config = \<lparr> cfg_quiet = True, cfg_rateLimitMBps = 0, cfg_format = Raw,
     cfg_metadata = EvidenceMetadata_default, cfg_onProgress = False \<rparr>"

text \<open>Two runs of 8 and 4 bytes, the bytes at 12 to 13 unreadable.\<close>

definition bench_runs :: "MemoryRun list" where
  "bench_runs = [\<lparr> mr_driverIndex = 0, mr_base = 8, mr_length = 8 \<rparr>,
                 \<lparr> mr_driverIndex = 1, mr_base = 20, mr_length = 4 \<rparr>]"

definition bench_bad :: "nat \<Rightarrow> bool" where "bench_bad a \<longleftrightarrow> a = 12 \<or> a = 13"
definition bench_mem :: "nat \<Rightarrow> u8" where "bench_mem a = of_nat (a + 1)"

definition bench_acquire :: "bool \<times> (nat, bytes option, bytes option) acq_result" where
  "bench_acquire = Acquire (bench_device 24 12 bench_runs bench_mem bench_bad) bench_writer bench_hasher
     bench_config 0 (Some (replicate 24 0)) (Some []) bench_host"

lemma bench_acquire_ok:
  "fst bench_acquire \<and>
   as_unreadable (ar_summary (snd bench_acquire)) =
     [\<lparr> us_start = 12, us_length = 4, us_status = 0x8000000D \<rparr>] \<and>
   as_ranges (ar_summary (snd bench_acquire)) = bench_runs \<and>
   as_logicalSize (ar_summary (snd bench_acquire)) = 24 \<and>
   ar_wr (snd bench_acquire) =
     Some [0, 0, 0, 0, 0, 0, 0, 0, 9, 10, 11, 12, 0, 0, 0, 0, 0, 0, 0, 0, 21, 22, 23, 24]"
  by code_simp

lemma bench_acquireE:
  "bench_acquire = (True, snd bench_acquire)"
  using bench_acquire_ok by (metis prod.collapse)

lemma bench_runs_wf: "runs_wf bench_runs"
  by (auto simp: runs_wf_def bench_runs_def run_ok_def)

lemma bench_flat_acquisition:
  "flat_acquisition bench_writer (\<lambda>w. w) bench_hasher (\<lambda>h. h) (map (\<lambda>b. char_of (unat b)))
     (bench_device hi tot bench_runs mem bad) (\<lambda>_. True) mem"
proof -
  have "image_writer_contract bench_writer (\<lambda>w. w)"
    by unfold_locales (auto simp: bench_writer_def split: if_splits)
  moreover have "hasher_contract bench_hasher (\<lambda>h. h) (map (\<lambda>b. char_of (unat b)))"
    by unfold_locales (auto simp: bench_hasher_def)
  moreover have "device_contract (bench_device hi tot bench_runs mem bad) (\<lambda>_. True)"
    by unfold_locales (auto simp: bench_device_def bench_runs_wf)
  moreover have "flat_acquisition_axioms (bench_device hi tot bench_runs mem bad) (\<lambda>_. True) mem"
    by unfold_locales (auto simp: bench_device_def bench_read_def Let_def)
  ultimately show ?thesis
    by (simp add: flat_acquisition_def)
qed

text \<open>
  The bench device answers every legal request and the bench hasher never fails, so a writer that
  does not fail makes a bench acquisition complete.
\<close>

lemma bench_reliable:
  assumes "\<And>w run xs p. winv w \<Longrightarrow> run \<in> set bench_runs \<Longrightarrow> xs \<noteq> [] \<Longrightarrow>
       {unat p ..< unat p + length xs} \<subseteq> run_addresses run \<Longrightarrow> \<exists>w'. wr_WriteAt W p xs w = (True, w') \<and> winv w'"
  shows "reliable_acquisition (bench_device 24 12 bench_runs mem bad) W bench_hasher (\<lambda>_. True) winv
    (\<lambda>h. h \<noteq> None) 24 12 bench_runs"
proof
  fix d run off n
  assume run: "run \<in> set bench_runs" and req: "request_ok run off n"
  let ?D = "bench_device 24 12 bench_runs mem bad"
  have idx: "bench_runs ! unat (mr_driverIndex run) = run"
    using run by (auto simp: bench_runs_def)
  let ?r = "bench_read bench_runs mem bad (mr_driverIndex run) off n"
  have le: "bench_copied bad q m \<le> m" for q m
    unfolding bench_copied_def using length_takeWhile_le [of "\<lambda>j. \<not> bad (q + j)" "[0..<m]"] by simp
  have small: "bench_copied bad q (unat n) < 2 ^ 32" for q
    by (rule le_less_trans [OF le]) simp
  have "ValidateReadResult ?r (mr_base run + off) n"
    using le small by (simp add: ValidateReadResult_def bench_read_def Let_def idx word_le_nat_alt unat_of_nat_small32)
  then show "\<exists>r d'. dev_Read ?D (mr_driverIndex run) off n d = (True, r, d') \<and>
      ValidateReadResult r (mr_base run + off) n \<and> True"
    by (simp add: bench_device_def)
next
  show "\<forall>r \<in> set bench_runs. run_end r \<le> unat (24 :: u64)"
    by (auto simp: bench_runs_def run_end_def)
qed (use assms in \<open>auto simp: bench_device_def bench_hasher_def bench_runs_wf\<close>, simp_all add: bench_runs_def)

end
