(* ===== verification/AcquirePacing.thy ===== *)
theory AcquirePacing
  imports AcquireSafety
begin

text \<open>
  The deadline of \<open>PaceTransfer\<close> against the exact time the transferred bytes take at the configured
  rate: the rounding errors of the five floating-point operations, the cast to a signed 64-bit count
  of nanoseconds and the sum with the start.
\<close>

text \<open>
  What IEEE 754 says of rounding to the nearest \<open>double\<close> between 2^-100 and 2^100, far from the
  subnormal numbers and from overflow; a wider \<open>long double\<close> does better.
\<close>

definition nearest_double :: "(rat \<Rightarrow> rat) \<Rightarrow> bool" where
  "nearest_double rnd \<longleftrightarrow> rnd 0 = 0 \<and>
     (\<forall>x. 1 / 2 ^ 100 \<le> x \<longrightarrow> x \<le> 2 ^ 100 \<longrightarrow> \<bar>rnd x - x\<bar> \<le> x / 2 ^ 53)"

section \<open>Relative errors\<close>

text \<open>\<open>y\<close> lies between the given multiples of \<open>x\<close>; every rounded operation widens the factors.\<close>

definition between_factors :: "rat \<Rightarrow> rat \<Rightarrow> rat \<Rightarrow> rat \<Rightarrow> bool" where
  "between_factors lo hi x y \<longleftrightarrow> x * lo \<le> y \<and> y \<le> x * hi"

abbreviation rdn :: rat where "rdn \<equiv> 1 - 1 / 2 ^ 53"
abbreviation rup :: rat where "rup \<equiv> 1 + 1 / 2 ^ 53"

lemma rounded:
  assumes "nearest_double rnd" and "between_factors lo hi x y" and "0 \<le> x"
    and "x = 0 \<or> 1 / 2 ^ 60 \<le> x \<and> x \<le> 2 ^ 95" and "1 / 2 \<le> lo" and "0 \<le> hi" and "hi \<le> 2"
  shows "between_factors (lo * rdn) (hi * rup) x (rnd y)"
proof (cases "x = 0")
  case True
  then have "y = 0" using assms(2) by (simp add: between_factors_def)
  moreover have "rnd 0 = 0" using assms(1) by (simp add: nearest_double_def)
  ultimately show ?thesis using True by (simp add: between_factors_def)
next
  case False
  then have x: "1 / 2 ^ 60 \<le> x" "x \<le> 2 ^ 95" using assms(4) by simp_all
  have xy: "x * lo \<le> y" "y \<le> x * hi" using assms(2) by (simp_all add: between_factors_def)
  have "1 / 2 ^ 60 * (1 / 2) \<le> x * lo" by (rule mult_mono) (use x assms in simp_all)
  moreover have "x * hi \<le> 2 ^ 95 * 2" by (rule mult_mono) (use x assms in simp_all)
  ultimately have y: "1 / 2 ^ 100 \<le> y" "y \<le> 2 ^ 100" "x * lo \<le> y" "y \<le> x * hi" using xy by simp_all
  have "\<bar>rnd y - y\<bar> \<le> y / 2 ^ 53"
    using assms(1) y(1,2) unfolding nearest_double_def by blast
  then have "y - y / 2 ^ 53 \<le> rnd y" "rnd y \<le> y + y / 2 ^ 53" by linarith+
  then have r: "y * rdn \<le> rnd y" "rnd y \<le> y * rup" by (simp_all only: right_diff_distrib distrib_left mult_1_right times_divide_eq_right)
  have "x * lo * rdn \<le> rnd y" by (rule order_trans [OF mult_right_mono [OF y(3)] r(1)]) simp
  moreover have "rnd y \<le> x * hi * rup" by (rule order_trans [OF r(2) mult_right_mono [OF y(4)]]) simp
  ultimately show ?thesis unfolding between_factors_def by (simp only: mult.assoc)
qed

lemma between_nonneg: "between_factors lo hi x y \<Longrightarrow> 0 \<le> x \<Longrightarrow> 0 < lo \<Longrightarrow> 0 \<le> x * lo \<and> 0 \<le> y"
  unfolding between_factors_def by (meson less_imp_le mult_nonneg_nonneg order_trans)

lemma between_mult:
  assumes "between_factors lo hi x y" and "between_factors lo' hi' x' y'" and "0 \<le> x" "0 \<le> x'" "0 < lo" "0 < lo'"
  shows "between_factors (lo * lo') (hi * hi') (x * x') (y * y')"
proof -
  note y = between_nonneg [OF assms(1,3,5)] between_nonneg [OF assms(2,4,6)]
  have "(x * lo) * (x' * lo') \<le> y * y'"
    by (rule mult_mono) (use assms y in \<open>simp_all add: between_factors_def\<close>)
  moreover have "y * y' \<le> (x * hi) * (x' * hi')"
    by (rule mult_mono) (use assms y in \<open>auto simp: between_factors_def intro: order_trans\<close>)
  ultimately show ?thesis unfolding between_factors_def by (simp only: ac_simps)
qed

lemma between_div:
  assumes "between_factors lo hi x y" and "between_factors lo' hi' x' y'" and "0 \<le> x" "0 < x'" "0 < lo" "0 < lo'"
  shows "between_factors (lo / hi') (hi / lo') (x / x') (y / y')"
proof -
  have pos: "0 < x' * lo'" using assms by simp
  have y: "0 \<le> x * lo" "0 \<le> y" using between_nonneg [OF assms(1,3,5)] by simp_all
  have y': "x * lo \<le> y" "y \<le> x * hi" "x' * lo' \<le> y'" "y' \<le> x' * hi'"
    using assms(1,2) by (simp_all add: between_factors_def)
  have "0 < y'" using pos y'(3) by (rule less_le_trans)
  then have "(x * lo) / (x' * hi') \<le> y / y'"
    using y y' by (intro frac_le)
  moreover have "y / y' \<le> (x * hi) / (x' * lo')"
    using y(2) y' pos by (intro frac_le) (auto intro: order_trans)
  ultimately show ?thesis by (simp add: between_factors_def)
qed

lemma between_weaken:
  assumes "between_factors lo hi x y" and "x' = x" and "0 \<le> x" and "lo' \<le> lo" and "hi \<le> hi'"
  shows "between_factors lo' hi' x' y"
  using assms mult_left_mono [of lo' lo x] mult_left_mono [of hi hi' x] by (auto simp: between_factors_def)

lemma between_refl [simp]: "between_factors 1 1 x x"
  by (simp add: between_factors_def)

section \<open>The deadline\<close>

text \<open>The nanoseconds \<open>n\<close> bytes take at \<open>rate\<close> times 2^20 bytes a second, exactly.\<close>

definition pace_exact_ns :: "u64 \<Rightarrow> u32 \<Rightarrow> rat" where
  "pace_exact_ns n rate = of_nat (unat n) * 1000000000 / (of_nat (unat rate) * 1048576)"

lemma rounded_deadline:
  assumes "nearest_double rnd" and "rate \<noteq> 0"
  defines "bps \<equiv> rnd (rnd (of_nat (unat (rate :: u32))) * rnd (of_nat (unat kMebibyte)))"
  shows "between_factors (1 - 1 / 2 ^ 49) (1 + 1 / 2 ^ 49) (pace_exact_ns n rate)
    (rnd (rnd (rnd (of_nat (unat n)) / bps) * 1000000000))"
proof -
  let ?r = "of_nat (unat rate) :: rat" and ?n = "of_nat (unat n) :: rat"
  have "0 < unat rate" using assms(2) by (simp add: unat_gt_0)
  then have "1 \<le> unat rate" by simp
  then have r: "1 \<le> ?r" by (metis of_nat_1 of_nat_le_iff)
  have "unat rate < 2 ^ 32" using unsigned_less [of rate, where ?'a = nat] by simp
  then have r2: "?r \<le> 2 ^ 32" by (metis less_imp_le of_nat_le_iff of_nat_numeral of_nat_power)
  have "unat n < 2 ^ 64" using unsigned_less [of n, where ?'a = nat] by simp
  then have n2: "?n \<le> 2 ^ 64" by (metis less_imp_le of_nat_le_iff of_nat_numeral of_nat_power)
  have n1: "?n = 0 \<or> 1 \<le> ?n" by (cases "unat n") simp_all
  have mega: "of_nat (unat kMebibyte) = (1048576 :: rat)" by (simp add: kMebibyte_def)
  have 1: "between_factors rdn rup ?r (rnd ?r)"
    using rounded [OF assms(1) between_refl, of ?r] r r2 by simp
  have 2: "between_factors rdn rup 1048576 (rnd 1048576)"
    using rounded [OF assms(1) between_refl, of 1048576] by simp
  have 3: "between_factors (rdn * rdn * rdn) (rup * rup * rup) (?r * 1048576) bps"
    unfolding bps_def mega using rounded [OF assms(1) between_mult [OF 1 2]] r r2 by simp
  have 4: "between_factors rdn rup ?n (rnd ?n)"
    using rounded [OF assms(1) between_refl, of ?n] n1 n2 by auto
  let ?q = "?n / (?r * 1048576)"
  have q: "?q = 0 \<or> 1 / 2 ^ 60 \<le> ?q" "?q \<le> 2 ^ 64" "0 \<le> ?q"
  proof -
    show "0 \<le> ?q" using r by (intro divide_nonneg_nonneg mult_nonneg_nonneg) linarith+
    have "?n / (?r * 1048576) \<le> 2 ^ 64 / 1" using n2 r by (intro frac_le) simp_all
    then show "?q \<le> 2 ^ 64" by simp
    have "1 / 2 ^ 60 \<le> ?n / (?r * 1048576)" if "1 \<le> ?n"
      using that r r2 by (intro frac_le) simp_all
    then show "?q = 0 \<or> 1 / 2 ^ 60 \<le> ?q" using n1 by auto
  qed
  have "between_factors (rdn / (rup * rup * rup)) (rup / (rdn * rdn * rdn)) ?q (rnd ?n / bps)"
    using between_div [OF 4 3 of_nat_0_le_iff] r by simp
  from rounded [OF assms(1) this] q
  have "between_factors (rdn / (rup * rup * rup) * rdn) (rup / (rdn * rdn * rdn) * rup) ?q (rnd (rnd ?n / bps))"
    by auto
  from between_mult [OF this between_refl, of 1000000000] q(3)
  have 5: "between_factors (rdn / (rup * rup * rup) * rdn) (rup / (rdn * rdn * rdn) * rup)
      (?q * 1000000000) (rnd (rnd ?n / bps) * 1000000000)" by simp
  have "?q * 1000000000 = 0 \<or> 1 / 2 ^ 60 \<le> ?q * 1000000000 \<and> ?q * 1000000000 \<le> 2 ^ 95" using q by auto
  from rounded [OF assms(1) 5 _ this] q(3)
  have "between_factors (rdn / (rup * rup * rup) * rdn * rdn) (rup / (rdn * rdn * rdn) * rup * rup)
      (?q * 1000000000) (rnd (rnd (rnd ?n / bps) * 1000000000))" by simp
  then show ?thesis
    unfolding pace_exact_ns_def by (rule between_weaken) (use q(3) in simp_all)
qed

lemma pace_deadline:
  assumes "nearest_double rnd" and "rate \<noteq> 0" and "0 \<le> startedAt"
    and range: "of_int startedAt + 2 * pace_exact_ns n rate < 2 ^ 63"
  defines "d \<equiv> sint (word_of_int startedAt + pace_target_ns rnd n rate)"
  shows "pace_exact_ns n rate * (1 - 1 / 2 ^ 49) < of_int (d - startedAt) + 1"
    and "of_int (d - startedAt) \<le> pace_exact_ns n rate * (1 + 1 / 2 ^ 49)"
proof -
  let ?x = "pace_exact_ns n rate"
  define v where "v = rnd (rnd (rnd (of_nat (unat n)) / rnd (rnd (of_nat (unat rate)) * rnd (of_nat (unat kMebibyte)))) * 1000000000)"
  have x: "0 \<le> ?x" unfolding pace_exact_ns_def by (intro divide_nonneg_nonneg mult_nonneg_nonneg of_nat_0_le_iff) simp_all
  have v: "?x * (1 - 1 / 2 ^ 49) \<le> v" "v \<le> ?x * (1 + 1 / 2 ^ 49)"
    using rounded_deadline [OF assms(1,2), of n] unfolding v_def between_factors_def by blast+
  have "0 \<le> ?x * (1 - 1 / 2 ^ 49)" "?x * (1 + 1 / 2 ^ 49) \<le> ?x * 2"
    using x by (auto intro: mult_left_mono)
  then have "0 \<le> v" "v \<le> 2 * ?x" using v by linarith+
  then have "of_int (startedAt + \<lfloor>v\<rfloor>) < (2 ^ 63 :: rat)"
    using range of_int_floor_le [of v] unfolding of_int_add by linarith
  then have sum: "startedAt + \<lfloor>v\<rfloor> < 2 ^ 63" by (metis of_int_less_iff of_int_numeral of_int_power)
  have small: "0 \<le> \<lfloor>v\<rfloor>" "\<lfloor>v\<rfloor> < 2 ^ 63" using \<open>0 \<le> v\<close> sum assms(3) by (simp, linarith)
  then have cast: "int64_of_double v = word_of_int \<lfloor>v\<rfloor>"
    using \<open>0 \<le> v\<close> by (simp add: int64_of_double_def Let_def)
  have "pace_target_ns rnd n rate = word_of_int \<lfloor>v\<rfloor>"
    by (simp only: pace_target_ns_def Let_def v_def [symmetric] cast)
  then have "d = sint (word_of_int (startedAt + \<lfloor>v\<rfloor>) :: u64)" by (simp add: d_def)
  also have "\<dots> = startedAt + \<lfloor>v\<rfloor>"
    by (rule sint_of_small) (use sum small(1) assms(3) in linarith)+
  finally have "of_int (d - startedAt) = (of_int \<lfloor>v\<rfloor> :: rat)" by simp
  then show "?x * (1 - 1 / 2 ^ 49) < of_int (d - startedAt) + 1"
    and "of_int (d - startedAt) \<le> ?x * (1 + 1 / 2 ^ 49)"
    using v floor_correct [of v] by linarith+
qed

lemma PaceLoop_due:
  "sint target \<le> h_now (host_tick h) \<Longrightarrow> snd (PaceLoop target h) = host_tick (host_tick h)"
  by (simp add: PaceLoop.simps [of target h] clock_now_def cancel_load_def Let_def)

end
