(* ===== verification/AcquireTheorems.thy ===== *)
theory AcquireTheorems
  imports Bench AcquirePacing
begin

text \<open>
  The properties of the acquisition engine (\<open>cli/acquire.cpp\<close>), each with a run of the test bench
  it applies to.
\<close>

section \<open>Spans as a map from addresses to statuses\<close>

definition status_at :: "UnreadableSpan list \<Rightarrow> nat \<Rightarrow> u32 option" where
  "status_at ss a = map_option us_status
     (List.find (\<lambda>s. unat (us_start s) \<le> a \<and> a < unat (us_start s) + unat (us_length s)) ss)"

text \<open>Neighbours that could be one span are one span.\<close>

definition coalesced :: "UnreadableSpan list \<Rightarrow> bool" where
  "coalesced ss \<longleftrightarrow> (\<forall>i. Suc i < length ss \<longrightarrow>
     span_end (ss ! i) = unat (us_start (ss ! Suc i)) \<longrightarrow> us_status (ss ! i) \<noteq> us_status (ss ! Suc i))"

lemma status_at_append:
  "status_at (xs @ ys) a = (case status_at xs a of None \<Rightarrow> status_at ys a | Some v \<Rightarrow> Some v)"
  by (induction xs) (auto simp: status_at_def)

lemma status_at_single [simp]:
  "status_at [s] a = (if unat (us_start s) \<le> a \<and> a < unat (us_start s) + unat (us_length s)
     then Some (us_status s) else None)"
  by (simp add: status_at_def)

lemma status_at_beyond: "spans_ok A fr ss \<Longrightarrow> fr \<le> a \<Longrightarrow> status_at ss a = None"
  by (fastforce simp: status_at_def find_None_iff spans_ok_def span_end_def)

lemma coalesced_snoc:
  "coalesced (ss @ [p, q]) \<longleftrightarrow> coalesced (ss @ [p]) \<and>
     (span_end p = unat (us_start q) \<longrightarrow> us_status p \<noteq> us_status q)"
proof -
  have all: "(\<forall>i. Suc i < length (ss @ [p, q]) \<longrightarrow> P i) \<longleftrightarrow>
      (\<forall>i. Suc i < length (ss @ [p]) \<longrightarrow> P i) \<and> P (length ss)" for P
    by (auto simp: less_Suc_eq)
  have "(ss @ [p, q]) ! i = (ss @ [p]) ! i" if "i < length (ss @ [p])" for i
    using that by (cases "i < length ss") (auto simp: nth_append less_Suc_eq)
  then show ?thesis
    unfolding coalesced_def all by (simp add: nth_append cong: conj_cong)
qed

lemma coalesced_last:
  assumes "coalesced (ss @ [p])" and "us_start p' = us_start p" and "us_status p' = us_status p"
  shows "coalesced (ss @ [p'])"
proof (cases ss rule: rev_cases)
  case Nil
  then show ?thesis by (simp add: coalesced_def)
next
  case (snoc ys y)
  then show ?thesis using assms by (simp add: coalesced_snoc)
qed

lemma coalesced_extend:
  assumes "coalesced ss" and "ss \<noteq> [] \<Longrightarrow> span_end (last ss) = unat (us_start q) \<Longrightarrow>
    us_status (last ss) \<noteq> us_status q"
  shows "coalesced (ss @ [q])"
proof (cases ss rule: rev_cases)
  case Nil
  then show ?thesis by (simp add: coalesced_def)
next
  case (snoc ys y)
  then show ?thesis using assms by (simp add: coalesced_snoc)
qed

lemma AddUnreadable_status:
  assumes "AddUnreadable sm start len status = (True, sm')"
    and "spans_ok A (unat start) (as_unreadable sm)"
  shows "status_at (as_unreadable sm') a =
    (if unat start \<le> a \<and> a < unat start + unat len then Some status
     else status_at (as_unreadable sm) a)"
  using assms(1)
proof (cases rule: AddUnreadable_list)
  case (extended ss p)
  have "spans_ok A (unat (us_start p)) ss"
    using assms(2) extended(1) by (auto simp: spans_ok_def spans_ordered_def sorted_wrt_append)
  then have beyond: "unat (us_start p) \<le> a \<Longrightarrow> status_at ss a = None"
    by (rule status_at_beyond)
  have l: "unat (us_length p + len) = unat (us_length p) + unat len"
    using extended(4) by (simp add: unat_add_u64)
  show ?thesis
    using beyond extended(1-3,5) l
    by (auto simp: status_at_append split: option.splits)
next
  case appended
  have "unat start \<le> a \<Longrightarrow> status_at (as_unreadable sm) a = None"
    by (rule status_at_beyond [OF assms(2)])
  then show ?thesis
    by (auto simp: appended status_at_append split: option.splits)
qed

lemma AddUnreadable_coalesced:
  assumes "AddUnreadable sm start len status = (True, sm')"
    and "spans_ok A (unat start) (as_unreadable sm)"
    and "coalesced (as_unreadable sm)" and "unat start + unat len < 2 ^ 64"
  shows "coalesced (as_unreadable sm')"
  using assms(1)
proof (cases rule: AddUnreadable_list)
  case (extended ss p)
  show ?thesis
    unfolding extended(5)
    by (rule coalesced_last [of ss p]) (use assms(3) extended(1) in simp_all)
next
  case appended
  let ?ss = "as_unreadable sm" and ?q = "\<lparr> us_start = start, us_length = len, us_status = status \<rparr>"
  have "us_status (last ?ss) \<noteq> status"
    if ne: "?ss \<noteq> []" and adj: "span_end (last ?ss) = unat start"
  proof
    assume same: "us_status (last ?ss) = status"
    have fits: "unat (us_start (last ?ss)) + unat (us_length (last ?ss)) < 2 ^ 64"
      using adj unat_lt_u64 [of start] by (simp add: span_end_def)
    have "us_start (last ?ss) + us_length (last ?ss) = start"
      using adj fits by (simp add: span_end_def word_unat_eq_iff unat_add_u64)
    moreover have "us_length (last ?ss) \<le> u64_max - len"
      using adj assms(4) by (simp add: word_le_max_minus_iff span_end_def)
    moreover have "us_start (last ?ss) \<le> u64_max - us_length (last ?ss)"
      using fits by (simp add: word_le_max_minus_iff add.commute)
    ultimately have "length (as_unreadable sm') = length ?ss"
      using assms(1) same ne
      by (auto simp: AddUnreadable_def Let_def split: if_splits option.splits)
    then show False using appended by simp
  qed
  then show ?thesis
    unfolding appended by (intro coalesced_extend [OF assms(3)]) simp_all
qed

text \<open>
  C14: \<open>AddUnreadable\<close> maintains a run-length encoding of a map from unreadable addresses to the
  status they failed with. Adding a span at or behind the end of the recorded spans sets exactly
  the addresses of the span to its status, keeps the spans non-empty, ordered and disjoint, and
  keeps them maximally coalesced.
\<close>

theorem AddUnreadable_encodes_map:
  assumes "AddUnreadable sm start len status = (True, sm')"
    and "spans_ok A (unat start) (as_unreadable sm)" and "coalesced (as_unreadable sm)"
    and "unat start + unat len < 2 ^ 64"
  shows "status_at (as_unreadable sm') =
      (\<lambda>a. if unat start \<le> a \<and> a < unat start + unat len then Some status
            else status_at (as_unreadable sm) a)
    \<and> spans_ok (A \<union> {unat start ..< unat start + unat len}) (unat start + unat len) (as_unreadable sm')
    \<and> coalesced (as_unreadable sm')
    \<and> unat (as_unreadableBytes sm') = unat (as_unreadableBytes sm) + unat len"
  using AddUnreadable_status [OF assms(1,2)] AddUnreadable_spans_ok [OF assms(1,2)]
    AddUnreadable_coalesced [OF assms] AddUnreadable_True [OF assms(1)]
  by (auto simp: unat_add_u64)

definition bench_summary :: AcquisitionSummary where
  "bench_summary = AcquisitionSummary_default\<lparr> as_unreadableBytes := 4,
     as_unreadable := [\<lparr> us_start = 12, us_length = 4, us_status = 7 \<rparr>] \<rparr>"

lemma AddUnreadable_encodes_map_witness:
  "status_at (as_unreadable (snd (AddUnreadable bench_summary 16 8 7))) 20 = Some 7 \<and>
   as_unreadable (snd (AddUnreadable bench_summary 16 8 7)) =
     [\<lparr> us_start = 12, us_length = 12, us_status = 7 \<rparr>]"
proof -
  have step: "AddUnreadable bench_summary 16 8 7 = (True, snd (AddUnreadable bench_summary 16 8 7))"
    and val: "as_unreadable (snd (AddUnreadable bench_summary 16 8 7)) =
     [\<lparr> us_start = 12, us_length = 12, us_status = 7 \<rparr>]"
    by code_simp+
  have "spans_ok {12 ..< 16} (unat (16 :: u64)) (as_unreadable bench_summary)"
    by (simp add: bench_summary_def spans_ok_def spans_ordered_def span_addresses_def span_end_def)
  from AddUnreadable_encodes_map [OF step this] val show ?thesis
    by (simp add: bench_summary_def coalesced_def)
qed

section \<open>Accounting\<close>

lemma Acquire_accounts:
  assumes "Acquire D W H cfg d w h host = (True, r)"
  shows "unat (as_acquiredBytes (ar_summary r)) + unat (as_unreadableBytes (ar_summary r)) =
      runs_total (as_ranges (ar_summary r))
    \<and> spans_total (as_unreadable (ar_summary r)) = unat (as_unreadableBytes (ar_summary r))
    \<and> list_all run_ok (as_ranges (ar_summary r))"
proof -
  obtain runs st0 st1 where ar: "AcquireRuns D W H cfg runs st0 = (True, st1)"
    and r: "as_ranges (ar_summary r) = runs"
      "as_unreadable (ar_summary r) = as_unreadable (a_summary st1)"
      "as_acquiredBytes (ar_summary r) = as_acquiredBytes (a_summary st1)"
      "as_unreadableBytes (ar_summary r) = as_unreadableBytes (a_summary st1)"
    and st0: "a_processed st0 = 0" "as_unreadable (a_summary st0) = []"
      "as_unreadableBytes (a_summary st0) = 0" "as_acquiredBytes (a_summary st0) = 0"
    by (rule Acquire_summary [OF assms]) (rule that; assumption)
  have "acct 0 (st0\<lparr> a_offset := 0 \<rparr>)"
    using st0 by (simp add: acct_def)
  from AcquireRuns_acct [OF ar this] show ?thesis
    using AcquireRuns_run_ok [OF ar] by (simp add: acct_def r list_all_iff)
qed

text \<open>
  C11: A successful acquisition accounts for every physical byte exactly once: acquired and
  unreadable bytes add up to the lengths of the reported ranges, and the spans add up to the
  unreadable bytes. Nothing is assumed of the device, the writer or the hasher.
\<close>

theorem acquire_accounts_for_every_byte:
  assumes "Acquire D W H cfg d w h host = (True, r)"
  shows "unat (as_acquiredBytes (ar_summary r)) + unat (as_unreadableBytes (ar_summary r)) =
      runs_total (as_ranges (ar_summary r))
    \<and> spans_total (as_unreadable (ar_summary r)) = unat (as_unreadableBytes (ar_summary r))
    \<and> list_all run_ok (as_ranges (ar_summary r))"
  by (rule Acquire_accounts [OF assms])

lemma acquire_accounts_witness:
  "unat (as_acquiredBytes (ar_summary (snd bench_acquire))) +
     unat (as_unreadableBytes (ar_summary (snd bench_acquire))) = 12 \<and>
   as_unreadableBytes (ar_summary (snd bench_acquire)) = 4"
proof -
  note all = acquire_accounts_for_every_byte [OF bench_acquireE [unfolded bench_acquire_def]]
  have "unat (as_unreadableBytes (ar_summary (snd bench_acquire))) = unat (4 :: u64)"
    using all bench_acquire_ok by (simp add: bench_acquire_def)
  then show ?thesis
    using all bench_acquire_ok by (simp add: bench_acquire_def bench_runs_def word_unat_eq_iff)
qed

section \<open>Where the unreadable spans lie\<close>

definition ranges_addresses :: "MemoryRun list \<Rightarrow> nat set" where
  "ranges_addresses rs = (\<Union>r \<in> set rs. run_addresses r)"

text \<open>
  C12: When the device reports ordered, disjoint ranges, the unreadable spans of a successful
  acquisition are non-empty, ordered, pairwise disjoint, and cover physical addresses only.
\<close>

theorem acquire_unreadable_geometry:
  assumes "Acquire D W H cfg d w h host = (True, r)"
    and "runs_ordered (as_ranges (ar_summary r))"
  shows "spans_ok (ranges_addresses (as_ranges (ar_summary r))) (run_end (last (as_ranges (ar_summary r))))
           (as_unreadable (ar_summary r))"
proof -
  obtain runs st0 st1 where ar: "AcquireRuns D W H cfg runs st0 = (True, st1)" and ne: "runs \<noteq> []"
    and r: "as_ranges (ar_summary r) = runs"
      "as_unreadable (ar_summary r) = as_unreadable (a_summary st1)"
    and st0: "as_unreadable (a_summary st0) = []"
    by (rule Acquire_summary [OF assms(1)]) (rule that; assumption)
  have "spans_between runs (length runs) st1"
    using AcquireRuns_spans [OF ar _ st0] assms(2) r(1) by simp
  then show ?thesis
    using ne by (simp add: spans_between_def done_addresses_all r ranges_addresses_def frontier_def
        last_conv_nth)
qed

lemma acquire_unreadable_geometry_witness:
  "spans_ok (ranges_addresses bench_runs) 24 (as_unreadable (ar_summary (snd bench_acquire)))"
proof -
  have "as_ranges (ar_summary (snd bench_acquire)) = bench_runs" using bench_acquire_ok by simp
  then show ?thesis
    using acquire_unreadable_geometry [OF bench_acquireE [unfolded bench_acquire_def]] bench_runs_wf
    by (simp add: bench_acquire_def runs_wf_def bench_runs_def run_end_def)
qed

text \<open>Ranges with a gap between any two neighbours.\<close>

definition runs_separated :: "MemoryRun list \<Rightarrow> bool" where
  "runs_separated rs \<longleftrightarrow> sorted_wrt (\<lambda>r r'. run_end r < unat (mr_base r')) rs"

lemma sorted_wrt_cases:
  "sorted_wrt R xs \<Longrightarrow> x \<in> set xs \<Longrightarrow> y \<in> set xs \<Longrightarrow> x = y \<or> R x y \<or> R y x"
  by (induction xs) auto

lemma interval_in_one_run:
  assumes "runs_separated rs" and "{a ..< b} \<subseteq> ranges_addresses rs" and "a < b"
  obtains r where "r \<in> set rs" and "{a ..< b} \<subseteq> run_addresses r"
proof -
  obtain r where r: "r \<in> set rs" "a \<in> run_addresses r"
    using assms(2,3) by (fastforce simp: ranges_addresses_def)
  have "b \<le> run_end r"
  proof (rule ccontr)
    assume "\<not> b \<le> run_end r"
    then have "run_end r \<in> {a ..< b}"
      using r(2) by (auto simp: run_addresses_def run_end_def)
    then obtain r' where r': "r' \<in> set rs" "run_end r \<in> run_addresses r'"
      using assms(2) by (auto simp: ranges_addresses_def)
    show False
      using sorted_wrt_cases [OF assms(1) [unfolded runs_separated_def] r(1) r'(1)] r(2) r'(2)
      by (auto simp: run_addresses_def run_end_def)
  qed
  then have "{a ..< b} \<subseteq> run_addresses r"
    using r(2) by (auto simp: run_addresses_def run_end_def)
  with r(1) that show ?thesis by blast
qed

lemma separated_ordered: "runs_separated rs \<Longrightarrow> runs_ordered rs"
  by (induction rs rule: runs_ordered.induct) (auto simp: runs_separated_def run_end_def)

text \<open>
  When there is a gap between any two ranges, every unreadable span lies inside a single
  range, which is what section 5 of the map schema asks of a reader's input.
\<close>

theorem acquire_spans_inside_ranges:
  assumes "Acquire D W H cfg d w h host = (True, r)"
    and "runs_separated (as_ranges (ar_summary r))"
  shows "\<forall>s \<in> set (as_unreadable (ar_summary r)).
           \<exists>run \<in> set (as_ranges (ar_summary r)). span_addresses s \<subseteq> run_addresses run"
proof
  fix s assume s: "s \<in> set (as_unreadable (ar_summary r))"
  obtain runs st0 st1 where ar: "AcquireRuns D W H cfg runs st0 = (True, st1)"
    and r: "as_ranges (ar_summary r) = runs"
      "as_unreadable (ar_summary r) = as_unreadable (a_summary st1)"
    and st0: "as_unreadable (a_summary st0) = []"
    by (rule Acquire_summary [OF assms(1)]) (rule that; assumption)
  have "spans_between runs (length runs) st1"
    using AcquireRuns_spans [OF ar _ st0] separated_ordered assms(2) r(1) by simp
  then have "us_length s \<noteq> 0" "span_addresses s \<subseteq> ranges_addresses runs"
    using s r by (auto simp: spans_between_def spans_ok_def done_addresses_all ranges_addresses_def)
  then have "{unat (us_start s) ..< unat (us_start s) + unat (us_length s)} \<subseteq> ranges_addresses runs"
    and "unat (us_start s) < unat (us_start s) + unat (us_length s)"
    by (simp_all add: span_addresses_def unat_gt_0)
  from interval_in_one_run [OF _ this] assms(2) r(1)
  show "\<exists>run \<in> set (as_ranges (ar_summary r)). span_addresses s \<subseteq> run_addresses run"
    by (metis span_addresses_def)
qed

lemma acquire_spans_inside_ranges_witness:
  "\<exists>run \<in> set bench_runs. {12 ..< 16} \<subseteq> run_addresses run"
proof -
  have "runs_separated bench_runs"
    by (simp add: runs_separated_def bench_runs_def run_end_def)
  then show ?thesis
    using acquire_spans_inside_ranges [OF bench_acquireE [unfolded bench_acquire_def]] bench_acquire_ok
    by (simp add: bench_acquire_def span_addresses_def)
qed

text \<open>
  The gap is needed. For two ranges that touch, unreadable bytes on both sides of the boundary
  with the same status become one span, which lies inside neither range.
\<close>

definition touching_runs :: "MemoryRun list" where
  "touching_runs = [\<lparr> mr_driverIndex = 0, mr_base = 8, mr_length = 8 \<rparr>,
                    \<lparr> mr_driverIndex = 1, mr_base = 16, mr_length = 8 \<rparr>]"

lemma touching_ranges_merge_spans:
  "runs_wf touching_runs \<and>
   (case Acquire (bench_device 24 16 touching_runs bench_mem (\<lambda>a. 12 \<le> a \<and> a < 20)) bench_writer
       bench_hasher bench_config 0 (Some (replicate 24 0)) (Some []) bench_host of
     (ok, r) \<Rightarrow> ok \<and> as_unreadable (ar_summary r) =
        [\<lparr> us_start = 12, us_length = 12, us_status = 0x8000000D \<rparr>])"
proof
  show "runs_wf touching_runs" by (simp add: runs_wf_def touching_runs_def run_ok_def)
qed code_simp

section \<open>The image and its hash\<close>

text \<open>
  C5: The image a successful acquisition leaves holds every acquired byte of memory at its
  physical address and zero in every hole and every unreadable span, and the bytes the hasher has
  absorbed are exactly this image when the writer was opened with the logical size of the summary.
\<close>

theorem acquire_image_and_hash:
  assumes "flat_acquisition W img H fed digest_hex D dinv mem"
    and "Acquire D W H cfg d w h host = (True, r)" and "dinv d"
    and "img w = Some (replicate n 0)" and "fed h = Some []"
  shows "img (ar_wr r) = Some (image_of mem (ranges_addresses (as_ranges (ar_summary r)) -
           spans_addresses (as_unreadable (ar_summary r))) n)
    \<and> (n = unat (as_logicalSize (ar_summary r)) \<longrightarrow> fed (ar_hash r) = img (ar_wr r))"
  using flat_acquisition.Acquire_flat [OF assms] by (simp add: ranges_addresses_def)

lemma acquire_image_and_hash_witness:
  "ar_wr (snd bench_acquire) = Some (image_of bench_mem ({8 ..< 16} \<union> {20 ..< 24} - {12 ..< 16}) 24) \<and>
   ar_hash (snd bench_acquire) = ar_wr (snd bench_acquire)"
proof -
  note at_bench = acquire_image_and_hash [OF bench_flat_acquisition bench_acquireE [unfolded bench_acquire_def]
      TrueI refl refl, folded bench_acquire_def]
  have facts: "as_ranges (ar_summary (snd bench_acquire)) = bench_runs"
    "as_unreadable (ar_summary (snd bench_acquire)) = [\<lparr> us_start = 12, us_length = 4, us_status = 0x8000000D \<rparr>]"
    "as_logicalSize (ar_summary (snd bench_acquire)) = 24"
    using bench_acquire_ok by simp_all
  have a: "ranges_addresses bench_runs = {8 ..< 16} \<union> {20 ..< 24}"
    by (auto simp: ranges_addresses_def bench_runs_def run_addresses_def)
  have b: "spans_addresses [\<lparr> us_start = 12, us_length = 4, us_status = 0x8000000D \<rparr>] = {12 ..< 16}"
    by (auto simp: spans_addresses_def span_addresses_def)
  show ?thesis
    using at_bench unfolding facts a b by simp
qed

section \<open>Every path: requests, completion, cancellation\<close>

text \<open>
  C13: Whatever the device, the writer and the hasher return, and whether or not the acquisition
  succeeds, every read request that reaches the device names a range of the query, is not empty,
  is at most the protocol's maximum transfer, and lies inside its range.
\<close>

theorem acquire_requests_are_legal:
  assumes "dev_Query D d = (ok, (hi, tot, runs), d1)"
  shows "list_all (legal_request runs) (snd (ar_dev (snd (Acquire (tracing D) W H cfg (d, []) w h host))))"
  by (rule Acquire_dev(1) [where D = "tracing D" and P = "\<lambda>p. list_all (legal_request runs) (snd p)"])
    (use assms in \<open>auto simp: legal_request_def request_ok_def split: prod.splits\<close>)

lemma acquire_requests_are_legal_witness:
  "let log = snd (ar_dev (snd (Acquire (tracing (bench_device 24 12 bench_runs bench_mem bench_bad))
       bench_writer bench_hasher bench_config (0, []) (Some (replicate 24 0)) (Some []) bench_host)))
   in list_all (legal_request bench_runs) log \<and> log = [(0, 0, 8), (0, 4, 4), (1, 0, 4)]"
proof -
  have q: "dev_Query (bench_device 24 12 bench_runs bench_mem bench_bad) 0 = (True, (24, 12, bench_runs), 0)"
    by (simp add: bench_device_def)
  have "snd (ar_dev (snd (Acquire (tracing (bench_device 24 12 bench_runs bench_mem bench_bad))
       bench_writer bench_hasher bench_config (0, []) (Some (replicate 24 0)) (Some []) bench_host))) =
       [(0, 0, 8), (0, 4, 4), (1, 0, 4)]"
    by code_simp
  with acquire_requests_are_legal [OF q] show ?thesis
    unfolding Let_def by metis
qed

lemma Acquire_completed:
  "as_completed (ar_summary (snd (Acquire D W H cfg d w h host))) = fst (Acquire D W H cfg d w h host)"
proof -
  obtain ok hi tot runs d1 where "dev_Query D d = (ok, (hi, tot, runs), d1)" by (metis prod.collapse)
  from Acquire_dev(2) [OF this, where P = "\<lambda>_. True"] show ?thesis by simp
qed

text \<open>
  The summary is marked completed exactly when the acquisition returns true: no failing path
  leaves a summary that claims completion.
\<close>

theorem acquire_completed_iff_true:
  "as_completed (ar_summary (snd (Acquire D W H cfg d w h host))) = fst (Acquire D W H cfg d w h host)"
  by (rule Acquire_completed)

text \<open>
  The engine polls the cancellation flag before every read, in the bulk loop and in the page
  loop. When the flag is up, the step fails having touched neither the device, nor the image, nor
  the hash, nor the summary.
\<close>

theorem cancelled_step_does_nothing:
  assumes "h_cancel (a_host st) (h_step (a_host st))"
  shows "BulkStep D W H cfg run st = (False, st\<lparr> a_host := host_tick (a_host st) \<rparr>)
    \<and> PageStep D W H cfg run chunkEnd st = (Fail, st\<lparr> a_host := host_tick (a_host st) \<rparr>)"
  by (rule conjI, rule BulkStep_cancelled [OF assms], rule PageStep_cancelled [OF assms])

lemma cancelled_step_does_nothing_witness:
  "fst (BulkStep (bench_device 24 12 bench_runs bench_mem bench_bad) bench_writer bench_hasher
     bench_config (hd bench_runs)
     (acq_start AcquisitionSummary_default 0 None None (bench_host\<lparr> h_cancel := (\<lambda>n. n = 0) \<rparr>))) = False"
proof -
  let ?st = "acq_start AcquisitionSummary_default 0 None None (bench_host\<lparr> h_cancel := (\<lambda>n. n = 0) \<rparr>)
    :: (nat, bytes option, bytes option) acq"
  have "h_cancel (a_host ?st) (h_step (a_host ?st))" by (simp add: acq_start_def bench_host_def)
  from cancelled_step_does_nothing [OF this] show ?thesis by simp
qed

text \<open>
  An acquisition that is cancelled before its first poll fails: it reads nothing from the
  device, leaves the writer and the hasher as they are, and its summary counts no byte.
\<close>

theorem acquire_cancelled_at_first_poll:
  assumes "dev_Query D d = (ok, (hi, tot, runs), d1)" and "h_cancel host (Suc (h_step host))"
  shows "\<not> fst (Acquire D W H cfg d w h host)
    \<and> ar_wr (snd (Acquire D W H cfg d w h host)) = w
    \<and> ar_hash (snd (Acquire D W H cfg d w h host)) = h
    \<and> as_acquiredBytes (ar_summary (snd (Acquire D W H cfg d w h host))) = 0
    \<and> ar_dev (snd (Acquire D W H cfg d w h host)) \<in> {d1, snd (snd (dev_QueryHints D d1))}"
proof -
  obtain hok hints d2 where hq: "dev_QueryHints D d1 = (hok, hints, d2)" by (metis prod.collapse)
  let ?summary = "(if hok then AcquisitionSummary_default\<lparr> as_hints := hints \<rparr>
                   else AcquisitionSummary_default)
      \<lparr> as_logicalSize := hi, as_physicalBytes := tot, as_ranges := runs \<rparr>"
  let ?st0 = "(acq_start ?summary d2 w h (host_tick host))\<lparr> a_startedAt := h_now (host_tick host) \<rparr>"
  obtain b st1 where ar: "AcquireRuns D W H cfg runs ?st0 = (b, st1)" by fastforce
  have st1: "\<not> b \<and> a_wr st1 = w \<and> a_hash st1 = h \<and> a_dev st1 = d2 \<and>
      as_acquiredBytes (a_summary st1) = 0" if "runs \<noteq> []"
    using AcquireRuns_cancelled [OF ar that] assms(2)
    by (simp add: acq_start_def AcquisitionSummary_default_def)
  have eq: "Acquire D W H cfg d w h host =
      (if \<not> ok \<or> hi = 0 \<or> tot = 0 \<or> runs = []
       then (False, acq_out (acq_start AcquisitionSummary_default d1 w h host))
       else (False, acq_out st1))"
    using assms(1) hq ar st1 by (auto simp: Acquire_def Let_def clock_now_def)
  show ?thesis
    using st1 hq unfolding eq by (auto simp: acq_out_def acq_start_def AcquisitionSummary_default_def)
qed

lemma acquire_cancelled_at_first_poll_witness:
  "\<not> fst (Acquire (bench_device 24 12 bench_runs bench_mem bench_bad) bench_writer bench_hasher
     bench_config 0 None None (bench_host\<lparr> h_cancel := (\<lambda>n. n = 1) \<rparr>))"
  by (rule acquire_cancelled_at_first_poll [where ok = True and hi = 24 and tot = 12
        and runs = bench_runs and ?d1.0 = 0, THEN conjunct1])
    (simp_all add: bench_device_def bench_host_def)

section \<open>The rate limit\<close>

text \<open>
  C15: Pacing. Without a rate limit \<open>PaceTransfer\<close> answers at once. With one, the time that \<open>n\<close> bytes
  take at \<open>rate\<close> MiB a second is the deadline, up to one nanosecond and a relative rounding error of
  2^-49: a positive answer never comes earlier, and when the first look at the clock finds the time
  passed the answer comes without any sleep. This holds as long as the deadline fits the signed
  64-bit count of nanoseconds with room to spare. A negative answer comes only after the cancellation
  flag was seen raised at one of the polls.
\<close>

theorem pace_transfer_spec:
  assumes "PaceTransfer n rate startedAt h = (ok, h')"
  shows "(rate = 0 \<longrightarrow> ok \<and> h' = h) \<and>
    (rate \<noteq> 0 \<and> nearest_double (h_round h) \<and> 0 \<le> startedAt \<and>
       of_int startedAt + 2 * pace_exact_ns n rate < 2 ^ 63 \<longrightarrow>
     (ok \<longrightarrow> pace_exact_ns n rate * (1 - 1 / 2 ^ 49) < of_int (h_now h' - startedAt) + 1) \<and>
     (pace_exact_ns n rate * (1 + 1 / 2 ^ 49) \<le> of_int (h_now (host_tick h) - startedAt) \<longrightarrow>
        h' = host_tick (host_tick h))) \<and>
    (\<not> ok \<longrightarrow> (\<exists>k \<ge> h_step h. k < h_step h' \<and> h_cancel h k)) \<and> host_after h h'"
proof (cases "rate = 0")
  case True
  then show ?thesis using assms by (simp add: PaceTransfer_def)
next
  case False
  let ?d = "word_of_int startedAt + pace_target_ns (h_round h) n rate"
  have loop: "PaceLoop ?d h = (ok, h')" using assms False by (simp add: PaceTransfer_def)
  note result = PaceLoop_result [OF loop]
  have "(ok \<longrightarrow> pace_exact_ns n rate * (1 - 1 / 2 ^ 49) < of_int (h_now h' - startedAt) + 1) \<and>
      (pace_exact_ns n rate * (1 + 1 / 2 ^ 49) \<le> of_int (h_now (host_tick h) - startedAt) \<longrightarrow> h' = host_tick (host_tick h))"
    if "nearest_double (h_round h)" "0 \<le> startedAt" "of_int startedAt + 2 * pace_exact_ns n rate < 2 ^ 63"
  proof -
    note due = pace_deadline [OF that(1) False that(2,3)]
    have "ok \<Longrightarrow> (of_int (sint ?d - startedAt) :: rat) \<le> of_int (h_now h' - startedAt)"
      using result by (simp only: of_int_le_iff) simp
    moreover have "h' = host_tick (host_tick h)"
      if "pace_exact_ns n rate * (1 + 1 / 2 ^ 49) \<le> of_int (h_now (host_tick h) - startedAt)"
    proof -
      have "sint ?d - startedAt \<le> h_now (host_tick h) - startedAt"
        using order_trans [OF due(2) that] by (simp only: of_int_le_iff)
      then show ?thesis using PaceLoop_due [of ?d h] loop by simp
    qed
    ultimately show ?thesis using due(1) by fastforce
  qed
  then show ?thesis using result False by blast
qed

lemma pace_transfer_spec_witness:
  "953 < h_now (snd (PaceTransfer 1 1 5 bench_host)) - 5 + 1 \<and> fst (PaceTransfer 1 1 5 bench_host)"
proof -
  have near: "nearest_double (h_round bench_host)" by (simp add: nearest_double_def bench_host_def)
  have x: "pace_exact_ns 1 1 = 15625 / 16384 * 1000" by (simp add: pace_exact_ns_def)
  have "\<lfloor>1953125 / 2048 :: rat\<rfloor> = 953" by (simp add: floor_eq_iff)
  then have t: "word_of_int 5 + pace_target_ns (h_round bench_host) 1 1 = 958"
    by (simp add: pace_target_ns_def int64_of_double_def kMebibyte_def bench_host_def)
  have f: "fst (PaceTransfer 1 1 5 bench_host)"
    unfolding PaceTransfer_def t by code_simp
  then have e: "PaceTransfer 1 1 5 bench_host = (True, snd (PaceTransfer 1 1 5 bench_host))"
    by (metis prod.collapse)
  have "953 < (of_int (h_now (snd (PaceTransfer 1 1 5 bench_host)) - 5) + 1 :: rat)"
    using pace_transfer_spec [OF e] near x by auto
  then have "of_int 953 < (of_int (h_now (snd (PaceTransfer 1 1 5 bench_host)) - 5 + 1) :: rat)" by simp
  then show ?thesis using f unfolding of_int_less_iff by simp
qed

section \<open>Progress\<close>

text \<open>
  C19: When the device answers every legal request with a valid result, the writer and the hasher
  do not fail and nobody cancels, \<open>Acquire\<close> completes, whatever addresses turn out to be
  unreadable, however short the reads are and whatever the rate limit: no check of its own and no
  counter can stop it, and its loops end.
\<close>

theorem acquire_completes:
  assumes "reliable_acquisition D W H dinv winv hinv hi tot runs"
    and "dinv d" and "winv w" and "hinv h" and "\<forall>n. \<not> h_cancel host n"
  shows "\<exists>r. Acquire D W H cfg d w h host = (True, r) \<and> as_completed (ar_summary r) \<and>
    as_ranges (ar_summary r) = runs \<and> as_logicalSize (ar_summary r) = hi"
  using reliable_acquisition.Acquire_succeeds [OF assms, of cfg] Acquire_completed [of D W H cfg d w h host]
  by auto

lemma acquire_completes_witness:
  "\<exists>r. Acquire (bench_device 24 12 bench_runs bench_mem bench_bad) bench_writer bench_hasher
       (bench_config\<lparr> cfg_rateLimitMBps := 1 \<rparr>) 0 (Some (replicate 24 0)) (Some []) bench_host = (True, r) \<and>
     as_completed (ar_summary r) \<and> as_ranges (ar_summary r) = bench_runs \<and> as_logicalSize (ar_summary r) = 24"
proof (rule acquire_completes)
  show "reliable_acquisition (bench_device 24 12 bench_runs bench_mem bench_bad) bench_writer bench_hasher
      (\<lambda>_. True) (\<lambda>w. \<exists>c. w = Some c \<and> length c = 24) (\<lambda>h. h \<noteq> None) 24 12 bench_runs"
  proof (rule bench_reliable)
    fix w :: "bytes option" and run and xs :: bytes and p :: u64
    assume w: "\<exists>c. w = Some c \<and> length c = 24" and run: "run \<in> set bench_runs" and xs: "xs \<noteq> []"
      and sub: "{unat p ..< unat p + length xs} \<subseteq> run_addresses run"
    have "unat p + length xs \<le> 24"
      using run xs sub by (auto simp: bench_runs_def run_addresses_def)
    then show "\<exists>w'. wr_WriteAt bench_writer p xs w = (True, w') \<and> (\<exists>c. w' = Some c \<and> length c = 24)"
      using w by (auto simp: bench_writer_def)
  qed
qed (simp_all add: bench_host_def)

end
