(* ===== verification/Format.thy ===== *)
theory Format
  imports Prelude
begin

text \<open>
  What the program uses of \<open>std::ostream\<close> formatting: unsigned integers in base 10 and 16,
  \<open>std::uppercase\<close>, \<open>std::setw\<close> with a fill character; and the character tests of \<open><cctype>\<close>.
  The readers at the end are the inverse a consumer of the evidence files applies.
\<close>

section \<open>Digits\<close>

definition digit_char :: "bool \<Rightarrow> nat \<Rightarrow> char" where
  "digit_char upper d =
     (if d < 10 then char_of (48 + d) else char_of ((if upper then 55 else 87) + d))"

fun to_base :: "bool \<Rightarrow> nat \<Rightarrow> nat \<Rightarrow> string" where
  "to_base upper b n =
     (if b < 2 \<or> n < b then [digit_char upper n]
      else to_base upper b (n div b) @ [digit_char upper (n mod b)])"

declare to_base.simps [simp del]

definition dec :: "nat \<Rightarrow> string" where "dec n = to_base False 10 n"

text \<open>\<open>std::setw(w) << std::setfill(c)\<close>: padding on the left, never cutting.\<close>

definition setw :: "nat \<Rightarrow> char \<Rightarrow> string \<Rightarrow> string" where
  "setw w c s = replicate (w - length s) c @ s"

definition hex2 :: "u8 \<Rightarrow> string" where
  "hex2 x = setw 2 (CHR ''0'') (to_base False 16 (unat x))"

text \<open>\<open>std::isxdigit\<close> on an unsigned character, in the C locale.\<close>

definition isxdigit :: "char \<Rightarrow> bool" where
  "isxdigit c \<longleftrightarrow>
     (let n = (of_char c :: nat) in (48 \<le> n \<and> n \<le> 57) \<or> (65 \<le> n \<and> n \<le> 70) \<or> (97 \<le> n \<and> n \<le> 102))"

section \<open>Reading digits back\<close>

definition digit_value :: "char \<Rightarrow> nat option" where
  "digit_value c =
     (let n = (of_char c :: nat)
      in if 48 \<le> n \<and> n \<le> 57 then Some (n - 48)
         else if 65 \<le> n \<and> n \<le> 70 then Some (n - 55)
         else if 97 \<le> n \<and> n \<le> 102 then Some (n - 87)
         else None)"

fun of_base_from :: "nat \<Rightarrow> nat \<Rightarrow> string \<Rightarrow> nat option" where
  "of_base_from b acc [] = Some acc"
| "of_base_from b acc (c # cs) =
     (case digit_value c of
        None \<Rightarrow> None
      | Some d \<Rightarrow> if d < b then of_base_from b (acc * b + d) cs else None)"

definition of_base :: "nat \<Rightarrow> string \<Rightarrow> nat option" where
  "of_base b s = (if s = [] then None else of_base_from b 0 s)"

lemma of_char_digit_char:
  "d < 16 \<Longrightarrow> (of_char (digit_char upper d) :: nat) =
     (if d < 10 then 48 + d else (if upper then 55 else 87) + d)"
  by (auto simp: digit_char_def)

lemma digit_value_digit_char [simp]:
  "d < 16 \<Longrightarrow> digit_value (digit_char upper d) = Some d"
  by (auto simp: digit_value_def of_char_digit_char Let_def)

lemma isxdigit_digit_char [simp]: "d < 16 \<Longrightarrow> isxdigit (digit_char upper d)"
  by (auto simp: isxdigit_def of_char_digit_char Let_def)

lemma of_base_from_append:
  "of_base_from b acc (xs @ ys) =
     (case of_base_from b acc xs of None \<Rightarrow> None | Some v \<Rightarrow> of_base_from b v ys)"
  by (induction xs arbitrary: acc) (auto split: option.splits)

lemma to_base_not_Nil [simp]: "to_base upper b n \<noteq> []"
  by (subst to_base.simps) simp

lemma of_base_from_to_base:
  assumes "2 \<le> b" and "b \<le> 16"
  shows "of_base_from b 0 (to_base upper b n) = Some n"
  using assms
proof (induction upper b n rule: to_base.induct)
  case (1 upper b n)
  show ?case
  proof (cases "n < b")
    case True
    then show ?thesis using 1 by (subst to_base.simps) simp
  next
    case False
    then have "of_base_from b 0 (to_base upper b (n div b)) = Some (n div b)"
      using 1 by simp
    moreover have "n mod b < b" "n mod b < 16"
      using 1(2,3) mod_less_divisor [of b n] by linarith+
    ultimately show ?thesis
      using False 1(2,3)
      by (subst to_base.simps) (simp add: of_base_from_append)
  qed
qed

lemma of_base_to_base: "2 \<le> b \<Longrightarrow> b \<le> 16 \<Longrightarrow> of_base b (to_base upper b n) = Some n"
  by (simp add: of_base_def of_base_from_to_base)

lemma of_base_from_zeros: "of_base_from b 0 (replicate k (CHR ''0'') @ s) = of_base_from b 0 s"
  if "2 \<le> b"
proof (induction k)
  case (Suc k)
  have "digit_value (CHR ''0'') = Some 0" by (simp add: digit_value_def)
  then show ?case using Suc that by simp
qed simp

lemma of_base_setw:
  assumes "2 \<le> b" and "b \<le> 16"
  shows "of_base b (setw w (CHR ''0'') (to_base upper b n)) = Some n"
  using assms of_base_from_to_base [OF assms]
  by (simp add: of_base_def setw_def of_base_from_zeros)

lemma to_base_hex: "list_all isxdigit (to_base upper 16 n)"
proof (induction upper "16 :: nat" n rule: to_base.induct)
  case (1 upper n)
  then show ?case by (subst to_base.simps) auto
qed

lemma to_base_length:
  assumes "n < b ^ k" and "2 \<le> b" and "0 < k"
  shows "length (to_base upper b n) \<le> k"
  using assms
proof (induction upper b n arbitrary: k rule: to_base.induct)
  case (1 upper b n)
  show ?case
  proof (cases "n < b")
    case True
    then show ?thesis using 1(4) by (subst to_base.simps) simp
  next
    case False
    obtain j where k: "k = Suc j" using 1(4) by (cases k) auto
    then have "n div b < b ^ j"
      using 1(2,3) by (simp add: div_less_iff_less_mult mult.commute)
    moreover have "0 < j" using 1(2) False k by (cases j) auto
    ultimately have "length (to_base upper b (n div b)) \<le> j"
      using 1(1) False 1(3) by simp
    then show ?thesis using False k 1(3) by (subst to_base.simps) simp
  qed
qed

lemma length_hex2 [simp]: "length (hex2 x) = 2"
  using to_base_length [of "unat x" 16 2 False] unsigned_less [of x, where 'a = nat]
  by (simp add: hex2_def setw_def)

lemma hex2_isxdigit: "list_all isxdigit (hex2 x)"
proof -
  have "isxdigit (CHR ''0'')" by (simp add: isxdigit_def)
  then show ?thesis
    using to_base_hex [of False "unat x"] by (auto simp: hex2_def setw_def list_all_iff)
qed

lemma of_base_hex2: "of_base 16 (hex2 x) = Some (unat x)"
  unfolding hex2_def by (rule of_base_setw) simp_all

end
