(* ===== verification/Win32Files.thy ===== *)
theory Win32Files
  imports Prelude
begin

text \<open>
  The part of the Win32 file API the program calls, as a record of functions over an abstract
  system state. Its code is not in the repository: it is a parameter of every component that
  touches files. What the components rely on is the locale \<open>win32_files\<close>, whose laws follow the
  documented behaviour of the calls on a volume that no other process modifies meanwhile, over two
  views of the system state: the content of every file, and for every open handle the file it
  refers to and its file pointer. The laws say little about failing calls: a failing write may
  leave anything in the file it was given.

  A path is identified with its spelling; the program only compares and combines paths it derives
  from one spelling by appending a suffix.
\<close>

section \<open>Constants of the Windows headers\<close>

definition INVALID_HANDLE_VALUE :: u64 where "INVALID_HANDLE_VALUE = 0xFFFFFFFFFFFFFFFF"
definition GENERIC_READ :: u32 where "GENERIC_READ = 0x80000000"
definition GENERIC_WRITE :: u32 where "GENERIC_WRITE = 0x40000000"
definition CREATE_NEW :: u32 where "CREATE_NEW = 1"
definition CREATE_ALWAYS :: u32 where "CREATE_ALWAYS = 2"
definition MOVEFILE_WRITE_THROUGH :: u32 where "MOVEFILE_WRITE_THROUGH = 8"
definition INVALID_FILE_ATTRIBUTES :: u32 where "INVALID_FILE_ATTRIBUTES = 0xFFFFFFFF"
definition FILE_SUPPORTS_SPARSE_FILES :: u32 where "FILE_SUPPORTS_SPARSE_FILES = 0x40"
definition MAX_PATH :: nat where "MAX_PATH = 260"

definition ERROR_SUCCESS :: u32 where "ERROR_SUCCESS = 0"
definition ERROR_INVALID_HANDLE :: u32 where "ERROR_INVALID_HANDLE = 6"
definition ERROR_INVALID_DATA :: u32 where "ERROR_INVALID_DATA = 13"
definition ERROR_FILE_EXISTS :: u32 where "ERROR_FILE_EXISTS = 80"
definition ERROR_INVALID_PARAMETER :: u32 where "ERROR_INVALID_PARAMETER = 87"
definition ERROR_DISK_FULL :: u32 where "ERROR_DISK_FULL = 112"
definition ERROR_INVALID_NAME :: u32 where "ERROR_INVALID_NAME = 123"
definition ERROR_ARITHMETIC_OVERFLOW :: u32 where "ERROR_ARITHMETIC_OVERFLOW = 534"
definition ERROR_FILE_SYSTEM_LIMITATION :: u32 where "ERROR_FILE_SYSTEM_LIMITATION = 665"

section \<open>The calls\<close>

record 's win32 =
  w_CreateFileW :: "wstring \<Rightarrow> u32 \<Rightarrow> u32 \<Rightarrow> 's \<Rightarrow> u64 \<times> 's"
  w_WriteFile :: "u64 \<Rightarrow> bytes \<Rightarrow> 's \<Rightarrow> bool \<times> u32 \<times> 's"
  w_SetFilePointerEx :: "u64 \<Rightarrow> u64 \<Rightarrow> 's \<Rightarrow> bool \<times> 's"
  w_SetEndOfFile :: "u64 \<Rightarrow> 's \<Rightarrow> bool \<times> 's"
  w_SetSparse :: "u64 \<Rightarrow> 's \<Rightarrow> bool \<times> 's"
  w_FlushFileBuffers :: "u64 \<Rightarrow> 's \<Rightarrow> bool \<times> 's"
  w_CloseHandle :: "u64 \<Rightarrow> 's \<Rightarrow> 's"
  w_DeleteFileW :: "wstring \<Rightarrow> 's \<Rightarrow> bool \<times> 's"
  w_MoveFileExW :: "wstring \<Rightarrow> wstring \<Rightarrow> u32 \<Rightarrow> 's \<Rightarrow> bool \<times> 's"
  w_GetFileAttributesW :: "wstring \<Rightarrow> 's \<Rightarrow> u32 \<times> 's"
  w_GetVolumePathNameW :: "wstring \<Rightarrow> 's \<Rightarrow> bool \<times> wstring \<times> 's"
  w_GetVolumeInformationW :: "wstring \<Rightarrow> 's \<Rightarrow> bool \<times> (u32 \<times> wstring) \<times> 's"
  w_GetDiskFreeSpaceExW :: "wstring \<Rightarrow> 's \<Rightarrow> bool \<times> u64 \<times> 's"
  w_GetLastError :: "'s \<Rightarrow> u32"

text \<open>\<open>~UniqueWin32Handle\<close> / \<open>Reset()\<close> with \<open>FileHandleDeleter\<close> (\<open>cli/phylaram.hpp\<close>).\<close>

definition handle_reset :: "'s win32 \<Rightarrow> u64 \<Rightarrow> 's \<Rightarrow> 's" where
  "handle_reset api h s =
     (if h \<noteq> INVALID_HANDLE_VALUE then (if h \<noteq> 0 then w_CloseHandle api h s else s) else s)"

text \<open>
  The write loop every file producer of the program has: chunks of at most \<open>chunk\<close> bytes until all
  of the buffer is written; a failing call or a call that writes nothing ends it.
\<close>

function WriteAll :: "'s win32 \<Rightarrow> nat \<Rightarrow> u64 \<Rightarrow> bytes \<Rightarrow> nat \<Rightarrow> 's \<Rightarrow> bool \<times> 's" where
  "WriteAll api chunk h xs writtenTotal s =
     (if writtenTotal < length xs
      then
        (let requested = min (length xs - writtenTotal) chunk
         in case w_WriteFile api h (take requested (drop writtenTotal xs)) s of
              (ok, written, s') \<Rightarrow>
                if \<not> ok \<or> written = 0 then (False, s')
                else WriteAll api chunk h xs (writtenTotal + unat written) s')
      else (True, s))"
  by pat_completeness auto

termination
  by (relation "measure (\<lambda>(api, chunk, h, xs, writtenTotal, s). length xs - writtenTotal)")
    (auto simp: unat_gt_0 intro!: diff_less_mono2)

declare WriteAll.simps [simp del]

section \<open>Laws\<close>

text \<open>A write of no bytes never extends a file.\<close>

definition file_write :: "bytes \<Rightarrow> nat \<Rightarrow> bytes \<Rightarrow> bytes" where
  "file_write c pos xs = (if xs = [] then c else overlay c pos xs)"

lemma file_write_append:
  "xs \<noteq> [] \<Longrightarrow> file_write (file_write c pos xs) (pos + length xs) ys = file_write c pos (xs @ ys)"
  by (simp add: file_write_def overlay_append)

text \<open>Only the file \<open>p\<close> may differ between two states.\<close>

definition only_file :: "('s \<Rightarrow> wstring \<Rightarrow> bytes option) \<Rightarrow> wstring \<Rightarrow> 's \<Rightarrow> 's \<Rightarrow> bool" where
  "only_file files p s s' \<longleftrightarrow> (\<forall>q. q \<noteq> p \<longrightarrow> files s' q = files s q)"

lemma only_file_refl [simp]: "only_file files p s s"
  by (simp add: only_file_def)

lemma only_file_trans: "only_file files p s t \<Longrightarrow> only_file files p t u \<Longrightarrow> only_file files p s u"
  by (simp add: only_file_def)

locale win32_files =
  fixes api :: "'s win32"
    and files :: "'s \<Rightarrow> wstring \<Rightarrow> bytes option"
    and opened :: "'s \<Rightarrow> u64 \<Rightarrow> (wstring \<times> nat) option"
  assumes create_new:
      "w_CreateFileW api p acc CREATE_NEW s = (h, s') \<Longrightarrow> h \<noteq> INVALID_HANDLE_VALUE \<Longrightarrow>
       h \<noteq> 0 \<and> files s p = None \<and> files s' = (files s)(p \<mapsto> []) \<and>
       opened s h = None \<and> opened s' = (opened s)(h \<mapsto> (p, 0))"
    and create_always:
      "w_CreateFileW api p acc CREATE_ALWAYS s = (h, s') \<Longrightarrow> h \<noteq> INVALID_HANDLE_VALUE \<Longrightarrow>
       h \<noteq> 0 \<and> files s' = (files s)(p \<mapsto> []) \<and>
       opened s h = None \<and> opened s' = (opened s)(h \<mapsto> (p, 0))"
    and create_failed:
      "w_CreateFileW api p acc disp s = (INVALID_HANDLE_VALUE, s') \<Longrightarrow>
       files s' = files s \<and> opened s' = opened s"
    and write_ok:
      "w_WriteFile api h xs s = (True, n, s') \<Longrightarrow> opened s h = Some (p, pos) \<Longrightarrow> files s p = Some c \<Longrightarrow>
       unat n \<le> length xs \<and> files s' = (files s)(p \<mapsto> file_write c pos (take (unat n) xs)) \<and>
       opened s' = (opened s)(h \<mapsto> (p, pos + unat n))"
    and write_failed:
      "w_WriteFile api h xs s = (False, n, s') \<Longrightarrow> opened s h = Some (p, pos) \<Longrightarrow> files s p = Some c \<Longrightarrow>
       \<exists>c' pos'. files s' = (files s)(p \<mapsto> c') \<and> opened s' = (opened s)(h \<mapsto> (p, pos'))"
    and pointer_ok:
      "w_SetFilePointerEx api h off s = (True, s') \<Longrightarrow> opened s h = Some (p, pos) \<Longrightarrow>
       files s' = files s \<and> opened s' = (opened s)(h \<mapsto> (p, unat off))"
    and pointer_failed:
      "w_SetFilePointerEx api h off s = (False, s') \<Longrightarrow> files s' = files s \<and> opened s' = opened s"
    and end_of_file_ok:
      "w_SetEndOfFile api h s = (True, s') \<Longrightarrow> opened s h = Some (p, pos) \<Longrightarrow> files s p = Some c \<Longrightarrow>
       files s' = (files s)(p \<mapsto> resize c pos) \<and> opened s' = opened s"
    and end_of_file_failed:
      "w_SetEndOfFile api h s = (False, s') \<Longrightarrow> files s' = files s \<and> opened s' = opened s"
    and sparse_frame:
      "w_SetSparse api h s = (ok, s') \<Longrightarrow> files s' = files s \<and> opened s' = opened s"
    and flush_frame:
      "w_FlushFileBuffers api h s = (ok, s') \<Longrightarrow> files s' = files s \<and> opened s' = opened s"
    and close_view:
      "files (w_CloseHandle api h s) = files s \<and> opened (w_CloseHandle api h s) = (opened s)(h := None)"
    and delete_ok:
      "w_DeleteFileW api p s = (True, s') \<Longrightarrow>
       files s' = (files s)(p := None) \<and> opened s' = opened s"
    and delete_failed:
      "w_DeleteFileW api p s = (False, s') \<Longrightarrow> files s' = files s \<and> opened s' = opened s"
    and move_ok:
      "w_MoveFileExW api src dst MOVEFILE_WRITE_THROUGH s = (True, s') \<Longrightarrow>
       files s src \<noteq> None \<and> files s dst = None \<and>
       files s' = (files s)(src := None, dst := files s src) \<and> opened s' = opened s"
    and move_failed:
      "w_MoveFileExW api src dst MOVEFILE_WRITE_THROUGH s = (False, s') \<Longrightarrow>
       files s' = files s \<and> opened s' = opened s"
    and attributes_frame:
      "w_GetFileAttributesW api p s = (a, s') \<Longrightarrow> files s' = files s \<and> opened s' = opened s"
    and volume_path_frame:
      "w_GetVolumePathNameW api p s = (ok, root, s') \<Longrightarrow> files s' = files s \<and> opened s' = opened s"
    and volume_info_frame:
      "w_GetVolumeInformationW api root s = (ok, vi, s') \<Longrightarrow> files s' = files s \<and> opened s' = opened s"
    and free_space_frame:
      "w_GetDiskFreeSpaceExW api root s = (ok, free, s') \<Longrightarrow> files s' = files s \<and> opened s' = opened s"
begin

lemma frame_files [frames]:
  "files (snd (w_SetSparse api h s)) = files s"
  "opened (snd (w_SetSparse api h s)) = opened s"
  "files (snd (w_FlushFileBuffers api h s)) = files s"
  "opened (snd (w_FlushFileBuffers api h s)) = opened s"
  "files (snd (w_GetFileAttributesW api p s)) = files s"
  "opened (snd (w_GetFileAttributesW api p s)) = opened s"
  by (metis prod.collapse sparse_frame flush_frame attributes_frame)+

lemma handle_reset_view:
  "files (handle_reset api h s) = files s"
  "opened (handle_reset api h s) =
     (if h = INVALID_HANDLE_VALUE \<or> h = 0 then opened s else (opened s)(h := None))"
  by (simp_all add: handle_reset_def close_view)

text \<open>A successful run of the write loop has written the rest of the buffer, in place.\<close>

lemma WriteAll_ok:
  assumes "WriteAll api chunk h xs n s = (True, s')"
    and "opened s h = Some (p, pos)" and "files s p = Some c" and "n \<le> length xs"
  shows "files s' = (files s)(p \<mapsto> file_write c pos (drop n xs))
    \<and> (\<exists>pos'. opened s' = (opened s)(h \<mapsto> (p, pos')))"
  using assms
proof (induction "length xs - n" arbitrary: n s c pos rule: less_induct)
  case less
  show ?case
  proof (cases "n < length xs")
    case False
    then have "s' = s" using less.prems(1) by (simp add: WriteAll.simps [of api])
    have "opened s = (opened s)(h \<mapsto> (p, pos))"
      using less.prems(2) by (simp add: fun_upd_idem)
    then have "\<exists>pos'. opened s' = (opened s)(h \<mapsto> (p, pos'))"
      unfolding \<open>s' = s\<close> by (rule exI)
    moreover have "files s' = (files s)(p \<mapsto> file_write c pos (drop n xs))"
      using False less.prems(3) \<open>s' = s\<close> by (simp add: file_write_def fun_upd_idem)
    ultimately show ?thesis by (rule conjI [rotated])
  next
    case True
    let ?req = "min (length xs - n) chunk"
    obtain ok m t where w: "w_WriteFile api h (take ?req (drop n xs)) s = (ok, m, t)"
      by (metis prod.collapse)
    have m: "ok" "m \<noteq> 0" and rest: "WriteAll api chunk h xs (n + unat m) t = (True, s')"
      using less.prems(1) True w by (auto simp: WriteAll.simps [of api chunk h xs n s] split: if_splits)
    note wo = write_ok [OF w [unfolded m(1) [THEN eqTrueI]] less.prems(2,3)]
    let ?ys = "take (unat m) (drop n xs)"
    have le: "unat m \<le> length xs - n" and ys: "take (unat m) (take ?req (drop n xs)) = ?ys"
      using wo by (simp_all add: min_def split: if_splits)
    have t: "files t = (files s)(p \<mapsto> file_write c pos ?ys)" "opened t = (opened s)(h \<mapsto> (p, pos + unat m))"
      using wo ys by simp_all
    have len: "length ?ys = unat m" and ne: "?ys \<noteq> []"
      using le m(2) True by (auto simp: unat_gt_0 [symmetric])
    have "0 < unat m" using m(2) by (simp add: unat_gt_0)
    then have dec: "length xs - (n + unat m) < length xs - n" "n + unat m \<le> length xs"
      using le True by simp_all
    have "files s' = (files t)(p \<mapsto> file_write (file_write c pos ?ys) (pos + unat m) (drop (n + unat m) xs))
        \<and> (\<exists>pos'. opened s' = (opened t)(h \<mapsto> (p, pos')))"
      using less.hyps [OF dec(1) rest _ _ dec(2), of "pos + unat m" "file_write c pos ?ys"] t
      by simp
    moreover have "?ys @ drop (n + unat m) xs = drop n xs"
      by (metis append_take_drop_id drop_drop add.commute)
    ultimately show ?thesis
      using file_write_append [OF ne, of c pos "drop (n + unat m) xs"] t len by auto
  qed
qed

text \<open>Whatever the outcome, the loop touches one file and one handle.\<close>

lemma WriteAll_frame:
  assumes "WriteAll api chunk h xs n s = (ok, s')"
    and "opened s h = Some (p, pos)" and "files s p = Some c"
  shows "(\<forall>q. q \<noteq> p \<longrightarrow> files s' q = files s q) \<and> files s' p \<noteq> None \<and>
         (\<exists>pos'. opened s' = (opened s)(h \<mapsto> (p, pos')))"
  using assms
proof (induction "length xs - n" arbitrary: n s c pos rule: less_induct)
  case less
  show ?case
  proof (cases "n < length xs")
    case False
    then have "s' = s" using less.prems(1) by (simp add: WriteAll.simps [of api])
    then show ?thesis
      using less.prems(2,3) by (metis fun_upd_triv option.distinct(1))
  next
    case True
    let ?req = "min (length xs - n) chunk"
    obtain b m t where w: "w_WriteFile api h (take ?req (drop n xs)) s = (b, m, t)"
      by (metis prod.collapse)
    have step: "(\<forall>q. q \<noteq> p \<longrightarrow> files t q = files s q) \<and> files t p \<noteq> None \<and>
        (\<exists>pos'. opened t = (opened s)(h \<mapsto> (p, pos')))"
    proof (cases b)
      case True
      then show ?thesis using write_ok [OF w [unfolded True [THEN eqTrueI]] less.prems(2,3)] by auto
    next
      case False
      then show ?thesis using write_failed [OF _ less.prems(2,3)] w by fastforce
    qed
    show ?thesis
    proof (cases "b \<and> m \<noteq> 0")
      case False
      then have "s' = t" using less.prems(1) True w by (auto simp: WriteAll.simps [of api chunk h xs n s])
      then show ?thesis using step by simp
    next
      case b: True
      then have rest: "WriteAll api chunk h xs (n + unat m) t = (ok, s')"
        using less.prems(1) True w by (simp add: WriteAll.simps [of api chunk h xs n s])
      have t: "opened t h = Some (p, pos + unat m)"
        "files t p = Some (file_write c pos (take (unat m) (take ?req (drop n xs))))"
        using write_ok [OF _ less.prems(2,3)] w b by fastforce+
      have "length xs - (n + unat m) < length xs - n"
        using b True by (simp add: unat_gt_0 diff_less_mono2)
      from less.hyps [OF this rest t] step show ?thesis by auto
    qed
  qed
qed

text \<open>Frames in the form the writers use.\<close>

lemma create_only:
  assumes "w_CreateFileW api p acc disp s = (h, s')" and "disp = CREATE_NEW \<or> disp = CREATE_ALWAYS"
  shows "only_file files p s s'"
  using assms create_new [of p acc s h s'] create_always [of p acc s h s'] create_failed [of p acc disp s s']
  by (cases "h = INVALID_HANDLE_VALUE") (auto simp: only_file_def)

lemma delete_only: "w_DeleteFileW api p s = (b, s') \<Longrightarrow> only_file files p s s' \<and> opened s' = opened s"
  using delete_ok [of p s s'] delete_failed [of p s s'] by (cases b) (auto simp: only_file_def)

lemma write_only:
  assumes "w_WriteFile api h xs s = (b, n, s')" and "opened s h = Some (p, pos)" and "files s p = Some c"
  shows "only_file files p s s' \<and> files s' p \<noteq> None \<and> (\<exists>pos'. opened s' = (opened s)(h \<mapsto> (p, pos')))"
  using write_ok [of h xs s n s' p pos c] write_failed [of h xs s n s' p pos c] assms
  by (cases b) (auto simp: only_file_def)

lemma pointer_only:
  assumes "w_SetFilePointerEx api h off s = (b, s')" and "opened s h = Some (p, pos)"
  shows "files s' = files s \<and> (\<exists>pos'. opened s' = (opened s)(h \<mapsto> (p, pos')))"
proof (cases b)
  case True
  then show ?thesis using pointer_ok [of h off s s' p pos] assms by auto
next
  case False
  then have "files s' = files s" "opened s' = opened s" using pointer_failed [of h off s s'] assms(1) by auto
  moreover have "opened s = (opened s)(h \<mapsto> (p, pos))" using assms(2) by (simp add: fun_upd_idem)
  ultimately show ?thesis by metis
qed

end

section \<open>A volume that deletes\<close>

text \<open>A file that exists can be deleted.\<close>

definition deletes_work :: "'s win32 \<Rightarrow> ('s \<Rightarrow> wstring \<Rightarrow> bytes option) \<Rightarrow> bool" where
  "deletes_work api files \<longleftrightarrow> (\<forall>p s. files s p \<noteq> None \<longrightarrow> fst (w_DeleteFileW api p s))"

text \<open>What \<open>GetFileAttributesW\<close> does not find is not there.\<close>

definition sees_files :: "'s win32 \<Rightarrow> ('s \<Rightarrow> wstring \<Rightarrow> bytes option) \<Rightarrow> bool" where
  "sees_files api files \<longleftrightarrow>
     (\<forall>p s. fst (w_GetFileAttributesW api p s) = INVALID_FILE_ATTRIBUTES \<longrightarrow> files s p = None)"

end
