(* ===== verification/MapJson.thy ===== *)
theory MapJson
  imports Interfaces Format Win32Files
begin

text \<open>
  The text artifacts of an acquisition, \<open>cli/map.cpp\<close>: the provenance map, the SHA-256 sidecar,
  their durable creation, and the promotion of a staged file to its final name. The conversion to
  UTF-8 (\<open>WideCharToMultiByte\<close>) belongs to the system and is a parameter.
\<close>

section \<open>Text\<close>

definition nl :: string where "nl = [CHR 0x0A]"

definition quoted :: "string \<Rightarrow> string" where
  "quoted s = CHR 0x22 # s @ [CHR 0x22]"

definition Hex64 :: "u64 \<Rightarrow> string" where
  "Hex64 value = ''0x'' @ to_base True 16 (unat value)"

definition Hex32 :: "u32 \<Rightarrow> string" where
  "Hex32 value = ''0x'' @ setw 8 (CHR ''0'') (to_base True 16 (unat value))"

definition IsSha256Hex :: "string \<Rightarrow> bool" where
  "IsSha256Hex value \<longleftrightarrow> length value = 64 \<and> list_all isxdigit value"

text \<open>
  \<open>WideCharToMultiByte(CP_UTF8, WC_ERR_INVALID_CHARS, ...)\<close>: the source and the size of the output
  buffer to the returned \<open>int\<close> and the bytes stored; with size 0 it returns the size needed.
\<close>

type_synonym utf8_api = "wstring \<Rightarrow> nat \<Rightarrow> int \<times> bytes"

definition NarrowUtf8 :: "utf8_api \<Rightarrow> wstring \<Rightarrow> string" where
  "NarrowUtf8 conv value =
     (if value = [] \<or> length value > 2147483647 then []
      else
        (let outputBytes = fst (conv value 0)
         in if outputBytes \<le> 0 then []
            else
              (case conv value (nat outputBytes) of
                 (converted, stored) \<Rightarrow>
                   if converted \<noteq> outputBytes then []
                   else map (\<lambda>b. char_of (unat b))
                          (take (nat outputBytes) (stored @ replicate (nat outputBytes) 0)))))"

section \<open>Durable creation of a text file\<close>

definition kTextChunkBytes :: nat where "kTextChunkBytes = 1024 * 1024"

definition WriteAtomicString :: "'s win32 \<Rightarrow> wstring \<Rightarrow> string \<Rightarrow> 's \<Rightarrow> bool \<times> 's" where
  "WriteAtomicString api targetPath content s =
     (case w_CreateFileW api targetPath GENERIC_WRITE CREATE_NEW s of
        (file, s) \<Rightarrow>
          if file = INVALID_HANDLE_VALUE then (False, s)
          else
            (case WriteAll api kTextChunkBytes file (ascii content) 0 s of
               (False, s) \<Rightarrow> (False, snd (w_DeleteFileW api targetPath (handle_reset api file s)))
             | (True, s) \<Rightarrow>
                 (case w_FlushFileBuffers api file s of
                    (False, s) \<Rightarrow> (False, snd (w_DeleteFileW api targetPath (handle_reset api file s)))
                  | (True, s) \<Rightarrow> (True, handle_reset api file s))))"

definition PromoteStagingFile :: "'s win32 \<Rightarrow> wstring \<Rightarrow> wstring \<Rightarrow> 's \<Rightarrow> bool \<times> 's" where
  "PromoteStagingFile api stagingPath finalPath s =
     w_MoveFileExW api stagingPath finalPath MOVEFILE_WRITE_THROUGH s"

section \<open>The provenance map\<close>

definition json_bool :: "bool \<Rightarrow> string" where
  "json_bool b = (if b then ''true'' else ''false'')"

definition map_status :: "AcquisitionSummary \<Rightarrow> string" where
  "map_status s =
     (if as_unreadableBytes s \<noteq> 0 \<or> as_topologyChanged s then ''incomplete'' else ''complete'')"

definition range_line :: "MemoryRun \<Rightarrow> string" where
  "range_line r = ''    {'' @ quoted ''driver_run'' @ '': '' @ dec (unat (mr_driverIndex r)) @
     '', '' @ quoted ''start'' @ '': '' @ quoted (Hex64 (mr_base r)) @
     '', '' @ quoted ''length'' @ '': '' @ dec (unat (mr_length r)) @ ''}''"

definition span_line :: "UnreadableSpan \<Rightarrow> string" where
  "span_line s = ''    {'' @ quoted ''start'' @ '': '' @ quoted (Hex64 (us_start s)) @
     '', '' @ quoted ''length'' @ '': '' @ dec (unat (us_length s)) @
     '', '' @ quoted ''ntstatus'' @ '': '' @ quoted (Hex32 (us_status s)) @ ''}''"

text \<open>The two element loops: a comma behind every element but the last.\<close>

fun json_lines :: "('a \<Rightarrow> string) \<Rightarrow> 'a list \<Rightarrow> string" where
  "json_lines f [] = []"
| "json_lines f [x] = f x @ nl"
| "json_lines f (x # y # ys) = f x @ '','' @ nl @ json_lines f (y # ys)"

definition hints_block :: "KernelHints \<Rightarrow> string" where
  "hints_block h =
     ''  '' @ quoted ''kernel_hints'' @ '': {'' @ nl @
     ''    '' @ quoted ''hypervisor_present'' @ '': '' @ json_bool (kh_hypervisorPresent h) @ '','' @ nl @
     ''    '' @ quoted ''directory_table_base'' @ '': '' @ quoted (Hex64 (kh_directoryTableBase h)) @ '','' @ nl @
     ''    '' @ quoted ''kpcr_address'' @ '': '' @ quoted (Hex64 (kh_kpcrAddress h)) @ '','' @ nl @
     ''    '' @ quoted ''kernel_base'' @ '': '' @ quoted (Hex64 (kh_kernelBase h)) @ '','' @ nl @
     ''    '' @ quoted ''kernel_size'' @ '': '' @ dec (unat (kh_kernelSize h)) @ '','' @ nl @
     ''    '' @ quoted ''major_version'' @ '': '' @ dec (unat (kh_majorVersion h)) @ '','' @ nl @
     ''    '' @ quoted ''minor_version'' @ '': '' @ dec (unat (kh_minorVersion h)) @ '','' @ nl @
     ''    '' @ quoted ''build_number'' @ '': '' @ dec (unat (kh_buildNumber h)) @ '','' @ nl @
     ''    '' @ quoted ''processors'' @ '': '' @ dec (unat (kh_numberOfProcessors h)) @ nl @
     ''  },'' @ nl"

definition map_json :: "AcquisitionSummary \<Rightarrow> string" where
  "map_json s =
     ''{'' @ nl @
     ''  '' @ quoted ''producer'' @ '': '' @ quoted ''PhylaRAM'' @ '','' @ nl @
     ''  '' @ quoted ''producer_version'' @ '': '' @ quoted ''0.1.0-alpha'' @ '','' @ nl @
     ''  '' @ quoted ''schema'' @ '': '' @ quoted ''phylaram-map-2'' @ '','' @ nl @
     ''  '' @ quoted ''status'' @ '': '' @ quoted (map_status s) @ '','' @ nl @
     ''  '' @ quoted ''logical_size'' @ '': '' @ dec (unat (as_logicalSize s)) @ '','' @ nl @
     ''  '' @ quoted ''physical_bytes'' @ '': '' @ dec (unat (as_physicalBytes s)) @ '','' @ nl @
     ''  '' @ quoted ''acquired_bytes'' @ '': '' @ dec (unat (as_acquiredBytes s)) @ '','' @ nl @
     ''  '' @ quoted ''unreadable_bytes'' @ '': '' @ dec (unat (as_unreadableBytes s)) @ '','' @ nl @
     ''  '' @ quoted ''topology_changed'' @ '': '' @ json_bool (as_topologyChanged s) @ '','' @ nl @
     ''  '' @ quoted ''sha256'' @ '': '' @ quoted (as_sha256 s) @ '','' @ nl @
     (if kh_available (as_hints s) then hints_block (as_hints s) else []) @
     ''  '' @ quoted ''ranges'' @ '': ['' @ nl @ json_lines range_line (as_ranges s) @ ''  ],'' @ nl @
     ''  '' @ quoted ''unreadable'' @ '': ['' @ nl @ json_lines span_line (as_unreadable s) @ ''  ]'' @ nl @
     ''}'' @ nl"

definition map_allowed :: "AcquisitionSummary \<Rightarrow> bool" where
  "map_allowed s \<longleftrightarrow> as_completed s \<and> IsSha256Hex (as_sha256 s) \<and> as_ranges s \<noteq> [] \<and>
     \<not> as_acquiredBytes s > u64_max - as_unreadableBytes s \<and>
     as_acquiredBytes s + as_unreadableBytes s = as_physicalBytes s"

definition WriteMapJson :: "'s win32 \<Rightarrow> wstring \<Rightarrow> AcquisitionSummary \<Rightarrow> 's \<Rightarrow> bool \<times> 's" where
  "WriteMapJson api path summary s =
     (if \<not> map_allowed summary then (False, s) else WriteAtomicString api path (map_json summary) s)"

definition sidecar_text :: "string \<Rightarrow> string \<Rightarrow> string" where
  "sidecar_text sha256 fileName = sha256 @ ''  '' @ fileName @ nl"

definition WriteSha256Sidecar ::
  "'s win32 \<Rightarrow> utf8_api \<Rightarrow> wstring \<Rightarrow> wstring \<Rightarrow> string \<Rightarrow> 's \<Rightarrow> bool \<times> 's" where
  "WriteSha256Sidecar api conv path rawFileName sha256 s =
     (if \<not> IsSha256Hex sha256 then (False, s)
      else
        (let fileName = NarrowUtf8 conv rawFileName
         in if fileName = [] then (False, s)
            else WriteAtomicString api path (sidecar_text sha256 fileName) s))"

section \<open>What the artifacts do to the volume\<close>

context win32_files
begin

lemma WriteAtomicString_True:
  assumes "WriteAtomicString api p content s = (True, s')"
  shows "files s p = None \<and> files s' = (files s)(p \<mapsto> ascii content)"
proof -
  obtain h s1 where c: "w_CreateFileW api p GENERIC_WRITE CREATE_NEW s = (h, s1)" by fastforce
  have h: "h \<noteq> INVALID_HANDLE_VALUE" using assms c by (auto simp: WriteAtomicString_def)
  have s1: "files s p = None" "files s1 = (files s)(p \<mapsto> [])" "opened s1 h = Some (p, 0)"
    using create_new [OF c h] by simp_all
  obtain s2 s3 where wa: "WriteAll api kTextChunkBytes h (ascii content) 0 s1 = (True, s2)"
    and fl: "w_FlushFileBuffers api h s2 = (True, s3)" and s': "s' = handle_reset api h s3"
    using assms c h by (auto simp: WriteAtomicString_def split: prod.splits bool.splits)
  have "files s2 = (files s1)(p \<mapsto> file_write [] 0 (ascii content))"
    using WriteAll_ok [OF wa s1(3), of "[]"] s1(2) by simp
  moreover have "file_write [] 0 (ascii content) = ascii content"
    by (simp add: file_write_def overlay_def)
  ultimately show ?thesis
    using s1 flush_frame [OF fl] by (simp add: s' handle_reset_view)
qed

lemma WriteAtomicString_only:
  assumes "WriteAtomicString api p content s = (ok, s')"
  shows "\<forall>q. q \<noteq> p \<longrightarrow> files s' q = files s q"
    and "\<not> ok \<Longrightarrow> files s p \<noteq> None \<Longrightarrow> files s' = files s"
proof -
  obtain h s1 where c: "w_CreateFileW api p GENERIC_WRITE CREATE_NEW s = (h, s1)" by fastforce
  have only: "(\<forall>q. q \<noteq> p \<longrightarrow> files s' q = files s q) \<and>
      (\<not> ok \<longrightarrow> files s p \<noteq> None \<longrightarrow> files s' = files s)"
  proof (cases "h = INVALID_HANDLE_VALUE")
    case True
    then show ?thesis
      using assms c create_failed [of p _ _ s s1] by (auto simp: WriteAtomicString_def)
  next
    case False
    have s1: "files s p = None" "files s1 = (files s)(p \<mapsto> [])" "opened s1 h = Some (p, 0)"
      using create_new [OF c False] by simp_all
    obtain b s2 where wa: "WriteAll api kTextChunkBytes h (ascii content) 0 s1 = (b, s2)" by fastforce
    have s2: "\<forall>q. q \<noteq> p \<longrightarrow> files s2 q = files s q"
      using WriteAll_frame [OF wa s1(3), of "[]"] s1(2) by auto
    obtain d s3 where fl: "w_FlushFileBuffers api h s2 = (d, s3)" by fastforce
    obtain e s4 where de: "w_DeleteFileW api p (handle_reset api h (if b then s3 else s2)) = (e, s4)"
      by fastforce
    have s3: "files s3 = files s2" using flush_frame [OF fl] by simp
    have s4: "\<forall>q. q \<noteq> p \<longrightarrow> files s4 q = files s q"
      using de delete_ok delete_failed s2 s3 by (cases e) (auto simp: handle_reset_view split: if_splits)
    show ?thesis
      using assms c False wa fl de s1 s2 s3 s4
      by (auto simp: WriteAtomicString_def handle_reset_view split: if_splits bool.splits)
  qed
  then show "\<forall>q. q \<noteq> p \<longrightarrow> files s' q = files s q"
    and "\<not> ok \<Longrightarrow> files s p \<noteq> None \<Longrightarrow> files s' = files s"
    by blast+
qed

lemma PromoteStagingFile_view:
  "PromoteStagingFile api src dst s = (True, s') \<Longrightarrow>
     files s src \<noteq> None \<and> files s dst = None \<and> files s' = (files s)(src := None, dst := files s src)"
  "PromoteStagingFile api src dst s = (False, s') \<Longrightarrow> files s' = files s"
  using move_ok move_failed by (auto simp: PromoteStagingFile_def)

end

end
