(* ===== verification/MapReader.thy ===== *)
theory MapReader
  imports MapJson "HOL-Library.Monad_Syntax"
begin

text \<open>
  A reader for the provenance map: a lexer and a parser for the JSON the writer of \<open>cli/map.cpp\<close> can
  emit (objects, arrays, strings without escapes, natural numbers, booleans), and the decoder of the
  \<open>phylaram-map-2\<close> schema. The map that is written is read back to the summary it was written from.
\<close>

section \<open>Tokens\<close>

datatype token = TStr string | TNum nat | TBool bool | TPunct char

definition is_space :: "char \<Rightarrow> bool" where
  "is_space c \<longleftrightarrow> c \<in> {CHR '' '', CHR 0x0A, CHR 0x0D, CHR 0x09}"

definition is_punct :: "char \<Rightarrow> bool" where
  "is_punct c \<longleftrightarrow> c \<in> {CHR ''{'', CHR ''}'', CHR ''['', CHR '']'', CHR '':'', CHR '',''}"

definition is_dec :: "char \<Rightarrow> bool" where
  "is_dec c \<longleftrightarrow> (let n = (of_char c :: nat) in 48 \<le> n \<and> n \<le> 57)"

definition is_letter :: "char \<Rightarrow> bool" where
  "is_letter c \<longleftrightarrow> (let n = (of_char c :: nat) in 97 \<le> n \<and> n \<le> 122)"

text \<open>The rest of a string literal, up to its closing quote. Escapes are not accepted.\<close>

fun scan_string :: "string \<Rightarrow> (string \<times> string) option" where
  "scan_string [] = None"
| "scan_string (c # cs) =
     (if c = CHR 0x22 then Some ([], cs)
      else if c = CHR 0x5C then None
      else map_option (\<lambda>(s, r). (c # s, r)) (scan_string cs))"

lemma scan_string_shorter: "scan_string cs = Some (s, r) \<Longrightarrow> length r < length cs"
  by (induction cs arbitrary: s) (auto split: if_splits intro: less_SucI)

function tokenize :: "string \<Rightarrow> token list option" where
  "tokenize [] = Some []"
| "tokenize (c # cs) =
     (if is_space c then tokenize cs
      else if is_punct c then map_option (Cons (TPunct c)) (tokenize cs)
      else if c = CHR 0x22 then
        (case scan_string cs of None \<Rightarrow> None | Some (s, r) \<Rightarrow> map_option (Cons (TStr s)) (tokenize r))
      else if is_dec c then
        (case of_base 10 (c # takeWhile is_dec cs) of
           None \<Rightarrow> None | Some n \<Rightarrow> map_option (Cons (TNum n)) (tokenize (dropWhile is_dec cs)))
      else if c # takeWhile is_letter cs = ''true''
        then map_option (Cons (TBool True)) (tokenize (dropWhile is_letter cs))
      else if c # takeWhile is_letter cs = ''false''
        then map_option (Cons (TBool False)) (tokenize (dropWhile is_letter cs))
      else None)"
  by pat_completeness auto

termination
  by (relation "measure length") (auto simp: le_imp_less_Suc length_dropWhile_le dest: scan_string_shorter intro: less_SucI)

lemmas tokenize_Cons = tokenize.simps(2)
declare tokenize.simps(2) [simp del]

lemma tokenize_space [simp]: "is_space c \<Longrightarrow> tokenize (c # cs) = tokenize cs"
  by (simp add: tokenize_Cons)

lemma tokenize_punct [simp]: "is_punct c \<Longrightarrow> tokenize (c # cs) = map_option (Cons (TPunct c)) (tokenize cs)"
  by (auto simp: tokenize_Cons is_space_def is_punct_def)

definition clean :: "string \<Rightarrow> bool" where
  "clean s \<longleftrightarrow> CHR 0x22 \<notin> set s \<and> CHR 0x5C \<notin> set s"

lemma scan_clean: "clean s \<Longrightarrow> scan_string (s @ CHR 0x22 # r) = Some (s, r)"
  by (induction s) (auto simp: clean_def)

lemma tokenize_quoted [simp]: "clean s \<Longrightarrow> tokenize (quoted s @ r) = map_option (Cons (TStr s)) (tokenize r)"
  by (simp add: quoted_def tokenize_Cons is_space_def is_punct_def scan_clean)

lemma to_base_dec: "list_all is_dec (to_base upper 10 n)"
proof (induction upper "10 :: nat" n rule: to_base.induct)
  case (1 upper n)
  have "is_dec (digit_char upper d)" if "d < 10" for d
    using that of_char_digit_char [of d upper] by (simp add: is_dec_def)
  then show ?case using 1 by (subst to_base.simps) auto
qed

definition no_dec :: "string \<Rightarrow> bool" where
  "no_dec r \<longleftrightarrow> (case r of [] \<Rightarrow> True | c # _ \<Rightarrow> \<not> is_dec c)"

lemma takeWhile_dec:
  "list_all is_dec s \<Longrightarrow> no_dec r \<Longrightarrow> takeWhile is_dec (s @ r) = s \<and> dropWhile is_dec (s @ r) = r"
  by (induction s) (auto simp: no_dec_def split: list.splits)

lemma is_dec_other: "is_dec c \<Longrightarrow> \<not> is_space c \<and> \<not> is_punct c \<and> c \<noteq> CHR 0x22"
  by (auto simp: is_dec_def is_space_def is_punct_def)

lemma tokenize_dec [simp]:
  assumes "no_dec r"
  shows "tokenize (dec n @ r) = map_option (Cons (TNum n)) (tokenize r)"
proof -
  obtain c cs where c: "dec n = c # cs" unfolding dec_def by (cases "to_base False 10 n") auto
  have all: "list_all is_dec (c # cs)" using to_base_dec [of False n] by (simp add: c [symmetric] dec_def)
  have "of_base 10 (c # cs) = Some n" using of_base_to_base [of 10 False n] by (simp add: c [symmetric] dec_def)
  moreover have "takeWhile is_dec (cs @ r) = cs" "dropWhile is_dec (cs @ r) = r"
    using takeWhile_dec [of cs r] all assms by auto
  ultimately show ?thesis
    using all is_dec_other [of c] by (simp add: c tokenize_Cons)
qed

definition no_letter :: "string \<Rightarrow> bool" where
  "no_letter r \<longleftrightarrow> (case r of [] \<Rightarrow> True | c # _ \<Rightarrow> \<not> is_letter c)"

lemma tokenize_bool [simp]:
  assumes "no_letter r"
  shows "tokenize (json_bool b @ r) = map_option (Cons (TBool b)) (tokenize r)"
proof -
  have "takeWhile is_letter r = []" "dropWhile is_letter r = r"
    using assms by (auto simp: no_letter_def split: list.splits)
  then show ?thesis
    by (simp add: json_bool_def tokenize_Cons is_letter_def is_space_def is_punct_def is_dec_def)
qed

section \<open>Values\<close>

datatype json = JStr string | JNum nat | JBool bool | JArr "json list" | JObj "(string \<times> json) list"

fun commas :: "token list list \<Rightarrow> token list" where
  "commas [] = []"
| "commas [t] = t"
| "commas (t # u # ts) = t @ TPunct (CHR '','') # commas (u # ts)"

fun tokens :: "json \<Rightarrow> token list" where
  "tokens (JStr s) = [TStr s]"
| "tokens (JNum n) = [TNum n]"
| "tokens (JBool b) = [TBool b]"
| "tokens (JArr vs) = TPunct (CHR ''['') # commas (map tokens vs) @ [TPunct (CHR '']'')]"
| "tokens (JObj ms) = TPunct (CHR ''{'') #
     commas (map (\<lambda>(k, v). TStr k # TPunct (CHR '':'') # tokens v) ms) @ [TPunct (CHR ''}'')]"

text \<open>A recursive-descent parser; the fuel is the number of tokens.\<close>

fun parse_value :: "nat \<Rightarrow> token list \<Rightarrow> (json \<times> token list) option"
  and parse_elements :: "nat \<Rightarrow> token list \<Rightarrow> (json list \<times> token list) option"
  and parse_members :: "nat \<Rightarrow> token list \<Rightarrow> ((string \<times> json) list \<times> token list) option" where
  "parse_value 0 ts = None"
| "parse_value (Suc n) ts =
     (case ts of
        TStr s # r \<Rightarrow> Some (JStr s, r)
      | TNum k # r \<Rightarrow> Some (JNum k, r)
      | TBool b # r \<Rightarrow> Some (JBool b, r)
      | TPunct c # r \<Rightarrow>
          (if c = CHR ''['' then
             (case r of TPunct d # r' \<Rightarrow>
                          if d = CHR '']'' then Some (JArr [], r')
                          else map_option (\<lambda>(vs, q). (JArr vs, q)) (parse_elements n r)
                      | _ \<Rightarrow> map_option (\<lambda>(vs, q). (JArr vs, q)) (parse_elements n r))
           else if c = CHR ''{'' then
             (case r of TPunct d # r' \<Rightarrow> if d = CHR ''}'' then Some (JObj [], r') else None
                      | _ \<Rightarrow> map_option (\<lambda>(ms, q). (JObj ms, q)) (parse_members n r))
           else None)
      | [] \<Rightarrow> None)"
| "parse_elements 0 ts = None"
| "parse_elements (Suc n) ts =
     (case parse_value n ts of
        Some (v, TPunct c # r) \<Rightarrow>
          (if c = CHR '','' then map_option (\<lambda>(vs, q). (v # vs, q)) (parse_elements n r)
           else if c = CHR '']'' then Some ([v], r) else None)
      | _ \<Rightarrow> None)"
| "parse_members 0 ts = None"
| "parse_members (Suc n) ts =
     (case ts of
        TStr k # TPunct d # r \<Rightarrow>
          (if d = CHR '':'' then
             (case parse_value n r of
                Some (v, TPunct c # r') \<Rightarrow>
                  (if c = CHR '','' then map_option (\<lambda>(ms, q). ((k, v) # ms, q)) (parse_members n r')
                   else if c = CHR ''}'' then Some ([(k, v)], r') else None)
              | _ \<Rightarrow> None)
           else None)
      | _ \<Rightarrow> None)"

definition parse_json :: "string \<Rightarrow> json option" where
  "parse_json s =
     (case tokenize s of
        None \<Rightarrow> None
      | Some ts \<Rightarrow> (case parse_value (length ts) ts of Some (v, []) \<Rightarrow> Some v | _ \<Rightarrow> None))"

lemma tokens_not_closing: "tokens v = t # ts \<Longrightarrow> t \<noteq> TPunct (CHR '']'')"
  by (cases v) auto

lemma tokens_Cons: "\<exists>t ts. tokens v = t # ts"
  by (cases v) auto

lemma parse_elements_tokens:
  assumes "\<And>v n r. v \<in> set vs \<Longrightarrow> length (tokens v) \<le> n \<Longrightarrow> parse_value n (tokens v @ r) = Some (v, r)"
    and "vs \<noteq> []" and "length (commas (map tokens vs)) < n"
  shows "parse_elements n (commas (map tokens vs) @ TPunct (CHR '']'') # r) = Some (vs, r)"
  using assms
proof (induction vs arbitrary: n)
  case (Cons v vs)
  obtain m where n: "n = Suc m" using Cons.prems(3) by (cases n) auto
  show ?case
  proof (cases vs)
    case Nil
    then show ?thesis using Cons.prems(1) [of v m] Cons.prems(3) by (simp add: n)
  next
    case (Cons u us)
    have "parse_elements m (commas (map tokens vs) @ TPunct (CHR '']'') # r) = Some (vs, r)"
      by (rule Cons.IH) (use Cons.prems Cons n in simp_all)
    moreover have "parse_value m (tokens v @ TPunct (CHR '','') # commas (map tokens vs) @ TPunct (CHR '']'') # r) =
        Some (v, TPunct (CHR '','') # commas (map tokens vs) @ TPunct (CHR '']'') # r)"
      by (rule Cons.prems(1)) (use Cons.prems(3) Cons n in simp_all)
    ultimately show ?thesis using Cons by (simp add: n)
  qed
qed simp

abbreviation member_tokens :: "string \<times> json \<Rightarrow> token list" where
  "member_tokens \<equiv> (\<lambda>(k, v). TStr k # TPunct (CHR '':'') # tokens v)"

lemma parse_members_tokens:
  assumes "\<And>k v n r. (k, v) \<in> set ms \<Longrightarrow> length (tokens v) \<le> n \<Longrightarrow> parse_value n (tokens v @ r) = Some (v, r)"
    and "ms \<noteq> []" and "length (commas (map member_tokens ms)) < n"
  shows "parse_members n (commas (map member_tokens ms) @ TPunct (CHR ''}'') # r) = Some (ms, r)"
  using assms
proof (induction ms arbitrary: n)
  case (Cons x ms)
  obtain k v where x: "x = (k, v)" by fastforce
  obtain m where n: "n = Suc m" using Cons.prems(3) by (cases n) auto
  show ?case
  proof (cases ms)
    case Nil
    then show ?thesis using Cons.prems(1) [of k v m] Cons.prems(3) by (simp add: n x)
  next
    case (Cons u us)
    have "parse_members m (commas (map member_tokens ms) @ TPunct (CHR ''}'') # r) = Some (ms, r)"
      by (rule Cons.IH) (use Cons.prems Cons n in \<open>auto simp: x\<close>)
    moreover have "parse_value m (tokens v @ TPunct (CHR '','') # commas (map member_tokens ms) @ TPunct (CHR ''}'') # r) =
        Some (v, TPunct (CHR '','') # commas (map member_tokens ms) @ TPunct (CHR ''}'') # r)"
      by (rule Cons.prems(1) [of k]) (use Cons.prems(3) Cons n in \<open>simp_all add: x\<close>)
    ultimately show ?thesis using Cons by (simp add: n x)
  qed
qed simp

lemma commas_hd: "xs \<noteq> [] \<Longrightarrow> f (hd xs) = t # ts \<Longrightarrow> \<exists>us. commas (map f xs) = t # us"
  by (cases xs rule: list.exhaust [case_product list.exhaust [of "tl xs"]]) auto

lemma parse_tokens: "length (tokens v) \<le> n \<Longrightarrow> parse_value n (tokens v @ r) = Some (v, r)"
proof (induction v arbitrary: n r)
  case (JArr vs)
  obtain m where n: "n = Suc m" using JArr.prems by (cases n) auto
  show ?case
  proof (cases "vs = []")
    case True
    then show ?thesis by (simp add: n)
  next
    case False
    have el: "parse_elements m (commas (map tokens vs) @ TPunct (CHR '']'') # r) = Some (vs, r)"
      by (rule parse_elements_tokens) (use JArr False n in auto)
    obtain t ts where t: "tokens (hd vs) = t # ts" using tokens_Cons by blast
    obtain us where us: "commas (map tokens vs) = t # us" using commas_hd [of vs tokens, OF False t] by blast
    have "t \<noteq> TPunct (CHR '']'')" by (rule tokens_not_closing [OF t])
    then show ?thesis using el us by (cases t) (auto simp: n)
  qed
next
  case (JObj ms)
  obtain m where n: "n = Suc m" using JObj.prems by (cases n) auto
  show ?case
  proof (cases "ms = []")
    case True
    then show ?thesis by (simp add: n)
  next
    case False
    have el: "parse_members m (commas (map member_tokens ms) @ TPunct (CHR ''}'') # r) = Some (ms, r)"
      by (rule parse_members_tokens) (use JObj False n in \<open>auto intro: Basic_BNFs.snds.intros\<close>)
    obtain k v where "hd ms = (k, v)" by fastforce
    then have "member_tokens (hd ms) = TStr k # TPunct (CHR '':'') # tokens v" by simp
    from commas_hd [of ms member_tokens, OF False this] obtain us where "commas (map member_tokens ms) = TStr k # us" by blast
    then show ?thesis using el by (simp add: n)
  qed
next
  case (JStr x)
  then show ?case by (cases n) simp_all
next
  case (JNum x)
  then show ?case by (cases n) simp_all
next
  case (JBool x)
  then show ?case by (cases n) simp_all
qed

lemma parse_json_tokens: "tokenize s = Some (tokens v) \<Longrightarrow> parse_json s = Some v"
  using parse_tokens [of v "length (tokens v)" "[]"] by (simp add: parse_json_def)

section \<open>The document\<close>

definition range_tree :: "MemoryRun \<Rightarrow> json" where
  "range_tree r = JObj [(''driver_run'', JNum (unat (mr_driverIndex r))), (''start'', JStr (Hex64 (mr_base r))),
     (''length'', JNum (unat (mr_length r)))]"

definition span_tree :: "UnreadableSpan \<Rightarrow> json" where
  "span_tree s = JObj [(''start'', JStr (Hex64 (us_start s))), (''length'', JNum (unat (us_length s))),
     (''ntstatus'', JStr (Hex32 (us_status s)))]"

definition hints_tree :: "KernelHints \<Rightarrow> json" where
  "hints_tree h = JObj
     [(''hypervisor_present'', JBool (kh_hypervisorPresent h)),
      (''directory_table_base'', JStr (Hex64 (kh_directoryTableBase h))),
      (''kpcr_address'', JStr (Hex64 (kh_kpcrAddress h))),
      (''kernel_base'', JStr (Hex64 (kh_kernelBase h))),
      (''kernel_size'', JNum (unat (kh_kernelSize h))),
      (''major_version'', JNum (unat (kh_majorVersion h))),
      (''minor_version'', JNum (unat (kh_minorVersion h))),
      (''build_number'', JNum (unat (kh_buildNumber h))),
      (''processors'', JNum (unat (kh_numberOfProcessors h)))]"

definition map_tree :: "AcquisitionSummary \<Rightarrow> json" where
  "map_tree s = JObj
     ([(''producer'', JStr ''PhylaRAM''), (''producer_version'', JStr ''0.1.0-alpha''),
       (''schema'', JStr ''phylaram-map-2''), (''status'', JStr (map_status s)),
       (''logical_size'', JNum (unat (as_logicalSize s))),
       (''physical_bytes'', JNum (unat (as_physicalBytes s))),
       (''acquired_bytes'', JNum (unat (as_acquiredBytes s))),
       (''unreadable_bytes'', JNum (unat (as_unreadableBytes s))),
       (''topology_changed'', JBool (as_topologyChanged s)),
       (''sha256'', JStr (as_sha256 s))] @
      (if kh_available (as_hints s) then [(''kernel_hints'', hints_tree (as_hints s))] else []) @
      [(''ranges'', JArr (map range_tree (as_ranges s))),
       (''unreadable'', JArr (map span_tree (as_unreadable s)))])"

lemma clean_xdigits: "list_all isxdigit s \<Longrightarrow> clean s"
  by (auto simp: clean_def list_all_iff isxdigit_def Let_def)

lemma clean_literal [simp]: "clean []" "clean (c # s) \<longleftrightarrow> c \<noteq> CHR 0x22 \<and> c \<noteq> CHR 0x5C \<and> clean s"
  by (auto simp: clean_def)

lemma clean_append: "clean (s @ t) \<longleftrightarrow> clean s \<and> clean t"
  by (auto simp: clean_def)

lemma clean_Hex [simp]: "clean (Hex64 x)" "clean (Hex32 y)"
proof -
  have "clean (to_base True 16 n)" for n by (rule clean_xdigits [OF to_base_hex])
  moreover have "clean (replicate k (CHR ''0''))" for k by (auto simp: clean_def)
  ultimately show "clean (Hex64 x)" "clean (Hex32 y)"
    by (simp_all add: Hex64_def Hex32_def setw_def clean_append)
qed

lemma clean_map_status [simp]: "clean (map_status s)"
  by (simp add: map_status_def)

lemma char_class [simp]:
  "is_space (CHR '' '')" "is_space (CHR 0x0A)" "is_punct (CHR ''{'')" "is_punct (CHR ''}'')"
  "is_punct (CHR ''['')" "is_punct (CHR '']'')" "is_punct (CHR '':'')" "is_punct (CHR '','')"
  by (simp_all add: is_space_def is_punct_def)

lemma no_dec_Cons [simp]: "no_dec (c # r) \<longleftrightarrow> \<not> is_dec c" "no_letter (c # r) \<longleftrightarrow> \<not> is_letter c"
  by (simp_all add: no_dec_def no_letter_def)

lemma punct_not_dec [simp]:
  "\<not> is_dec (CHR '','')" "\<not> is_dec (CHR ''}'')" "\<not> is_letter (CHR '','')" "\<not> is_dec (CHR 0x0A)"
  by (simp_all add: is_dec_def is_letter_def)

text \<open>\<open>lexes text ts\<close>: in front of anything that can be read, the text is read as the tokens \<open>ts\<close>.\<close>

definition lexes :: "string \<Rightarrow> token list \<Rightarrow> bool" where
  "lexes s ts \<longleftrightarrow> (\<forall>r us. tokenize r = Some us \<longrightarrow> tokenize (s @ r) = Some (ts @ us))"

lemma lexesD: "lexes s ts \<Longrightarrow> tokenize r = Some us \<Longrightarrow> tokenize (s @ r) = Some (ts @ us)"
  by (simp add: lexes_def)

lemma lexes_range: "lexes (range_line r) (tokens (range_tree r))"
  by (simp add: lexes_def range_line_def range_tree_def)

lemma lexes_span: "lexes (span_line r) (tokens (span_tree r))"
  by (simp add: lexes_def span_line_def span_tree_def)

lemma lexes_lines:
  assumes "\<And>x. lexes (f x) (tokens (g x))"
  shows "lexes (json_lines f xs) (commas (map (\<lambda>x. tokens (g x)) xs))"
proof (induction xs rule: induct_list012)
  case 1
  then show ?case by (simp add: lexes_def)
next
  case (2 x)
  then show ?case using lexesD [OF assms [of x]] by (simp add: lexes_def nl_def)
next
  case (3 x y ys)
  then show ?case using lexesD [OF assms [of x]] by (simp add: lexes_def nl_def)
qed

lemma lexes_hints: "lexes (hints_block h)
    (TStr ''kernel_hints'' # TPunct (CHR '':'') # tokens (hints_tree h) @ [TPunct (CHR '','')])"
  by (simp add: lexes_def hints_block_def hints_tree_def nl_def)

lemma commas_append:
  "ys \<noteq> [] \<Longrightarrow> xs \<noteq> [] \<Longrightarrow> commas (xs @ ys) = commas xs @ TPunct (CHR '','') # commas ys"
  by (induction xs rule: commas.induct) (auto simp: neq_Nil_conv)

lemma tokenize_map:
  assumes "clean (as_sha256 s)"
  shows "tokenize (map_json s) = Some (tokens (map_tree s))"
proof -
  have lines: "tokenize (json_lines range_line xs @ r) = Some (commas (map (tokens \<circ> range_tree) xs) @ us)"
    "tokenize (json_lines span_line ys @ r) = Some (commas (map (tokens \<circ> span_tree) ys) @ us)"
    if "tokenize r = Some us" for xs ys r us
    using lexesD [OF lexes_lines [of range_line range_tree, OF lexes_range] that]
      lexesD [OF lexes_lines [of span_line span_tree, OF lexes_span] that] by (simp_all add: comp_def)
  show ?thesis
    using assms lexesD [OF lexes_hints]
    by (simp add: map_json_def map_tree_def nl_def lines)
qed

section \<open>The schema\<close>

definition lookup :: "json \<Rightarrow> string \<Rightarrow> json option" where
  "lookup j k = (case j of JObj ms \<Rightarrow> map_of ms k | _ \<Rightarrow> None)"

definition num_field :: "nat \<Rightarrow> json \<Rightarrow> string \<Rightarrow> nat option" where
  "num_field w j k = (case lookup j k of Some (JNum n) \<Rightarrow> if n < 2 ^ w then Some n else None | _ \<Rightarrow> None)"

definition bool_field :: "json \<Rightarrow> string \<Rightarrow> bool option" where
  "bool_field j k = (case lookup j k of Some (JBool b) \<Rightarrow> Some b | _ \<Rightarrow> None)"

definition str_field :: "json \<Rightarrow> string \<Rightarrow> string option" where
  "str_field j k = (case lookup j k of Some (JStr s) \<Rightarrow> Some s | _ \<Rightarrow> None)"

definition arr_field :: "json \<Rightarrow> string \<Rightarrow> json list option" where
  "arr_field j k = (case lookup j k of Some (JArr vs) \<Rightarrow> Some vs | _ \<Rightarrow> None)"

fun unprefixed_hex :: "string \<Rightarrow> nat option" where
  "unprefixed_hex (a # b # h) = (if a = CHR ''0'' \<and> b = CHR ''x'' then of_base 16 h else None)"
| "unprefixed_hex _ = None"

definition hex_field :: "nat \<Rightarrow> json \<Rightarrow> string \<Rightarrow> nat option" where
  "hex_field w j k =
     do { s \<leftarrow> str_field j k; n \<leftarrow> unprefixed_hex s; if n < 2 ^ w then Some n else None }"

fun collect :: "('a \<Rightarrow> 'b option) \<Rightarrow> 'a list \<Rightarrow> 'b list option" where
  "collect f [] = Some []"
| "collect f (x # xs) = do { y \<leftarrow> f x; ys \<leftarrow> collect f xs; Some (y # ys) }"

definition decode_range :: "json \<Rightarrow> MemoryRun option" where
  "decode_range j = do {
     i \<leftarrow> num_field 32 j ''driver_run''; b \<leftarrow> hex_field 64 j ''start''; l \<leftarrow> num_field 64 j ''length'';
     Some \<lparr> mr_driverIndex = of_nat i, mr_base = of_nat b, mr_length = of_nat l \<rparr> }"

definition decode_span :: "json \<Rightarrow> UnreadableSpan option" where
  "decode_span j = do {
     b \<leftarrow> hex_field 64 j ''start''; l \<leftarrow> num_field 64 j ''length''; st \<leftarrow> hex_field 32 j ''ntstatus'';
     Some \<lparr> us_start = of_nat b, us_length = of_nat l, us_status = of_nat st \<rparr> }"

definition decode_hints :: "json \<Rightarrow> KernelHints option" where
  "decode_hints j = do {
     hv \<leftarrow> bool_field j ''hypervisor_present'';
     dtb \<leftarrow> hex_field 64 j ''directory_table_base''; kpcr \<leftarrow> hex_field 64 j ''kpcr_address'';
     kb \<leftarrow> hex_field 64 j ''kernel_base''; ks \<leftarrow> num_field 64 j ''kernel_size'';
     mj \<leftarrow> num_field 32 j ''major_version''; mn \<leftarrow> num_field 32 j ''minor_version'';
     bn \<leftarrow> num_field 32 j ''build_number''; np \<leftarrow> num_field 32 j ''processors'';
     Some \<lparr> kh_available = True, kh_hypervisorPresent = hv, kh_majorVersion = of_nat mj,
            kh_minorVersion = of_nat mn, kh_buildNumber = of_nat bn, kh_numberOfProcessors = of_nat np,
            kh_directoryTableBase = of_nat dtb, kh_kpcrAddress = of_nat kpcr, kh_kernelBase = of_nat kb,
            kh_kernelSize = of_nat ks \<rparr> }"

definition decode_map :: "json \<Rightarrow> AcquisitionSummary option" where
  "decode_map j = do {
     sc \<leftarrow> str_field j ''schema''; st \<leftarrow> str_field j ''status'';
     lsize \<leftarrow> num_field 64 j ''logical_size''; phys \<leftarrow> num_field 64 j ''physical_bytes'';
     acq \<leftarrow> num_field 64 j ''acquired_bytes''; unr \<leftarrow> num_field 64 j ''unreadable_bytes'';
     topo \<leftarrow> bool_field j ''topology_changed''; sha \<leftarrow> str_field j ''sha256'';
     hints \<leftarrow> (case lookup j ''kernel_hints'' of None \<Rightarrow> Some KernelHints_default | Some h \<Rightarrow> decode_hints h);
     rs \<leftarrow> arr_field j ''ranges''; ranges \<leftarrow> collect decode_range rs;
     us \<leftarrow> arr_field j ''unreadable''; spans \<leftarrow> collect decode_span us;
     if sc = ''phylaram-map-2'' \<and> IsSha256Hex sha \<and> acq + unr = phys \<and>
        st = (if unr \<noteq> 0 \<or> topo then ''incomplete'' else ''complete'')
     then Some \<lparr> as_completed = True, as_topologyChanged = topo, as_logicalSize = of_nat lsize,
                 as_physicalBytes = of_nat phys, as_acquiredBytes = of_nat acq, as_unreadableBytes = of_nat unr,
                 as_sha256 = sha, as_hints = hints, as_ranges = ranges, as_unreadable = spans \<rparr>
     else None }"

definition read_map :: "string \<Rightarrow> AcquisitionSummary option" where
  "read_map text = do { j \<leftarrow> parse_json text; decode_map j }"

text \<open>What the map says about a summary: everything, kernel hints only when they are available.\<close>

definition reported :: "AcquisitionSummary \<Rightarrow> AcquisitionSummary" where
  "reported s = (if kh_available (as_hints s) then s else s\<lparr> as_hints := KernelHints_default \<rparr>)"

lemma unprefixed_hex_Hex [simp]:
  "unprefixed_hex (Hex64 x) = Some (unat x)" "unprefixed_hex (Hex32 y) = Some (unat y)"
  by (simp_all add: Hex64_def Hex32_def of_base_to_base of_base_setw)

lemma unat_pow [simp]: "unat (x :: u64) < 2 ^ 64" "unat (y :: u32) < 2 ^ 32"
  using unat_lt_u64 [of x] unat_lt_u32 [of y] by simp_all

lemma decode_range_tree: "decode_range (range_tree r) = Some r"
  by (simp add: decode_range_def range_tree_def num_field_def hex_field_def str_field_def lookup_def)

lemma decode_span_tree: "decode_span (span_tree s) = Some s"
  by (simp add: decode_span_def span_tree_def num_field_def hex_field_def str_field_def lookup_def)

lemma decode_hints_tree: "kh_available h \<Longrightarrow> decode_hints (hints_tree h) = Some h"
  by (simp add: decode_hints_def hints_tree_def num_field_def hex_field_def str_field_def bool_field_def lookup_def)

lemma collect_map: "(\<And>x. f (g x) = Some x) \<Longrightarrow> collect f (map g xs) = Some xs"
  by (induction xs) simp_all

lemma decode_map_tree:
  assumes "map_allowed s"
  shows "decode_map (map_tree s) = Some (reported s)"
proof -
  have "as_acquiredBytes s + as_unreadableBytes s = as_physicalBytes s"
    "unat (as_acquiredBytes s) + unat (as_unreadableBytes s) < 2 ^ 64"
    using assms by (auto simp: map_allowed_def word_gt_max_minus_iff not_le not_less)
  then have sum: "unat (as_acquiredBytes s) + unat (as_unreadableBytes s) = unat (as_physicalBytes s)"
    by (metis unat_add_u64)
  have arrs: "collect decode_range (map range_tree rs) = Some rs" "collect decode_span (map span_tree us) = Some us"
    for rs us by (simp_all add: collect_map decode_range_tree decode_span_tree)
  have allowed: "IsSha256Hex (as_sha256 s)" "as_completed s" using assms by (simp_all add: map_allowed_def)
  have status: "map_status s = (if unat (as_unreadableBytes s) \<noteq> 0 \<or> as_topologyChanged s then ''incomplete'' else ''complete'')"
    by (simp add: map_status_def unat_gt_0)
  show ?thesis
    using allowed sum status
    by (cases s, cases "kh_available (as_hints s)")
      (simp_all add: decode_map_def map_tree_def num_field_def str_field_def bool_field_def arr_field_def
        lookup_def arrs decode_hints_tree reported_def)
qed

lemma read_map_json: "map_allowed s \<Longrightarrow> read_map (map_json s) = Some (reported s)"
proof -
  assume a: "map_allowed s"
  then have "clean (as_sha256 s)" by (intro clean_xdigits) (simp add: map_allowed_def IsSha256Hex_def)
  then have "parse_json (map_json s) = Some (map_tree s)"
    by (intro parse_json_tokens tokenize_map)
  then show ?thesis using decode_map_tree [OF a] by (simp add: read_map_def)
qed

end
