(* ===== verification/Sha256.thy ===== *)
theory Sha256
  imports Interfaces Format
begin

text \<open>
  The hasher, \<open>cli/sha256.cpp\<close>: a wrapper of the Windows CNG hash object. CNG is a parameter; the
  locale \<open>cng\<close> states what its documentation promises of a SHA-256 object. The wrapper is shown to
  keep the hasher contract the engine relies on.
\<close>

section \<open>CNG\<close>

text \<open>Every status is an \<open>NTSTATUS\<close>; a negative one, read as a signed number, is a failure.\<close>

definition nt_failed :: "u32 \<Rightarrow> bool" where
  "nt_failed status \<longleftrightarrow> sint status < 0"

record 'c cng_api =
  BCryptOpenAlgorithmProvider :: "'c \<Rightarrow> u32 \<times> u64 \<times> 'c"
  BCryptCloseAlgorithmProvider :: "u64 \<Rightarrow> 'c \<Rightarrow> 'c"
  BCryptCreateHash :: "u64 \<Rightarrow> 'c \<Rightarrow> u32 \<times> u64 \<times> 'c"
  BCryptHashData :: "u64 \<Rightarrow> bytes \<Rightarrow> 'c \<Rightarrow> u32 \<times> 'c"
  BCryptFinishHash :: "u64 \<Rightarrow> 'c \<Rightarrow> u32 \<times> bytes \<times> 'c"
  BCryptDestroyHash :: "u64 \<Rightarrow> 'c \<Rightarrow> 'c"

locale cng =
  fixes api :: "'c cng_api"
    and absorbed :: "'c \<Rightarrow> u64 \<Rightarrow> bytes option"
    and sha256_digest :: "bytes \<Rightarrow> bytes"
  assumes create_hash:
      "BCryptCreateHash api a c = (st, h, c') \<Longrightarrow> \<not> nt_failed st \<Longrightarrow> absorbed c' = (absorbed c)(h \<mapsto> [])"
    and hash_data:
      "absorbed c h = Some bs \<Longrightarrow> BCryptHashData api h xs c = (st, c') \<Longrightarrow> \<not> nt_failed st \<Longrightarrow>
       absorbed c' = (absorbed c)(h \<mapsto> bs @ xs)"
    and finish_hash:
      "absorbed c h = Some bs \<Longrightarrow> BCryptFinishHash api h c = (st, out, c') \<Longrightarrow> \<not> nt_failed st \<Longrightarrow>
       out = sha256_digest bs"
    and digest_length: "length (sha256_digest bs) = 32"

section \<open>The class\<close>

record 'c Sha256 =
  sha_sys :: 'c
  sha_algorithm :: u64
  sha_hash :: u64
  sha_initialized :: bool

definition kHashChunkBytes :: nat where "kHashChunkBytes = 16 * 1024 * 1024"

text \<open>A value-initialised object.\<close>

definition Sha256_init :: "'c \<Rightarrow> 'c Sha256" where
  "Sha256_init c = \<lparr> sha_sys = c, sha_algorithm = 0, sha_hash = 0, sha_initialized = False \<rparr>"

text \<open>Move construction: the new object, and what is left of the other.\<close>

definition Sha256_move :: "'c Sha256 \<Rightarrow> 'c Sha256 \<times> 'c Sha256" where
  "Sha256_move other =
     (other, other\<lparr> sha_algorithm := 0, sha_hash := 0, sha_initialized := False \<rparr>)"

definition Sha256_Reset :: "'c cng_api \<Rightarrow> 'c Sha256 \<Rightarrow> 'c Sha256" where
  "Sha256_Reset api h =
     (let h = (if sha_hash h \<noteq> 0
               then h\<lparr> sha_sys := BCryptDestroyHash api (sha_hash h) (sha_sys h), sha_hash := 0 \<rparr>
               else h);
          h = (if sha_algorithm h \<noteq> 0
               then h\<lparr> sha_sys := BCryptCloseAlgorithmProvider api (sha_algorithm h) (sha_sys h),
                       sha_algorithm := 0 \<rparr>
               else h)
      in h\<lparr> sha_initialized := False \<rparr>)"

definition Sha256_Initialize :: "'c cng_api \<Rightarrow> 'c Sha256 \<Rightarrow> bool \<times> 'c Sha256" where
  "Sha256_Initialize api h =
     (let h = Sha256_Reset api h in
      case BCryptOpenAlgorithmProvider api (sha_sys h) of
        (st, algorithm, c) \<Rightarrow>
          if nt_failed st then (False, h\<lparr> sha_sys := c \<rparr>)
          else
            (case BCryptCreateHash api algorithm c of
               (st, hash, c) \<Rightarrow>
                 if nt_failed st
                 then (False, h\<lparr> sha_sys := BCryptCloseAlgorithmProvider api algorithm c \<rparr>)
                 else (True, h\<lparr> sha_sys := c, sha_algorithm := algorithm, sha_hash := hash,
                                sha_initialized := True \<rparr>)))"

text \<open>The loop of \<open>Update\<close>: pieces of at most 16 MiB.\<close>

function Sha256_UpdateLoop :: "'c cng_api \<Rightarrow> bytes \<Rightarrow> 'c Sha256 \<Rightarrow> bool \<times> 'c Sha256" where
  "Sha256_UpdateLoop api xs h =
     (if xs \<noteq> []
      then
        (let chunkSize = min (length xs) kHashChunkBytes
         in case BCryptHashData api (sha_hash h) (take chunkSize xs) (sha_sys h) of
              (st, c) \<Rightarrow>
                if nt_failed st then (False, h\<lparr> sha_sys := c \<rparr>)
                else Sha256_UpdateLoop api (drop chunkSize xs) (h\<lparr> sha_sys := c \<rparr>))
      else (True, h))"
  by pat_completeness auto

termination
  by (relation "measure (\<lambda>(api, xs, h). length xs)") (auto simp: kHashChunkBytes_def)

declare Sha256_UpdateLoop.simps [simp del]

definition Sha256_Update :: "'c cng_api \<Rightarrow> bytes \<Rightarrow> 'c Sha256 \<Rightarrow> bool \<times> 'c Sha256" where
  "Sha256_Update api xs h =
     (if \<not> sha_initialized h then (False, h) else Sha256_UpdateLoop api xs h)"

text \<open>The loop of \<open>UpdateZeros\<close>: pieces of a static array of 1 MiB of zeros.\<close>

definition kZeros :: nat where "kZeros = 1024 * 1024"

function Sha256_ZerosLoop :: "'c cng_api \<Rightarrow> nat \<Rightarrow> 'c Sha256 \<Rightarrow> bool \<times> 'c Sha256" where
  "Sha256_ZerosLoop api n h =
     (if n \<noteq> 0
      then
        (let chunkSize = min n kZeros
         in case Sha256_Update api (replicate chunkSize 0) h of
              (False, h) \<Rightarrow> (False, h)
            | (True, h) \<Rightarrow> Sha256_ZerosLoop api (n - chunkSize) h)
      else (True, h))"
  by pat_completeness auto

termination
  by (relation "measure (\<lambda>(api, n, h). n)") (auto simp: kZeros_def)

declare Sha256_ZerosLoop.simps [simp del]

definition Sha256_UpdateZeros :: "'c cng_api \<Rightarrow> u64 \<Rightarrow> 'c Sha256 \<Rightarrow> bool \<times> 'c Sha256" where
  "Sha256_UpdateZeros api n h =
     (if \<not> sha_initialized h then (False, h) else Sha256_ZerosLoop api (unat n) h)"

definition hex_of :: "bytes \<Rightarrow> string" where
  "hex_of bs = concat (map hex2 bs)"

text \<open>\<open>Finish\<close> fills a 32-byte array; \<open>hex\<close> is cleared first.\<close>

definition Sha256_Finish :: "'c cng_api \<Rightarrow> 'c Sha256 \<Rightarrow> bool \<times> string \<times> 'c Sha256" where
  "Sha256_Finish api h =
     (if \<not> sha_initialized h then (False, [], h)
      else
        (case BCryptFinishHash api (sha_hash h) (sha_sys h) of
           (st, digest, c) \<Rightarrow>
             if nt_failed st then (False, [], h\<lparr> sha_sys := c \<rparr>)
             else (True, hex_of digest, Sha256_Reset api (h\<lparr> sha_sys := c \<rparr>))))"

definition Sha256_class :: "'c cng_api \<Rightarrow> 'c Sha256 IHasher" where
  "Sha256_class api = \<lparr> hs_Initialize = Sha256_Initialize api, hs_Update = Sha256_Update api,
     hs_UpdateZeros = Sha256_UpdateZeros api, hs_Finish = Sha256_Finish api,
     hs_Reset = Sha256_Reset api \<rparr>"

section \<open>Hexadecimal digests\<close>

lemma hex_of_simps [simp]: "hex_of [] = []" "hex_of (b # bs) = hex2 b @ hex_of bs"
  by (simp_all add: hex_of_def)

lemma length_hex_of [simp]: "length (hex_of bs) = 2 * length bs"
  by (induction bs) auto

lemma hex_of_isxdigit: "list_all isxdigit (hex_of bs)"
  by (induction bs) (auto simp: hex2_isxdigit)

text \<open>What a verifier does with the text of a digest: two digits per byte.\<close>

fun unhex :: "string \<Rightarrow> bytes option" where
  "unhex [] = Some []"
| "unhex [c] = None"
| "unhex (c # d # cs) =
     (case of_base 16 [c, d] of
        None \<Rightarrow> None
      | Some n \<Rightarrow> map_option (\<lambda>bs. of_nat n # bs) (unhex cs))"

lemma two_chars: "length s = 2 \<Longrightarrow> \<exists>c d. s = [c, d]"
  by (auto simp: length_Suc_conv numeral_2_eq_2)

lemma unhex_hex_of: "unhex (hex_of bs) = Some bs"
proof (induction bs)
  case (Cons b bs)
  obtain c d where cd: "hex2 b = [c, d]" using two_chars [OF length_hex2] by blast
  have "of_base 16 [c, d] = Some (unat b)" using of_base_hex2 [of b] cd by simp
  then show ?case using Cons cd by simp
qed simp

section \<open>The hasher keeps its contract\<close>

text \<open>The bytes absorbed by a live object.\<close>

definition sha_fed :: "('c \<Rightarrow> u64 \<Rightarrow> bytes option) \<Rightarrow> 'c Sha256 \<Rightarrow> bytes option" where
  "sha_fed absorbed h = (if sha_initialized h then absorbed (sha_sys h) (sha_hash h) else None)"

context cng
begin

abbreviation fed :: "'c Sha256 \<Rightarrow> bytes option" where
  "fed \<equiv> sha_fed absorbed"

lemma initialize_empty:
  "Sha256_Initialize api h = (True, h') \<Longrightarrow> fed h' = Some []"
  using create_hash
  by (fastforce simp: Sha256_Initialize_def sha_fed_def Let_def split: prod.splits if_splits)

lemma UpdateLoop_absorbs:
  "Sha256_UpdateLoop api xs h = (True, h') \<Longrightarrow> fed h = Some bs \<Longrightarrow> sha_initialized h \<Longrightarrow>
   fed h' = Some (bs @ xs) \<and> sha_initialized h'"
proof (induction "length xs" arbitrary: xs h bs rule: less_induct)
  case less
  show ?case
  proof (cases "xs = []")
    case True
    then show ?thesis using less.prems by (simp add: Sha256_UpdateLoop.simps [of api])
  next
    case False
    let ?n = "min (length xs) kHashChunkBytes"
    obtain st c where hd: "BCryptHashData api (sha_hash h) (take ?n xs) (sha_sys h) = (st, c)"
      by fastforce
    have ok: "\<not> nt_failed st"
      and rest: "Sha256_UpdateLoop api (drop ?n xs) (h\<lparr> sha_sys := c \<rparr>) = (True, h')"
      using less.prems(1) False hd
      by (auto simp: Sha256_UpdateLoop.simps [of api xs h] Let_def split: if_splits)
    have live: "absorbed (sha_sys h) (sha_hash h) = Some bs"
      using less.prems(2,3) by (simp add: sha_fed_def)
    have "fed (h\<lparr> sha_sys := c \<rparr>) = Some (bs @ take ?n xs)"
      using hash_data [OF live hd ok] less.prems(3) by (simp add: sha_fed_def)
    moreover have "length (drop ?n xs) < length xs"
      using False by (simp add: kHashChunkBytes_def)
    ultimately show ?thesis
      using less.hyps [OF _ rest] less.prems(3) by simp
  qed
qed

lemma Update_absorbs:
  "Sha256_Update api xs h = (True, h') \<Longrightarrow> fed h = Some bs \<Longrightarrow> fed h' = Some (bs @ xs)"
  using UpdateLoop_absorbs by (auto simp: Sha256_Update_def split: if_splits)

lemma ZerosLoop_absorbs:
  "Sha256_ZerosLoop api n h = (True, h') \<Longrightarrow> fed h = Some bs \<Longrightarrow> fed h' = Some (bs @ replicate n 0)"
proof (induction n arbitrary: h bs rule: less_induct)
  case (less n)
  show ?case
  proof (cases "n = 0")
    case True
    then show ?thesis using less.prems by (simp add: Sha256_ZerosLoop.simps [of api])
  next
    case False
    let ?m = "min n kZeros"
    obtain h1 where up: "Sha256_Update api (replicate ?m 0) h = (True, h1)"
      and rest: "Sha256_ZerosLoop api (n - ?m) h1 = (True, h')"
      using less.prems(1) False
      by (auto simp: Sha256_ZerosLoop.simps [of api n h] Let_def split: prod.splits bool.splits)
    have "n - ?m < n" using False by (simp add: kZeros_def)
    from less.IH [OF this rest Update_absorbs [OF up less.prems(2)]]
    have "fed h' = Some (bs @ replicate ?m 0 @ replicate (n - ?m) 0)" by simp
    moreover have "replicate ?m (0 :: u8) @ replicate (n - ?m) 0 = replicate n 0"
      by (simp flip: replicate_add)
    ultimately show ?thesis by simp
  qed
qed

sublocale hasher_contract "Sha256_class api" fed "\<lambda>bs. hex_of (sha256_digest bs)"
proof
  fix h bs hex h'
  assume "fed h = Some bs" and f: "hs_Finish (Sha256_class api) h = (True, hex, h')"
  then have live: "absorbed (sha_sys h) (sha_hash h) = Some bs" "sha_initialized h"
    by (auto simp: sha_fed_def split: if_splits)
  then show "hex = hex_of (sha256_digest bs)"
    using f finish_hash [OF live(1)]
    by (auto simp: Sha256_class_def Sha256_Finish_def split: prod.splits if_splits)
qed (auto simp: Sha256_class_def Sha256_UpdateZeros_def initialize_empty Update_absorbs ZerosLoop_absorbs
    split: if_splits)

end

end
