(* ===== verification/RawWriter.thy ===== *)
theory RawWriter
  imports Interfaces Win32Files
begin

text \<open>
  The flat image writer, \<open>cli/raw_writer.cpp\<close>: preflight of the volume, exclusive creation of the
  partial file, sparse allocation, positioned writes, flush. It is shown to keep the image writer
  contract on every system that keeps the file laws, and never to touch another file.
\<close>

section \<open>The volume of a path\<close>

definition kDiskHeadroomBytes :: u64 where "kDiskHeadroomBytes = 64 * 1024 * 1024"
definition kWriteChunkBytes :: nat where "kWriteChunkBytes = 16 * 1024 * 1024"
definition kMaxFatFileBytes :: u64 where "kMaxFatFileBytes = 0xFFFFFFFF"

text \<open>\<open>path.find(c, from)\<close>\<close>

fun find_from :: "wchar \<Rightarrow> wstring \<Rightarrow> nat \<Rightarrow> nat option" where
  "find_from c [] i = None"
| "find_from c (x # xs) i = (if i = 0 \<and> x = c then Some 0
     else map_option Suc (find_from c xs (i - 1)))"

definition backslash :: wchar where "backslash = 92"

text \<open>
  A UNC path is resolved by hand to \<open>\\server\share\\<close>; \<open>wcsncpy_s\<close> fails when the root does not
  fit the buffer of \<open>MAX_PATH + 1\<close> characters.
\<close>

definition ResolveVolumeRoot :: "'s win32 \<Rightarrow> wstring \<Rightarrow> 's \<Rightarrow> bool \<times> wstring \<times> 's" where
  "ResolveVolumeRoot api path s =
     (let isUnc = length path \<ge> 2 \<and> path ! 0 = backslash \<and> path ! 1 = backslash
      in if \<not> isUnc then w_GetVolumePathNameW api path s
         else
           (case find_from backslash path 2 of
              None \<Rightarrow> (False, [], s)
            | Some serverEnd \<Rightarrow>
                (let root = (case find_from backslash path (serverEnd + 1) of
                       None \<Rightarrow> path @ [backslash]
                     | Some shareEnd \<Rightarrow> take (shareEnd + 1) path)
                 in (length root < MAX_PATH + 1, take MAX_PATH root, s))))"

section \<open>The class\<close>

record 's RawWriter =
  rw_sys :: 's
  rw_file :: u64
  rw_logicalSize :: u64
  rw_sparse :: bool
  rw_lastError :: u32

definition RawWriter_init :: "'s \<Rightarrow> 's RawWriter" where
  "RawWriter_init s = \<lparr> rw_sys = s, rw_file = INVALID_HANDLE_VALUE, rw_logicalSize = 0,
     rw_sparse = False, rw_lastError = ERROR_SUCCESS \<rparr>"

definition rw_reset_file :: "'s win32 \<Rightarrow> 's RawWriter \<Rightarrow> 's RawWriter" where
  "rw_reset_file api w = w\<lparr> rw_sys := handle_reset api (rw_file w) (rw_sys w),
     rw_file := INVALID_HANDLE_VALUE \<rparr>"

definition RawWriter_Close :: "'s win32 \<Rightarrow> 's RawWriter \<Rightarrow> 's RawWriter" where
  "RawWriter_Close api w = (rw_reset_file api w)\<lparr> rw_logicalSize := 0, rw_sparse := False \<rparr>"

text \<open>\<open>lastError_ = GetLastError(); return false;\<close>\<close>

definition rw_fail :: "'s win32 \<Rightarrow> 's RawWriter \<Rightarrow> bool \<times> 's RawWriter" where
  "rw_fail api w = (False, w\<lparr> rw_lastError := w_GetLastError api (rw_sys w) \<rparr>)"

text \<open>The failure exits behind \<open>CreateFileW\<close>: record the error, close, delete the partial file.\<close>

definition rw_abandon :: "'s win32 \<Rightarrow> wstring \<Rightarrow> 's RawWriter \<Rightarrow> bool \<times> 's RawWriter" where
  "rw_abandon api path w =
     (let w = RawWriter_Close api (w\<lparr> rw_lastError := w_GetLastError api (rw_sys w) \<rparr>)
      in (False, w\<lparr> rw_sys := snd (w_DeleteFileW api path (rw_sys w)) \<rparr>))"

text \<open>Everything of \<open>PreflightAndOpen\<close> in front of \<open>CreateFileW\<close>: may the image be created, and
  does its volume support sparse files?\<close>

definition rw_preflight ::
  "'s win32 \<Rightarrow> wstring \<Rightarrow> u64 \<Rightarrow> u64 \<Rightarrow> 's RawWriter \<Rightarrow> bool \<times> bool \<times> 's RawWriter" where
  "rw_preflight api partialPath logicalSize expectedPhysicalBytes w =
     (if partialPath = [] \<or> logicalSize = 0 \<or> logicalSize > 0x7FFFFFFFFFFFFFFF \<or>
         expectedPhysicalBytes > logicalSize
      then (False, False, w\<lparr> rw_lastError := ERROR_INVALID_PARAMETER \<rparr>)
      else
        (case ResolveVolumeRoot api partialPath (rw_sys w) of
           (rootOk, volumeRoot, s) \<Rightarrow>
             (let w = w\<lparr> rw_sys := s \<rparr> in
              if \<not> rootOk
              then (False, False, w\<lparr> rw_lastError :=
                      (if w_GetLastError api s = ERROR_SUCCESS then ERROR_INVALID_NAME
                       else w_GetLastError api s) \<rparr>)
              else
                (case w_GetVolumeInformationW api volumeRoot s of
                   (infoOk, (fileSystemFlags, fileSystem), s) \<Rightarrow>
                     (let w = w\<lparr> rw_sys := s \<rparr>;
                          supportsSparse = (fileSystemFlags AND FILE_SUPPORTS_SPARSE_FILES \<noteq> 0);
                          payloadBytes = (if supportsSparse then expectedPhysicalBytes else logicalSize)
                      in if \<not> infoOk then (case rw_fail api w of (b, w) \<Rightarrow> (b, False, w))
                         else if (fileSystem = wide ''FAT32'' \<or> fileSystem = wide ''FAT'') \<and>
                                 logicalSize > kMaxFatFileBytes
                         then (False, False, w\<lparr> rw_lastError := ERROR_FILE_SYSTEM_LIMITATION \<rparr>)
                         else if payloadBytes > u64_max - kDiskHeadroomBytes
                         then (False, False, w\<lparr> rw_lastError := ERROR_ARITHMETIC_OVERFLOW \<rparr>)
                         else
                           (case w_GetDiskFreeSpaceExW api volumeRoot s of
                              (freeOk, freeBytesAvailable, s) \<Rightarrow>
                                (let w = w\<lparr> rw_sys := s \<rparr> in
                                 if \<not> freeOk then (case rw_fail api w of (b, w) \<Rightarrow> (b, False, w))
                                 else if freeBytesAvailable < payloadBytes + kDiskHeadroomBytes
                                 then (False, False, w\<lparr> rw_lastError := ERROR_DISK_FULL \<rparr>)
                                 else (True, supportsSparse, w))))))))"

text \<open>The rest: create the file exclusively, make it sparse, give it its size.\<close>

definition rw_create ::
  "'s win32 \<Rightarrow> wstring \<Rightarrow> u64 \<Rightarrow> bool \<Rightarrow> 's RawWriter \<Rightarrow> bool \<times> 's RawWriter" where
  "rw_create api partialPath logicalSize supportsSparse w =
     (case w_CreateFileW api partialPath (GENERIC_READ OR GENERIC_WRITE) CREATE_NEW (rw_sys w) of
        (h, s) \<Rightarrow>
          (let w = w\<lparr> rw_sys := s, rw_file := h \<rparr> in
           if h = INVALID_HANDLE_VALUE then rw_fail api w
           else
             (case (if supportsSparse then w_SetSparse api h s else (True, s)) of
                (sparseOk, s) \<Rightarrow>
                  (let w = w\<lparr> rw_sys := s \<rparr> in
                   if \<not> sparseOk then rw_abandon api partialPath w
                   else
                     (let w = (if supportsSparse then w\<lparr> rw_sparse := True \<rparr> else w) in
                      case w_SetFilePointerEx api h logicalSize s of
                        (False, s) \<Rightarrow> rw_abandon api partialPath (w\<lparr> rw_sys := s \<rparr>)
                      | (True, s) \<Rightarrow>
                          (case w_SetEndOfFile api h s of
                             (False, s) \<Rightarrow> rw_abandon api partialPath (w\<lparr> rw_sys := s \<rparr>)
                           | (True, s) \<Rightarrow>
                               (True, w\<lparr> rw_sys := s, rw_logicalSize := logicalSize \<rparr>)))))))"

definition RawWriter_PreflightAndOpen ::
  "'s win32 \<Rightarrow> wstring \<Rightarrow> u64 \<Rightarrow> u64 \<Rightarrow> 's RawWriter \<Rightarrow> bool \<times> 's RawWriter" where
  "RawWriter_PreflightAndOpen api partialPath logicalSize expectedPhysicalBytes w =
     (let w = (RawWriter_Close api w)\<lparr> rw_lastError := ERROR_SUCCESS, rw_sparse := False,
                 rw_logicalSize := 0 \<rparr>
      in case rw_preflight api partialPath logicalSize expectedPhysicalBytes w of
           (False, supportsSparse, w) \<Rightarrow> (False, w)
         | (True, supportsSparse, w) \<Rightarrow> rw_create api partialPath logicalSize supportsSparse w)"

definition RawWriter_WriteAt ::
  "'s win32 \<Rightarrow> u64 \<Rightarrow> bytes \<Rightarrow> 's RawWriter \<Rightarrow> bool \<times> 's RawWriter" where
  "RawWriter_WriteAt api offset data w =
     (if rw_file w = INVALID_HANDLE_VALUE
      then (False, w\<lparr> rw_lastError := ERROR_INVALID_HANDLE \<rparr>)
      else if offset > rw_logicalSize w \<or> length data > unat (rw_logicalSize w - offset)
      then (False, w\<lparr> rw_lastError := ERROR_INVALID_PARAMETER \<rparr>)
      else
        (case w_SetFilePointerEx api (rw_file w) offset (rw_sys w) of
           (False, s) \<Rightarrow> rw_fail api (w\<lparr> rw_sys := s \<rparr>)
         | (True, s) \<Rightarrow>
             (case WriteAll api kWriteChunkBytes (rw_file w) data 0 s of
                (False, s) \<Rightarrow> rw_fail api (w\<lparr> rw_sys := s \<rparr>)
              | (True, s) \<Rightarrow> (True, w\<lparr> rw_sys := s \<rparr>))))"

definition RawWriter_FlushAndClose :: "'s win32 \<Rightarrow> 's RawWriter \<Rightarrow> bool \<times> 's RawWriter" where
  "RawWriter_FlushAndClose api w =
     (if rw_file w = INVALID_HANDLE_VALUE
      then (False, w\<lparr> rw_lastError := ERROR_INVALID_HANDLE \<rparr>)
      else
        (case w_FlushFileBuffers api (rw_file w) (rw_sys w) of
           (False, s) \<Rightarrow>
             (False, (rw_reset_file api (w\<lparr> rw_sys := s, rw_lastError := w_GetLastError api s \<rparr>))
                       \<lparr> rw_logicalSize := 0 \<rparr>)
         | (True, s) \<Rightarrow> (True, (rw_reset_file api (w\<lparr> rw_sys := s \<rparr>))\<lparr> rw_logicalSize := 0 \<rparr>)))"

definition RawWriter_class :: "'s win32 \<Rightarrow> 's RawWriter IRawWriter" where
  "RawWriter_class api = \<lparr> wr_Configure = (\<lambda>_ _ _ w. w),
     wr_PreflightAndOpen = RawWriter_PreflightAndOpen api, wr_WriteAt = RawWriter_WriteAt api,
     wr_FlushAndClose = RawWriter_FlushAndClose api, wr_Close = RawWriter_Close api,
     wr_IsSparse = rw_sparse, wr_LastError = rw_lastError \<rparr>"

section \<open>What the writer does to files\<close>

text \<open>The writer has the file \<open>p\<close> open, with content \<open>c\<close> of the announced size.\<close>

definition raw_at ::
  "('s \<Rightarrow> wstring \<Rightarrow> bytes option) \<Rightarrow> ('s \<Rightarrow> u64 \<Rightarrow> (wstring \<times> nat) option) \<Rightarrow> 's RawWriter \<Rightarrow>
   wstring \<Rightarrow> bytes \<Rightarrow> bool" where
  "raw_at files opened w p c \<longleftrightarrow>
     rw_file w \<noteq> INVALID_HANDLE_VALUE \<and> rw_file w \<noteq> 0 \<and>
     (\<exists>pos. opened (rw_sys w) (rw_file w) = Some (p, pos)) \<and>
     files (rw_sys w) p = Some c \<and> length c = unat (rw_logicalSize w)"

text \<open>The same without the size: what a failed write leaves.\<close>

definition raw_holds ::
  "('s \<Rightarrow> wstring \<Rightarrow> bytes option) \<Rightarrow> ('s \<Rightarrow> u64 \<Rightarrow> (wstring \<times> nat) option) \<Rightarrow> 's RawWriter \<Rightarrow>
   wstring \<Rightarrow> bool" where
  "raw_holds files opened w p \<longleftrightarrow>
     rw_file w \<noteq> INVALID_HANDLE_VALUE \<and> rw_file w \<noteq> 0 \<and>
     (\<exists>pos. opened (rw_sys w) (rw_file w) = Some (p, pos)) \<and> files (rw_sys w) p \<noteq> None"

definition raw_image ::
  "('s \<Rightarrow> wstring \<Rightarrow> bytes option) \<Rightarrow> ('s \<Rightarrow> u64 \<Rightarrow> (wstring \<times> nat) option) \<Rightarrow> 's RawWriter \<Rightarrow> bytes option" where
  "raw_image files opened w =
     (if rw_file w = INVALID_HANDLE_VALUE \<or> rw_file w = 0 then None
      else case opened (rw_sys w) (rw_file w) of
        None \<Rightarrow> None
      | Some (p, pos) \<Rightarrow>
          (case files (rw_sys w) p of
             None \<Rightarrow> None
           | Some c \<Rightarrow> if length c = unat (rw_logicalSize w) then Some c else None))"

lemma raw_image_Some:
  "raw_image files opened w = Some c \<longleftrightarrow> (\<exists>p. raw_at files opened w p c)"
  by (auto simp: raw_image_def raw_at_def split: option.splits if_splits)

context win32_files
begin

lemma Close_files:
  "files (rw_sys (RawWriter_Close api w)) = files (rw_sys w)"
  "rw_file (RawWriter_Close api w) = INVALID_HANDLE_VALUE"
  by (simp_all add: RawWriter_Close_def rw_reset_file_def handle_reset_view)

lemma ResolveVolumeRoot_frame:
  "ResolveVolumeRoot api path s = (ok, root, s') \<Longrightarrow> files s' = files s \<and> opened s' = opened s"
  using volume_path_frame
  by (fastforce simp: ResolveVolumeRoot_def Let_def split: if_splits option.splits)

lemma rw_preflight_frame:
  assumes "rw_preflight api p n phys w = (ok, sp, w')"
  shows "files (rw_sys w') = files (rw_sys w) \<and> opened (rw_sys w') = opened (rw_sys w) \<and>
    rw_file w' = rw_file w \<and> rw_logicalSize w' = rw_logicalSize w \<and>
    (ok \<longrightarrow> n \<noteq> 0 \<and> unat n < 2 ^ 63 \<and> phys \<le> n)"
proof -
  obtain a root s1 where r: "ResolveVolumeRoot api p (rw_sys w) = (a, root, s1)" by (metis prod.collapse)
  obtain b fl fs s2 where v: "w_GetVolumeInformationW api root s1 = (b, (fl, fs), s2)" by (metis prod.collapse)
  obtain c free s3 where g: "w_GetDiskFreeSpaceExW api root s2 = (c, free, s3)" by (metis prod.collapse)
  have "files s1 = files (rw_sys w)" "opened s1 = opened (rw_sys w)"
    "files s2 = files s1" "opened s2 = opened s1" "files s3 = files s2" "opened s3 = opened s2"
    using ResolveVolumeRoot_frame [OF r] volume_info_frame [OF v] free_space_frame [OF g] by simp_all
  then show ?thesis
    using assms r v g
    by (auto simp: rw_preflight_def rw_fail_def Let_def word_less_nat_alt word_le_nat_alt not_less
        split: if_splits)
qed

lemma rw_abandon_files:
  assumes "rw_abandon api p w = (ok, w')" and "only_file files p s (rw_sys w)"
  shows "\<not> ok" and "only_file files p s (rw_sys w')" and "rw_file w' = INVALID_HANDLE_VALUE"
proof -
  let ?c = "RawWriter_Close api (w\<lparr> rw_lastError := w_GetLastError api (rw_sys w) \<rparr>)"
  obtain b t where d: "w_DeleteFileW api p (rw_sys ?c) = (b, t)" by fastforce
  have "only_file files p (rw_sys ?c) t"
    using delete_ok [of p "rw_sys ?c" t] delete_failed [of p "rw_sys ?c" t] d
    by (cases b) (auto simp: only_file_def)
  then show "only_file files p s (rw_sys w')"
    using assms d by (auto simp: rw_abandon_def Let_def only_file_def Close_files)
  show "\<not> ok" "rw_file w' = INVALID_HANDLE_VALUE"
    using assms d by (auto simp: rw_abandon_def Let_def Close_files)
qed

lemma rw_create_cases:
  assumes "rw_create api p n sp w = (ok, w')" and "rw_file w = INVALID_HANDLE_VALUE"
  shows "only_file files p (rw_sys w) (rw_sys w')"
    and "ok \<Longrightarrow> files (rw_sys w) p = None \<and> raw_at files opened w' p (replicate (unat n) 0)"
    and "\<not> ok \<Longrightarrow> rw_file w' = INVALID_HANDLE_VALUE"
proof -
  obtain h s1 where c: "w_CreateFileW api p (GENERIC_READ OR GENERIC_WRITE) CREATE_NEW (rw_sys w) = (h, s1)"
    by fastforce
  obtain a s2 where sps: "(if sp then w_SetSparse api h s1 else (True, s1)) = (a, s2)" by fastforce
  obtain b s3 where po: "w_SetFilePointerEx api h n s2 = (b, s3)" by fastforce
  obtain d s4 where eo: "w_SetEndOfFile api h s3 = (d, s4)" by fastforce
  have goal: "only_file files p (rw_sys w) (rw_sys w') \<and>
      (ok \<longrightarrow> files (rw_sys w) p = None \<and> raw_at files opened w' p (replicate (unat n) 0)) \<and>
      (\<not> ok \<longrightarrow> rw_file w' = INVALID_HANDLE_VALUE)"
  proof (cases "h = INVALID_HANDLE_VALUE")
    case True
    then show ?thesis
      using assms c create_failed [of p _ _ "rw_sys w" s1]
      by (auto simp: rw_create_def rw_fail_def only_file_def)
  next
    case False
    have s1: "h \<noteq> 0" "files (rw_sys w) p = None" "files s1 = (files (rw_sys w))(p \<mapsto> [])"
      "opened s1 h = Some (p, 0)"
      using create_new [OF c False] by simp_all
    have s2: "files s2 = files s1" "opened s2 = opened s1"
      using sps sparse_frame [of h s1] by (auto split: if_splits)
    have only: "only_file files p (rw_sys w) s1" "only_file files p (rw_sys w) s2"
      by (simp_all add: only_file_def s1 s2)
    show ?thesis
    proof (cases "a \<and> b \<and> d")
      case True
      have s3: "files s3 = files s1" "opened s3 h = Some (p, unat n)"
        using pointer_ok [of h n s2 s3 p 0] po True s1 s2 by auto
      have s4: "files s4 = (files s3)(p \<mapsto> resize [] (unat n))" "opened s4 = opened s3"
        using end_of_file_ok [of h s3 s4 p "unat n" "[]"] eo True s1 s3 by auto
      have "ok" and "w' = (if sp then w\<lparr> rw_sparse := True \<rparr> else w)
          \<lparr> rw_sys := s4, rw_file := h, rw_logicalSize := n \<rparr>"
        using assms(1) c False sps po eo True by (auto simp: rw_create_def Let_def split: if_splits)
      then show ?thesis
        using s1 s3 s4 False by (auto simp: raw_at_def only_file_def)
    next
      case fail: False
      obtain v s where ab: "rw_abandon api p v = (ok, w')" and v: "rw_sys v = s"
        and s: "s = s2 \<or> s = s3 \<or> s = s4 \<and> a \<and> b \<and> \<not> d"
        using assms(1) c False sps po eo fail
        by (auto simp: rw_create_def Let_def split: if_splits bool.splits)
      have "only_file files p (rw_sys w) s3"
        using pointer_ok [of h n s2 s3 p 0] pointer_failed [of h n s2 s3] po s1 s2 only
        by (cases b) (auto simp: only_file_def)
      moreover have "only_file files p (rw_sys w) s4" if "\<not> d"
        using end_of_file_failed [of h s3 s4] eo that calculation by (auto simp: only_file_def)
      ultimately have "only_file files p (rw_sys w) (rw_sys v)"
        using s v only by auto
      then show ?thesis using rw_abandon_files [OF ab] by auto
    qed
  qed
  then show "only_file files p (rw_sys w) (rw_sys w')"
    and "ok \<Longrightarrow> files (rw_sys w) p = None \<and> raw_at files opened w' p (replicate (unat n) 0)"
    and "\<not> ok \<Longrightarrow> rw_file w' = INVALID_HANDLE_VALUE"
    by blast+
qed

lemma PreflightAndOpen_files:
  assumes "RawWriter_PreflightAndOpen api p n phys w = (ok, w')"
  shows "only_file files p (rw_sys w) (rw_sys w')"
    and "ok \<Longrightarrow> files (rw_sys w) p = None \<and> raw_at files opened w' p (replicate (unat n) 0) \<and> n \<noteq> 0 \<and> phys \<le> n"
    and "\<not> ok \<Longrightarrow> rw_file w' = INVALID_HANDLE_VALUE"
proof -
  let ?w = "(RawWriter_Close api w)\<lparr> rw_lastError := ERROR_SUCCESS, rw_sparse := False, rw_logicalSize := 0 \<rparr>"
  obtain a sp u where pre: "rw_preflight api p n phys ?w = (a, sp, u)" by (metis prod.collapse)
  have u: "files (rw_sys u) = files (rw_sys w)" "rw_file u = INVALID_HANDLE_VALUE" "a \<Longrightarrow> n \<noteq> 0 \<and> phys \<le> n"
    using rw_preflight_frame [OF pre] by (simp_all add: Close_files)
  have w': "if a then rw_create api p n sp u = (ok, w') else \<not> ok \<and> w' = u"
    using assms pre by (auto simp: RawWriter_PreflightAndOpen_def Let_def)
  show "only_file files p (rw_sys w) (rw_sys w')"
    using w' u rw_create_cases(1) [of p n sp u ok w'] by (auto simp: only_file_def split: if_splits)
  show "ok \<Longrightarrow> files (rw_sys w) p = None \<and> raw_at files opened w' p (replicate (unat n) 0) \<and> n \<noteq> 0 \<and> phys \<le> n"
    using w' u rw_create_cases(2) [of p n sp u ok w'] by (auto split: if_splits)
  show "\<not> ok \<Longrightarrow> rw_file w' = INVALID_HANDLE_VALUE"
    using w' u rw_create_cases(3) [of p n sp u ok w'] by (auto split: if_splits)
qed

text \<open>An existing file is never touched by an attempt to open.\<close>

lemma rw_create_existing:
  assumes "rw_create api p n sp w = (ok, w')" and "files (rw_sys w) p \<noteq> None"
    and "rw_file w = INVALID_HANDLE_VALUE"
  shows "files (rw_sys w') = files (rw_sys w)"
proof -
  obtain h s1 where c: "w_CreateFileW api p (GENERIC_READ OR GENERIC_WRITE) CREATE_NEW (rw_sys w) = (h, s1)"
    by fastforce
  have "h = INVALID_HANDLE_VALUE" using create_new [OF c] assms(2) by auto
  then show ?thesis
    using assms(1,3) c create_failed [of p _ _ "rw_sys w" s1] by (auto simp: rw_create_def rw_fail_def)
qed

lemma PreflightAndOpen_existing:
  assumes "RawWriter_PreflightAndOpen api p n phys w = (ok, w')" and "files (rw_sys w) p \<noteq> None"
  shows "files (rw_sys w') = files (rw_sys w)"
proof -
  let ?w = "(RawWriter_Close api w)\<lparr> rw_lastError := ERROR_SUCCESS, rw_sparse := False, rw_logicalSize := 0 \<rparr>"
  obtain a sp u where pre: "rw_preflight api p n phys ?w = (a, sp, u)" by (metis prod.collapse)
  have u: "files (rw_sys u) = files (rw_sys w)" "rw_file u = INVALID_HANDLE_VALUE"
    using rw_preflight_frame [OF pre] by (simp_all add: Close_files)
  have "if a then rw_create api p n sp u = (ok, w') else w' = u"
    using assms(1) pre by (auto simp: RawWriter_PreflightAndOpen_def Let_def)
  then show ?thesis
    using rw_create_existing [of p n sp u ok w'] u assms(2) by (auto split: if_splits)
qed

lemma WriteAt_files:
  assumes "RawWriter_WriteAt api off xs w = (ok, w')" and "raw_holds files opened w p"
  shows "only_file files p (rw_sys w) (rw_sys w')" and "raw_holds files opened w' p"
proof -
  obtain pos c where o: "opened (rw_sys w) (rw_file w) = Some (p, pos)" "files (rw_sys w) p = Some c"
    using assms(2) by (auto simp: raw_holds_def)
  obtain a s where po: "w_SetFilePointerEx api (rw_file w) off (rw_sys w) = (a, s)" by fastforce
  obtain b t where wa: "WriteAll api kWriteChunkBytes (rw_file w) xs 0 s = (b, t)" by fastforce
  have s: "files s = files (rw_sys w)" "\<exists>pos. opened s (rw_file w) = Some (p, pos)"
    using pointer_ok [OF _ o(1), of off s] pointer_failed [of "rw_file w" off "rw_sys w" s] po o
    by (cases a; force)+
  then obtain pos' where s': "opened s (rw_file w) = Some (p, pos')" by blast
  have t: "only_file files p s t" "files t p \<noteq> None" "\<exists>pos. opened t (rw_file w) = Some (p, pos)"
    using WriteAll_frame [OF wa s', of c] s o by (auto simp: only_file_def)
  show "only_file files p (rw_sys w) (rw_sys w')" and "raw_holds files opened w' p"
    using assms po wa s t o
    by (auto simp: RawWriter_WriteAt_def rw_fail_def raw_holds_def only_file_def
        split: if_splits bool.splits)
qed

lemma WriteAt_ok:
  assumes "RawWriter_WriteAt api off xs w = (True, w')" and "raw_at files opened w p c"
  shows "unat off + length xs \<le> length c" and "raw_at files opened w' p (overlay c (unat off) xs)"
proof -
  obtain pos where o: "opened (rw_sys w) (rw_file w) = Some (p, pos)" "files (rw_sys w) p = Some c"
    and len: "length c = unat (rw_logicalSize w)"
    using assms(2) by (auto simp: raw_at_def)
  obtain s t where po: "w_SetFilePointerEx api (rw_file w) off (rw_sys w) = (True, s)"
    and wa: "WriteAll api kWriteChunkBytes (rw_file w) xs 0 s = (True, t)"
    and w': "w' = w\<lparr> rw_sys := t \<rparr>"
    and fits: "off \<le> rw_logicalSize w" "length xs \<le> unat (rw_logicalSize w - off)"
    using assms by (auto simp: RawWriter_WriteAt_def rw_fail_def split: if_splits prod.splits bool.splits)
  show le: "unat off + length xs \<le> length c"
    using fits len by (simp add: unat_diff_u64 word_le_nat_alt)
  have s: "files s p = Some c" "opened s (rw_file w) = Some (p, unat off)"
    using pointer_ok [OF po o(1)] o(2) by simp_all
  have "file_write c (unat off) xs = overlay c (unat off) xs"
    using le by (simp add: file_write_def)
  then have "files t p = Some (overlay c (unat off) xs)" "\<exists>pos. opened t (rw_file w) = Some (p, pos)"
    using WriteAll_ok [OF wa s(2,1)] by auto
  then show "raw_at files opened w' p (overlay c (unat off) xs)"
    using assms(2) le len by (simp add: raw_at_def w')
qed

lemma FlushAndClose_files:
  assumes "RawWriter_FlushAndClose api w = (ok, w')"
  shows "files (rw_sys w') = files (rw_sys w)" and "rw_file w' = INVALID_HANDLE_VALUE"
  using assms flush_frame
  by (auto simp: RawWriter_FlushAndClose_def rw_reset_file_def handle_reset_view
      split: if_splits prod.splits bool.splits)

sublocale raw: image_writer_contract "RawWriter_class api" "raw_image files opened"
proof
  fix path lsize phys and w w' :: "'s RawWriter"
  assume "wr_PreflightAndOpen (RawWriter_class api) path lsize phys w = (True, w')"
  then show "raw_image files opened w' = Some (replicate (unat lsize) 0)"
    using PreflightAndOpen_files(2) [of path lsize phys w True w'] by (auto simp: RawWriter_class_def raw_image_Some)
next
  fix off xs c and w w' :: "'s RawWriter"
  assume "raw_image files opened w = Some c" and "wr_WriteAt (RawWriter_class api) off xs w = (True, w')"
  then obtain p where at: "raw_at files opened w p c" and w: "RawWriter_WriteAt api off xs w = (True, w')"
    by (auto simp: RawWriter_class_def raw_image_Some)
  show "unat off + length xs \<le> length c \<and> raw_image files opened w' = Some (overlay c (unat off) xs)"
    using WriteAt_ok [OF w at] raw_image_Some by blast
qed

end

end
