(* ===== verification/Layout.thy ===== *)
theory Layout
  imports Prelude
begin

text \<open>
  Binary layouts: a packed C structure is the concatenation of the little-endian bytes of its
  fields, as the x64 compiler lays it out. The readers are what a consumer of the bytes does.
\<close>

definition le_bytes :: "nat \<Rightarrow> nat \<Rightarrow> bytes" where
  "le_bytes n v = map (\<lambda>i. of_nat (v div 256 ^ i)) [0..<n]"

definition le16 :: "u16 \<Rightarrow> bytes" where "le16 x = le_bytes 2 (unat x)"
definition le32 :: "u32 \<Rightarrow> bytes" where "le32 x = le_bytes 4 (unat x)"
definition le64 :: "u64 \<Rightarrow> bytes" where "le64 x = le_bytes 8 (unat x)"

fun le_value :: "bytes \<Rightarrow> nat" where
  "le_value [] = 0"
| "le_value (b # bs) = unat b + 256 * le_value bs"

definition field :: "bytes \<Rightarrow> nat \<Rightarrow> nat \<Rightarrow> bytes" where
  "field bs off n = take n (drop off bs)"

definition u32_at :: "bytes \<Rightarrow> nat \<Rightarrow> u32" where "u32_at bs off = of_nat (le_value (field bs off 4))"
definition u64_at :: "bytes \<Rightarrow> nat \<Rightarrow> u64" where "u64_at bs off = of_nat (le_value (field bs off 8))"

lemma length_le_bytes [simp]: "length (le_bytes n v) = n"
  by (simp add: le_bytes_def)

lemma length_le [simp]: "length (le16 w) = 2" "length (le32 x) = 4" "length (le64 y) = 8"
  by (simp_all add: le16_def le32_def le64_def)

lemma le_bytes_Suc: "le_bytes (Suc n) v = of_nat v # le_bytes n (v div 256)"
proof -
  have "[0..<Suc n] = 0 # map Suc [0..<n]"
    by (simp only: map_Suc_upt upt_conv_Cons)
  then show ?thesis
    by (simp add: le_bytes_def div_mult2_eq)
qed

lemma unat_of_nat_u8: "unat (of_nat v :: u8) = v mod 256"
  by (simp add: unat_of_nat)

lemma le_value_le_bytes: "le_value (le_bytes n v) = v mod 256 ^ n"
proof (induction n arbitrary: v)
  case 0
  then show ?case by (simp add: le_bytes_def)
next
  case (Suc n)
  have "le_value (le_bytes (Suc n) v) = v mod 256 + 256 * (v div 256 mod 256 ^ n)"
    by (simp add: le_bytes_Suc Suc unat_of_nat_u8)
  also have "\<dots> = v mod 256 ^ Suc n"
    by (simp add: mod_mult2_eq)
  finally show ?case .
qed

lemma le_value_le [simp]: "le_value (le32 x) = unat x" "le_value (le64 y) = unat y"
proof -
  have "unat x < 256 ^ 4" using unat_lt_u32 [of x] by simp
  then show "le_value (le32 x) = unat x" by (simp add: le32_def le_value_le_bytes)
  have "unat y < 256 ^ 8" using unat_lt_u64 [of y] by simp
  then show "le_value (le64 y) = unat y" by (simp add: le64_def le_value_le_bytes)
qed

lemma field_0 [simp]: "length xs = n \<Longrightarrow> field (xs @ ys) 0 n = xs"
  by (simp add: field_def)

text \<open>Reading behind the leading fields of a structure.\<close>

lemma field_skip: "length xs \<le> off \<Longrightarrow> field (xs @ ys) off n = field ys (off - length xs) n"
  by (simp add: field_def)

lemma u32_at_skip: "length xs \<le> off \<Longrightarrow> u32_at (xs @ ys) off = u32_at ys (off - length xs)"
  by (simp add: u32_at_def field_skip)

lemma u64_at_skip: "length xs \<le> off \<Longrightarrow> u64_at (xs @ ys) off = u64_at ys (off - length xs)"
  by (simp add: u64_at_def field_skip)

lemma u32_at_le32 [simp]: "u32_at (le32 x @ ys) 0 = x"
  by (simp add: u32_at_def)

lemma u64_at_le64 [simp]: "u64_at (le64 x @ ys) 0 = x"
  by (simp add: u64_at_def)

text \<open>An array of equal-sized elements.\<close>

lemma length_concat_const:
  "(\<And>x. x \<in> set xs \<Longrightarrow> length (f x) = k) \<Longrightarrow> length (concat (map f xs)) = k * length xs"
  by (induction xs) auto

lemma drop_concat_const:
  assumes "\<And>x. x \<in> set xs \<Longrightarrow> length (f x) = k" and "i < length xs"
  shows "drop (k * i) (concat (map f xs)) = f (xs ! i) @ concat (map f (drop (Suc i) xs))"
  using assms
proof (induction xs arbitrary: i)
  case (Cons x xs)
  then show ?case by (cases i) auto
qed simp

lemma field_concat_const:
  assumes "\<And>x. x \<in> set xs \<Longrightarrow> length (f x) = k" and "i < length xs"
  shows "field (concat (map f xs) @ ys) (k * i) k = f (xs ! i)"
proof -
  have "k * i \<le> length (concat (map f xs))"
    using assms by (simp add: length_concat_const)
  then show ?thesis
    using drop_concat_const [of xs f k i] assms by (simp add: field_def)
qed

text \<open>A part of a field is a field.\<close>

lemma field_field: "a + n \<le> m \<Longrightarrow> field (field bs off m) a n = field bs (off + a) n"
  by (simp add: field_def drop_take min_def add.commute)

lemma field_append_left: "off + n \<le> length xs \<Longrightarrow> field (xs @ ys) off n = field xs off n"
  by (simp add: field_def)

lemma field_append_at: "field (xs @ ys) (length xs + k) n = field ys k n"
  by (simp add: field_def)

end
