(* ===== verification/E01Writer.thy ===== *)
theory E01Writer
  imports Interfaces Win32Files Layout
begin

text \<open>
  The EWF-E01 writer, \<open>cli/e01_writer.hpp\<close> and \<open>cli/e01_writer.cpp\<close>: a file header, a metadata
  section, a volume section, a sectors section made of 64 KiB chunks with their Adler-32 sums, a
  table of chunk offsets, a hash section and a final section. Bytes are taken in the order they
  are written; the physical offset is ignored.
\<close>

section \<open>Structures\<close>

record EwfSectionHeader =
  es_Type :: bytes
  es_NextOffset :: u64
  es_SectionSize :: u64
  es_Checksum :: u32

definition file_header_bytes :: bytes where
  "file_header_bytes = [0x45, 0x56, 0x46, 0x09, 0x0D, 0x0A, 0xFF, 0x00] @ [0x01] @ le16 1 @ le16 0"

text \<open>The fields in front of the checksum, and the whole packed structure.\<close>

definition section_prefix :: "EwfSectionHeader \<Rightarrow> bytes" where
  "section_prefix s = es_Type s @ le64 (es_NextOffset s) @ le64 (es_SectionSize s) @ replicate 40 0"

definition section_bytes :: "EwfSectionHeader \<Rightarrow> bytes" where
  "section_bytes s = section_prefix s @ le32 (es_Checksum s)"

definition sizeof_EwfSectionHeader :: nat where "sizeof_EwfSectionHeader = 76"

record EwfVolumeSection =
  ev_MediaType :: u32
  ev_ChunkCount :: u32
  ev_SectorsPerChunk :: u32
  ev_BytesPerSector :: u32
  ev_SectorCount :: u64

definition volume_bytes :: "EwfVolumeSection \<Rightarrow> bytes" where
  "volume_bytes v = le32 (ev_MediaType v) @ le32 0 @ le32 (ev_ChunkCount v) @
     le32 (ev_SectorsPerChunk v) @ le32 (ev_BytesPerSector v) @ le64 (ev_SectorCount v) @
     replicate 8 0 @ replicate 16 0 @ replicate 940 0"

definition kChunkSize :: nat where "kChunkSize = 65536"

section \<open>Adler-32\<close>

fun adler_loop :: "u32 \<Rightarrow> u32 \<Rightarrow> bytes \<Rightarrow> u32 \<times> u32" where
  "adler_loop s1 s2 [] = (s1, s2)"
| "adler_loop s1 s2 (b # bs) =
     (let s1 = (s1 + ucast b) mod 65521; s2 = (s2 + s1) mod 65521 in adler_loop s1 s2 bs)"

definition CalculateAdler32 :: "bytes \<Rightarrow> u32 \<Rightarrow> u32" where
  "CalculateAdler32 data adler =
     (case adler_loop (adler AND 0xFFFF) (drop_bit 16 adler AND 0xFFFF) data of
        (s1, s2) \<Rightarrow> push_bit 16 s2 OR s1)"

text \<open>A section header as the writer fills it in: type, offsets, checksum of the rest.\<close>

definition make_section :: "string \<Rightarrow> u64 \<Rightarrow> u64 \<Rightarrow> EwfSectionHeader" where
  "make_section typ nxt sz =
     (let s = \<lparr> es_Type = ascii typ @ replicate (16 - length typ) 0, es_NextOffset = nxt,
                es_SectionSize = sz, es_Checksum = 0 \<rparr>
      in s\<lparr> es_Checksum := CalculateAdler32 (section_prefix s) 1 \<rparr>)"

section \<open>Metadata\<close>

definition ToUtf8 :: "wstring \<Rightarrow> string" where
  "ToUtf8 s = map (\<lambda>wc. if wc < 0x80 then char_of (unat wc) else CHR ''?'') s"

definition tab :: string where "tab = [CHR 0x09]"
definition eol :: string where "eol = [CHR 0x0A]"

definition or_default :: "wstring \<Rightarrow> string \<Rightarrow> string" where
  "or_default s d = (if s = [] then d else ToUtf8 s)"

definition metadata_text :: "EvidenceMetadata \<Rightarrow> string" where
  "metadata_text m =
     ''case_number'' @ tab @ or_default (em_caseNumber m) ''CASE-001'' @ eol @
     ''evidence_number'' @ tab @ or_default (em_evidenceNumber m) ''EV-001'' @ eol @
     ''examiner_name'' @ tab @ or_default (em_examiner m) ''PhylaRAM Forensic Examiner'' @ eol @
     ''description'' @ tab @ or_default (em_description m) ''Physical Memory Image'' @ eol @
     ''notes'' @ tab @ or_default (em_notes m) ''Captured via PhylaRAM (byte-accurate provenance)'' @ eol @
     ''system_date'' @ tab @ ''2026-08-24 00:00:00'' @ eol @
     ''acquisition_date'' @ tab @ ''2026-08-24 00:00:00'' @ eol @
     ''compression_type'' @ tab @ ''best'' @ eol"

section \<open>The class\<close>

record 's E01Writer =
  e_sys :: 's
  e_file :: u64
  e_runs :: "MemoryRun list"
  e_hints :: KernelHints
  e_metadata :: EvidenceMetadata
  e_totalPhysicalBytes :: u64
  e_currentFileOffset :: u64
  e_chunkBuffer :: bytes
  e_chunkBufferUsed :: nat
  e_totalChunks :: u32
  e_chunkTableOffsets :: "u32 list"
  e_headerSectionOffset :: u64
  e_volumeSectionOffset :: u64
  e_sectorsSectionOffset :: u64
  e_tableSectionOffset :: u64
  e_hashSectionOffset :: u64
  e_doneSectionOffset :: u64
  e_lastError :: u32

definition E01Writer_init :: "'s \<Rightarrow> 's E01Writer" where
  "E01Writer_init s = \<lparr> e_sys = s, e_file = INVALID_HANDLE_VALUE, e_runs = [],
     e_hints = KernelHints_default, e_metadata = EvidenceMetadata_default,
     e_totalPhysicalBytes = 0, e_currentFileOffset = 0, e_chunkBuffer = replicate kChunkSize 0,
     e_chunkBufferUsed = 0, e_totalChunks = 0, e_chunkTableOffsets = [],
     e_headerSectionOffset = 0, e_volumeSectionOffset = 0, e_sectorsSectionOffset = 0,
     e_tableSectionOffset = 0, e_hashSectionOffset = 0, e_doneSectionOffset = 0,
     e_lastError = ERROR_SUCCESS \<rparr>"

definition E01Writer_Configure ::
  "MemoryRun list \<Rightarrow> KernelHints \<Rightarrow> EvidenceMetadata \<Rightarrow> 's E01Writer \<Rightarrow> 's E01Writer" where
  "E01Writer_Configure runs hints metadata w =
     w\<lparr> e_runs := runs, e_hints := hints, e_metadata := metadata \<rparr>"

definition e_reset_file :: "'s win32 \<Rightarrow> u64 \<Rightarrow> 's E01Writer \<Rightarrow> 's E01Writer" where
  "e_reset_file api replacement w =
     w\<lparr> e_sys := handle_reset api (e_file w) (e_sys w), e_file := replacement \<rparr>"

definition e_fail :: "'s win32 \<Rightarrow> 's E01Writer \<Rightarrow> bool \<times> 's E01Writer" where
  "e_fail api w = (False, w\<lparr> e_lastError := w_GetLastError api (e_sys w) \<rparr>)"

text \<open>The step every section is made of: one \<open>WriteFile\<close> that must take the whole buffer, then
  \<open>currentFileOffset_ += written\<close>.\<close>

definition e_put :: "'s win32 \<Rightarrow> bytes \<Rightarrow> 's E01Writer fallible" where
  "e_put api xs w =
     (case w_WriteFile api (e_file w) xs (e_sys w) of
        (ok, written, s) \<Rightarrow>
          (let w = w\<lparr> e_sys := s \<rparr> in
           if \<not> ok \<or> unat written \<noteq> length xs then e_fail api w
           else (True, w\<lparr> e_currentFileOffset := e_currentFileOffset w + ucast written \<rparr>)))"

definition WriteHeaderSection :: "'s win32 \<Rightarrow> 's E01Writer fallible" where
  "WriteHeaderSection api w =
     (let w = w\<lparr> e_headerSectionOffset := e_currentFileOffset w \<rparr>;
          metaStr = ascii (metadata_text (e_metadata w));
          totalSectionSize = of_nat (sizeof_EwfSectionHeader + length metaStr + 4);
          sectionHeader = make_section ''header'' (e_currentFileOffset w + totalSectionSize) totalSectionSize
      in all_ok [e_put api (section_bytes sectionHeader), e_put api metaStr,
                 e_put api (le32 (CalculateAdler32 metaStr 1))] w)"

definition volume_section :: "u64 \<Rightarrow> EwfVolumeSection" where
  "volume_section phys = \<lparr> ev_MediaType = 1,
     ev_ChunkCount = ucast ((phys + of_nat kChunkSize - 1) div of_nat kChunkSize),
     ev_SectorsPerChunk = 128, ev_BytesPerSector = 512, ev_SectorCount = phys div 512 \<rparr>"

definition WriteVolumeSection :: "'s win32 \<Rightarrow> 's E01Writer fallible" where
  "WriteVolumeSection api w =
     (let w = w\<lparr> e_volumeSectionOffset := e_currentFileOffset w \<rparr>;
          vol = volume_bytes (volume_section (e_totalPhysicalBytes w));
          totalSectionSize = of_nat (sizeof_EwfSectionHeader + 992 + 4);
          sectionHeader = make_section ''volume'' (e_currentFileOffset w + totalSectionSize) totalSectionSize
      in case all_ok [e_put api (section_bytes sectionHeader), e_put api vol,
                      e_put api (le32 (CalculateAdler32 vol 1))] w of
           (False, w) \<Rightarrow> (False, w)
         | (True, w) \<Rightarrow> (True, w\<lparr> e_sectorsSectionOffset := e_currentFileOffset w \<rparr>))"

definition E01Writer_PreflightAndOpen ::
  "'s win32 \<Rightarrow> wstring \<Rightarrow> u64 \<Rightarrow> u64 \<Rightarrow> 's E01Writer \<Rightarrow> bool \<times> 's E01Writer" where
  "E01Writer_PreflightAndOpen api partialPath logicalSize expectedPhysicalBytes w =
     (let w = w\<lparr> e_totalPhysicalBytes := expectedPhysicalBytes, e_chunkBufferUsed := 0,
                 e_totalChunks := 0, e_chunkTableOffsets := [] \<rparr>
      in case w_CreateFileW api partialPath (GENERIC_READ OR GENERIC_WRITE) CREATE_ALWAYS (e_sys w) of
           (h, s) \<Rightarrow>
             (let w = e_reset_file api h (w\<lparr> e_sys := s \<rparr>) in
              if h = INVALID_HANDLE_VALUE then e_fail api w
              else all_ok
                     [e_put api file_header_bytes,
                      WriteHeaderSection api,
                      WriteVolumeSection api,
                      e_put api (section_bytes (make_section ''sectors'' 0 (of_nat sizeof_EwfSectionHeader)))]
                     (w\<lparr> e_currentFileOffset := 0 \<rparr>)))"

definition FlushActiveChunk :: "'s win32 \<Rightarrow> 's E01Writer fallible" where
  "FlushActiveChunk api w =
     (if e_chunkBufferUsed w = 0 then (True, w)
      else
        (let buffer = (if e_chunkBufferUsed w < kChunkSize
                       then take (e_chunkBufferUsed w) (e_chunkBuffer w) @
                            replicate (kChunkSize - e_chunkBufferUsed w) 0
                       else e_chunkBuffer w);
             w = w\<lparr> e_chunkBuffer := buffer,
                    e_chunkTableOffsets := e_chunkTableOffsets w @
                      [ucast (e_currentFileOffset w - e_sectorsSectionOffset w)] \<rparr>
         in case all_ok [e_put api buffer, e_put api (le32 (CalculateAdler32 buffer 1))] w of
              (False, w) \<Rightarrow> (False, w)
            | (True, w) \<Rightarrow> (True, w\<lparr> e_chunkBufferUsed := 0, e_totalChunks := e_totalChunks w + 1 \<rparr>)))"

lemma FlushActiveChunk_empties:
  "FlushActiveChunk api w = (True, w') \<Longrightarrow> e_chunkBufferUsed w' = 0"
  by (auto simp: FlushActiveChunk_def Let_def split: if_splits prod.splits bool.splits)

text \<open>
  The copy loop of \<open>WriteAt\<close>. A turn either copies something or, when the buffer is full, flushes
  it. More than a full buffer cannot be there; the C++ would copy past its end.
\<close>

function e_copy_loop :: "'s win32 \<Rightarrow> bytes \<Rightarrow> 's E01Writer \<Rightarrow> bool \<times> 's E01Writer" where
  "e_copy_loop api xs w =
     (if xs = [] then (True, w)
      else if e_chunkBufferUsed w > kChunkSize then (False, w)
      else
        (let space = kChunkSize - e_chunkBufferUsed w;
             toCopy = min (length xs) space;
             w' = w\<lparr> e_chunkBuffer := overlay (e_chunkBuffer w) (e_chunkBufferUsed w) (take toCopy xs),
                     e_chunkBufferUsed := e_chunkBufferUsed w + toCopy \<rparr>
         in if e_chunkBufferUsed w' = kChunkSize
            then (case FlushActiveChunk api w' of
                    (False, w'') \<Rightarrow> (False, w'')
                  | (True, w'') \<Rightarrow> e_copy_loop api (drop toCopy xs) w'')
            else e_copy_loop api (drop toCopy xs) w'))"
  by pat_completeness auto

termination
proof (relation "measure (\<lambda>(api, xs, w). 2 * length xs + (if e_chunkBufferUsed w = kChunkSize then 1 else 0))")
qed (auto dest!: FlushActiveChunk_empties [OF sym] simp: kChunkSize_def min_def split: if_splits)

declare e_copy_loop.simps [simp del]

definition E01Writer_WriteAt ::
  "'s win32 \<Rightarrow> u64 \<Rightarrow> bytes \<Rightarrow> 's E01Writer \<Rightarrow> bool \<times> 's E01Writer" where
  "E01Writer_WriteAt api offset data w =
     (if e_file w = INVALID_HANDLE_VALUE \<or> data = [] then (False, w) else e_copy_loop api data w)"

definition table_bytes :: "u32 list \<Rightarrow> bytes" where
  "table_bytes offs = concat (map le32 offs)"

definition WriteTableSection :: "'s win32 \<Rightarrow> 's E01Writer fallible" where
  "WriteTableSection api w =
     (let w = w\<lparr> e_tableSectionOffset := e_currentFileOffset w \<rparr>;
          table = table_bytes (e_chunkTableOffsets w);
          totalSectionSize = of_nat (sizeof_EwfSectionHeader + length table + 4);
          sectionHeader = make_section ''table'' (e_currentFileOffset w + totalSectionSize) totalSectionSize
      in all_ok ([e_put api (section_bytes sectionHeader)] @
                 (if e_chunkTableOffsets w \<noteq> [] then [e_put api table] else []) @
                 [e_put api (le32 (CalculateAdler32 table 1))]) w)"

definition WriteHashSection :: "'s win32 \<Rightarrow> 's E01Writer fallible" where
  "WriteHashSection api w =
     (let w = w\<lparr> e_hashSectionOffset := e_currentFileOffset w \<rparr>;
          totalSectionSize = of_nat (sizeof_EwfSectionHeader + 36);
          sectionHeader = make_section ''hash'' (e_currentFileOffset w + totalSectionSize) totalSectionSize
      in all_ok [e_put api (section_bytes sectionHeader), e_put api (replicate 36 0)] w)"

definition WriteDoneSection :: "'s win32 \<Rightarrow> 's E01Writer fallible" where
  "WriteDoneSection api w =
     (let w = w\<lparr> e_doneSectionOffset := e_currentFileOffset w \<rparr>
      in e_put api (section_bytes (make_section ''done'' 0 (of_nat sizeof_EwfSectionHeader))) w)"

text \<open>Rewriting the header of the sectors section. None of the three results is looked at.\<close>

definition rewrite_sectors_header :: "'s win32 \<Rightarrow> 's E01Writer \<Rightarrow> 's E01Writer" where
  "rewrite_sectors_header api w =
     (let sectorsSectionSize = e_currentFileOffset w - e_sectorsSectionOffset w;
          s = snd (w_SetFilePointerEx api (e_file w) (e_sectorsSectionOffset w) (e_sys w));
          sectorsHeader = make_section ''sectors'' (e_currentFileOffset w) sectorsSectionSize;
          s = snd (snd (w_WriteFile api (e_file w) (section_bytes sectorsHeader) s));
          s = snd (w_SetFilePointerEx api (e_file w) (e_currentFileOffset w) s)
      in w\<lparr> e_sys := s \<rparr>)"

definition E01Writer_FlushAndClose :: "'s win32 \<Rightarrow> 's E01Writer \<Rightarrow> bool \<times> 's E01Writer" where
  "E01Writer_FlushAndClose api w =
     (if e_file w = INVALID_HANDLE_VALUE then (True, w)
      else
        (case FlushActiveChunk api w of
           (False, w) \<Rightarrow> (False, e_reset_file api INVALID_HANDLE_VALUE w)
         | (True, w) \<Rightarrow>
             (case all_ok [WriteTableSection api, WriteHashSection api, WriteDoneSection api]
                     (rewrite_sectors_header api w) of
                (False, w) \<Rightarrow> (False, e_reset_file api INVALID_HANDLE_VALUE w)
              | (True, w) \<Rightarrow>
                  (case w_FlushFileBuffers api (e_file w) (e_sys w) of
                     (False, s) \<Rightarrow>
                       (False, e_reset_file api INVALID_HANDLE_VALUE
                                 (w\<lparr> e_sys := s, e_lastError := w_GetLastError api s \<rparr>))
                   | (True, s) \<Rightarrow>
                       (True, e_reset_file api INVALID_HANDLE_VALUE (w\<lparr> e_sys := s \<rparr>))))))"

definition E01Writer_Close :: "'s win32 \<Rightarrow> 's E01Writer \<Rightarrow> 's E01Writer" where
  "E01Writer_Close api w = e_reset_file api INVALID_HANDLE_VALUE w"

definition E01Writer_class :: "'s win32 \<Rightarrow> 's E01Writer IRawWriter" where
  "E01Writer_class api = \<lparr> wr_Configure = E01Writer_Configure,
     wr_PreflightAndOpen = E01Writer_PreflightAndOpen api, wr_WriteAt = E01Writer_WriteAt api,
     wr_FlushAndClose = E01Writer_FlushAndClose api, wr_Close = E01Writer_Close api,
     wr_IsSparse = (\<lambda>w. False), wr_LastError = e_lastError \<rparr>"

section \<open>The checksum\<close>

text \<open>The definition of Adler-32 in RFC 1950, over unbounded numbers.\<close>

fun adler_sums :: "nat \<Rightarrow> nat \<Rightarrow> bytes \<Rightarrow> nat \<times> nat" where
  "adler_sums a b [] = (a, b)"
| "adler_sums a b (x # xs) = adler_sums (a + unat x) (b + (a + unat x)) xs"

definition adler32_spec :: "bytes \<Rightarrow> nat" where
  "adler32_spec xs = (case adler_sums 1 0 xs of (a, b) \<Rightarrow> (b mod 65521) * 65536 + a mod 65521)"

lemma unat_ucast_8_32 [simp]: "unat (ucast (x :: u8) :: u32) = unat x"
  using unsigned_less [of x, where 'a = nat]
  by (simp add: unsigned_ucast_eq take_bit_nat_eq_self)

lemma adler_step:
  assumes "unat (s1 :: u32) < 65521" and "unat (s2 :: u32) < 65521"
  shows "unat ((s1 + ucast (b :: u8)) mod 65521) = (unat s1 + unat b) mod 65521"
    and "unat ((s2 + s1) mod 65521) = (unat s2 + unat s1) mod 65521"
proof -
  have "unat (s1 + ucast b) = unat s1 + unat b"
    using assms(1) unsigned_less [of b, where 'a = nat] by (simp add: unat_plus_if')
  then show "unat ((s1 + ucast b) mod 65521) = (unat s1 + unat b) mod 65521"
    by (simp add: unat_mod)
  have "unat (s2 + s1) = unat s2 + unat s1"
    using assms by (simp add: unat_plus_if')
  then show "unat ((s2 + s1) mod 65521) = (unat s2 + unat s1) mod 65521"
    by (simp add: unat_mod)
qed

lemma adler_loop_sums:
  assumes "unat s1 = a mod 65521" and "unat s2 = b mod 65521"
  shows "case adler_loop s1 s2 xs of (t1, t2) \<Rightarrow> case adler_sums a b xs of (c, d) \<Rightarrow>
    unat t1 = c mod 65521 \<and> unat t2 = d mod 65521"
  using assms
proof (induction xs arbitrary: s1 s2 a b)
  case Nil
  then show ?case by simp
next
  case (Cons x xs)
  let ?t1 = "(s1 + ucast x) mod 65521" and ?t2 = "(s2 + (s1 + ucast x) mod 65521) mod 65521"
  have l: "unat s1 < 65521" "unat s2 < 65521" using Cons.prems by simp_all
  have t1: "unat ?t1 = (a + unat x) mod 65521"
    using adler_step(1) [OF l, of x] Cons.prems(1) by (simp add: mod_simps)
  have "unat ?t2 = (unat s2 + unat ?t1) mod 65521"
    by (rule adler_step(2)) (use l t1 in simp_all)
  then have t2: "unat ?t2 = (b + (a + unat x)) mod 65521"
    using t1 Cons.prems(2) by (simp add: mod_simps)
  show ?case using Cons.IH [OF t1 t2] by (simp add: Let_def)
qed

lemma push_or_unat:
  assumes "unat (s1 :: u32) < 65536" and "unat (s2 :: u32) < 65536"
  shows "unat (push_bit 16 s2 OR s1) = unat s2 * 65536 + unat s1"
proof -
  have low: "take_bit 16 s1 = s1"
    using assms(1) by (simp add: word_unat_eq_iff unsigned_take_bit_eq take_bit_nat_eq_self)
  have lt: "n < 16" if "bit s1 n" for n
    using that by (subst (asm) low [symmetric]) (simp add: bit_take_bit_iff)
  then have "push_bit 16 s2 AND s1 = 0"
    by (intro bit_eqI) (auto simp: bit_and_iff bit_push_bit_iff dest: lt)
  then have "push_bit 16 s2 OR s1 = push_bit 16 s2 + s1"
    by (simp add: disjunctive_add_eq_or)
  then show ?thesis
    using assms by (simp add: push_bit_eq_mult unat_word_ariths)
qed

lemma CalculateAdler32_spec: "unat (CalculateAdler32 xs 1) = adler32_spec xs"
proof -
  obtain t1 t2 where t: "adler_loop 1 0 xs = (t1, t2)" by fastforce
  obtain c d where cd: "adler_sums 1 0 xs = (c, d)" by fastforce
  have "unat t1 = c mod 65521 \<and> unat t2 = d mod 65521"
    using adler_loop_sums [of 1 1 0 0 xs] t cd by simp
  moreover have "(1 :: u32) AND 0xFFFF = 1" "drop_bit 16 (1 :: u32) AND 0xFFFF = 0" by simp_all
  ultimately show ?thesis
    using push_or_unat [of t1 t2] t cd
    by (simp add: CalculateAdler32_def adler32_spec_def)
qed

section \<open>The file as a function of its content\<close>

definition with_adler :: "bytes \<Rightarrow> bytes" where
  "with_adler xs = xs @ le32 (CalculateAdler32 xs 1)"

text \<open>A section of data with its checksum, at a given file position.\<close>

definition data_section :: "string \<Rightarrow> nat \<Rightarrow> bytes \<Rightarrow> bytes" where
  "data_section typ pos xs =
     (let total = 76 + length xs + 4
      in section_bytes (make_section typ (of_nat pos + of_nat total) (of_nat total)) @ with_adler xs)"

definition e01_prelude :: "EvidenceMetadata \<Rightarrow> u64 \<Rightarrow> bytes" where
  "e01_prelude m phys =
     (let head = file_header_bytes @ data_section ''header'' 13 (ascii (metadata_text m))
      in head @ data_section ''volume'' (length head) (volume_bytes (volume_section phys)))"

text \<open>The data in pieces of 64 KiB, the last one filled up with zeros.\<close>

function chunks :: "bytes \<Rightarrow> bytes list" where
  "chunks xs =
     (if xs = [] then []
      else if length xs \<le> kChunkSize then [xs @ replicate (kChunkSize - length xs) 0]
      else take kChunkSize xs # chunks (drop kChunkSize xs))"
  by pat_completeness auto

termination
  by (relation "measure length") (auto simp: kChunkSize_def)

declare chunks.simps [simp del]

definition chunk_stream :: "bytes list \<Rightarrow> bytes" where
  "chunk_stream cs = concat (map with_adler cs)"

text \<open>The position of chunk \<open>i\<close> behind the start of the sectors section, cut to 32 bits.\<close>

definition chunk_offset :: "nat \<Rightarrow> u32" where
  "chunk_offset i = of_nat (76 + 65540 * i)"

definition chunk_table :: "nat \<Rightarrow> bytes" where
  "chunk_table n = table_bytes (map chunk_offset [0..<n])"

definition e01_file :: "EvidenceMetadata \<Rightarrow> u64 \<Rightarrow> bytes \<Rightarrow> bytes" where
  "e01_file m phys xs =
     (let pre = e01_prelude m phys;
          cs = chunks xs;
          body = chunk_stream cs;
          stop = length pre + 76 + length body;
          sectors = section_bytes (make_section ''sectors'' (of_nat stop) (of_nat (76 + length body)));
          table = data_section ''table'' stop (chunk_table (length cs));
          hpos = stop + length table;
          hash = section_bytes (make_section ''hash'' (of_nat hpos + of_nat (76 + 36)) (of_nat (76 + 36))) @
                 replicate 36 0
      in pre @ sectors @ body @ table @ hash @
         section_bytes (make_section ''done'' 0 76))"

lemma chunks_step: "length c = kChunkSize \<Longrightarrow> d \<noteq> [] \<Longrightarrow> chunks (c @ d) = c # chunks d"
  by (cases c) (simp_all add: chunks.simps [of "c @ d"] chunks.simps [of "_ # _"] kChunkSize_def)

lemma chunks_concat:
  assumes "\<forall>c \<in> set cs. length c = kChunkSize" and "length rest \<le> kChunkSize"
  shows "chunks (concat cs @ rest) =
    cs @ (if rest = [] then [] else [rest @ replicate (kChunkSize - length rest) 0])"
  using assms
proof (induction cs)
  case Nil
  then show ?case by (simp add: chunks.simps [of rest] chunks.simps [of "[]"])
next
  case (Cons c cs)
  let ?d = "concat cs @ rest"
  have c: "length c = kChunkSize" "c \<noteq> []" using Cons.prems(1) by (auto simp: kChunkSize_def)
  have ih: "chunks ?d = cs @ (if rest = [] then [] else [rest @ replicate (kChunkSize - length rest) 0])"
    using Cons by simp
  show ?case
  proof (cases "?d = []")
    case True
    have "rest = []" "cs = []"
      using ih unfolding True by (auto simp: chunks.simps [of "[]"] split: if_splits)
    then show ?thesis using c by (simp add: chunks.simps [of c])
  next
    case False
    have "chunks (c @ ?d) = c # chunks ?d" by (rule chunks_step [OF c(1) False])
    then show ?thesis using ih by simp
  qed
qed

lemma length_make_section [simp]:
  "length typ \<le> 16 \<Longrightarrow> length (section_bytes (make_section typ a b)) = 76"
  by (simp add: section_bytes_def section_prefix_def make_section_def Let_def ascii_def)

lemma length_volume_bytes [simp]: "length (volume_bytes v) = 992"
  by (simp add: volume_bytes_def)

lemma length_with_adler [simp]: "length (with_adler xs) = length xs + 4"
  by (simp add: with_adler_def)

lemma length_chunk_stream:
  "\<forall>c \<in> set cs. length c = kChunkSize \<Longrightarrow> length (chunk_stream cs) = 65540 * length cs"
  by (induction cs) (auto simp: chunk_stream_def kChunkSize_def)

lemma chunks_length: "c \<in> set (chunks xs) \<Longrightarrow> length c = kChunkSize"
proof (induction xs rule: chunks.induct)
  case (1 xs)
  then show ?case by (auto simp: chunks.simps [of xs] split: if_splits)
qed

section \<open>The writer produces that file\<close>

text \<open>The file is open with its pointer at its end, and the writer's offset agrees.\<close>

definition e01_at ::
  "('s \<Rightarrow> wstring \<Rightarrow> bytes option) \<Rightarrow> ('s \<Rightarrow> u64 \<Rightarrow> (wstring \<times> nat) option) \<Rightarrow> wstring \<Rightarrow> bytes \<Rightarrow>
   's E01Writer \<Rightarrow> bool" where
  "e01_at files opened p c w \<longleftrightarrow>
     e_file w \<noteq> INVALID_HANDLE_VALUE \<and> e_file w \<noteq> 0 \<and>
     opened (e_sys w) (e_file w) = Some (p, length c) \<and> files (e_sys w) p = Some c \<and>
     e_currentFileOffset w = of_nat (length c)"

text \<open>The parts of the writer that putting bytes leaves alone.\<close>

definition e01_same :: "'s E01Writer \<Rightarrow> 's E01Writer \<Rightarrow> bool" where
  "e01_same w w' \<longleftrightarrow> e_metadata w' = e_metadata w \<and> e_totalPhysicalBytes w' = e_totalPhysicalBytes w \<and>
     e_chunkBuffer w' = e_chunkBuffer w \<and> e_chunkBufferUsed w' = e_chunkBufferUsed w \<and>
     e_chunkTableOffsets w' = e_chunkTableOffsets w \<and> e_sectorsSectionOffset w' = e_sectorsSectionOffset w"

lemma e01_same_refl [simp]: "e01_same w w"
  by (simp add: e01_same_def)

lemma e01_same_trans: "e01_same u v \<Longrightarrow> e01_same v w \<Longrightarrow> e01_same u w"
  by (simp add: e01_same_def)

context win32_files
begin

lemma e_put_True:
  assumes "e_put api xs w = (True, w')" and "e01_at files opened p c w"
  shows "e01_at files opened p (c @ xs) w' \<and> e01_same w w'"
proof -
  obtain written s where wr: "w_WriteFile api (e_file w) xs (e_sys w) = (True, written, s)"
    and n: "unat written = length xs"
    and w': "w' = w\<lparr> e_sys := s, e_currentFileOffset := e_currentFileOffset w + ucast written \<rparr>"
    using assms(1) by (auto simp: e_put_def e_fail_def Let_def split: prod.splits if_splits)
  have at: "opened (e_sys w) (e_file w) = Some (p, length c)" "files (e_sys w) p = Some c"
    using assms(2) by (simp_all add: e01_at_def)
  have "file_write c (length c) xs = c @ xs"
    by (simp add: file_write_def overlay_at_end)
  then have s: "files s p = Some (c @ xs)" "opened s (e_file w) = Some (p, length (c @ xs))"
    using write_ok [OF wr at] n by simp_all
  have "(ucast written :: u64) = of_nat (length xs)"
    by (simp flip: n)
  then show ?thesis
    using assms(2) s by (simp add: w' e01_at_def e01_same_def)
qed

lemma e_puts_True:
  assumes "all_ok (map (e_put api) xss) w = (True, w')" and "e01_at files opened p c w"
  shows "e01_at files opened p (c @ concat xss) w' \<and> e01_same w w'"
  using assms
proof (induction xss arbitrary: w c)
  case Nil
  then show ?case by simp
next
  case (Cons xs xss)
  then obtain v where v: "e_put api xs w = (True, v)" "all_ok (map (e_put api) xss) v = (True, w')"
    by auto
  from e_put_True [OF v(1) Cons.prems(2)] Cons.IH [OF v(2), of "c @ xs"] show ?case
    by (auto intro: e01_same_trans)
qed

lemma e01_at_update [simp]:
  "e01_at files opened p c (w\<lparr> e_headerSectionOffset := x \<rparr>) = e01_at files opened p c w"
  "e01_at files opened p c (w\<lparr> e_volumeSectionOffset := x \<rparr>) = e01_at files opened p c w"
  "e01_at files opened p c (w\<lparr> e_sectorsSectionOffset := x \<rparr>) = e01_at files opened p c w"
  "e01_at files opened p c (w\<lparr> e_tableSectionOffset := x \<rparr>) = e01_at files opened p c w"
  "e01_at files opened p c (w\<lparr> e_hashSectionOffset := x \<rparr>) = e01_at files opened p c w"
  "e01_at files opened p c (w\<lparr> e_doneSectionOffset := x \<rparr>) = e01_at files opened p c w"
  "e01_at files opened p c (w\<lparr> e_chunkBuffer := y, e_chunkBufferUsed := z \<rparr>) = e01_at files opened p c w"
  "e01_at files opened p c (w\<lparr> e_chunkBuffer := y, e_chunkTableOffsets := u \<rparr>) = e01_at files opened p c w"
  "e01_at files opened p c (w\<lparr> e_chunkBufferUsed := z, e_totalChunks := v \<rparr>) = e01_at files opened p c w"
  by (simp_all add: e01_at_def)

lemma e01_same_update [simp]:
  "e01_same (w\<lparr> e_headerSectionOffset := x \<rparr>) w' = e01_same w w'"
  "e01_same (w\<lparr> e_volumeSectionOffset := x \<rparr>) w' = e01_same w w'"
  "e01_same (w\<lparr> e_tableSectionOffset := x \<rparr>) w' = e01_same w w'"
  "e01_same (w\<lparr> e_hashSectionOffset := x \<rparr>) w' = e01_same w w'"
  "e01_same (w\<lparr> e_doneSectionOffset := x \<rparr>) w' = e01_same w w'"
  by (simp_all add: e01_same_def)

lemma e01_at_offset: "e01_at files opened p c w \<Longrightarrow> e_currentFileOffset w = of_nat (length c)"
  by (simp add: e01_at_def)

lemma WriteHeaderSection_True:
  assumes "WriteHeaderSection api w = (True, w')" and "e01_at files opened p c w"
  shows "e01_at files opened p (c @ data_section ''header'' (length c) (ascii (metadata_text (e_metadata w)))) w'
    \<and> e01_same w w'"
proof -
  let ?m = "ascii (metadata_text (e_metadata w))"
  let ?n = "76 + length ?m + 4"
  let ?s = "section_bytes (make_section ''header'' (of_nat (length c) + of_nat ?n) (of_nat ?n))"
  have "all_ok (map (e_put api) [?s, ?m, le32 (CalculateAdler32 ?m 1)])
      (w\<lparr> e_headerSectionOffset := e_currentFileOffset w \<rparr>) = (True, w')"
    using assms(1) e01_at_offset [OF assms(2)]
    by (simp add: WriteHeaderSection_def Let_def sizeof_EwfSectionHeader_def)
  from e_puts_True [OF this, of p c] assms(2) show ?thesis
    by (simp add: data_section_def with_adler_def Let_def)
qed

lemma WriteVolumeSection_True:
  assumes "WriteVolumeSection api w = (True, w')" and "e01_at files opened p c w"
  defines "c' \<equiv> c @ data_section ''volume'' (length c) (volume_bytes (volume_section (e_totalPhysicalBytes w)))"
  shows "e01_at files opened p c' w' \<and> e_sectorsSectionOffset w' = of_nat (length c') \<and>
    e01_same w (w'\<lparr> e_sectorsSectionOffset := e_sectorsSectionOffset w \<rparr>)"
proof -
  let ?v = "volume_bytes (volume_section (e_totalPhysicalBytes w))"
  let ?s = "section_bytes (make_section ''volume'' (of_nat (length c) + of_nat (76 + 992 + 4)) (of_nat (76 + 992 + 4)))"
  obtain v where v: "all_ok (map (e_put api) [?s, ?v, le32 (CalculateAdler32 ?v 1)])
      (w\<lparr> e_volumeSectionOffset := e_currentFileOffset w \<rparr>) = (True, v)"
    and w': "w' = v\<lparr> e_sectorsSectionOffset := e_currentFileOffset v \<rparr>"
    using assms(1) e01_at_offset [OF assms(2)]
    by (auto simp: WriteVolumeSection_def Let_def sizeof_EwfSectionHeader_def split: prod.splits bool.splits)
  from e_puts_True [OF v, of p c] assms(2) show ?thesis
    by (auto simp: c'_def w' data_section_def with_adler_def Let_def e01_same_def e01_at_def)
qed

end

text \<open>
  While data is written: the file holds the prelude, the provisional sectors header and the full
  chunks; the rest of the data is in the buffer.
\<close>

definition e01_streaming ::
  "('s \<Rightarrow> wstring \<Rightarrow> bytes option) \<Rightarrow> ('s \<Rightarrow> u64 \<Rightarrow> (wstring \<times> nat) option) \<Rightarrow> wstring \<Rightarrow>
   EvidenceMetadata \<Rightarrow> u64 \<Rightarrow> bytes list \<Rightarrow> bytes \<Rightarrow> 's E01Writer \<Rightarrow> bool" where
  "e01_streaming files opened p m phys cs rest w \<longleftrightarrow>
     (\<forall>c \<in> set cs. length c = kChunkSize) \<and>
     e_chunkBufferUsed w = length rest \<and> length (e_chunkBuffer w) = kChunkSize \<and>
     take (length rest) (e_chunkBuffer w) = rest \<and>
     e01_at files opened p
       (e01_prelude m phys @ section_bytes (make_section ''sectors'' 0 76) @ chunk_stream cs) w \<and>
     e_chunkTableOffsets w = map chunk_offset [0..<length cs] \<and>
     e_sectorsSectionOffset w = of_nat (length (e01_prelude m phys)) \<and>
     e_metadata w = m \<and> e_totalPhysicalBytes w = phys"

lemma ucast_of_nat_64_32: "(ucast (of_nat n :: u64) :: u32) = of_nat n"
  by (simp add: word_unat_eq_iff unsigned_ucast_eq unsigned_of_nat)

lemma length_file_header [simp]: "length file_header_bytes = 13"
  by (simp add: file_header_bytes_def)

lemma chunk_stream_snoc: "chunk_stream (cs @ [c]) = chunk_stream cs @ with_adler c"
  by (simp add: chunk_stream_def)

lemma chunk_table_offset:
  assumes "\<forall>c \<in> set cs. length c = kChunkSize"
  shows "(ucast (of_nat (length (pre @ section_bytes (make_section ''sectors'' 0 76) @ chunk_stream cs)) -
      of_nat (length pre) :: u64) :: u32) = chunk_offset (length cs)"
proof -
  have "(of_nat (length (pre @ section_bytes (make_section ''sectors'' 0 76) @ chunk_stream cs)) -
      of_nat (length pre) :: u64) = of_nat (76 + 65540 * length cs)"
    by (simp add: length_chunk_stream [OF assms])
  then show ?thesis
    by (simp only: ucast_of_nat_64_32 chunk_offset_def)
qed

context win32_files
begin

lemma FlushActiveChunk_True:
  assumes "FlushActiveChunk api w = (True, w')" and "e01_streaming files opened p m phys cs rest w"
    and "length rest \<le> kChunkSize" and "rest \<noteq> []"
  shows "e01_streaming files opened p m phys (cs @ [rest @ replicate (kChunkSize - length rest) 0]) [] w'"
proof -
  let ?c = "rest @ replicate (kChunkSize - length rest) 0"
  let ?front = "e01_prelude m phys @ section_bytes (make_section ''sectors'' 0 76) @ chunk_stream cs"
  note st = assms(2) [unfolded e01_streaming_def]
  have buf: "(if e_chunkBufferUsed w < kChunkSize
      then take (e_chunkBufferUsed w) (e_chunkBuffer w) @ replicate (kChunkSize - e_chunkBufferUsed w) 0
      else e_chunkBuffer w) = ?c"
    using st assms(3) by (auto simp: not_less)
  have off: "ucast (e_currentFileOffset w - e_sectorsSectionOffset w) = chunk_offset (length cs)"
    using st chunk_table_offset [of cs "e01_prelude m phys"] by (simp add: e01_at_def)
  let ?w = "w\<lparr> e_chunkBuffer := ?c, e_chunkTableOffsets := e_chunkTableOffsets w @ [chunk_offset (length cs)] \<rparr>"
  obtain v where v: "all_ok (map (e_put api) [?c, le32 (CalculateAdler32 ?c 1)]) ?w = (True, v)"
    and w': "w' = v\<lparr> e_chunkBufferUsed := 0, e_totalChunks := e_totalChunks v + 1 \<rparr>"
    using assms(1,4) st unfolding FlushActiveChunk_def Let_def buf off
    by (auto split: if_splits prod.splits bool.splits)
  have "e01_at files opened p ?front ?w" using st by simp
  from e_puts_True [OF v this]
  have "e01_at files opened p (?front @ with_adler ?c) v" "e01_same ?w v"
    by (simp_all add: with_adler_def)
  then show ?thesis
    using st assms(3) by (auto simp: e01_streaming_def w' e01_same_def chunk_stream_snoc)
qed

lemma e_copy_loop_True:
  assumes "e_copy_loop api xs w = (True, w')" and "e01_streaming files opened p m phys cs rest w"
    and "length rest \<le> kChunkSize"
  shows "\<exists>cs' rest'. e01_streaming files opened p m phys cs' rest' w' \<and>
    (length rest < kChunkSize \<longrightarrow> length rest' < kChunkSize) \<and> length rest' \<le> kChunkSize \<and>
    concat cs' @ rest' = concat cs @ rest @ xs"
  using assms
proof (induction "2 * length xs + (if e_chunkBufferUsed w = kChunkSize then 1 else 0 :: nat)"
    arbitrary: xs w cs rest rule: less_induct)
  case less
  show ?case
  proof (cases "xs = []")
    case True
    then have "w' = w" using less.prems(1) by (simp add: e_copy_loop.simps [of api])
    then show ?thesis using less.prems(2,3) True by auto
  next
    case False
    note st = less.prems(2) [unfolded e01_streaming_def]
    let ?k = "min (length xs) (kChunkSize - length rest)"
    let ?rest = "rest @ take ?k xs"
    let ?w = "w\<lparr> e_chunkBuffer := overlay (e_chunkBuffer w) (length rest) (take ?k xs),
                 e_chunkBufferUsed := length rest + ?k \<rparr>"
    have len: "length ?rest = length rest + ?k" "length ?rest \<le> kChunkSize"
      using less.prems(3) by auto
    have "take (length ?rest) (overlay (e_chunkBuffer w) (length rest) (take ?k xs)) = ?rest"
      using st len by (simp add: overlay_def)
    then have st': "e01_streaming files opened p m phys cs ?rest ?w"
      using st len by (simp add: e01_streaming_def min_def)
    show ?thesis
    proof (cases "length ?rest = kChunkSize")
      case full: True
      then obtain v where fl: "FlushActiveChunk api ?w = (True, v)"
        and rest: "e_copy_loop api (drop ?k xs) v = (True, w')"
        using less.prems(1,3) False st len
        by (auto simp: e_copy_loop.simps [of api xs w] Let_def split: if_splits prod.splits bool.splits)
      have "?rest \<noteq> []" using full by (auto simp: kChunkSize_def)
      then have v: "e01_streaming files opened p m phys (cs @ [?rest]) [] v"
        using FlushActiveChunk_True [OF fl st' len(2)] full by simp
      have "2 * length (drop ?k xs) + (if e_chunkBufferUsed v = kChunkSize then 1 else 0) <
          2 * length xs + (if e_chunkBufferUsed w = kChunkSize then 1 else 0 :: nat)"
        using False st less.prems(3) FlushActiveChunk_empties [OF fl]
        by (auto simp: kChunkSize_def min_def)
      from less.hyps [OF this rest v] show ?thesis
        by (auto simp: kChunkSize_def)
    next
      case part: False
      then have rest: "e_copy_loop api (drop ?k xs) ?w = (True, w')" and "?k = length xs"
        using less.prems(1,3) False st len
        by (auto simp: e_copy_loop.simps [of api xs w] Let_def min_def split: if_splits)
      then have "w' = ?w" by (simp add: e_copy_loop.simps [of api])
      then show ?thesis
        using st' part len \<open>?k = length xs\<close> by (intro exI [of _ cs] exI [of _ ?rest]) auto
    qed
  qed
qed

end

text \<open>
  A system on which every positioning of an open file succeeds and every write takes the whole
  buffer. \<open>FlushAndClose\<close> depends on it: it does not look at the results of the three calls that
  rewrite the header of the sectors section.
\<close>

definition reliable_files :: "'s win32 \<Rightarrow> ('s \<Rightarrow> u64 \<Rightarrow> (wstring \<times> nat) option) \<Rightarrow> bool" where
  "reliable_files api opened \<longleftrightarrow>
     (\<forall>h off s. opened s h \<noteq> None \<longrightarrow> fst (w_SetFilePointerEx api h off s)) \<and>
     (\<forall>h xs s. opened s h \<noteq> None \<longrightarrow> length xs < 2 ^ 32 \<longrightarrow>
        fst (w_WriteFile api h xs s) \<and> unat (fst (snd (w_WriteFile api h xs s))) = length xs)"

lemma reliable_write:
  "reliable_files api opened \<Longrightarrow> opened s h \<noteq> None \<Longrightarrow> length xs < 2 ^ 32 \<Longrightarrow>
   w_WriteFile api h xs s = (b, n, s') \<Longrightarrow> b \<and> unat n = length xs"
  unfolding reliable_files_def by (metis fst_conv snd_conv)

lemma reliable_pointer:
  "reliable_files api opened \<Longrightarrow> opened s h \<noteq> None \<Longrightarrow>
   w_SetFilePointerEx api h off s = (b, s') \<Longrightarrow> b"
  unfolding reliable_files_def by (metis fst_conv)

lemma e01_final_layout:
  assumes "cs = chunks xs" and "stop = length (e01_prelude m phys) + 76 + length (chunk_stream cs)"
  defines "c \<equiv> e01_prelude m phys @
      section_bytes (make_section ''sectors'' (of_nat stop) (of_nat (76 + length (chunk_stream cs)))) @ chunk_stream cs"
  defines "t \<equiv> c @ data_section ''table'' stop (chunk_table (length cs))"
  shows "t @ (section_bytes (make_section ''hash'' (of_nat (length t) + of_nat (76 + 36)) (of_nat (76 + 36))) @
      replicate 36 0) @ section_bytes (make_section ''done'' 0 76) = e01_file m phys xs"
  by (simp add: e01_file_def Let_def assms)

lemma small_header: "length (section_bytes (make_section ''sectors'' a b)) < 2 ^ 32"
  by simp

lemma e01_prelude_sections:
  "e01_prelude m phys = (file_header_bytes @ data_section ''header'' 13 (ascii (metadata_text m))) @
     data_section ''volume'' (length (file_header_bytes @ data_section ''header'' 13 (ascii (metadata_text m))))
       (volume_bytes (volume_section phys))"
  by (simp add: e01_prelude_def Let_def)

context win32_files
begin

lemma E01_open_streaming:
  assumes "E01Writer_PreflightAndOpen api p n phys w = (True, w')"
    and "e_file w = INVALID_HANDLE_VALUE" and "length (e_chunkBuffer w) = kChunkSize"
  shows "e01_streaming files opened p (e_metadata w) phys [] [] w'"
proof -
  obtain h s where c: "w_CreateFileW api p (GENERIC_READ OR GENERIC_WRITE) CREATE_ALWAYS (e_sys w) = (h, s)"
    by fastforce
  let ?w = "(e_reset_file api h (w\<lparr> e_totalPhysicalBytes := phys, e_chunkBufferUsed := 0,
      e_totalChunks := 0, e_chunkTableOffsets := [], e_sys := s \<rparr>))\<lparr> e_currentFileOffset := 0 \<rparr>"
  have h: "h \<noteq> INVALID_HANDLE_VALUE"
    using assms(1) c by (auto simp: E01Writer_PreflightAndOpen_def Let_def e_fail_def split: if_splits)
  have s: "h \<noteq> 0" "files s p = Some []" "opened s h = Some (p, 0)"
    using create_always [OF c h] by simp_all
  obtain w1 w2 w3 where
    1: "e_put api file_header_bytes ?w = (True, w1)" and
    2: "WriteHeaderSection api w1 = (True, w2)" and
    3: "WriteVolumeSection api w2 = (True, w3)" and
    4: "e_put api (section_bytes (make_section ''sectors'' 0 76)) w3 = (True, w')"
    using assms(1) c h
    by (auto simp: E01Writer_PreflightAndOpen_def Let_def sizeof_EwfSectionHeader_def split: if_splits)
  have w: "e01_at files opened p [] ?w" "e_metadata ?w = e_metadata w" "e_totalPhysicalBytes ?w = phys"
    "e_chunkBuffer ?w = e_chunkBuffer w" "e_chunkBufferUsed ?w = 0" "e_chunkTableOffsets ?w = []"
    using s h assms(2) by (simp_all add: e01_at_def e_reset_file_def handle_reset_def)
  have at1: "e01_at files opened p file_header_bytes w1" "e01_same ?w w1"
    using e_put_True [OF 1 w(1)] by simp_all
  have at2: "e01_at files opened p (file_header_bytes @ data_section ''header'' 13 (ascii (metadata_text (e_metadata w)))) w2"
    "e01_same w1 w2"
    using WriteHeaderSection_True [OF 2 at1(1)] at1(2) w(2) by (simp_all add: e01_same_def)
  have at3: "e01_at files opened p (e01_prelude (e_metadata w) phys) w3"
    "e_sectorsSectionOffset w3 = of_nat (length (e01_prelude (e_metadata w) phys))"
    "e01_same w2 (w3\<lparr> e_sectorsSectionOffset := e_sectorsSectionOffset w2 \<rparr>)"
    using WriteVolumeSection_True [OF 3 at2(1)] at1(2) at2(2) w(3)
    unfolding e01_prelude_sections by (simp_all add: e01_same_def)
  have at4: "e01_at files opened p (e01_prelude (e_metadata w) phys @ section_bytes (make_section ''sectors'' 0 76)) w'"
    "e01_same w3 w'"
    using e_put_True [OF 4 at3(1)] by simp_all
  show ?thesis
    using at4 at3 at2(2) at1(2) w(2-6) assms(3)
    by (simp add: e01_streaming_def e01_same_def chunk_stream_def)
qed

lemma E01_WriteAt_streaming:
  assumes "E01Writer_WriteAt api off xs w = (True, w')"
    and "e01_streaming files opened p m phys cs rest w" and "length rest < kChunkSize"
  shows "\<exists>cs' rest'. e01_streaming files opened p m phys cs' rest' w' \<and> length rest' < kChunkSize \<and>
    concat cs' @ rest' = concat cs @ rest @ xs"
  using e_copy_loop_True [of xs w w' p m phys cs rest] assms
  by (fastforce simp: E01Writer_WriteAt_def split: if_splits)

lemma WriteTableSection_True:
  assumes "WriteTableSection api w = (True, w')" and "e01_at files opened p c w"
    and "e_chunkTableOffsets w = map chunk_offset [0..<k]"
  shows "e01_at files opened p (c @ data_section ''table'' (length c) (chunk_table k)) w'"
proof -
  let ?t = "chunk_table k"
  let ?n = "76 + length ?t + 4"
  let ?s = "section_bytes (make_section ''table'' (of_nat (length c) + of_nat ?n) (of_nat ?n))"
  let ?w = "w\<lparr> e_tableSectionOffset := e_currentFileOffset w \<rparr>"
  have parts: "all_ok (map (e_put api) ([?s] @ (if k = 0 then [] else [?t]) @ [le32 (CalculateAdler32 ?t 1)])) ?w
      = (True, w')"
    using assms(1,3) e01_at_offset [OF assms(2)]
    by (auto simp: WriteTableSection_def Let_def sizeof_EwfSectionHeader_def chunk_table_def)
  have "concat ([?s] @ (if k = 0 then [] else [?t]) @ [le32 (CalculateAdler32 ?t 1)]) =
      data_section ''table'' (length c) ?t"
    by (simp add: data_section_def with_adler_def Let_def chunk_table_def table_bytes_def)
  with e_puts_True [OF parts, of p c] assms(2) show ?thesis by simp
qed

lemma WriteHashSection_True:
  assumes "WriteHashSection api w = (True, w')" and "e01_at files opened p c w"
  shows "e01_at files opened p
    (c @ section_bytes (make_section ''hash'' (of_nat (length c) + of_nat (76 + 36)) (of_nat (76 + 36))) @
     replicate 36 0) w'"
proof -
  have "all_ok (map (e_put api)
      [section_bytes (make_section ''hash'' (of_nat (length c) + of_nat (76 + 36)) (of_nat (76 + 36))), replicate 36 0])
      (w\<lparr> e_hashSectionOffset := e_currentFileOffset w \<rparr>) = (True, w')"
    using assms(1) e01_at_offset [OF assms(2)]
    by (simp add: WriteHashSection_def Let_def sizeof_EwfSectionHeader_def)
  from e_puts_True [OF this, of p c] assms(2) show ?thesis by simp
qed

lemma rewrite_sectors_header_at:
  assumes "reliable_files api opened" and "e01_at files opened p (pre @ old @ body) w"
    and "length old = 76" and "length (pre @ old @ body) < 2 ^ 64"
    and "e_sectorsSectionOffset w = of_nat (length pre)"
  shows "e01_at files opened p
      (pre @ section_bytes (make_section ''sectors'' (of_nat (length (pre @ old @ body)))
         (of_nat (76 + length body))) @ body) (rewrite_sectors_header api w)"
    and "e_chunkTableOffsets (rewrite_sectors_header api w) = e_chunkTableOffsets w"
proof -
  let ?c = "pre @ old @ body"
  let ?hdr = "section_bytes (make_section ''sectors'' (of_nat (length ?c)) (of_nat (76 + length body)))"
  have at: "opened (e_sys w) (e_file w) = Some (p, length ?c)" "files (e_sys w) p = Some ?c"
    and off: "e_currentFileOffset w = of_nat (length ?c)"
    using assms(2) by (simp_all add: e01_at_def)
  obtain b1 s1 where 1: "w_SetFilePointerEx api (e_file w) (e_sectorsSectionOffset w) (e_sys w) = (b1, s1)"
    by fastforce
  obtain b2 n s2 where 2: "w_WriteFile api (e_file w) ?hdr s1 = (b2, n, s2)" by (metis prod.collapse)
  obtain b3 s3 where 3: "w_SetFilePointerEx api (e_file w) (of_nat (length ?c)) s2 = (b3, s3)" by fastforce
  have "b1" by (rule reliable_pointer [OF assms(1) _ 1]) (simp add: at(1))
  then have s1: "files s1 = files (e_sys w)" "opened s1 (e_file w) = Some (p, length pre)"
    using pointer_ok [of "e_file w" _ "e_sys w" s1] 1 at(1) assms(4,5) by (simp_all add: unat_of_nat)
  have "b2 \<and> unat n = length ?hdr"
    by (rule reliable_write [OF assms(1) _ small_header 2]) (simp add: s1(2))
  then have "b2" "unat n = 76" by simp_all
  then have s2: "files s2 p = Some (file_write ?c (length pre) ?hdr)" "opened s2 (e_file w) \<noteq> None"
    and s2': "\<exists>q. opened s2 (e_file w) = Some (p, q)"
    using write_ok [of "e_file w" ?hdr s1 n s2] 2 s1 at(2) by simp_all
  have "b3" by (rule reliable_pointer [OF assms(1) s2(2) 3])
  obtain q where q: "opened s2 (e_file w) = Some (p, q)" using s2' by blast
  have un: "unat (of_nat (length ?c) :: u64) = length ?c"
    using assms(4) by (rule unat_of_nat_small)
  have s3: "files s3 = files s2" "opened s3 (e_file w) = Some (p, length ?c)"
    using pointer_ok [OF 3 [unfolded \<open>b3\<close> [THEN eqTrueI]] q] unfolding un by simp_all
  have "?hdr \<noteq> []" by (simp add: section_bytes_def le32_def le_bytes_def)
  then have "file_write ?c (length pre) ?hdr = pre @ ?hdr @ body"
    using assms(3) unfolding file_write_def overlay_def by simp
  moreover have "of_nat (length ?c) - of_nat (length pre) = (of_nat (76 + length body) :: u64)"
    using assms(3) by simp
  then have "rewrite_sectors_header api w = w\<lparr> e_sys := s3 \<rparr>"
    using 1 2 3 off assms(5) by (simp add: rewrite_sectors_header_def Let_def)
  ultimately show "e01_at files opened p (pre @ ?hdr @ body) (rewrite_sectors_header api w)"
    "e_chunkTableOffsets (rewrite_sectors_header api w) = e_chunkTableOffsets w"
    using assms(2,3) s2(1) s3 off by (simp_all add: e01_at_def)
qed

lemma E01_FlushAndClose_file:
  assumes "E01Writer_FlushAndClose api w = (True, w')"
    and "e01_streaming files opened p m phys cs rest w" and "length rest < kChunkSize"
    and "reliable_files api opened" and "length (e01_file m phys (concat cs @ rest)) < 2 ^ 64"
  shows "files (e_sys w') p = Some (e01_file m phys (concat cs @ rest))"
    and "e_file w' = INVALID_HANDLE_VALUE"
proof -
  let ?pre = "e01_prelude m phys"
  let ?cs = "chunks (concat cs @ rest)"
  let ?body = "chunk_stream ?cs"
  let ?stop = "length ?pre + 76 + length ?body"
  have cs: "\<forall>c \<in> set cs. length c = kChunkSize" using assms(2) by (simp add: e01_streaming_def)
  have open_h: "e_file w \<noteq> INVALID_HANDLE_VALUE"
    using assms(2) by (simp add: e01_streaming_def e01_at_def)
  obtain u where fl: "FlushActiveChunk api w = (True, u)"
    using assms(1) open_h by (auto simp: E01Writer_FlushAndClose_def split: prod.splits bool.splits)
  have u: "e01_streaming files opened p m phys ?cs [] u"
  proof (cases "rest = []")
    case True
    then have "u = w" using fl assms(2) by (simp add: FlushActiveChunk_def e01_streaming_def)
    then show ?thesis using assms(2) True chunks_concat [OF cs, of "[]"] by simp
  next
    case False
    then show ?thesis
      using FlushActiveChunk_True [OF fl assms(2) _ False] assms(3) chunks_concat [OF cs, of rest] by simp
  qed
  obtain v1 v2 v where
    1: "WriteTableSection api (rewrite_sectors_header api u) = (True, v1)" and
    2: "WriteHashSection api v1 = (True, v2)" and 3: "WriteDoneSection api v2 = (True, v)"
    and w': "\<exists>s. w_FlushFileBuffers api (e_file v) (e_sys v) = (True, s) \<and>
        w' = e_reset_file api INVALID_HANDLE_VALUE (v\<lparr> e_sys := s \<rparr>)"
    using assms(1) open_h fl
    by (auto simp: E01Writer_FlushAndClose_def split: prod.splits bool.splits)
  have small: "length (?pre @ section_bytes (make_section ''sectors'' 0 76) @ ?body) < 2 ^ 64"
    using assms(5) by (simp add: e01_file_def Let_def)
  have at_u: "e01_at files opened p (?pre @ section_bytes (make_section ''sectors'' 0 76) @ ?body) u"
    and tab: "e_chunkTableOffsets u = map chunk_offset [0..<length ?cs]"
    and so: "e_sectorsSectionOffset u = of_nat (length ?pre)"
    using u by (simp_all add: e01_streaming_def)
  note rw = rewrite_sectors_header_at [OF assms(4) at_u _ small so]
  let ?c = "?pre @ section_bytes (make_section ''sectors'' (of_nat ?stop) (of_nat (76 + length ?body))) @ ?body"
  have len: "length (?pre @ section_bytes (make_section ''sectors'' 0 76) @ ?body) = ?stop" "length ?c = ?stop"
    by simp_all
  have at0: "e01_at files opened p ?c (rewrite_sectors_header api u)"
    and tab0: "e_chunkTableOffsets (rewrite_sectors_header api u) = map chunk_offset [0..<length ?cs]"
    using rw tab unfolding len by simp_all
  let ?t = "?c @ data_section ''table'' ?stop (chunk_table (length ?cs))"
  have at1: "e01_at files opened p ?t v1"
    using WriteTableSection_True [OF 1 at0 tab0] unfolding len .
  note at2 = WriteHashSection_True [OF 2 at1]
  have "e_put api (section_bytes (make_section ''done'' 0 76)) (v2\<lparr> e_doneSectionOffset := e_currentFileOffset v2 \<rparr>) = (True, v)"
    using 3 by (simp add: WriteDoneSection_def Let_def sizeof_EwfSectionHeader_def)
  then have "e01_at files opened p ((?t @ section_bytes (make_section ''hash'' (of_nat (length ?t) + of_nat (76 + 36))
      (of_nat (76 + 36))) @ replicate 36 0) @ section_bytes (make_section ''done'' 0 76)) v"
    by (rule e_put_True [THEN conjunct1]) (simp only: e01_at_update, rule at2)
  also have "(?t @ section_bytes (make_section ''hash'' (of_nat (length ?t) + of_nat (76 + 36))
      (of_nat (76 + 36))) @ replicate 36 0) @ section_bytes (make_section ''done'' 0 76) =
      e01_file m phys (concat cs @ rest)"
    by (simp only: append_assoc flip: e01_final_layout [OF refl refl, of m phys "concat cs @ rest"])
  finally have "e01_at files opened p (e01_file m phys (concat cs @ rest)) v" .
  then have "files (e_sys v) p = Some (e01_file m phys (concat cs @ rest))"
    by (simp add: e01_at_def)
  then show "files (e_sys w') p = Some (e01_file m phys (concat cs @ rest))" "e_file w' = INVALID_HANDLE_VALUE"
    using w' flush_frame by (auto simp: e_reset_file_def handle_reset_view)
qed

end

section \<open>Reading the sections back\<close>

text \<open>What a reader of the container does: follow the next offsets, check each header's sum.\<close>

definition section_type :: "bytes \<Rightarrow> nat \<Rightarrow> bytes" where
  "section_type c off = takeWhile (\<lambda>b. b \<noteq> 0) (field c off 16)"

definition section_next :: "bytes \<Rightarrow> nat \<Rightarrow> u64" where "section_next c off = u64_at c (off + 16)"
definition section_size :: "bytes \<Rightarrow> nat \<Rightarrow> u64" where "section_size c off = u64_at c (off + 24)"

definition section_valid :: "bytes \<Rightarrow> nat \<Rightarrow> bool" where
  "section_valid c off \<longleftrightarrow> unat (u32_at c (off + 72)) = adler32_spec (field c off 72)"

fun section_walk :: "nat \<Rightarrow> bytes \<Rightarrow> nat \<Rightarrow> (bytes \<times> nat \<times> bool) list" where
  "section_walk 0 c off = []"
| "section_walk (Suc k) c off = (section_type c off, off, section_valid c off) #
     (if section_next c off = 0 then [] else section_walk k c (unat (section_next c off)))"

lemma field_append_skip: "field (xs @ ys) (length xs + k) n = field ys k n"
  by (simp add: field_def)

lemma u64_at_append_skip: "u64_at (xs @ ys) (length xs + k) = u64_at ys k"
  by (simp add: u64_at_def field_append_skip)

lemma u32_at_append_skip: "u32_at (xs @ ys) (length xs + k) = u32_at ys k"
  by (simp add: u32_at_def field_append_skip)

lemma takeWhile_nonzero_pad:
  "0 \<notin> set xs \<Longrightarrow> takeWhile (\<lambda>b. b \<noteq> 0) (xs @ replicate n (0 :: u8)) = xs"
  by (induction xs) (cases n, auto)

lemma section_read:
  assumes "length typ \<le> 16" and "0 \<notin> set (ascii typ)"
    and c_def: "c = pre @ section_bytes (make_section typ nxt sz) @ suf"
  shows "section_type c (length pre) = ascii typ" and "section_next c (length pre) = nxt"
    and "section_size c (length pre) = sz" and "section_valid c (length pre)"
proof -
  let ?s = "make_section typ nxt sz"
  have ty: "es_Type ?s = ascii typ @ replicate (16 - length typ) 0" and lt: "length (es_Type ?s) = 16"
    using assms(1) by (simp_all add: make_section_def Let_def ascii_def)
  have nx: "es_NextOffset ?s = nxt" "es_SectionSize ?s = sz"
    "es_Checksum ?s = CalculateAdler32 (section_prefix ?s) 1"
    by (simp_all add: make_section_def Let_def section_prefix_def)
  have len: "length (section_prefix ?s) = 72" using lt by (simp add: section_prefix_def)
  have "section_type c (length pre) = takeWhile (\<lambda>b. b \<noteq> 0) (es_Type ?s)"
    using field_append_skip [of pre "section_bytes ?s @ suf" 0 16] lt
    by (simp add: section_type_def c_def section_bytes_def section_prefix_def)
  then show "section_type c (length pre) = ascii typ"
    using takeWhile_nonzero_pad [OF assms(2)] ty by simp
  show "section_next c (length pre) = nxt" "section_size c (length pre) = sz"
    using lt nx
    by (simp_all add: section_next_def section_size_def c_def u64_at_append_skip section_bytes_def
        section_prefix_def u64_at_skip)
  have "u32_at c (length pre + 72) = es_Checksum ?s" "field c (length pre) 72 = section_prefix ?s"
    using len field_append_skip [of pre "section_bytes ?s @ suf" 0 72]
    by (simp_all add: c_def u32_at_append_skip section_bytes_def u32_at_skip)
  then show "section_valid c (length pre)"
    using nx(3) CalculateAdler32_spec by (simp add: section_valid_def)
qed

lemma section_walk_step:
  assumes "c = pre @ section_bytes (make_section typ nxt sz) @ suf"
    and "length typ \<le> 16" and "0 \<notin> set (ascii typ)"
  shows "section_walk (Suc k) c (length pre) =
    (ascii typ, length pre, True) # (if nxt = 0 then [] else section_walk k c (unat nxt))"
  using section_read [OF assms(2,3,1)] by simp

text \<open>A data section leads to whatever follows it.\<close>

lemma section_walk_data:
  assumes "c = pre @ data_section typ (length pre) xs @ suf" and "length c < 2 ^ 64"
    and "length typ \<le> 16" and "0 \<notin> set (ascii typ)"
  shows "section_walk (Suc k) c (length pre) =
    (ascii typ, length pre, True) # section_walk k c (length (pre @ data_section typ (length pre) xs))"
proof -
  let ?n = "76 + length xs + 4"
  have len: "length (pre @ data_section typ (length pre) xs) = length pre + ?n"
    using assms(3) by (simp add: data_section_def Let_def)
  have le: "length pre + ?n \<le> length c" unfolding assms(1) using len by simp
  have un: "unat (of_nat (length pre + ?n) :: u64) = length pre + ?n"
    using le assms(2) by (intro unat_of_nat_small) simp
  then have "(of_nat (length pre + ?n) :: u64) \<noteq> 0" by (intro notI) simp
  then show ?thesis
    using section_walk_step [of c pre "typ" "of_nat (length pre + ?n)" "of_nat ?n" "with_adler xs @ suf" k]
      assms un len by (simp add: data_section_def Let_def)
qed

definition e01_section_names :: "string list" where
  "e01_section_names = [''header'', ''volume'', ''sectors'', ''table'', ''hash'', ''done'']"

lemma e01_names_no_zero: "typ \<in> set e01_section_names \<Longrightarrow> length typ \<le> 16 \<and> 0 \<notin> set (ascii typ)"
  by (auto simp: e01_section_names_def ascii_def)

lemma section_chain:
  assumes c: "c = fh @ H @ V @ S @ body @ T @ X @ pad @ Y"
    and H: "H = data_section ''header'' (length fh) hdata"
    and V: "V = data_section ''volume'' (length (fh @ H)) vd"
    and S: "S = section_bytes (make_section ''sectors'' (of_nat (length (fh @ H @ V @ S @ body))) sz)"
    and T: "T = data_section ''table'' (length (fh @ H @ V @ S @ body)) td"
    and X: "X = section_bytes (make_section ''hash'' (of_nat (length (fh @ H @ V @ S @ body @ T @ X @ pad))) sz')"
    and Y: "Y = section_bytes (make_section ''done'' 0 sz'')"
    and small: "length c < 2 ^ 64"
  shows "section_walk 6 c (length fh) =
    [(ascii ''header'', length fh, True), (ascii ''volume'', length (fh @ H), True),
     (ascii ''sectors'', length (fh @ H @ V), True),
     (ascii ''table'', length (fh @ H @ V @ S @ body), True),
     (ascii ''hash'', length (fh @ H @ V @ S @ body @ T), True),
     (ascii ''done'', length (fh @ H @ V @ S @ body @ T @ X @ pad), True)]"
proof -
  have names: "length tn \<le> 16" "0 \<notin> set (ascii tn)" if "tn \<in> set e01_section_names" for tn
    using e01_names_no_zero [OF that] by simp_all
  let ?p3 = "fh @ H @ V" and ?p4 = "fh @ H @ V @ S @ body" and ?p5 = "fh @ H @ V @ S @ body @ T"
  let ?p6 = "fh @ H @ V @ S @ body @ T @ X @ pad"
  have lens: "length S = 76" "length X = 76"
    by (subst S, simp) (subst X, simp)
  have bounds: "length ?p4 < 2 ^ 64" "length ?p6 < 2 ^ 64" using small unfolding c by simp_all
  then have un: "unat (of_nat (length ?p4) :: u64) = length ?p4" "unat (of_nat (length ?p6) :: u64) = length ?p6"
    by (simp_all only: unat_of_nat_small)
  have ne: "(of_nat (length ?p4) :: u64) \<noteq> 0" "(of_nat (length ?p6) :: u64) \<noteq> 0"
    using un lens by (metis add_is_0 length_append unsigned_0 zero_neq_numeral)+
  have w1: "section_walk (Suc 5) c (length fh) = (ascii ''header'', length fh, True) # section_walk 5 c (length (fh @ H))"
    unfolding H by (rule section_walk_data) (use c H small names in \<open>simp_all add: e01_section_names_def\<close>)
  have w2: "section_walk (Suc 4) c (length (fh @ H)) =
      (ascii ''volume'', length (fh @ H), True) # section_walk 4 c (length ((fh @ H) @ V))"
    unfolding V by (rule section_walk_data) (use c V small names in \<open>simp_all add: e01_section_names_def\<close>)
  have "c = ?p3 @ section_bytes (make_section ''sectors'' (of_nat (length ?p4)) sz) @ (body @ T @ X @ pad @ Y)"
    unfolding S [symmetric] by (simp add: c)
  from section_walk_step [OF this, of 3] have w3: "section_walk (Suc 3) c (length ?p3) =
      (ascii ''sectors'', length ?p3, True) # section_walk 3 c (length ?p4)"
    using names ne un by (simp add: e01_section_names_def)
  have w4: "section_walk (Suc 2) c (length ?p4) = (ascii ''table'', length ?p4, True) #
      section_walk 2 c (length (?p4 @ T))"
    unfolding T by (rule section_walk_data) (use c T small names in \<open>simp_all add: e01_section_names_def\<close>)
  have "c = ?p5 @ section_bytes (make_section ''hash'' (of_nat (length ?p6)) sz') @ (pad @ Y)"
    unfolding X [symmetric] by (simp add: c)
  from section_walk_step [OF this, of 1] have w5: "section_walk (Suc 1) c (length ?p5) =
      (ascii ''hash'', length ?p5, True) # section_walk 1 c (length ?p6)"
    using names ne un by (simp add: e01_section_names_def)
  have "c = ?p6 @ section_bytes (make_section ''done'' 0 sz'') @ []"
    unfolding Y [symmetric] by (simp add: c)
  from section_walk_step [OF this, of 0] have w6: "section_walk (Suc 0) c (length ?p6) =
      [(ascii ''done'', length ?p6, True)]"
    using names by (simp add: e01_section_names_def)
  show ?thesis
    using w1 w2 w3 w4 w5 w6 by (simp add: eval_nat_numeral)
qed

end
