(* ===== verification/Volume.thy ===== *)
theory Volume
  imports Sha256 RawWriter E01Writer "HOL-Library.AList"
begin

text \<open>
  An executable system that keeps the laws of \<open>win32_files\<close> and \<open>cng\<close>: a volume in memory with
  scripted failures and partial writes, and a hash provider with an arbitrary digest. It shows that
  the laws can hold together, and it is the system the theorems about the writers and the evidence
  transaction are evaluated on.
\<close>

section \<open>A volume\<close>

record disk =
  k_files :: "(wstring \<times> bytes) list"
  k_open :: "(u64 \<times> (wstring \<times> nat)) list"
  k_calls :: nat
  k_fails :: "nat \<Rightarrow> bool"
  k_chunk :: nat
  k_flags :: u32
  k_fsname :: wstring
  k_free :: u64
  k_error :: u32

definition disk_files :: "disk \<Rightarrow> wstring \<Rightarrow> bytes option" where "disk_files s = map_of (k_files s)"
definition disk_open :: "disk \<Rightarrow> u64 \<Rightarrow> (wstring \<times> nat) option" where "disk_open s = map_of (k_open s)"

text \<open>Every call counts; the script says which calls fail.\<close>

definition disk_call :: "(disk \<Rightarrow> 'a \<times> disk) \<Rightarrow> (disk \<Rightarrow> 'a \<times> disk) \<Rightarrow> disk \<Rightarrow> 'a \<times> disk" where
  "disk_call failed act s =
     (let t = s\<lparr> k_calls := Suc (k_calls s) \<rparr>
      in if k_fails s (k_calls s) then failed (t\<lparr> k_error := 31 \<rparr>) else act t)"

definition disk_create :: "wstring \<Rightarrow> u32 \<Rightarrow> u32 \<Rightarrow> disk \<Rightarrow> u64 \<times> disk" where
  "disk_create p acc disp = disk_call (\<lambda>s. (INVALID_HANDLE_VALUE, s))
     (\<lambda>s. let h = of_nat (k_calls s) in
       if h = 0 \<or> h = INVALID_HANDLE_VALUE \<or> disk_open s h \<noteq> None \<or>
          (disp \<noteq> CREATE_ALWAYS \<and> disk_files s p \<noteq> None)
       then (INVALID_HANDLE_VALUE, s\<lparr> k_error := ERROR_FILE_EXISTS \<rparr>)
       else (h, s\<lparr> k_files := AList.update p [] (k_files s), k_open := AList.update h (p, 0) (k_open s) \<rparr>))"

definition disk_write :: "u64 \<Rightarrow> bytes \<Rightarrow> disk \<Rightarrow> bool \<times> u32 \<times> disk" where
  "disk_write h xs s = (case disk_call (\<lambda>s. ((False, 0), s))
     (\<lambda>s. case disk_open s h of
        None \<Rightarrow> ((False, 0), s)
      | Some (p, pos) \<Rightarrow>
          (case disk_files s p of
             None \<Rightarrow> ((False, 0), s)
           | Some c \<Rightarrow>
               (let n = min (length xs) (min (k_chunk s) 4294967295)
                in ((True, of_nat n),
                    s\<lparr> k_files := AList.update p (file_write c pos (take n xs)) (k_files s),
                       k_open := AList.update h (p, pos + n) (k_open s) \<rparr>)))) s of
       ((ok, n), s) \<Rightarrow> (ok, n, s))"

definition disk_pointer :: "u64 \<Rightarrow> u64 \<Rightarrow> disk \<Rightarrow> bool \<times> disk" where
  "disk_pointer h off = disk_call (Pair False)
     (\<lambda>s. case disk_open s h of
        None \<Rightarrow> (False, s)
      | Some (p, pos) \<Rightarrow> (True, s\<lparr> k_open := AList.update h (p, unat off) (k_open s) \<rparr>))"

definition disk_end_of_file :: "u64 \<Rightarrow> disk \<Rightarrow> bool \<times> disk" where
  "disk_end_of_file h = disk_call (Pair False)
     (\<lambda>s. case disk_open s h of
        None \<Rightarrow> (False, s)
      | Some (p, pos) \<Rightarrow>
          (case disk_files s p of
             None \<Rightarrow> (False, s)
           | Some c \<Rightarrow> (True, s\<lparr> k_files := AList.update p (resize c pos) (k_files s) \<rparr>)))"

definition disk_move :: "wstring \<Rightarrow> wstring \<Rightarrow> u32 \<Rightarrow> disk \<Rightarrow> bool \<times> disk" where
  "disk_move src dst flags = disk_call (Pair False)
     (\<lambda>s. case disk_files s src of
        None \<Rightarrow> (False, s)
      | Some c \<Rightarrow> if disk_files s dst \<noteq> None then (False, s\<lparr> k_error := 183 \<rparr>)
                  else (True, s\<lparr> k_files := AList.update dst c (AList.delete src (k_files s)) \<rparr>))"

text \<open>The two directories of the volume.\<close>

definition disk_directories :: "wstring list" where
  "disk_directories = [wide (''C:-PD'' @ CHR 0x5C # ''PhylaRAM''), wide (''C:-PD'' @ CHR 0x5C # ''PhylaRAM'' @ CHR 0x5C # ''Temp'')]"

definition disk_api :: "disk win32" where
  "disk_api = \<lparr>
     w_CreateFileW = disk_create,
     w_WriteFile = disk_write,
     w_SetFilePointerEx = disk_pointer,
     w_SetEndOfFile = disk_end_of_file,
     w_SetSparse = (\<lambda>h. disk_call (Pair False) (Pair True)),
     w_FlushFileBuffers = (\<lambda>h. disk_call (Pair False) (Pair True)),
     w_CloseHandle = (\<lambda>h s. s\<lparr> k_open := AList.delete h (k_open s) \<rparr>),
     w_DeleteFileW = (\<lambda>p. disk_call (Pair False)
        (\<lambda>s. if disk_files s p = None then (False, s)
             else (True, s\<lparr> k_files := AList.delete p (k_files s) \<rparr>))),
     w_MoveFileExW = disk_move,
     w_GetFileAttributesW = (\<lambda>p s.
        (if p \<in> set disk_directories then 0x10
         else if disk_files s p = None then INVALID_FILE_ATTRIBUTES else 0x80, s)),
     w_GetVolumePathNameW = (\<lambda>p s. (True, take 3 p, s)),
     w_GetVolumeInformationW = (\<lambda>root s. (True, (k_flags s, k_fsname s), s)),
     w_GetDiskFreeSpaceExW = (\<lambda>root s. (True, k_free s, s)),
     w_GetLastError = k_error \<rparr>"

lemma map_of_AList [simp]:
  "map_of (AList.update k v al) = (map_of al)(k \<mapsto> v)"
  "map_of (AList.delete k al) = (map_of al)(k := None)"
  by (simp_all add: update_conv' delete_conv')

lemma disk_call_simps [simp]:
  "disk_files (s\<lparr> k_calls := n \<rparr>) = disk_files s" "disk_open (s\<lparr> k_calls := n \<rparr>) = disk_open s"
  "disk_files (s\<lparr> k_error := e \<rparr>) = disk_files s" "disk_open (s\<lparr> k_error := e \<rparr>) = disk_open s"
  "disk_files (s\<lparr> k_open := x \<rparr>) = disk_files s" "disk_open (s\<lparr> k_open := x \<rparr>) = map_of x"
  "disk_files (s\<lparr> k_files := y \<rparr>) = map_of y" "disk_open (s\<lparr> k_files := y \<rparr>) = disk_open s"
  "map_of (k_files s) = disk_files s" "map_of (k_open s) = disk_open s"
  by (simp_all add: disk_files_def disk_open_def)

lemma unat_write_count:
  "unat (of_nat (min (length (xs :: bytes)) (min c 4294967295)) :: u32) = min (length xs) (min c 4294967295)"
  by (simp add: unat_of_nat take_bit_nat_eq_self)

lemma no_pair_iff [simp]: "(\<forall>a b. x \<noteq> Some (a, b)) \<longleftrightarrow> x = None"
  by (cases x) auto

interpretation disk: win32_files disk_api disk_files disk_open
proof
  fix h xs s n s' p pos c
  assume "w_WriteFile disk_api h xs s = (True, n, s')" "disk_open s h = Some (p, pos)" "disk_files s p = Some c"
  then show "unat n \<le> length xs \<and>
      disk_files s' = (disk_files s)(p \<mapsto> file_write c pos (take (unat n) xs)) \<and>
      disk_open s' = (disk_open s)(h \<mapsto> (p, pos + unat n))"
    by (auto simp: disk_api_def disk_write_def disk_call_def Let_def unat_write_count split: if_splits)
next
  fix h xs s n s' p pos c
  assume "w_WriteFile disk_api h xs s = (False, n, s')" and o: "disk_open s h = Some (p, pos)"
    and f: "disk_files s p = Some c"
  then have "disk_files s' = disk_files s \<and> disk_open s' = disk_open s"
    by (auto simp: disk_api_def disk_write_def disk_call_def Let_def split: if_splits)
  then have "disk_files s' = (disk_files s)(p \<mapsto> c) \<and> disk_open s' = (disk_open s)(h \<mapsto> (p, pos))"
    using o f by (simp add: fun_upd_idem)
  then show "\<exists>c' pos'. disk_files s' = (disk_files s)(p \<mapsto> c') \<and> disk_open s' = (disk_open s)(h \<mapsto> (p, pos'))"
    by blast
qed (auto simp: disk_api_def disk_create_def disk_pointer_def disk_end_of_file_def disk_move_def
    disk_call_def Let_def INVALID_HANDLE_VALUE_def CREATE_NEW_def CREATE_ALWAYS_def
    split: if_splits option.splits)

section \<open>A volume on which no write fails\<close>

text \<open>The same volume without failures: writes take the whole buffer, positioning always works.\<close>

definition steady_write :: "u64 \<Rightarrow> bytes \<Rightarrow> disk \<Rightarrow> bool \<times> u32 \<times> disk" where
  "steady_write h xs s =
     (case disk_open s h of
        None \<Rightarrow> (False, 0, s)
      | Some (p, pos) \<Rightarrow>
          (let n = min (length xs) 4294967295;
               c = (case disk_files s p of None \<Rightarrow> [] | Some c \<Rightarrow> c)
           in (True, of_nat n,
               s\<lparr> k_files := AList.update p (file_write c pos (take n xs)) (k_files s),
                  k_open := AList.update h (p, pos + n) (k_open s) \<rparr>)))"

definition steady_pointer :: "u64 \<Rightarrow> u64 \<Rightarrow> disk \<Rightarrow> bool \<times> disk" where
  "steady_pointer h off s =
     (case disk_open s h of
        None \<Rightarrow> (False, s)
      | Some (p, pos) \<Rightarrow> (True, s\<lparr> k_open := AList.update h (p, unat off) (k_open s) \<rparr>))"

definition steady_api :: "disk win32" where
  "steady_api = disk_api\<lparr> w_WriteFile := steady_write, w_SetFilePointerEx := steady_pointer,
     w_FlushFileBuffers := (\<lambda>h s. (True, s)),
     w_DeleteFileW := (\<lambda>p s. if disk_files s p = None then (False, s)
       else (True, s\<lparr> k_files := AList.delete p (k_files s) \<rparr>)) \<rparr>"

lemma steady_count: "unat (of_nat (min (length (xs :: bytes)) 4294967295) :: u32) = min (length xs) 4294967295"
  by (simp add: unat_of_nat take_bit_nat_eq_self)

interpretation steady: win32_files steady_api disk_files disk_open
proof
  fix h xs s n s' p pos c
  assume "w_WriteFile steady_api h xs s = (True, n, s')" "disk_open s h = Some (p, pos)" "disk_files s p = Some c"
  then show "unat n \<le> length xs \<and>
      disk_files s' = (disk_files s)(p \<mapsto> file_write c pos (take (unat n) xs)) \<and>
      disk_open s' = (disk_open s)(h \<mapsto> (p, pos + unat n))"
    by (auto simp: steady_api_def steady_write_def Let_def steady_count)
next
  fix p acc s h s'
  assume "w_CreateFileW steady_api p acc CREATE_NEW s = (h, s')" and h: "h \<noteq> INVALID_HANDLE_VALUE"
  then have "w_CreateFileW disk_api p acc CREATE_NEW s = (h, s')" by (simp add: steady_api_def)
  from disk.create_new [OF this h] show "h \<noteq> 0 \<and> disk_files s p = None \<and>
      disk_files s' = (disk_files s)(p \<mapsto> []) \<and> disk_open s h = None \<and> disk_open s' = (disk_open s)(h \<mapsto> (p, 0))" .
next
  fix p acc s h s'
  assume "w_CreateFileW steady_api p acc CREATE_ALWAYS s = (h, s')" and h: "h \<noteq> INVALID_HANDLE_VALUE"
  then have "w_CreateFileW disk_api p acc CREATE_ALWAYS s = (h, s')" by (simp add: steady_api_def)
  from disk.create_always [OF this h] show "h \<noteq> 0 \<and>
      disk_files s' = (disk_files s)(p \<mapsto> []) \<and> disk_open s h = None \<and> disk_open s' = (disk_open s)(h \<mapsto> (p, 0))" .
qed (auto simp: steady_api_def steady_write_def steady_pointer_def disk_api_def disk_create_def
    disk_end_of_file_def disk_move_def disk_call_def Let_def INVALID_HANDLE_VALUE_def CREATE_NEW_def
    CREATE_ALWAYS_def split: if_splits option.splits)

lemma steady_reliable: "reliable_files steady_api disk_open"
  by (auto simp: reliable_files_def steady_api_def steady_write_def steady_pointer_def Let_def
      steady_count unat_of_nat take_bit_nat_eq_self split: option.splits)

text \<open>An empty volume on which no call fails.\<close>

definition blank_disk :: disk where
  "blank_disk = \<lparr> k_files = [], k_open = [], k_calls = 1, k_fails = (\<lambda>_. False), k_chunk = 5,
     k_flags = FILE_SUPPORTS_SPARSE_FILES, k_fsname = wide ''NTFS'', k_free = 0x10000000000, k_error = 0 \<rparr>"

section \<open>A hash provider\<close>

record hash_system =
  hk_objects :: "(u64 \<times> bytes) list"
  hk_next :: nat
  hk_fails :: bool

definition some_digest :: "bytes \<Rightarrow> bytes" where
  "some_digest bs = map (\<lambda>i. of_nat (length bs + i) + sum_list bs) [0..<32]"

definition hk_absorbed :: "hash_system \<Rightarrow> u64 \<Rightarrow> bytes option" where
  "hk_absorbed s = map_of (hk_objects s)"

definition hash_api :: "hash_system cng_api" where
  "hash_api = \<lparr>
     BCryptOpenAlgorithmProvider = (\<lambda>s. (if hk_fails s then 0xC0000001 else 0, 7, s)),
     BCryptCloseAlgorithmProvider = (\<lambda>a s. s),
     BCryptCreateHash = (\<lambda>a s. (0, of_nat (hk_next s),
        s\<lparr> hk_objects := AList.update (of_nat (hk_next s)) [] (hk_objects s), hk_next := Suc (hk_next s) \<rparr>)),
     BCryptHashData = (\<lambda>h xs s. case hk_absorbed s h of
          None \<Rightarrow> (0xC0000008, s)
        | Some bs \<Rightarrow> (0, s\<lparr> hk_objects := AList.update h (bs @ xs) (hk_objects s) \<rparr>)),
     BCryptFinishHash = (\<lambda>h s. case hk_absorbed s h of
          None \<Rightarrow> (0xC0000008, [], s)
        | Some bs \<Rightarrow> (0, some_digest bs, s)),
     BCryptDestroyHash = (\<lambda>h s. s\<lparr> hk_objects := AList.delete h (hk_objects s) \<rparr>) \<rparr>"

lemma nt_failed_values [simp]: "nt_failed 0xC0000008" "nt_failed 0xC0000001" "\<not> nt_failed 0"
  by (simp_all add: nt_failed_def)

interpretation hash_system: cng hash_api hk_absorbed some_digest
  by unfold_locales
    (auto simp: hash_api_def hk_absorbed_def some_digest_def split: option.splits if_splits)

end
