(* ===== verification/ZdmpWriter.thy ===== *)
theory ZdmpWriter
  imports AcquireImage Win32Files Layout
begin

text \<open>
  The crash-dump writer, \<open>cli/zdmp_writer.hpp\<close> and \<open>cli/zdmp_writer.cpp\<close>: a 4096-byte header that
  lists at most 32 runs in pages, followed by the bytes of the runs, packed one behind the other.
\<close>

section \<open>The header\<close>

record PhysicalMemoryRun64 =
  pr_BasePage :: u64
  pr_PageCount :: u64

record DumpHeader64 =
  dh_Signature :: u32
  dh_ValidDump :: u32
  dh_MajorVersion :: u32
  dh_MinorVersion :: u32
  dh_DirectoryTableBase :: u64
  dh_PfnDataBase :: u64
  dh_PsLoadedModuleList :: u64
  dh_PsActiveProcessHead :: u64
  dh_MachineImageType :: u32
  dh_NumberProcessors :: u32
  dh_BugCheckCode :: u32
  dh_BugCheckParameter1 :: u64
  dh_BugCheckParameter2 :: u64
  dh_BugCheckParameter3 :: u64
  dh_BugCheckParameter4 :: u64
  dh_VersionUser :: bytes
  dh_KdDebuggerDataBlock :: u64
  dh_NumberOfRuns :: u32
  dh_ReservedRuns :: u32
  dh_NumberOfPages :: u64
  dh_Runs :: "PhysicalMemoryRun64 list"
  dh_DumpType :: u32

definition version_user :: bytes where
  "version_user = ascii ''PhylaRAM 0.1.0-alpha'' @ replicate 12 0"

text \<open>The default member initialisers.\<close>

definition DumpHeader64_default :: DumpHeader64 where
  "DumpHeader64_default = \<lparr> dh_Signature = 0x45474150, dh_ValidDump = 0x34365544,
     dh_MajorVersion = 15, dh_MinorVersion = 22631, dh_DirectoryTableBase = 0, dh_PfnDataBase = 0,
     dh_PsLoadedModuleList = 0, dh_PsActiveProcessHead = 0, dh_MachineImageType = 0x8664,
     dh_NumberProcessors = 1, dh_BugCheckCode = 0x161, dh_BugCheckParameter1 = 0,
     dh_BugCheckParameter2 = 0, dh_BugCheckParameter3 = 0, dh_BugCheckParameter4 = 0,
     dh_VersionUser = version_user, dh_KdDebuggerDataBlock = 0, dh_NumberOfRuns = 0,
     dh_ReservedRuns = 0, dh_NumberOfPages = 0,
     dh_Runs = replicate 32 \<lparr> pr_BasePage = 0, pr_PageCount = 0 \<rparr>, dh_DumpType = 1 \<rparr>"

definition run64_bytes :: "PhysicalMemoryRun64 \<Rightarrow> bytes" where
  "run64_bytes r = le64 (pr_BasePage r) @ le64 (pr_PageCount r)"

text \<open>The packed structure, reserved arrays included.\<close>

definition header_bytes :: "DumpHeader64 \<Rightarrow> bytes" where
  "header_bytes h =
     le32 (dh_Signature h) @ le32 (dh_ValidDump h) @ le32 (dh_MajorVersion h) @
     le32 (dh_MinorVersion h) @ le64 (dh_DirectoryTableBase h) @ le64 (dh_PfnDataBase h) @
     le64 (dh_PsLoadedModuleList h) @ le64 (dh_PsActiveProcessHead h) @
     le32 (dh_MachineImageType h) @ le32 (dh_NumberProcessors h) @ le32 (dh_BugCheckCode h) @
     le64 (dh_BugCheckParameter1 h) @ le64 (dh_BugCheckParameter2 h) @
     le64 (dh_BugCheckParameter3 h) @ le64 (dh_BugCheckParameter4 h) @ dh_VersionUser h @
     le64 (dh_KdDebuggerDataBlock h) @ replicate 124 0 @ le32 (dh_NumberOfRuns h) @
     le32 (dh_ReservedRuns h) @ le64 (dh_NumberOfPages h) @ concat (map run64_bytes (dh_Runs h)) @
     replicate 3192 0 @ le32 (dh_DumpType h) @ replicate 116 0"

definition sizeof_DumpHeader64 :: nat where "sizeof_DumpHeader64 = 4096"

section \<open>The class\<close>

record 's ZdmpWriter =
  zw_sys :: 's
  zw_file :: u64
  zw_runs :: "MemoryRun list"
  zw_runFileOffsets :: "u64 list"
  zw_hints :: KernelHints
  zw_metadata :: EvidenceMetadata
  zw_totalPhysicalBytes :: u64
  zw_lastError :: u32

definition ZdmpWriter_init :: "'s \<Rightarrow> 's ZdmpWriter" where
  "ZdmpWriter_init s = \<lparr> zw_sys = s, zw_file = INVALID_HANDLE_VALUE, zw_runs = [],
     zw_runFileOffsets = [], zw_hints = KernelHints_default, zw_metadata = EvidenceMetadata_default,
     zw_totalPhysicalBytes = 0, zw_lastError = ERROR_SUCCESS \<rparr>"

text \<open>The offsets loop of \<open>Configure\<close>.\<close>

fun run_file_offsets :: "u64 \<Rightarrow> MemoryRun list \<Rightarrow> u64 list" where
  "run_file_offsets currentOffset [] = []"
| "run_file_offsets currentOffset (run # runs) =
     currentOffset # run_file_offsets (currentOffset + mr_length run) runs"

definition ZdmpWriter_Configure ::
  "MemoryRun list \<Rightarrow> KernelHints \<Rightarrow> EvidenceMetadata \<Rightarrow> 's ZdmpWriter \<Rightarrow> 's ZdmpWriter" where
  "ZdmpWriter_Configure runs hints metadata w =
     w\<lparr> zw_runs := runs, zw_hints := hints, zw_metadata := metadata,
        zw_runFileOffsets := run_file_offsets (of_nat sizeof_DumpHeader64) runs \<rparr>"

definition zdmp_reset_file :: "'s win32 \<Rightarrow> u64 \<Rightarrow> 's ZdmpWriter \<Rightarrow> 's ZdmpWriter" where
  "zdmp_reset_file api replacement w =
     w\<lparr> zw_sys := handle_reset api (zw_file w) (zw_sys w), zw_file := replacement \<rparr>"

definition zdmp_fail :: "'s win32 \<Rightarrow> 's ZdmpWriter \<Rightarrow> bool \<times> 's ZdmpWriter" where
  "zdmp_fail api w = (False, w\<lparr> zw_lastError := w_GetLastError api (zw_sys w) \<rparr>)"

text \<open>The header \<open>PreflightAndOpen\<close> fills in.\<close>

definition zdmp_header :: "MemoryRun list \<Rightarrow> KernelHints \<Rightarrow> u64 \<Rightarrow> DumpHeader64" where
  "zdmp_header runs hints expectedPhysicalBytes =
     DumpHeader64_default\<lparr>
       dh_MinorVersion := (if kh_buildNumber hints \<noteq> 0 then kh_buildNumber hints else 22631),
       dh_DirectoryTableBase := kh_directoryTableBase hints,
       dh_NumberProcessors :=
         (if kh_numberOfProcessors hints \<noteq> 0 then kh_numberOfProcessors hints else 1),
       dh_PsLoadedModuleList := (if kh_kernelBase hints \<noteq> 0 then kh_kernelBase hints else 0),
       dh_NumberOfRuns := of_nat (min (length runs) 32),
       dh_NumberOfPages := expectedPhysicalBytes div 4096,
       dh_Runs := map (\<lambda>r. \<lparr> pr_BasePage = mr_base r div 4096, pr_PageCount = mr_length r div 4096 \<rparr>)
                    (take 32 runs) @
                  replicate (32 - length runs) \<lparr> pr_BasePage = 0, pr_PageCount = 0 \<rparr> \<rparr>"

definition ZdmpWriter_PreflightAndOpen ::
  "'s win32 \<Rightarrow> wstring \<Rightarrow> u64 \<Rightarrow> u64 \<Rightarrow> 's ZdmpWriter \<Rightarrow> bool \<times> 's ZdmpWriter" where
  "ZdmpWriter_PreflightAndOpen api partialPath logicalSize expectedPhysicalBytes w =
     (let w = w\<lparr> zw_totalPhysicalBytes := expectedPhysicalBytes \<rparr> in
      case w_CreateFileW api partialPath (GENERIC_READ OR GENERIC_WRITE) CREATE_ALWAYS (zw_sys w) of
        (h, s) \<Rightarrow>
          (let w = zdmp_reset_file api h (w\<lparr> zw_sys := s \<rparr>) in
           if h = INVALID_HANDLE_VALUE then zdmp_fail api w
           else
             (case w_WriteFile api h
                     (header_bytes (zdmp_header (zw_runs w) (zw_hints w) expectedPhysicalBytes)) (zw_sys w) of
                (ok, written, s) \<Rightarrow>
                  (let w = w\<lparr> zw_sys := s \<rparr> in
                   if \<not> ok \<or> unat written \<noteq> sizeof_DumpHeader64 then zdmp_fail api w
                   else (True, w)))))"

text \<open>The loop of \<open>CalculateFileOffset\<close>; the end of a run is computed with wrap-around.\<close>

fun find_file_offset :: "MemoryRun list \<Rightarrow> u64 list \<Rightarrow> u64 \<Rightarrow> u64" where
  "find_file_offset (run # runs) (fileOffset # offsets) physicalAddress =
     (if physicalAddress \<ge> mr_base run \<and> physicalAddress < mr_base run + mr_length run
      then fileOffset + (physicalAddress - mr_base run)
      else find_file_offset runs offsets physicalAddress)"
| "find_file_offset _ _ physicalAddress = of_nat sizeof_DumpHeader64"

definition CalculateFileOffset :: "'s ZdmpWriter \<Rightarrow> u64 \<Rightarrow> u64" where
  "CalculateFileOffset w physicalAddress =
     find_file_offset (zw_runs w) (zw_runFileOffsets w) physicalAddress"

text \<open>The write loop: chunks of at most \<open>MAXDWORD\<close> bytes, each to be written in full.\<close>

function zdmp_write_loop :: "'s win32 \<Rightarrow> u64 \<Rightarrow> bytes \<Rightarrow> 's \<Rightarrow> bool \<times> 's" where
  "zdmp_write_loop api h xs s =
     (if xs \<noteq> []
      then
        (let chunkSize = min (length xs) 4294967295
         in case w_WriteFile api h (take chunkSize xs) s of
              (ok, written, s) \<Rightarrow>
                if \<not> ok \<or> unat written \<noteq> chunkSize then (False, s)
                else zdmp_write_loop api h (drop (unat written) xs) s)
      else (True, s))"
  by pat_completeness auto

termination
  by (relation "measure (\<lambda>(api, h, xs, s). length xs)") auto

declare zdmp_write_loop.simps [simp del]

definition ZdmpWriter_WriteAt ::
  "'s win32 \<Rightarrow> u64 \<Rightarrow> bytes \<Rightarrow> 's ZdmpWriter \<Rightarrow> bool \<times> 's ZdmpWriter" where
  "ZdmpWriter_WriteAt api offset data w =
     (if zw_file w = INVALID_HANDLE_VALUE \<or> data = [] then (False, w)
      else
        (case w_SetFilePointerEx api (zw_file w) (CalculateFileOffset w offset) (zw_sys w) of
           (False, s) \<Rightarrow> zdmp_fail api (w\<lparr> zw_sys := s \<rparr>)
         | (True, s) \<Rightarrow>
             (case zdmp_write_loop api (zw_file w) data s of
                (False, s) \<Rightarrow> zdmp_fail api (w\<lparr> zw_sys := s \<rparr>)
              | (True, s) \<Rightarrow> (True, w\<lparr> zw_sys := s \<rparr>))))"

definition ZdmpWriter_FlushAndClose :: "'s win32 \<Rightarrow> 's ZdmpWriter \<Rightarrow> bool \<times> 's ZdmpWriter" where
  "ZdmpWriter_FlushAndClose api w =
     (if zw_file w = INVALID_HANDLE_VALUE then (True, w)
      else
        (case w_FlushFileBuffers api (zw_file w) (zw_sys w) of
           (False, s) \<Rightarrow>
             (False, zdmp_reset_file api INVALID_HANDLE_VALUE
                       (w\<lparr> zw_sys := s, zw_lastError := w_GetLastError api s \<rparr>))
         | (True, s) \<Rightarrow> (True, zdmp_reset_file api INVALID_HANDLE_VALUE (w\<lparr> zw_sys := s \<rparr>))))"

definition ZdmpWriter_Close :: "'s win32 \<Rightarrow> 's ZdmpWriter \<Rightarrow> 's ZdmpWriter" where
  "ZdmpWriter_Close api w = zdmp_reset_file api INVALID_HANDLE_VALUE w"

definition ZdmpWriter_class :: "'s win32 \<Rightarrow> 's ZdmpWriter IRawWriter" where
  "ZdmpWriter_class api = \<lparr> wr_Configure = ZdmpWriter_Configure,
     wr_PreflightAndOpen = ZdmpWriter_PreflightAndOpen api, wr_WriteAt = ZdmpWriter_WriteAt api,
     wr_FlushAndClose = ZdmpWriter_FlushAndClose api, wr_Close = ZdmpWriter_Close api,
     wr_IsSparse = (\<lambda>w. False), wr_LastError = zw_lastError \<rparr>"

section \<open>The layout\<close>

lemma length_run64_bytes [simp]: "length (run64_bytes r) = 16"
  by (simp add: run64_bytes_def)

lemma length_version_user [simp]: "length version_user = 32"
  by (simp add: version_user_def ascii_def)

lemma length_header_bytes:
  "length (dh_VersionUser h) = 32 \<Longrightarrow> length (dh_Runs h) = 32 \<Longrightarrow> length (header_bytes h) = 4096"
  by (simp add: header_bytes_def length_concat_const [of _ run64_bytes 16])

lemma zdmp_header_shape [simp]:
  "length (dh_VersionUser (zdmp_header runs hints n)) = 32"
  "length (dh_Runs (zdmp_header runs hints n)) = 32"
  by (simp_all add: zdmp_header_def DumpHeader64_default_def min_def)

text \<open>The offsets of the fields a dump reader looks at.\<close>

lemma header_fields:
  assumes "length (dh_VersionUser h) = 32"
  shows "u32_at (header_bytes h) 0 = dh_Signature h"
    and "u32_at (header_bytes h) 4 = dh_ValidDump h"
    and "u64_at (header_bytes h) 16 = dh_DirectoryTableBase h"
    and "u32_at (header_bytes h) 256 = dh_NumberOfRuns h"
    and "u64_at (header_bytes h) 264 = dh_NumberOfPages h"
  using assms by (simp_all add: header_bytes_def u32_at_skip u64_at_skip)

lemma header_run_fields:
  assumes "length (dh_VersionUser h) = 32" and "i < length (dh_Runs h)"
  shows "u64_at (header_bytes h) (272 + 16 * i) = pr_BasePage (dh_Runs h ! i)"
    and "u64_at (header_bytes h) (280 + 16 * i) = pr_PageCount (dh_Runs h ! i)"
proof -
  obtain rest where tail: "drop 272 (header_bytes h) = concat (map run64_bytes (dh_Runs h)) @ rest"
    using assms(1) by (simp add: header_bytes_def)
  have d: "drop (272 + 16 * i) (header_bytes h) =
      run64_bytes (dh_Runs h ! i) @ concat (map run64_bytes (drop (Suc i) (dh_Runs h))) @ rest"
  proof -
    have "drop (272 + 16 * i) (header_bytes h) = drop (16 * i) (drop 272 (header_bytes h))"
      by (simp add: add.commute)
    also have "\<dots> = drop (16 * i) (concat (map run64_bytes (dh_Runs h))) @ rest"
      using assms(2) by (simp add: tail length_concat_const [of _ run64_bytes 16])
    finally show ?thesis
      using drop_concat_const [of "dh_Runs h" run64_bytes 16 i] assms(2) by simp
  qed
  show "u64_at (header_bytes h) (272 + 16 * i) = pr_BasePage (dh_Runs h ! i)"
    by (simp add: u64_at_def field_def d run64_bytes_def)
  have "drop (280 + 16 * i) (header_bytes h) = drop 8 (drop (272 + 16 * i) (header_bytes h))"
    by (simp add: add.commute)
  then show "u64_at (header_bytes h) (280 + 16 * i) = pr_PageCount (dh_Runs h ! i)"
    by (simp add: u64_at_def field_def d run64_bytes_def)
qed

section \<open>Where an address goes\<close>

text \<open>The position of a physical address in the dump, over unbounded numbers.\<close>

fun dump_pos :: "nat \<Rightarrow> MemoryRun list \<Rightarrow> nat \<Rightarrow> nat" where
  "dump_pos off [] a = off"
| "dump_pos off (r # rs) a =
     (if a \<in> run_addresses r then off + (a - unat (mr_base r))
      else dump_pos (off + unat (mr_length r)) rs a)"

definition ranges_of :: "MemoryRun list \<Rightarrow> nat set" where
  "ranges_of rs = (\<Union>r \<in> set rs. run_addresses r)"

lemma ranges_of_simps [simp]: "ranges_of [] = {}" "ranges_of (r # rs) = run_addresses r \<union> ranges_of rs"
  by (simp_all add: ranges_of_def)

lemma runs_ordered_Cons_le:
  "runs_ordered (r # rs) \<Longrightarrow> a \<in> ranges_of rs \<Longrightarrow> run_end r \<le> a"
proof (induction rs arbitrary: r)
  case (Cons r' rs)
  have "run_end r \<le> unat (mr_base r')" and ord: "runs_ordered (r' # rs)"
    using Cons.prems(1) by (simp_all add: run_end_def)
  then have "a \<in> run_addresses r' \<Longrightarrow> run_end r \<le> a" "run_end r \<le> run_end r'"
    by (auto simp: run_addresses_def run_end_def)
  then show ?case using Cons.IH [OF ord] Cons.prems(2) by auto
qed simp

lemma dump_pos_bounds:
  "a \<in> ranges_of rs \<Longrightarrow> off \<le> dump_pos off rs a \<and> dump_pos off rs a < off + runs_total rs"
proof (induction rs arbitrary: off)
  case (Cons r rs)
  show ?case
  proof (cases "a \<in> run_addresses r")
    case True
    then show ?thesis by (auto simp: run_addresses_def)
  next
    case False
    then have "a \<in> ranges_of rs" using Cons.prems by simp
    from Cons.IH [OF this, of "off + unat (mr_length r)"] False show ?thesis by simp
  qed
qed simp

text \<open>Physical order is file order: in particular no two addresses share a position.\<close>

lemma dump_pos_strict_mono:
  "runs_ordered rs \<Longrightarrow> a \<in> ranges_of rs \<Longrightarrow> b \<in> ranges_of rs \<Longrightarrow> a < b \<Longrightarrow>
   dump_pos off rs a < dump_pos off rs b"
proof (induction rs arbitrary: off)
  case (Cons r rs)
  note tail = runs_ordered_Cons_le [OF Cons.prems(1)]
  show ?case
  proof (cases "a \<in> run_addresses r")
    case a: True
    show ?thesis
    proof (cases "b \<in> run_addresses r")
      case True
      then show ?thesis using a Cons.prems(4) by (auto simp: run_addresses_def)
    next
      case False
      then have "b \<in> ranges_of rs" using Cons.prems(3) by simp
      from dump_pos_bounds [OF this, of "off + unat (mr_length r)"] show ?thesis
        using a False by (auto simp: run_addresses_def)
    qed
  next
    case a: False
    then have ar: "a \<in> ranges_of rs" using Cons.prems(2) by simp
    then have "b \<notin> run_addresses r"
      using tail [OF ar] Cons.prems(4) by (auto simp: run_addresses_def run_end_def)
    then show ?thesis
      using Cons.IH [OF runs_ordered_tail [OF Cons.prems(1)] ar _ Cons.prems(4)] a Cons.prems(3) by simp
  qed
qed simp

lemma dump_pos_inj:
  assumes "runs_ordered rs" and "a \<in> ranges_of rs" and "b \<in> ranges_of rs"
    and "dump_pos off rs a = dump_pos off rs b"
  shows "a = b"
  using dump_pos_strict_mono [OF assms(1,2,3), of off] dump_pos_strict_mono [OF assms(1,3,2), of off]
    assms(4) by (metis less_irrefl linorder_less_linear)

lemma dump_pos_consecutive:
  assumes "runs_ordered rs" and "run \<in> set rs" and "a \<in> run_addresses run" and "a + j \<in> run_addresses run"
  shows "dump_pos off rs (a + j) = dump_pos off rs a + j"
  using assms
proof (induction rs arbitrary: off)
  case (Cons r rs)
  show ?case
  proof (cases "run = r")
    case True
    then show ?thesis using Cons.prems(3,4) by (auto simp: run_addresses_def)
  next
    case False
    then have run: "run \<in> set rs" using Cons.prems(2) by simp
    then have "a \<in> ranges_of rs" "a + j \<in> ranges_of rs"
      using Cons.prems(3,4) by (auto simp: ranges_of_def)
    then have "a \<notin> run_addresses r" "a + j \<notin> run_addresses r"
      using runs_ordered_Cons_le [OF Cons.prems(1)] by (fastforce simp: run_addresses_def run_end_def)+
    then show ?thesis
      using Cons.IH [OF runs_ordered_tail [OF Cons.prems(1)] run Cons.prems(3,4)] by simp
  qed
qed simp

text \<open>The machine arithmetic of the writer computes this position.\<close>

lemma run_test:
  assumes "run_ok run"
  shows "(p \<ge> mr_base run \<and> p < mr_base run + mr_length run) \<longleftrightarrow> unat p \<in> run_addresses run"
proof -
  have "unat (mr_base run + mr_length run) = unat (mr_base run) + unat (mr_length run)"
    using assms by (intro unat_add_u64) (simp add: run_ok_def)
  then show ?thesis by (auto simp: run_addresses_def word_le_nat_alt word_less_nat_alt)
qed

lemma find_file_offset_pos:
  assumes "\<And>r. r \<in> set rs \<Longrightarrow> run_ok r" and "unat off + runs_total rs < 2 ^ 64"
    and "unat p \<in> ranges_of rs"
  shows "unat (find_file_offset rs (run_file_offsets off rs) p) = dump_pos (unat off) rs (unat p)"
  using assms
proof (induction rs arbitrary: off)
  case (Cons r rs)
  have ok: "run_ok r" using Cons.prems(1) by simp
  show ?case
  proof (cases "unat p \<in> run_addresses r")
    case True
    then have le: "mr_base r \<le> p" "unat p - unat (mr_base r) < unat (mr_length r)"
      by (auto simp: run_addresses_def word_le_nat_alt)
    then have "unat (off + (p - mr_base r)) = unat off + (unat p - unat (mr_base r))"
      using Cons.prems(2) by (subst unat_add_u64) (simp_all add: unat_diff_u64)
    then show ?thesis using True run_test [OF ok, of p] by simp
  next
    case False
    have "unat (off + mr_length r) = unat off + unat (mr_length r)"
      using Cons.prems(2) by (intro unat_add_u64) simp
    moreover from this have "unat (find_file_offset rs (run_file_offsets (off + mr_length r) rs) p) =
        dump_pos (unat (off + mr_length r)) rs (unat p)"
      using Cons.prems False by (intro Cons.IH) simp_all
    ultimately show ?thesis using False run_test [OF ok, of p] by auto
  qed
qed simp

section \<open>What the writer does to files\<close>

definition zdmp_at ::
  "('s \<Rightarrow> wstring \<Rightarrow> bytes option) \<Rightarrow> ('s \<Rightarrow> u64 \<Rightarrow> (wstring \<times> nat) option) \<Rightarrow> 's ZdmpWriter \<Rightarrow>
   wstring \<Rightarrow> bytes \<Rightarrow> bool" where
  "zdmp_at files opened w p c \<longleftrightarrow>
     zw_file w \<noteq> INVALID_HANDLE_VALUE \<and> zw_file w \<noteq> 0 \<and>
     (\<exists>pos. opened (zw_sys w) (zw_file w) = Some (p, pos)) \<and> files (zw_sys w) p = Some c"

text \<open>The content of a dump that holds the addresses \<open>A\<close>: the header, every byte of \<open>A\<close> at its
  position, and zeros wherever nothing of \<open>A\<close> goes.\<close>

definition dump_content :: "(nat \<Rightarrow> u8) \<Rightarrow> MemoryRun list \<Rightarrow> bytes \<Rightarrow> nat set \<Rightarrow> bytes \<Rightarrow> bool" where
  "dump_content mem rs hdr A c \<longleftrightarrow>
     A \<subseteq> ranges_of rs \<and> 4096 \<le> length c \<and> take 4096 c = hdr \<and>
     (\<forall>a \<in> A. dump_pos 4096 rs a < length c \<and> c ! dump_pos 4096 rs a = mem a) \<and>
     (\<forall>j. 4096 \<le> j \<longrightarrow> j < length c \<longrightarrow> j \<notin> dump_pos 4096 rs ` A \<longrightarrow> c ! j = 0)"

lemma nth_overlay:
  "i < length (overlay c n xs) \<Longrightarrow> overlay c n xs ! i =
    (if n \<le> i \<and> i < n + length xs then xs ! (i - n) else if i < length c then c ! i else 0)"
  by (auto simp: overlay_def nth_append min_def)

lemma dump_content_write:
  assumes "dump_content mem rs hdr A c" and "runs_ordered rs" and "run \<in> set rs"
    and "{p ..< p + length xs} \<subseteq> run_addresses run" and "xs \<noteq> []"
    and "\<And>j. j < length xs \<Longrightarrow> xs ! j = mem (p + j)"
  shows "dump_content mem rs hdr (A \<union> {p ..< p + length xs}) (overlay c (dump_pos 4096 rs p) xs)"
proof -
  let ?q = "dump_pos 4096 rs p" and ?B = "{p ..< p + length xs}"
  have pin: "p \<in> run_addresses run" using assms(4,5) by auto
  have sub: "?B \<subseteq> ranges_of rs" using assms(3,4) by (auto simp: ranges_of_def)
  have "p \<in> ranges_of rs" using pin assms(3) by (auto simp: ranges_of_def)
  then have q: "4096 \<le> ?q" using dump_pos_bounds [of p rs 4096] by simp
  have pos: "dump_pos 4096 rs (p + j) = ?q + j" if "j < length xs" for j
    using dump_pos_consecutive [OF assms(2,3) pin, of j 4096] subsetD [OF assms(4), of "p + j"] that
    by simp
  have image: "dump_pos 4096 rs ` ?B = {?q ..< ?q + length xs}"
  proof
    show "dump_pos 4096 rs ` ?B \<subseteq> {?q ..< ?q + length xs}"
      using pos by (fastforce dest: le_Suc_ex)
    show "{?q ..< ?q + length xs} \<subseteq> dump_pos 4096 rs ` ?B"
    proof
      fix i assume "i \<in> {?q ..< ?q + length xs}"
      then obtain j where "i = ?q + j" "j < length xs" by (auto simp: le_iff_add)
      then have "i = dump_pos 4096 rs (p + j)" "p + j \<in> ?B"
        using pos [of j] by simp_all
      then show "i \<in> dump_pos 4096 rs ` ?B" by blast
    qed
  qed
  have old: "A \<subseteq> ranges_of rs" "4096 \<le> length c" "take 4096 c = hdr"
    and oldA: "\<And>a. a \<in> A \<Longrightarrow> dump_pos 4096 rs a < length c \<and> c ! dump_pos 4096 rs a = mem a"
    and oldz: "\<And>j. 4096 \<le> j \<Longrightarrow> j < length c \<Longrightarrow> j \<notin> dump_pos 4096 rs ` A \<Longrightarrow> c ! j = 0"
    using assms(1) by (auto simp: dump_content_def)
  have newB: "overlay c ?q xs ! dump_pos 4096 rs a = mem a" "dump_pos 4096 rs a < length (overlay c ?q xs)"
    if "a \<in> ?B" for a
  proof -
    obtain j where "a = p + j" "j < length xs" using \<open>a \<in> ?B\<close> by (auto dest: le_Suc_ex)
    then show "overlay c ?q xs ! dump_pos 4096 rs a = mem a" "dump_pos 4096 rs a < length (overlay c ?q xs)"
      using pos [of j] assms(6) [of j] by (simp_all add: nth_overlay)
  qed
  have newA: "overlay c ?q xs ! dump_pos 4096 rs a = mem a" if "a \<in> A" "a \<notin> ?B" for a
  proof -
    have "dump_pos 4096 rs a \<notin> dump_pos 4096 rs ` ?B"
    proof
      assume "dump_pos 4096 rs a \<in> dump_pos 4096 rs ` ?B"
      then obtain b where b: "b \<in> ?B" "dump_pos 4096 rs a = dump_pos 4096 rs b" by blast
      have "a = b"
        by (rule dump_pos_inj [OF assms(2) _ _ b(2)]) (use that(1) old(1) sub b(1) in blast)+
      then show False using that(2) b(1) by blast
    qed
    then have "dump_pos 4096 rs a \<notin> {?q ..< ?q + length xs}" unfolding image .
    then show ?thesis using oldA [OF that(1)] by (auto simp: nth_overlay)
  qed
  have "take 4096 (overlay c ?q xs) = hdr"
    using old q by (simp add: overlay_def min_def)
  moreover have "overlay c ?q xs ! j = 0"
    if "4096 \<le> j" "j < length (overlay c ?q xs)" "j \<notin> dump_pos 4096 rs ` (A \<union> ?B)" for j
    using oldz [of j] that by (auto simp: nth_overlay image image_Un)
  moreover have "dump_pos 4096 rs a < length (overlay c ?q xs) \<and>
      overlay c ?q xs ! dump_pos 4096 rs a = mem a" if "a \<in> A \<union> ?B" for a
  proof (cases "a \<in> ?B")
    case True
    then show ?thesis using newB by blast
  next
    case False
    then have "a \<in> A" using that by blast
    then show ?thesis using newA [OF _ False] oldA [of a] by (simp add: less_max_iff_disj)
  qed
  ultimately show ?thesis
    using old(1,2) sub unfolding dump_content_def by simp
qed

definition zdmp_holds ::
  "('s \<Rightarrow> wstring \<Rightarrow> bytes option) \<Rightarrow> ('s \<Rightarrow> u64 \<Rightarrow> (wstring \<times> nat) option) \<Rightarrow> (nat \<Rightarrow> u8) \<Rightarrow>
   MemoryRun list \<Rightarrow> bytes \<Rightarrow> wstring \<Rightarrow> nat set \<Rightarrow> 's ZdmpWriter \<Rightarrow> bool" where
  "zdmp_holds files opened mem rs hdr p A w \<longleftrightarrow>
     zw_runs w = rs \<and> zw_runFileOffsets w = run_file_offsets 4096 rs \<and>
     (\<exists>c. zdmp_at files opened w p c \<and> dump_content mem rs hdr A c)"

lemma zdmp_reset_closed:
  "zw_file w = INVALID_HANDLE_VALUE \<Longrightarrow> zdmp_reset_file api h w = w\<lparr> zw_file := h \<rparr>"
  by (cases w) (simp add: zdmp_reset_file_def handle_reset_def)

context win32_files
begin

lemma zdmp_write_loop_ok:
  assumes "zdmp_write_loop api h xs s = (True, s')"
    and "opened s h = Some (p, pos)" and "files s p = Some c"
  shows "files s' = (files s)(p \<mapsto> file_write c pos xs)
    \<and> (\<exists>pos'. opened s' = (opened s)(h \<mapsto> (p, pos')))"
  using assms
proof (induction "length xs" arbitrary: xs s c pos rule: less_induct)
  case less
  show ?case
  proof (cases "xs = []")
    case True
    then have "s' = s" using less.prems(1) by (simp add: zdmp_write_loop.simps [of api])
    moreover have "opened s = (opened s)(h \<mapsto> (p, pos))"
      using less.prems(2) by (simp add: fun_upd_idem)
    moreover have "files s = (files s)(p \<mapsto> file_write c pos xs)"
      using True less.prems(3) by (simp add: file_write_def fun_upd_idem)
    ultimately show ?thesis by metis
  next
    case False
    let ?n = "min (length xs) 4294967295"
    obtain ok m t where w: "w_WriteFile api h (take ?n xs) s = (ok, m, t)" by (metis prod.collapse)
    have m: "ok" "unat m = ?n" and rest: "zdmp_write_loop api h (drop ?n xs) t = (True, s')"
      using less.prems(1) False w by (auto simp: zdmp_write_loop.simps [of api h xs s] split: if_splits)
    have t: "files t = (files s)(p \<mapsto> file_write c pos (take ?n xs))" "opened t = (opened s)(h \<mapsto> (p, pos + ?n))"
      using write_ok [OF _ less.prems(2,3)] w m by fastforce+
    have "length (drop ?n xs) < length xs" using False by simp
    from less.hyps [OF this rest, of "pos + ?n" "file_write c pos (take ?n xs)"] t
    have "files s' = (files s)(p \<mapsto> file_write (file_write c pos (take ?n xs)) (pos + ?n) (drop ?n xs))"
      and o: "\<exists>pos'. opened s' = (opened s)(h \<mapsto> (p, pos'))"
      by auto
    moreover have "take ?n xs \<noteq> []" "length (take ?n xs) = ?n" using False by auto
    ultimately show ?thesis
      using file_write_append [of "take ?n xs" c pos "drop ?n xs"] by auto
  qed
qed

lemma zdmp_write_loop_only:
  assumes "zdmp_write_loop api h xs s = (ok, s')"
    and "opened s h = Some (p, pos)" and "files s p \<noteq> None"
  shows "only_file files p s s' \<and> files s' p \<noteq> None \<and> (\<exists>pos'. opened s' = (opened s)(h \<mapsto> (p, pos')))"
  using assms
proof (induction "length xs" arbitrary: xs s pos rule: less_induct)
  case less
  show ?case
  proof (cases "xs = []")
    case True
    then have "s' = s" using less.prems(1) by (simp add: zdmp_write_loop.simps [of api])
    moreover have "opened s = (opened s)(h \<mapsto> (p, pos))"
      using less.prems(2) by (simp add: fun_upd_idem)
    ultimately show ?thesis using less.prems(3) by (metis only_file_refl)
  next
    case False
    let ?n = "min (length xs) 4294967295"
    obtain b m t where w: "w_WriteFile api h (take ?n xs) s = (b, m, t)" by (metis prod.collapse)
    obtain c where "files s p = Some c" using less.prems(3) by auto
    from write_only [OF w less.prems(2) this]
    obtain pos' where t: "only_file files p s t" "files t p \<noteq> None" "opened t = (opened s)(h \<mapsto> (p, pos'))"
      by auto
    show ?thesis
    proof (cases "b \<and> unat m = ?n")
      case True
      then have rest: "zdmp_write_loop api h (drop ?n xs) t = (ok, s')"
        using less.prems(1) False w by (auto simp: zdmp_write_loop.simps [of api h xs s])
      have "length (drop ?n xs) < length xs" using False by simp
      from less.hyps [OF this rest, of pos'] t show ?thesis
        by (auto intro: only_file_trans)
    next
      case fail: False
      then have "s' = t"
        using less.prems(1) False w by (auto simp: zdmp_write_loop.simps [of api h xs s] split: if_splits)
      then show ?thesis using t by auto
    qed
  qed
qed

lemma zdmp_reset_view:
  "files (zw_sys (zdmp_reset_file api r w)) = files (zw_sys w)"
  "zw_file (zdmp_reset_file api r w) = r"
  "zw_runs (zdmp_reset_file api r w) = zw_runs w"
  "zw_runFileOffsets (zdmp_reset_file api r w) = zw_runFileOffsets w"
  "zw_hints (zdmp_reset_file api r w) = zw_hints w"
  by (simp_all add: zdmp_reset_file_def handle_reset_view)

text \<open>Opening: on success the file holds the header and nothing else.\<close>

lemma ZdmpWriter_open_files:
  assumes "ZdmpWriter_PreflightAndOpen api p n phys w = (ok, w')"
    and "zw_file w = INVALID_HANDLE_VALUE"
  shows "only_file files p (zw_sys w) (zw_sys w')"
    and "ok \<Longrightarrow> zdmp_at files opened w' p (header_bytes (zdmp_header (zw_runs w) (zw_hints w) phys))"
    and "zw_runs w' = zw_runs w" and "zw_runFileOffsets w' = zw_runFileOffsets w"
proof -
  let ?hdr = "header_bytes (zdmp_header (zw_runs w) (zw_hints w) phys)"
  obtain h s1 where c: "w_CreateFileW api p (GENERIC_READ OR GENERIC_WRITE) CREATE_ALWAYS (zw_sys w) = (h, s1)"
    by fastforce
  obtain b m s2 where wr: "w_WriteFile api h ?hdr s1 = (b, m, s2)" by (metis prod.collapse)
  have only1: "only_file files p (zw_sys w) s1" using create_only [OF c] by simp
  have eq: "(ok, w') = (if h = INVALID_HANDLE_VALUE
       then zdmp_fail api (w\<lparr> zw_totalPhysicalBytes := phys, zw_sys := s1, zw_file := h \<rparr>)
       else if \<not> b \<or> unat m \<noteq> 4096
       then zdmp_fail api (w\<lparr> zw_totalPhysicalBytes := phys, zw_file := h, zw_sys := s2 \<rparr>)
       else (True, w\<lparr> zw_totalPhysicalBytes := phys, zw_file := h, zw_sys := s2 \<rparr>))"
    using assms(1) by (simp add: ZdmpWriter_PreflightAndOpen_def Let_def zdmp_reset_closed assms(2) c wr
        sizeof_DumpHeader64_def cong: if_cong split: if_splits)
  show "zw_runs w' = zw_runs w" "zw_runFileOffsets w' = zw_runFileOffsets w"
    using eq by (auto simp: zdmp_fail_def split: if_splits)
  have "only_file files p (zw_sys w) (zw_sys w') \<and> (ok \<longrightarrow> zdmp_at files opened w' p ?hdr)"
  proof (cases "h = INVALID_HANDLE_VALUE")
    case True
    then show ?thesis using eq only1 by (auto simp: zdmp_fail_def)
  next
    case False
    have h: "h \<noteq> 0" "files s1 p = Some []" "opened s1 h = Some (p, 0)"
      using create_always [OF c False] by simp_all
    have only2: "only_file files p (zw_sys w) s2" "files s2 p \<noteq> None"
      using write_only [OF wr h(3,2)] only1 by (auto intro: only_file_trans)
    have "files s2 p = Some ?hdr \<and> (\<exists>pos. opened s2 h = Some (p, pos))" if "b" "unat m = 4096"
      using write_ok [of h ?hdr s1 m s2 p 0 "[]"] wr that h
      by (simp add: file_write_def overlay_def length_header_bytes)
    then show ?thesis
      using eq False only2 h by (auto simp: zdmp_fail_def zdmp_at_def split: if_splits)
  qed
  then show "only_file files p (zw_sys w) (zw_sys w')" and "ok \<Longrightarrow> zdmp_at files opened w' p ?hdr"
    by simp_all
qed

lemma ZdmpWriter_WriteAt_only:
  assumes "ZdmpWriter_WriteAt api off xs w = (ok, w')"
    and "opened (zw_sys w) (zw_file w) = Some (p, pos)" and "files (zw_sys w) p \<noteq> None"
  shows "only_file files p (zw_sys w) (zw_sys w')" and "files (zw_sys w') p \<noteq> None"
    and "zw_file w' = zw_file w" and "\<exists>pos. opened (zw_sys w') (zw_file w') = Some (p, pos)"
    and "zw_runs w' = zw_runs w \<and> zw_runFileOffsets w' = zw_runFileOffsets w"
proof -
  obtain b s where po: "w_SetFilePointerEx api (zw_file w) (CalculateFileOffset w off) (zw_sys w) = (b, s)"
    by fastforce
  obtain d t where wl: "zdmp_write_loop api (zw_file w) xs s = (d, t)" by fastforce
  obtain pos' where s: "files s = files (zw_sys w)" "opened s (zw_file w) = Some (p, pos')"
    using pointer_only [OF po assms(2)] by auto
  have t: "only_file files p s t" "files t p \<noteq> None" "\<exists>pos. opened t (zw_file w) = Some (p, pos)"
    using zdmp_write_loop_only [OF wl s(2)] s(1) assms(3) by auto
  have all: "only_file files p (zw_sys w) (zw_sys w') \<and> files (zw_sys w') p \<noteq> None \<and> zw_file w' = zw_file w \<and>
      (\<exists>pos. opened (zw_sys w') (zw_file w') = Some (p, pos)) \<and>
      zw_runs w' = zw_runs w \<and> zw_runFileOffsets w' = zw_runFileOffsets w"
    using assms po wl s t
    by (auto simp: ZdmpWriter_WriteAt_def zdmp_fail_def only_file_def split: if_splits bool.splits)
  then show "only_file files p (zw_sys w) (zw_sys w')" "files (zw_sys w') p \<noteq> None"
    "zw_file w' = zw_file w" "\<exists>pos. opened (zw_sys w') (zw_file w') = Some (p, pos)"
    "zw_runs w' = zw_runs w \<and> zw_runFileOffsets w' = zw_runFileOffsets w"
    by blast+
qed

lemma ZdmpWriter_WriteAt_holds:
  assumes "ZdmpWriter_WriteAt api off xs w = (True, w')"
    and "zdmp_holds files opened mem rs hdr p A w"
    and "runs_wf rs" and "4096 + runs_total rs < 2 ^ 64" and "run \<in> set rs"
    and "{unat off ..< unat off + length xs} \<subseteq> run_addresses run" and "xs \<noteq> []"
    and "\<And>j. j < length xs \<Longrightarrow> xs ! j = mem (unat off + j)"
  shows "zdmp_holds files opened mem rs hdr p (A \<union> {unat off ..< unat off + length xs}) w'"
proof -
  obtain c pos where at: "zw_file w \<noteq> INVALID_HANDLE_VALUE" "zw_file w \<noteq> 0"
      "opened (zw_sys w) (zw_file w) = Some (p, pos)" "files (zw_sys w) p = Some c"
    and cont: "dump_content mem rs hdr A c" and cfg: "zw_runs w = rs" "zw_runFileOffsets w = run_file_offsets 4096 rs"
    using assms(2) by (auto simp: zdmp_holds_def zdmp_at_def)
  obtain s t where po: "w_SetFilePointerEx api (zw_file w) (CalculateFileOffset w off) (zw_sys w) = (True, s)"
    and wl: "zdmp_write_loop api (zw_file w) xs s = (True, t)" and w': "w' = w\<lparr> zw_sys := t \<rparr>"
    using assms(1,7) at by (auto simp: ZdmpWriter_WriteAt_def zdmp_fail_def split: if_splits prod.splits bool.splits)
  have "unat off \<in> run_addresses run"
    using assms(6,7) by (auto dest: subsetD [of _ _ "unat off"])
  then have "unat off \<in> ranges_of rs" using assms(5) by (auto simp: ranges_of_def)
  then have pos: "unat (CalculateFileOffset w off) = dump_pos 4096 rs (unat off)"
    using find_file_offset_pos [of rs 4096 off] assms(3,4)
    by (simp add: CalculateFileOffset_def cfg runs_wf_def)
  have s: "files s = files (zw_sys w)" "opened s (zw_file w) = Some (p, dump_pos 4096 rs (unat off))"
    using pointer_ok [OF po at(3)] pos by simp_all
  have t: "files t p = Some (overlay c (dump_pos 4096 rs (unat off)) xs)"
      "\<exists>pos. opened t (zw_file w) = Some (p, pos)"
    using zdmp_write_loop_ok [OF wl s(2), of c] s(1) at(4) assms(7) by (auto simp: file_write_def)
  show ?thesis
    using dump_content_write [OF cont _ assms(5,6,7,8)] assms(3) t at cfg
    by (auto simp: zdmp_holds_def zdmp_at_def w' runs_wf_def)
qed

text \<open>Closing leaves the file as it is.\<close>

lemma ZdmpWriter_close_files:
  assumes "ZdmpWriter_FlushAndClose api w = (ok, w')"
  shows "files (zw_sys w') = files (zw_sys w)" and "zw_file w' = INVALID_HANDLE_VALUE"
proof -
  obtain b s where fl: "w_FlushFileBuffers api (zw_file w) (zw_sys w) = (b, s)" by fastforce
  have "files s = files (zw_sys w)" using flush_frame [OF fl] by simp
  then show "files (zw_sys w') = files (zw_sys w)" "zw_file w' = INVALID_HANDLE_VALUE"
    using assms fl
    by (auto simp: ZdmpWriter_FlushAndClose_def zdmp_reset_view split: if_splits bool.splits)
qed

end

end
