(* ===== verification/WriterTheorems.thy ===== *)
theory WriterTheorems
  imports MapReader Volume AcquireTheorems ZdmpWriter "HOL-Library.Code_Target_Nat"
begin

text \<open>
  The properties of the hasher, the raw writer, the crash-dump writer and the text artifacts on a
  Windows volume (\<open>cli/sha256.cpp\<close>, \<open>cli/raw_writer.cpp\<close>, \<open>cli/zdmp_writer.cpp\<close>, \<open>cli/map.cpp\<close>).
\<close>

section \<open>The hasher\<close>

text \<open>What a client feeds: bytes, or a number of zeros.\<close>

datatype piece = Bytes bytes | Zeros u64

fun feed :: "'c cng_api \<Rightarrow> piece \<Rightarrow> 'c Sha256 fallible" where
  "feed api (Bytes xs) = Sha256_Update api xs"
| "feed api (Zeros n) = Sha256_UpdateZeros api n"

fun piece_bytes :: "piece \<Rightarrow> bytes" where
  "piece_bytes (Bytes xs) = xs"
| "piece_bytes (Zeros n) = replicate (unat n) 0"

lemma feeds_absorb:
  assumes "cng api absorbed sha256_digest"
    and "all_ok (map (feed api) ps) h = (True, h')" and "sha_fed absorbed h = Some bs"
  shows "sha_fed absorbed h' = Some (bs @ concat (map piece_bytes ps))"
  using assms(2,3)
proof (induction ps arbitrary: h bs)
  case (Cons p ps)
  obtain h1 where 1: "feed api p h = (True, h1)" and rest: "all_ok (map (feed api) ps) h1 = (True, h')"
    using Cons.prems(1) by auto
  have "sha_fed absorbed h1 = Some (bs @ piece_bytes p)"
    using 1 Cons.prems(2) cng.Update_absorbs [OF assms(1)] cng.ZerosLoop_absorbs [OF assms(1)]
    by (cases p) (auto simp: Sha256_UpdateZeros_def split: if_splits)
  then show ?case using Cons.IH [OF rest] by simp
qed simp

text \<open>
  C20: Whatever the way a stream is cut into updates and runs of zeros, a hasher that reports success
  returns, in 64 lower-case hexadecimal digits, the SHA-256 digest of the whole stream: 16 MiB and
  1 MiB chunking leave nothing out, and the text can be turned back into the digest. The hash
  object is released.
\<close>

theorem sha256_stream_digest:
  assumes "cng api absorbed sha256_digest"
    and "all_ok (Sha256_Initialize api # map (feed api) ps) h = (True, h1)"
    and "Sha256_Finish api h1 = (True, hex, h2)"
  shows "unhex hex = Some (sha256_digest (concat (map piece_bytes ps))) \<and> IsSha256Hex hex \<and>
    \<not> sha_initialized h2 \<and> sha_hash h2 = 0 \<and> sha_algorithm h2 = 0"
proof -
  obtain h0 where h0: "Sha256_Initialize api h = (True, h0)" "all_ok (map (feed api) ps) h0 = (True, h1)"
    using assms(2) by auto
  have fed: "sha_fed absorbed h1 = Some (concat (map piece_bytes ps))"
    using feeds_absorb [OF assms(1) h0(2) cng.initialize_empty [OF assms(1) h0(1)]] by simp
  then have live: "sha_initialized h1" "absorbed (sha_sys h1) (sha_hash h1) = Some (concat (map piece_bytes ps))"
    by (auto simp: sha_fed_def split: if_splits)
  have hex: "hex = hex_of (sha256_digest (concat (map piece_bytes ps)))"
    using assms(3) live cng.finish_hash [OF assms(1) live(2)]
    by (auto simp: Sha256_Finish_def split: prod.splits if_splits)
  moreover have "length (sha256_digest (concat (map piece_bytes ps))) = 32"
    by (rule cng.digest_length [OF assms(1)])
  moreover have "\<not> sha_initialized h2" "sha_hash h2 = 0" "sha_algorithm h2 = 0"
    using assms(3) live(1)
    by (auto simp: Sha256_Finish_def Sha256_Reset_def Let_def split: prod.splits if_splits)
  ultimately show ?thesis
    by (simp add: unhex_hex_of IsSha256Hex_def hex_of_isxdigit)
qed

definition bench_hash :: "hash_system Sha256" where
  "bench_hash = Sha256_init \<lparr> hk_objects = [], hk_next = 1, hk_fails = False \<rparr>"

definition bench_pieces :: "piece list" where
  "bench_pieces = [Bytes [1, 2, 3], Zeros 2, Bytes [4]]"

lemma bench_hash_runs:
  "\<exists>h1 hex h2. all_ok (Sha256_Initialize hash_api # map (feed hash_api) bench_pieces) bench_hash = (True, h1) \<and>
     Sha256_Finish hash_api h1 = (True, hex, h2)"
  by (simp add: bench_pieces_def bench_hash_def Sha256_init_def Sha256_Initialize_def Sha256_Reset_def Let_def
      hash_api_def Sha256_Update_def Sha256_UpdateZeros_def Sha256_UpdateLoop.simps Sha256_ZerosLoop.simps
      kHashChunkBytes_def kZeros_def hk_absorbed_def Sha256_Finish_def all_ok_Cons nt_failed_def)

lemma sha256_stream_digest_witness:
  "\<exists>h1 hex h2. all_ok (Sha256_Initialize hash_api # map (feed hash_api) bench_pieces) bench_hash = (True, h1) \<and>
     Sha256_Finish hash_api h1 = (True, hex, h2) \<and>
     unhex hex = Some (some_digest (concat (map piece_bytes bench_pieces))) \<and> IsSha256Hex hex \<and>
     \<not> sha_initialized h2 \<and> sha_hash h2 = 0 \<and> sha_algorithm h2 = 0"
  using bench_hash_runs sha256_stream_digest [OF hash_system.cng_axioms] by blast

section \<open>The raw writer\<close>

definition raw_session ::
  "'s win32 \<Rightarrow> wstring \<Rightarrow> u64 \<Rightarrow> u64 \<Rightarrow> (u64 \<times> bytes) list \<Rightarrow> 's RawWriter fallible" where
  "raw_session api p lsize phys ws =
     all_ok ([RawWriter_PreflightAndOpen api p lsize phys] @
             map (\<lambda>(off, xs). RawWriter_WriteAt api off xs) ws @
             [RawWriter_FlushAndClose api])"

text \<open>The reference: an array of zeros, updated in place.\<close>

definition raw_reference :: "nat \<Rightarrow> (u64 \<times> bytes) list \<Rightarrow> bytes" where
  "raw_reference n ws = fold (\<lambda>(off, xs) c. overlay c (unat off) xs) ws (replicate n 0)"

context win32_files
begin

lemma raw_writes_at:
  assumes "all_ok (map (\<lambda>(off, xs). RawWriter_WriteAt api off xs) ws) w = (True, w')"
    and "raw_at files opened w p c"
  shows "raw_at files opened w' p (fold (\<lambda>(off, xs) c. overlay c (unat off) xs) ws c) \<and>
    (\<forall>(off, xs) \<in> set ws. unat off + length xs \<le> length c)"
  using assms
proof (induction ws arbitrary: w c)
  case (Cons x ws)
  obtain off xs where x: "x = (off, xs)" by fastforce
  obtain v where v: "RawWriter_WriteAt api off xs w = (True, v)"
    and rest: "all_ok (map (\<lambda>(off, xs). RawWriter_WriteAt api off xs) ws) v = (True, w')"
    using Cons.prems(1) by (auto simp: x)
  have step: "unat off + length xs \<le> length c" "raw_at files opened v p (overlay c (unat off) xs)"
    using WriteAt_ok [OF v Cons.prems(2)] by blast+
  then show ?case using Cons.IH [OF rest step(2)] by (simp add: x max_def)
qed simp

lemma raw_session_True:
  assumes "raw_session api p lsize phys ws w = (True, w')"
  shows "files (rw_sys w') p = Some (raw_reference (unat lsize) ws) \<and> files (rw_sys w) p = None \<and>
    (\<forall>(off, xs) \<in> set ws. unat off + length xs \<le> unat lsize) \<and> rw_file w' = INVALID_HANDLE_VALUE"
proof -
  obtain v u where op: "RawWriter_PreflightAndOpen api p lsize phys w = (True, v)"
    and wr: "all_ok (map (\<lambda>(off, xs). RawWriter_WriteAt api off xs) ws) v = (True, u)"
    and fl: "RawWriter_FlushAndClose api u = (True, w')"
    using assms by (auto simp: raw_session_def all_ok_append_True)
  have v: "files (rw_sys w) p = None" "raw_at files opened v p (replicate (unat lsize) 0)"
    using PreflightAndOpen_files(2) [OF op] by simp_all
  from raw_writes_at [OF wr v(2)] v(1) FlushAndClose_files [OF fl] show ?thesis
    by (simp add: raw_reference_def raw_at_def)
qed

lemma raw_writes_only:
  assumes "all_ok (map (\<lambda>(off, xs). RawWriter_WriteAt api off xs) ws) w = (ok, w')"
    and "raw_holds files opened w p"
  shows "only_file files p (rw_sys w) (rw_sys w')"
  using assms
proof (induction ws arbitrary: w)
  case (Cons x ws)
  obtain off xs where x: "x = (off, xs)" by fastforce
  obtain b v where v: "RawWriter_WriteAt api off xs w = (b, v)" by fastforce
  note step = WriteAt_files [OF v Cons.prems(2)]
  have "only_file files p (rw_sys v) (rw_sys w')"
    using Cons.prems(1) v x Cons.IH [OF _ step(2)] by (cases b) (auto simp: all_ok_Cons)
  then show ?case using step(1) by (rule only_file_trans [rotated])
qed simp

lemma raw_session_only:
  assumes "raw_session api p lsize phys ws w = (ok, w')"
  shows "only_file files p (rw_sys w) (rw_sys w') \<and>
    (files (rw_sys w) p \<noteq> None \<longrightarrow> \<not> ok \<and> files (rw_sys w') = files (rw_sys w))"
proof -
  obtain b v where op: "RawWriter_PreflightAndOpen api p lsize phys w = (b, v)" by fastforce
  show ?thesis
  proof (cases b)
    case False
    then have "\<not> ok" "w' = v" using assms op by (simp_all add: raw_session_def all_ok_Cons)
    then show ?thesis
      using PreflightAndOpen_files(1) [OF op] PreflightAndOpen_existing [OF op] by simp
  next
    case True
    have v: "files (rw_sys w) p = None" "raw_at files opened v p (replicate (unat lsize) 0)"
      using PreflightAndOpen_files(2) [OF op] True by simp_all
    obtain d u where wr: "all_ok (map (\<lambda>(off, xs). RawWriter_WriteAt api off xs) ws) v = (d, u)" by fastforce
    have "raw_holds files opened v p" using v(2) by (auto simp: raw_at_def raw_holds_def)
    from raw_writes_only [OF wr this] have "only_file files p (rw_sys w) (rw_sys u)"
      using PreflightAndOpen_files(1) [OF op] by (blast intro: only_file_trans)
    moreover have "files (rw_sys w') = files (rw_sys u)"
      using assms op wr True FlushAndClose_files(1) [of u ok w']
      by (cases d) (auto simp: raw_session_def all_ok_Cons all_ok_append split: prod.splits bool.splits)
    ultimately show ?thesis using v(1) by (simp add: only_file_def)
  qed
qed

end

text \<open>
  C21: The raw writer implements an array of zeros of the announced size that is updated in place: a
  session that reports success has created a file that was not there before, whose content is that
  array after the writes; every write lay inside it; and the file is closed. Sparse or not, partial
  system writes or not.
\<close>

theorem raw_session_refines_array:
  assumes "win32_files api files opened" and "raw_session api p lsize phys ws w = (True, w')"
  shows "files (rw_sys w') p = Some (raw_reference (unat lsize) ws) \<and> files (rw_sys w) p = None \<and>
    (\<forall>(off, xs) \<in> set ws. unat off + length xs \<le> unat lsize) \<and> rw_file w' = INVALID_HANDLE_VALUE"
  by (rule win32_files.raw_session_True [OF assms])

lemma bench_raw_runs:
  "fst (raw_session steady_api (wide ''ram.raw'') 16 8 [(2, [1, 2, 3]), (12, [7])] (RawWriter_init blank_disk))"
  by code_simp

lemma raw_session_refines_array_witness:
  "\<exists>w'. raw_session steady_api (wide ''ram.raw'') 16 8 [(2, [1, 2, 3]), (12, [7])] (RawWriter_init blank_disk) = (True, w') \<and>
     disk_files (rw_sys w') (wide ''ram.raw'') = Some [0, 0, 1, 2, 3, 0, 0, 0, 0, 0, 0, 0, 7, 0, 0, 0]"
proof -
  obtain w' where w': "raw_session steady_api (wide ''ram.raw'') 16 8 [(2, [1, 2, 3]), (12, [7])]
      (RawWriter_init blank_disk) = (True, w')"
    using fst_TrueE [OF bench_raw_runs] by blast
  moreover have "raw_reference 16 [(2, [1, 2, 3]), (12, [7])] = [0, 0, 1, 2, 3, 0, 0, 0, 0, 0, 0, 0, 7, 0, 0, 0]"
    by code_simp
  ultimately show ?thesis
    using raw_session_refines_array [OF steady.win32_files_axioms w'] by simp
qed

text \<open>
  Whatever happens - refusal, a failed call in the middle, success - a session touches no file but
  its own, and when a file of that name already exists the session fails and leaves it as it is.
\<close>

theorem raw_session_touches_nothing_else:
  assumes "win32_files api files opened" and "raw_session api p lsize phys ws w = (ok, w')"
  shows "(\<forall>q. q \<noteq> p \<longrightarrow> files (rw_sys w') q = files (rw_sys w) q) \<and>
    (files (rw_sys w) p \<noteq> None \<longrightarrow> \<not> ok \<and> files (rw_sys w') p = files (rw_sys w) p)"
  using win32_files.raw_session_only [OF assms] by (auto simp: only_file_def)

text \<open>A volume on which a file exists already, and one on which the fourth call fails.\<close>

definition full_disk :: disk where
  "full_disk = blank_disk\<lparr> k_files := [(wide ''ram.raw'', [9]), (wide ''notes'', [5])] \<rparr>"

lemma raw_session_touches_nothing_else_witness:
  "disk_files (rw_sys (snd (raw_session disk_api (wide ''ram.raw'') 16 8 [(2, [1])] (RawWriter_init full_disk))))
     (wide ''ram.raw'') = Some [9] \<and>
   disk_files (rw_sys (snd (raw_session disk_api (wide ''ram.raw'') 16 8 [(2, [1])] (RawWriter_init full_disk))))
     (wide ''notes'') = Some [5]"
proof -
  let ?s = "raw_session disk_api (wide ''ram.raw'') 16 8 [(2, [1])] (RawWriter_init full_disk)"
  note at_bench = raw_session_touches_nothing_else [OF disk.win32_files_axioms, of _ 16 8 "[(2, [1])]" _ "fst ?s" "snd ?s"]
  have "disk_files (rw_sys (RawWriter_init full_disk)) (wide ''ram.raw'') = Some [9]"
    "disk_files (rw_sys (RawWriter_init full_disk)) (wide ''notes'') = Some [5]" "wide ''notes'' \<noteq> wide ''ram.raw''"
    by (simp_all add: RawWriter_init_def full_disk_def disk_files_def wide_def)
  then show ?thesis using at_bench [of "wide ''ram.raw''" "RawWriter_init full_disk"] by simp
qed

text \<open>
  A write that would reach past the end of the image is refused with \<open>ERROR_INVALID_PARAMETER\<close>
  before any system call, for every 64-bit offset: the test cannot be passed by a sum that wraps
  around.
\<close>

theorem raw_write_out_of_bounds:
  assumes "rw_file w \<noteq> INVALID_HANDLE_VALUE" and "unat off + length xs > unat (rw_logicalSize w)"
  shows "RawWriter_WriteAt api off xs w = (False, w\<lparr> rw_lastError := ERROR_INVALID_PARAMETER \<rparr>)"
proof -
  have "off > rw_logicalSize w \<or> length xs > unat (rw_logicalSize w - off)"
    using assms(2) by (cases "off \<le> rw_logicalSize w") (auto simp: unat_diff_u64 word_le_nat_alt word_less_nat_alt)
  then show ?thesis using assms(1) by (simp add: RawWriter_WriteAt_def)
qed

lemma raw_write_out_of_bounds_witness:
  "RawWriter_WriteAt disk_api 0xFFFFFFFFFFFFFFFF [1, 2] ((RawWriter_init blank_disk)\<lparr> rw_file := 7, rw_logicalSize := 1 \<rparr>) =
     (False, (RawWriter_init blank_disk)\<lparr> rw_file := 7, rw_logicalSize := 1, rw_lastError := ERROR_INVALID_PARAMETER \<rparr>)"
  by (subst raw_write_out_of_bounds) (simp_all add: RawWriter_init_def INVALID_HANDLE_VALUE_def)

section \<open>The provenance map\<close>

text \<open>
  C10: The map can be trusted as a record: when \<open>WriteMapJson\<close> reports success it has created a new
  file, touched nothing else, and a JSON reader gets back from its text everything the summary
  says - the sizes, the status of the topology, the hash, every range, every unreadable span with its
  status, and the kernel hints when there are any.
\<close>

theorem map_round_trip:
  assumes "win32_files api files opened" and "WriteMapJson api path summary s = (True, s')"
  shows "\<exists>text. files s path = None \<and> files s' = (files s)(path \<mapsto> ascii text) \<and>
    read_map text = Some (reported summary)"
proof -
  have "map_allowed summary" and w: "WriteAtomicString api path (map_json summary) s = (True, s')"
    using assms(2) by (auto simp: WriteMapJson_def split: if_splits)
  then show ?thesis
    using win32_files.WriteAtomicString_True [OF assms(1) w] read_map_json by blast
qed

definition bench_summary :: AcquisitionSummary where
  "bench_summary = AcquisitionSummary_default\<lparr> as_completed := True, as_logicalSize := 24, as_physicalBytes := 12,
     as_acquiredBytes := 8, as_unreadableBytes := 4, as_sha256 := replicate 64 (CHR ''a''),
     as_ranges := bench_runs, as_unreadable := [\<lparr> us_start = 12, us_length = 4, us_status = 0x8000000D \<rparr>] \<rparr>"

lemma steady_WriteAll:
  assumes "disk_open s h = Some (p, pos)" and "length xs \<le> chunk" and "length xs < 4294967296"
  shows "fst (WriteAll steady_api chunk h xs 0 s)"
proof (cases "xs = []")
  case True
  then show ?thesis by (simp add: WriteAll.simps [of steady_api])
next
  case False
  have "unat (of_nat (length xs) :: u32) = length xs"
    using assms(3) by (simp add: unat_of_nat take_bit_nat_eq_self)
  moreover from this have "(of_nat (length xs) :: u32) \<noteq> 0"
    using False by (metis length_greater_0_conv unat_0 less_numeral_extra(3))
  moreover obtain t where "w_WriteFile steady_api h xs s = (True, of_nat (length xs), t)"
    using assms by (simp add: steady_api_def steady_write_def Let_def min_absorb1)
  ultimately show ?thesis
    using assms(2) False by (simp add: WriteAll.simps [of steady_api _ _ xs] min_absorb1)
qed

lemma steady_WriteAtomicString:
  assumes "fst (w_CreateFileW steady_api p GENERIC_WRITE CREATE_NEW s) \<noteq> INVALID_HANDLE_VALUE"
    and "length content \<le> kTextChunkBytes"
  shows "fst (WriteAtomicString steady_api p content s)"
proof -
  obtain h s1 where c: "w_CreateFileW steady_api p GENERIC_WRITE CREATE_NEW s = (h, s1)" by fastforce
  have "disk_open s1 h = Some (p, 0)" using steady.create_new [OF c] assms(1) c by simp
  moreover have "length (ascii content) \<le> kTextChunkBytes" "length (ascii content) < 4294967296"
    using assms(2) by (simp_all add: ascii_def kTextChunkBytes_def)
  ultimately have "fst (WriteAll steady_api kTextChunkBytes h (ascii content) 0 s1)"
    by (rule steady_WriteAll)
  then obtain s2 where "WriteAll steady_api kTextChunkBytes h (ascii content) 0 s1 = (True, s2)"
    using fst_TrueE by blast
  moreover have "w_FlushFileBuffers steady_api h s2 = (True, s2)" by (simp add: steady_api_def)
  ultimately show ?thesis
    using assms(1) c by (simp add: WriteAtomicString_def)
qed

lemma bench_map_length: "length (map_json bench_summary) \<le> kTextChunkBytes"
  by code_simp

lemma bench_map_allowed: "map_allowed bench_summary"
  by code_simp

lemma bench_map_created: "fst (w_CreateFileW steady_api (wide ''ram.map.json.partial'') GENERIC_WRITE CREATE_NEW blank_disk) \<noteq>
    INVALID_HANDLE_VALUE"
  by code_simp

lemma bench_map_written: "fst (WriteMapJson steady_api (wide ''ram.map.json.partial'') bench_summary blank_disk)"
  using steady_WriteAtomicString [OF bench_map_created bench_map_length] bench_map_allowed
  by (simp add: WriteMapJson_def)

lemma map_round_trip_witness:
  "\<exists>s' text. WriteMapJson steady_api (wide ''ram.map.json.partial'') bench_summary blank_disk = (True, s') \<and>
     disk_files s' = (disk_files blank_disk)(wide ''ram.map.json.partial'' \<mapsto> ascii text) \<and>
     read_map text = Some bench_summary"
proof -
  obtain s' where w: "WriteMapJson steady_api (wide ''ram.map.json.partial'') bench_summary blank_disk = (True, s')"
    using fst_TrueE [OF bench_map_written] by blast
  have "reported bench_summary = bench_summary"
    by (simp add: reported_def bench_summary_def AcquisitionSummary_default_def)
  then show ?thesis using map_round_trip [OF steady.win32_files_axioms w] w by auto
qed

section \<open>The crash dump\<close>

text \<open>
  C22: The positions the dump writer computes with wrapping 64-bit arithmetic keep the order of
  physical addresses: behind the 4096 header bytes, inside the file, and never two addresses at one
  position.
\<close>

theorem zdmp_offsets_keep_order:
  assumes "runs_wf runs" and "4096 + runs_total runs < 2 ^ 64" and "zw_runs w = runs"
    and "zw_runFileOffsets w = run_file_offsets 4096 runs"
    and "unat a \<in> ranges_of runs" and "unat b \<in> ranges_of runs"
  shows "(CalculateFileOffset w a < CalculateFileOffset w b \<longleftrightarrow> a < b) \<and>
    4096 \<le> unat (CalculateFileOffset w a) \<and> unat (CalculateFileOffset w a) < 4096 + runs_total runs"
proof -
  have pos: "unat (CalculateFileOffset w p) = dump_pos 4096 runs (unat p)" if "unat p \<in> ranges_of runs" for p
    using find_file_offset_pos [of runs 4096 p] assms(1-4) that by (simp add: CalculateFileOffset_def runs_wf_def)
  have ord: "runs_ordered runs" using assms(1) by (simp add: runs_wf_def)
  have "dump_pos 4096 runs (unat a) < dump_pos 4096 runs (unat b) \<longleftrightarrow> unat a < unat b"
    using dump_pos_strict_mono [OF ord assms(5,6), of 4096] dump_pos_strict_mono [OF ord assms(6,5), of 4096]
    by (metis less_asym less_irrefl nat_neq_iff)
  then show ?thesis
    using pos [OF assms(5)] pos [OF assms(6)] dump_pos_bounds [OF assms(5), of 4096] by (simp add: word_less_nat_alt)
qed

definition bench_zdmp :: "disk ZdmpWriter" where
  "bench_zdmp = ZdmpWriter_Configure bench_runs KernelHints_default EvidenceMetadata_default (ZdmpWriter_init blank_disk)"

lemma bench_zdmp_facts:
  "zw_runs bench_zdmp = bench_runs" "zw_runFileOffsets bench_zdmp = run_file_offsets 4096 bench_runs"
  "zw_hints bench_zdmp = KernelHints_default" "zw_file bench_zdmp = INVALID_HANDLE_VALUE" "zw_sys bench_zdmp = blank_disk"
  by (simp_all add: bench_zdmp_def ZdmpWriter_Configure_def ZdmpWriter_init_def sizeof_DumpHeader64_def)

lemma zdmp_offsets_keep_order_witness:
  "CalculateFileOffset bench_zdmp 15 < CalculateFileOffset bench_zdmp 20 \<and>
   unat (CalculateFileOffset bench_zdmp 15) < 4096 + 12"
  using zdmp_offsets_keep_order [OF bench_runs_wf _ bench_zdmp_facts(1,2), of 15 20]
  by (simp add: bench_runs_def ranges_of_def run_addresses_def)

text \<open>
  C23: The header of the dump says what a dump reader needs: signature, directory table base, page
  counts, and for each of the first 32 runs its first page and its number of pages, all at the
  offsets of the packed structure. It is the first 4096 bytes of the file.
\<close>

theorem zdmp_header_reads_back:
  assumes "win32_files api files opened" and "ZdmpWriter_PreflightAndOpen api p n phys w = (True, w')"
    and "zw_file w = INVALID_HANDLE_VALUE"
  shows "\<exists>c. files (zw_sys w') p = Some c \<and> length c = 4096 \<and>
    u32_at c 0 = 0x45474150 \<and> u32_at c 4 = 0x34365544 \<and>
    u64_at c 16 = kh_directoryTableBase (zw_hints w) \<and>
    u32_at c 256 = of_nat (min (length (zw_runs w)) 32) \<and> u64_at c 264 = phys div 4096 \<and>
    map (\<lambda>i. (u64_at c (272 + 16 * i), u64_at c (280 + 16 * i))) [0..<min (length (zw_runs w)) 32] =
      map (\<lambda>r. (mr_base r div 4096, mr_length r div 4096)) (take 32 (zw_runs w))"
proof -
  let ?h = "zdmp_header (zw_runs w) (zw_hints w) phys"
  have c: "files (zw_sys w') p = Some (header_bytes ?h)"
    using win32_files.ZdmpWriter_open_files(2) [OF assms(1) assms(2,3)] by (simp add: zdmp_at_def)
  have run: "dh_Runs ?h ! i = \<lparr> pr_BasePage = mr_base (zw_runs w ! i) div 4096, pr_PageCount = mr_length (zw_runs w ! i) div 4096 \<rparr>"
    if "i < min (length (zw_runs w)) 32" for i
    using that by (simp add: zdmp_header_def nth_append)
  have "(u64_at (header_bytes ?h) (272 + 16 * i), u64_at (header_bytes ?h) (280 + 16 * i)) =
      (mr_base (zw_runs w ! i) div 4096, mr_length (zw_runs w ! i) div 4096)" if "i < min (length (zw_runs w)) 32" for i
    using header_run_fields [of ?h i] run [OF that] that by simp
  then have "map (\<lambda>i. (u64_at (header_bytes ?h) (272 + 16 * i), u64_at (header_bytes ?h) (280 + 16 * i)))
      [0..<min (length (zw_runs w)) 32] = map (\<lambda>r. (mr_base r div 4096, mr_length r div 4096)) (take 32 (zw_runs w))"
    by (intro nth_equalityI) simp_all
  then show ?thesis
    using c header_fields [of ?h] length_header_bytes [of ?h]
    by (simp add: zdmp_header_def DumpHeader64_default_def)
qed

lemma steady_zdmp_open:
  assumes "fst (w_CreateFileW steady_api p (GENERIC_READ OR GENERIC_WRITE) CREATE_ALWAYS (zw_sys w)) \<noteq> INVALID_HANDLE_VALUE"
    and "zw_file w = INVALID_HANDLE_VALUE"
  shows "fst (ZdmpWriter_PreflightAndOpen steady_api p n phys w)"
proof -
  let ?hdr = "header_bytes (zdmp_header (zw_runs w) (zw_hints w) phys)"
  obtain h s1 where c: "w_CreateFileW steady_api p (GENERIC_READ OR GENERIC_WRITE) CREATE_ALWAYS (zw_sys w) = (h, s1)"
    by fastforce
  have "disk_open s1 h = Some (p, 0)" using steady.create_always [OF c] assms(1) c by simp
  then obtain t where "w_WriteFile steady_api h ?hdr s1 = (True, of_nat 4096, t)"
    by (simp add: steady_api_def steady_write_def Let_def length_header_bytes)
  then show ?thesis
    using assms c
    by (simp add: ZdmpWriter_PreflightAndOpen_def Let_def zdmp_reset_closed sizeof_DumpHeader64_def)
qed

lemma bench_zdmp_opens:
  "fst (ZdmpWriter_PreflightAndOpen steady_api (wide ''ram.dmp'') 24 12 bench_zdmp)"
proof (rule steady_zdmp_open)
  show "fst (w_CreateFileW steady_api (wide ''ram.dmp'') (GENERIC_READ OR GENERIC_WRITE) CREATE_ALWAYS (zw_sys bench_zdmp)) \<noteq>
      INVALID_HANDLE_VALUE"
    unfolding bench_zdmp_facts by code_simp
qed (rule bench_zdmp_facts)

lemma zdmp_header_reads_back_witness:
  "\<exists>w' c. ZdmpWriter_PreflightAndOpen steady_api (wide ''ram.dmp'') 24 12 bench_zdmp = (True, w') \<and>
     disk_files (zw_sys w') (wide ''ram.dmp'') = Some c \<and> length c = 4096 \<and> u32_at c 0 = 0x45474150 \<and> u32_at c 256 = 2"
proof -
  obtain w' where w: "ZdmpWriter_PreflightAndOpen steady_api (wide ''ram.dmp'') 24 12 bench_zdmp = (True, w')"
    using fst_TrueE [OF bench_zdmp_opens] by blast
  have "length bench_runs = 2" by (simp add: bench_runs_def)
  then show ?thesis
    using zdmp_header_reads_back [OF steady.win32_files_axioms w bench_zdmp_facts(4)] w bench_zdmp_facts(1) by auto
qed

text \<open>A write of a steady volume does not fail once the dump is open.\<close>

lemma steady_zdmp_loop:
  assumes "disk_open s h = Some (p, pos)" and "length xs < 4294967296"
  shows "fst (zdmp_write_loop steady_api h xs s)"
proof (cases "xs = []")
  case True
  then show ?thesis by (simp add: zdmp_write_loop.simps [of steady_api])
next
  case False
  moreover obtain t where "w_WriteFile steady_api h xs s = (True, of_nat (length xs), t)"
    using assms by (simp add: steady_api_def steady_write_def Let_def min_absorb1)
  moreover have "unat (of_nat (length xs) :: u32) = length xs"
    using assms(2) by (simp add: unat_of_nat take_bit_nat_eq_self)
  ultimately show ?thesis
    using assms(2) by (simp add: zdmp_write_loop.simps [of steady_api _ xs] zdmp_write_loop.simps [of steady_api _ "[]"] min_absorb1)
qed

lemma steady_zdmp_WriteAt:
  assumes "zdmp_at disk_files disk_open w p c" and "xs \<noteq> []" and "length xs < 4294967296"
  shows "\<exists>w'. ZdmpWriter_WriteAt steady_api off xs w = (True, w') \<and> (\<exists>c'. zdmp_at disk_files disk_open w' p c')"
proof -
  obtain pos where at: "zw_file w \<noteq> INVALID_HANDLE_VALUE" "disk_open (zw_sys w) (zw_file w) = Some (p, pos)"
      "disk_files (zw_sys w) p = Some c" "zw_file w \<noteq> 0"
    using assms(1) by (auto simp: zdmp_at_def)
  obtain s where po: "w_SetFilePointerEx steady_api (zw_file w) (CalculateFileOffset w off) (zw_sys w) = (True, s)"
    using at(2) by (simp add: steady_api_def steady_pointer_def)
  have "fst (zdmp_write_loop steady_api (zw_file w) xs s)"
    by (rule steady_zdmp_loop [OF _ assms(3)]) (use steady.pointer_ok [OF po at(2)] in simp)
  then obtain t where "zdmp_write_loop steady_api (zw_file w) xs s = (True, t)" using fst_TrueE by blast
  then have w: "ZdmpWriter_WriteAt steady_api off xs w = (True, w\<lparr> zw_sys := t \<rparr>)"
    using at assms(2) po by (simp add: ZdmpWriter_WriteAt_def)
  show ?thesis
    using w at win32_files.ZdmpWriter_WriteAt_only [OF steady.win32_files_axioms w at(2)] by (auto simp: zdmp_at_def)
qed

text \<open>
  C24: The crash dump of a memory: after an acquisition into a dump that was opened with a writer
  configured for the ranges of the device, the file is the header followed by the bytes of the
  ranges packed one behind the other - every acquired byte at the position that the run list gives
  its physical address, zeros where nothing could be read - while the hash is that of the flat
  image. Flushing and closing changes none of it.
\<close>

theorem zdmp_acquisition:
  assumes "win32_files api files opened" and "hasher_contract H fed digest_hex" and "device_contract D dinv"
    and "\<And>d i off n r d' j. dinv d \<Longrightarrow> dev_Read D i off n d = (True, r, d') \<Longrightarrow> j < length (rr_data r) \<Longrightarrow>
       rr_data r ! j = mem (unat (rr_physicalAddress r) + j)"
    and "runs_wf rs" and "4096 + runs_total rs < 2 ^ 64" and "dinv d" and "fed h = Some []"
    and "zw_file w0 = INVALID_HANDLE_VALUE"
    and "ZdmpWriter_PreflightAndOpen api p n phys (ZdmpWriter_Configure rs hints metadata w0) = (True, w)"
    and "Acquire D (ZdmpWriter_class api) H cfg d w h host = (True, r)" and "as_ranges (ar_summary r) = rs"
    and "ZdmpWriter_FlushAndClose api (ar_wr r) = (ok, w')"
  shows "\<exists>c. files (zw_sys w') p = Some c \<and> zw_file w' = INVALID_HANDLE_VALUE \<and>
    dump_content mem rs (header_bytes (zdmp_header rs hints phys))
      (ranges_addresses rs - spans_addresses (as_unreadable (ar_summary r))) c \<and>
    fed (ar_hash r) = Some (image_of mem (ranges_addresses rs - spans_addresses (as_unreadable (ar_summary r)))
      (unat (as_logicalSize (ar_summary r))))"
proof -
  let ?hdr = "header_bytes (zdmp_header rs hints phys)"
  let ?holds = "zdmp_holds files opened mem rs ?hdr p"
  have "acquisition_axioms D dinv (ZdmpWriter_class api) mem rs ?holds"
    by unfold_locales (use assms(4-6) in \<open>auto simp: ZdmpWriter_class_def
        intro: win32_files.ZdmpWriter_WriteAt_holds [OF assms(1)]\<close>)
  then have acq: "acquisition H fed digest_hex D dinv (ZdmpWriter_class api) mem rs ?holds"
    using assms(2,3) by (simp add: acquisition_def)
  let ?w1 = "ZdmpWriter_Configure rs hints metadata w0"
  have cfg: "zw_file ?w1 = INVALID_HANDLE_VALUE" "zw_runs ?w1 = rs" "zw_hints ?w1 = hints"
      "zw_runFileOffsets ?w1 = run_file_offsets 4096 rs"
    using assms(9) by (simp_all add: ZdmpWriter_Configure_def sizeof_DumpHeader64_def)
  have "dump_content mem rs ?hdr {} ?hdr"
    by (simp add: dump_content_def length_header_bytes)
  then have "?holds {} w"
    using win32_files.ZdmpWriter_open_files(2-4) [OF assms(1,10) cfg(1)] cfg by (auto simp: zdmp_holds_def)
  note image = acquisition.Acquire_holds [OF acq assms(11,7,12) this assms(8)]
  have "files (zw_sys w') = files (zw_sys (ar_wr r))" "zw_file w' = INVALID_HANDLE_VALUE"
    using win32_files.ZdmpWriter_close_files [OF assms(1,13)] by simp_all
  then show ?thesis
    using image(1,2) by (auto simp: zdmp_holds_def zdmp_at_def ranges_addresses_def)
qed

text \<open>The bench memory, acquired into a dump on a volume that does not fail.\<close>

lemma bench_contracts:
  "hasher_contract bench_hasher (\<lambda>h. h) (map (\<lambda>b. char_of (unat b)))"
  "device_contract (bench_device hi tot bench_runs mem bad) (\<lambda>_. True)"
  using bench_flat_acquisition [of hi tot mem bad] by (simp_all add: flat_acquisition_def)

lemma bench_reads:
  "dev_Read (bench_device hi tot bench_runs mem bad) i off n d = (True, r, d') \<Longrightarrow> j < length (rr_data r) \<Longrightarrow>
   rr_data r ! j = mem (unat (rr_physicalAddress r) + j)"
  by (auto simp: bench_device_def bench_read_def Let_def)

lemma bench_write_small:
  assumes "run \<in> set bench_runs" and "{unat p ..< unat p + length xs} \<subseteq> run_addresses run"
  shows "length xs < 4294967296"
proof -
  have "card {unat p ..< unat p + length xs} \<le> card (run_addresses run)"
    by (rule card_mono) (use assms(2) in \<open>simp_all add: run_addresses_def\<close>)
  then show ?thesis using assms(1) by (auto simp: bench_runs_def run_addresses_def)
qed

lemma bench_zdmp_acquires:
  assumes "zdmp_at disk_files disk_open w p c"
  shows "\<exists>r. Acquire (bench_device 24 12 bench_runs bench_mem bench_bad) (ZdmpWriter_class steady_api) bench_hasher
    bench_config 0 w (Some []) bench_host = (True, r) \<and> as_ranges (ar_summary r) = bench_runs \<and>
    as_logicalSize (ar_summary r) = 24"
proof (rule reliable_acquisition.Acquire_succeeds)
  show "reliable_acquisition (bench_device 24 12 bench_runs bench_mem bench_bad) (ZdmpWriter_class steady_api) bench_hasher
      (\<lambda>_. True) (\<lambda>w. \<exists>c. zdmp_at disk_files disk_open w p c) (\<lambda>h. h \<noteq> None) 24 12 bench_runs"
    by (rule bench_reliable) (auto simp: ZdmpWriter_class_def dest: bench_write_small intro: steady_zdmp_WriteAt)
qed (use assms in \<open>auto simp: bench_host_def\<close>)

lemma zdmp_acquisition_witness:
  "\<exists>w r w' c. ZdmpWriter_PreflightAndOpen steady_api (wide ''ram.dmp'') 24 12 bench_zdmp = (True, w) \<and>
     Acquire (bench_device 24 12 bench_runs bench_mem bench_bad) (ZdmpWriter_class steady_api) bench_hasher
       bench_config 0 w (Some []) bench_host = (True, r) \<and>
     ZdmpWriter_FlushAndClose steady_api (ar_wr r) = (True, w') \<and>
     disk_files (zw_sys w') (wide ''ram.dmp'') = Some c \<and>
     dump_content bench_mem bench_runs (header_bytes (zdmp_header bench_runs KernelHints_default 12))
       (ranges_addresses bench_runs - spans_addresses (as_unreadable (ar_summary r))) c"
proof -
  let ?D = "bench_device 24 12 bench_runs bench_mem bench_bad"
  obtain w where w: "ZdmpWriter_PreflightAndOpen steady_api (wide ''ram.dmp'') 24 12 bench_zdmp = (True, w)"
    using fst_TrueE [OF bench_zdmp_opens] by blast
  obtain c where "zdmp_at disk_files disk_open w (wide ''ram.dmp'') c"
    using win32_files.ZdmpWriter_open_files(2) [OF steady.win32_files_axioms w bench_zdmp_facts(4)] by blast
  from bench_zdmp_acquires [OF this] obtain r where
    r: "Acquire ?D (ZdmpWriter_class steady_api) bench_hasher bench_config 0 w (Some []) bench_host = (True, r)"
       "as_ranges (ar_summary r) = bench_runs"
    by blast
  have fl: "ZdmpWriter_FlushAndClose steady_api (ar_wr r) = (True, snd (ZdmpWriter_FlushAndClose steady_api (ar_wr r)))"
    by (simp add: ZdmpWriter_FlushAndClose_def steady_api_def)
  have small: "4096 + runs_total bench_runs < 2 ^ 64" by (simp add: bench_runs_def)
  have closed: "zw_file (ZdmpWriter_init blank_disk) = INVALID_HANDLE_VALUE" by (simp add: ZdmpWriter_init_def)
  have "\<exists>c. disk_files (zw_sys (snd (ZdmpWriter_FlushAndClose steady_api (ar_wr r)))) (wide ''ram.dmp'') = Some c \<and>
      zw_file (snd (ZdmpWriter_FlushAndClose steady_api (ar_wr r))) = INVALID_HANDLE_VALUE \<and>
      dump_content bench_mem bench_runs (header_bytes (zdmp_header bench_runs KernelHints_default 12))
        (ranges_addresses bench_runs - spans_addresses (as_unreadable (ar_summary r))) c \<and>
      ar_hash r = Some (image_of bench_mem (ranges_addresses bench_runs - spans_addresses (as_unreadable (ar_summary r)))
        (unat (as_logicalSize (ar_summary r))))"
    by (rule zdmp_acquisition [OF steady.win32_files_axioms bench_contracts _ bench_runs_wf small TrueI refl closed
        w [unfolded bench_zdmp_def] r(1,2) fl]) (rule bench_reads)
  then show ?thesis using w r(1) fl by blast
qed

end
