(* ===== verification/E01Theorems.thy ===== *)
theory E01Theorems
  imports E01Writer Volume
begin

text \<open>
  What a whole session of the EWF-E01 writer leaves on the volume: the file is a function of the
  data alone, its sections form a chain that a reader can follow, and the chunk table leads back to
  the data. A session on a system that fails nowhere completes.
\<close>

section \<open>Sessions\<close>

text \<open>A writer's life: open, write pieces at whatever offsets, flush and close.\<close>

definition e01_session ::
  "'s win32 \<Rightarrow> wstring \<Rightarrow> u64 \<Rightarrow> u64 \<Rightarrow> (u64 \<times> bytes) list \<Rightarrow> 's E01Writer fallible" where
  "e01_session api p lsize phys ws =
     all_ok ([E01Writer_PreflightAndOpen api p lsize phys] @
             map (\<lambda>(off, xs). E01Writer_WriteAt api off xs) ws @
             [E01Writer_FlushAndClose api])"

definition e01_data :: "(u64 \<times> bytes) list \<Rightarrow> bytes" where
  "e01_data ws = concat (map snd ws)"

text \<open>An object after \<open>Configure\<close>, before it is opened.\<close>

definition e01_fresh :: "'s E01Writer \<Rightarrow> bool" where
  "e01_fresh w \<longleftrightarrow> e_file w = INVALID_HANDLE_VALUE \<and> length (e_chunkBuffer w) = kChunkSize"

lemma e01_fresh_configured: "e01_fresh (E01Writer_Configure runs hints meta (E01Writer_init s))"
  by (simp add: e01_fresh_def E01Writer_Configure_def E01Writer_init_def)

context win32_files
begin

lemma e01_writes_streaming:
  assumes "all_ok (map (\<lambda>(off, xs). E01Writer_WriteAt api off xs) ws) w = (True, w')"
    and "e01_streaming files opened p m phys cs rest w" and "length rest < kChunkSize"
  shows "\<exists>cs' rest'. e01_streaming files opened p m phys cs' rest' w' \<and> length rest' < kChunkSize \<and>
    concat cs' @ rest' = concat cs @ rest @ e01_data ws"
  using assms
proof (induction ws arbitrary: w cs rest)
  case Nil
  then show ?case by (auto simp: e01_data_def)
next
  case (Cons x ws)
  obtain off xs where x: "x = (off, xs)" by fastforce
  then obtain v where v: "E01Writer_WriteAt api off xs w = (True, v)"
    and rest: "all_ok (map (\<lambda>(off, xs). E01Writer_WriteAt api off xs) ws) v = (True, w')"
    using Cons.prems(1) by auto
  obtain cs1 rest1 where st: "e01_streaming files opened p m phys cs1 rest1 v" "length rest1 < kChunkSize"
    and eq: "concat cs1 @ rest1 = concat cs @ rest @ xs"
    using E01_WriteAt_streaming [OF v Cons.prems(2,3)] by blast
  have "(concat cs1 @ rest1) @ e01_data ws = concat cs @ rest @ e01_data (x # ws)"
    by (simp add: eq e01_data_def x)
  then show ?case using Cons.IH [OF rest st] by simp
qed

lemma e01_session_True:
  assumes "e01_session api p lsize phys ws w = (True, w')" and "e01_fresh w"
    and "reliable_files api opened" and "length (e01_file (e_metadata w) phys (e01_data ws)) < 2 ^ 64"
  shows "files (e_sys w') p = Some (e01_file (e_metadata w) phys (e01_data ws)) \<and>
    e_file w' = INVALID_HANDLE_VALUE"
proof -
  obtain v u where op: "E01Writer_PreflightAndOpen api p lsize phys w = (True, v)"
    and wr: "all_ok (map (\<lambda>(off, xs). E01Writer_WriteAt api off xs) ws) v = (True, u)"
    and fl: "E01Writer_FlushAndClose api u = (True, w')"
    using assms(1) by (auto simp: e01_session_def all_ok_append_True)
  have fresh: "e_file w = INVALID_HANDLE_VALUE" "length (e_chunkBuffer w) = kChunkSize"
    using assms(2) by (simp_all add: e01_fresh_def)
  have "e01_streaming files opened p (e_metadata w) phys [] [] v"
    by (rule E01_open_streaming [OF op fresh])
  moreover have "length ([] :: bytes) < kChunkSize" by (simp add: kChunkSize_def)
  ultimately obtain cs rest where st: "e01_streaming files opened p (e_metadata w) phys cs rest u" "length rest < kChunkSize"
    and eq: "concat cs @ rest = e01_data ws"
    using e01_writes_streaming [OF wr] by fastforce
  show ?thesis
    using E01_FlushAndClose_file [OF fl st assms(3)] assms(4) unfolding eq by blast
qed

end

section \<open>The sections of the file\<close>

lemma chunks_all: "\<forall>c \<in> set (chunks xs). length c = kChunkSize"
  using chunks_length by blast

text \<open>The parts of the file, each section placed behind the ones in front of it.\<close>

definition e01_parts ::
  "EvidenceMetadata \<Rightarrow> u64 \<Rightarrow> bytes \<Rightarrow> bytes \<Rightarrow> bytes \<Rightarrow> bytes \<Rightarrow> bytes \<Rightarrow> bytes \<Rightarrow> bytes \<Rightarrow> bool" where
  "e01_parts m phys xs H V S body T X \<longleftrightarrow>
     (let fh = file_header_bytes; pad = replicate 36 0 in
      e01_file m phys xs = fh @ H @ V @ S @ body @ T @ X @ pad @ section_bytes (make_section ''done'' 0 76) \<and>
      H = data_section ''header'' (length fh) (ascii (metadata_text m)) \<and>
      V = data_section ''volume'' (length (fh @ H)) (volume_bytes (volume_section phys)) \<and>
      body = chunk_stream (chunks xs) \<and> length S = 76 \<and> length X = 76 \<and>
      S = section_bytes (make_section ''sectors'' (of_nat (length (fh @ H @ V @ S @ body))) (of_nat (76 + length body))) \<and>
      T = data_section ''table'' (length (fh @ H @ V @ S @ body)) (chunk_table (length (chunks xs))) \<and>
      X = section_bytes (make_section ''hash'' (of_nat (length (fh @ H @ V @ S @ body @ T @ X @ pad))) (of_nat (76 + 36))))"

lemma e01_parts_exist: "\<exists>H V S body T X. e01_parts m phys xs H V S body T X"
proof -
  define fh H V body stop S T X where defs:
    "fh = file_header_bytes" "H = data_section ''header'' (length fh) (ascii (metadata_text m))"
    "V = data_section ''volume'' (length (fh @ H)) (volume_bytes (volume_section phys))"
    "body = chunk_stream (chunks xs)"
    "stop = length (fh @ H @ V) + 76 + length body"
    "S = section_bytes (make_section ''sectors'' (of_nat stop) (of_nat (76 + length body)))"
    "T = data_section ''table'' stop (chunk_table (length (chunks xs)))"
    "X = section_bytes (make_section ''hash'' (of_nat (stop + length T) + of_nat (76 + 36)) (of_nat (76 + 36)))"
  have whole: "e01_file m phys xs = fh @ H @ V @ S @ body @ T @ X @ replicate 36 0 @ section_bytes (make_section ''done'' 0 76)"
    unfolding defs e01_file_def e01_prelude_def Let_def by simp
  have len: "length S = 76" "length X = 76" by (simp_all add: defs(6,8))
  have stop: "stop = length (fh @ H @ V @ S @ body)"
    and hash: "of_nat (stop + length T) + of_nat (76 + 36) =
        (of_nat (length (fh @ H @ V @ S @ body @ T @ X @ replicate 36 (0 :: u8))) :: u64)"
    using len by (simp_all add: defs(5))
  have "S = section_bytes (make_section ''sectors'' (of_nat (length (fh @ H @ V @ S @ body))) (of_nat (76 + length body)))"
    by (fact defs(6) [unfolded stop])
  moreover have "T = data_section ''table'' (length (fh @ H @ V @ S @ body)) (chunk_table (length (chunks xs)))"
    by (fact defs(7) [unfolded stop])
  moreover have "X = section_bytes (make_section ''hash''
      (of_nat (length (fh @ H @ V @ S @ body @ T @ X @ replicate 36 (0 :: u8)))) (of_nat (76 + 36)))"
    by (fact defs(8) [unfolded hash])
  ultimately have "e01_parts m phys xs H V S body T X"
    unfolding e01_parts_def Let_def defs(1) [symmetric] using whole defs(2-4) len by blast
  then show ?thesis by blast
qed

lemma e01_walk:
  assumes "length (e01_file m phys xs) < 2 ^ 64" and "e01_parts m phys xs H V S body T X"
  defines "fh \<equiv> file_header_bytes" and "pad \<equiv> replicate 36 (0 :: u8)"
  shows "section_walk 6 (e01_file m phys xs) 13 =
    [(ascii ''header'', length fh, True), (ascii ''volume'', length (fh @ H), True),
     (ascii ''sectors'', length (fh @ H @ V), True),
     (ascii ''table'', length (fh @ H @ V @ S @ body), True),
     (ascii ''hash'', length (fh @ H @ V @ S @ body @ T), True),
     (ascii ''done'', length (fh @ H @ V @ S @ body @ T @ X @ pad), True)]"
proof -
  note ps = assms(2) [unfolded e01_parts_def Let_def, folded fh_def pad_def]
  have "13 = length fh" by (simp add: fh_def)
  then show ?thesis
    by (simp only:) (rule section_chain [OF _ _ _ _ _ _ _ assms(1)]; use ps in blast)
qed

lemma e01_chain:
  assumes "length (e01_file m phys xs) < 2 ^ 64"
  shows "\<exists>offs. section_walk 6 (e01_file m phys xs) 13 =
      zip (map ascii e01_section_names) (map (\<lambda>off. (off, True)) offs) \<and>
    length offs = 6 \<and> last offs + 76 = length (e01_file m phys xs)"
proof -
  obtain H V S body T X where parts: "e01_parts m phys xs H V S body T X"
    using e01_parts_exist by blast
  let ?fh = file_header_bytes and ?pad = "replicate 36 (0 :: u8)"
  have "length (e01_file m phys xs) = length (?fh @ H @ V @ S @ body @ T @ X @ ?pad) + 76"
    using parts by (simp add: e01_parts_def Let_def)
  then show ?thesis
    using e01_walk [OF assms parts]
    by (intro exI [of _ "[13, length (?fh @ H), length (?fh @ H @ V), length (?fh @ H @ V @ S @ body),
        length (?fh @ H @ V @ S @ body @ T), length (?fh @ H @ V @ S @ body @ T @ X @ ?pad)]"])
      (simp add: e01_section_names_def)
qed

section \<open>Reading the data back\<close>

text \<open>
  A reader: find the sectors and the table by name, take the offsets out of the table, take a
  chunk at each of them, and check its sum.
\<close>

definition section_offset :: "string \<Rightarrow> bytes \<Rightarrow> nat option" where
  "section_offset nm c = map_of (map (\<lambda>(t, off, ok). (t, off)) (section_walk 6 c 13)) (ascii nm)"

definition table_offsets :: "bytes \<Rightarrow> nat \<Rightarrow> u32 list" where
  "table_offsets c toff =
     map (\<lambda>i. u32_at c (toff + 76 + 4 * i)) [0..<(unat (section_size c toff) - 80) div 4]"

definition stored_chunk :: "bytes \<Rightarrow> nat \<Rightarrow> bytes option" where
  "stored_chunk c off =
     (let xs = field c off kChunkSize
      in if unat (u32_at c (off + kChunkSize)) = adler32_spec xs then Some xs else None)"

fun all_some :: "'a option list \<Rightarrow> 'a list option" where
  "all_some [] = Some []"
| "all_some (None # xs) = None"
| "all_some (Some x # xs) = map_option (Cons x) (all_some xs)"

definition e01_read :: "bytes \<Rightarrow> bytes option" where
  "e01_read c =
     (case (section_offset ''sectors'' c, section_offset ''table'' c) of
        (Some soff, Some toff) \<Rightarrow>
          map_option concat (all_some (map (\<lambda>k. stored_chunk c (soff + unat k)) (table_offsets c toff)))
      | _ \<Rightarrow> None)"

lemma all_some_map: "(\<And>x. x \<in> set xs \<Longrightarrow> f x = Some (g x)) \<Longrightarrow> all_some (map f xs) = Some (map g xs)"
  by (induction xs) auto

lemma concat_chunks:
  "concat (chunks xs) = xs @ replicate (kChunkSize * length (chunks xs) - length xs) 0"
proof (induction xs rule: chunks.induct)
  case (1 xs)
  show ?case
  proof (cases "xs = [] \<or> length xs \<le> kChunkSize")
    case True
    then show ?thesis by (auto simp: chunks.simps [of xs] chunks.simps [of "[]"])
  next
    case False
    have "xs = take kChunkSize xs @ drop kChunkSize xs" by simp
    then show ?thesis
      using 1 False by (subst (1 2) chunks.simps) (simp add: kChunkSize_def add.commute flip: append_assoc)
  qed
qed

lemma chunk_stream_field:
  assumes "i < length (chunks xs)"
  shows "field (chunk_stream (chunks xs) @ ys) (65540 * i) 65540 = with_adler (chunks xs ! i)"
  unfolding chunk_stream_def
  by (rule field_concat_const [OF _ assms]) (simp add: chunks_length kChunkSize_def)

lemma stored_chunk_with_adler:
  assumes "field c off 65540 = with_adler xs" and "length xs = kChunkSize"
  shows "stored_chunk c off = Some xs"
proof -
  have "field c off kChunkSize = field (field c off 65540) 0 kChunkSize"
    by (simp add: field_field kChunkSize_def)
  then have 1: "field c off kChunkSize = xs"
    using assms by (simp add: with_adler_def)
  have "field c (off + kChunkSize) 4 = field (field c off 65540) kChunkSize 4"
    by (simp add: field_field kChunkSize_def)
  also have "\<dots> = le32 (CalculateAdler32 xs 1)"
    unfolding assms(1) using assms(2) by (simp add: with_adler_def field_def)
  finally have "u32_at c (off + kChunkSize) = CalculateAdler32 xs 1"
    by (simp add: u32_at_def)
  then show ?thesis
    using 1 by (simp add: stored_chunk_def CalculateAdler32_spec)
qed

lemma chunk_table_entry:
  assumes "i < k"
  shows "u32_at (chunk_table k @ ys) (4 * i) = chunk_offset i"
proof -
  have "field (concat (map le32 (map chunk_offset [0..<k])) @ ys) (4 * i) 4 =
      le32 (map chunk_offset [0..<k] ! i)"
    by (rule field_concat_const) (use assms in simp_all)
  then have "field (chunk_table k @ ys) (4 * i) 4 = le32 (chunk_offset i)"
    using assms by (simp add: chunk_table_def table_bytes_def)
  then show ?thesis by (simp add: u32_at_def)
qed

lemma length_chunk_table [simp]: "length (chunk_table k) = 4 * k"
  unfolding chunk_table_def table_bytes_def by (subst length_concat_const [of _ le32 4]) simp_all

lemma chunk_offset_small:
  "76 + 65540 * i < 2 ^ 32 \<Longrightarrow> unat (chunk_offset i) = 76 + 65540 * i"
  unfolding chunk_offset_def by (rule unat_of_nat_small32)

lemma e01_offsets:
  assumes "length (e01_file m phys xs) < 2 ^ 64" and "e01_parts m phys xs H V S body T X"
  shows "section_offset ''sectors'' (e01_file m phys xs) = Some (length (file_header_bytes @ H @ V))"
    and "section_offset ''table'' (e01_file m phys xs) = Some (length (file_header_bytes @ H @ V @ S @ body))"
  using e01_walk [OF assms] by (simp_all add: section_offset_def ascii_def)

lemma e01_table_offsets:
  assumes "length (e01_file m phys xs) < 2 ^ 64" and "e01_parts m phys xs H V S body T X"
  shows "table_offsets (e01_file m phys xs) (length (file_header_bytes @ H @ V @ S @ body)) =
    map chunk_offset [0..<length (chunks xs)]"
proof -
  let ?k = "length (chunks xs)" and ?pre = "file_header_bytes @ H @ V @ S @ body"
  let ?n = "76 + 4 * ?k + 4"
  let ?hdr = "section_bytes (make_section ''table'' (of_nat (length ?pre) + of_nat ?n) (of_nat ?n))"
  obtain suf where c: "e01_file m phys xs = ?pre @ ?hdr @ chunk_table ?k @ suf"
    using assms(2) by (auto simp: e01_parts_def Let_def data_section_def with_adler_def)
  have "section_size (e01_file m phys xs) (length ?pre) = of_nat ?n"
    by (rule section_read(3) [OF _ _ c]) (simp_all add: ascii_def)
  moreover have "unat (of_nat ?n :: u64) = ?n"
    by (rule unat_of_nat_small) (use assms(1) c in simp)
  moreover have "u32_at (e01_file m phys xs) (length ?pre + 76 + 4 * i) = chunk_offset i" if "i < ?k" for i
  proof -
    have "e01_file m phys xs = (?pre @ ?hdr) @ chunk_table ?k @ suf" by (simp add: c)
    then have "u32_at (e01_file m phys xs) (length (?pre @ ?hdr) + 4 * i) = u32_at (chunk_table ?k @ suf) (4 * i)"
      by (simp only: u32_at_append_skip)
    then show ?thesis using chunk_table_entry [OF that, of suf] by simp
  qed
  ultimately show ?thesis
    by (simp add: table_offsets_def)
qed

lemma e01_read_file:
  assumes "length (e01_file m phys xs) < 2 ^ 64" and "76 + 65540 * length (chunks xs) < 2 ^ 32"
  shows "e01_read (e01_file m phys xs) = Some (xs @ replicate (kChunkSize * length (chunks xs) - length xs) 0)"
proof -
  obtain H V S body T X where parts: "e01_parts m phys xs H V S body T X"
    using e01_parts_exist by blast
  let ?pre = "file_header_bytes @ H @ V" and ?cs = "chunks xs"
  obtain suf where c: "e01_file m phys xs = (?pre @ S) @ chunk_stream ?cs @ suf" and S: "length S = 76"
    using parts by (auto simp: e01_parts_def Let_def)
  have "stored_chunk (e01_file m phys xs) (length ?pre + unat (chunk_offset i)) = Some (?cs ! i)"
    if i: "i < length ?cs" for i
  proof (rule stored_chunk_with_adler)
    have "unat (chunk_offset i) = 76 + 65540 * i"
      using assms(2) i by (intro chunk_offset_small) simp
    then have "field (e01_file m phys xs) (length ?pre + unat (chunk_offset i)) 65540 =
        field (chunk_stream ?cs @ suf) (65540 * i) 65540"
      using field_append_at [of "?pre @ S" "chunk_stream ?cs @ suf" "65540 * i" 65540] S c
      by (simp add: add.assoc)
    then show "field (e01_file m phys xs) (length ?pre + unat (chunk_offset i)) 65540 = with_adler (?cs ! i)"
      using chunk_stream_field [OF i] by simp
    show "length (?cs ! i) = kChunkSize" by (rule chunks_length [OF nth_mem [OF i]])
  qed
  then have "all_some (map (\<lambda>k. stored_chunk (e01_file m phys xs) (length ?pre + unat k))
      (map chunk_offset [0..<length ?cs])) = Some (map (\<lambda>i. ?cs ! i) [0..<length ?cs])"
    unfolding map_map by (intro all_some_map) simp
  then show ?thesis
    using e01_offsets [OF assms(1) parts] e01_table_offsets [OF assms(1) parts]
    by (simp add: e01_read_def map_nth concat_chunks)
qed

section \<open>Progress\<close>

text \<open>On a reliable system nothing a session does can fail, as long as its sections fit.\<close>

context win32_files
begin

lemma e_put_reliable:
  assumes "reliable_files api opened" and "e01_at files opened p c w" and "length xs < 2 ^ 32"
  shows "\<exists>w'. e_put api xs w = (True, w') \<and> e01_at files opened p (c @ xs) w' \<and> e01_same w w'"
proof -
  obtain b n s where wr: "w_WriteFile api (e_file w) xs (e_sys w) = (b, n, s)" by (metis prod.collapse)
  have "b \<and> unat n = length xs"
    by (rule reliable_write [OF assms(1) _ assms(3) wr]) (use assms(2) in \<open>simp add: e01_at_def\<close>)
  then obtain w' where "e_put api xs w = (True, w')"
    using wr by (simp add: e_put_def Let_def)
  then show ?thesis using e_put_True [OF _ assms(2)] by blast
qed

lemma e_puts_reliable:
  assumes "reliable_files api opened" and "e01_at files opened p c w" and "\<forall>xs \<in> set xss. length xs < 2 ^ 32"
  shows "\<exists>w'. all_ok (map (e_put api) xss) w = (True, w')"
  using assms(2,3)
proof (induction xss arbitrary: w c)
  case (Cons xs xss)
  have "length xs < 2 ^ 32" using Cons.prems(2) by simp
  then obtain v where "e_put api xs w = (True, v)" "e01_at files opened p (c @ xs) v"
    using e_put_reliable [OF assms(1) Cons.prems(1)] by blast
  then show ?case using Cons.IH [of "c @ xs" v] Cons.prems(2) by auto
qed simp

lemma FlushActiveChunk_reliable:
  assumes "reliable_files api opened" and "e01_streaming files opened p m phys cs rest w"
    and "length rest \<le> kChunkSize"
  shows "\<exists>w'. FlushActiveChunk api w = (True, w')"
proof (cases "rest = []")
  case True
  then show ?thesis using assms(2) by (simp add: FlushActiveChunk_def e01_streaming_def)
next
  case False
  note st = assms(2) [unfolded e01_streaming_def]
  let ?c = "if e_chunkBufferUsed w < kChunkSize
      then take (e_chunkBufferUsed w) (e_chunkBuffer w) @ replicate (kChunkSize - e_chunkBufferUsed w) 0
      else e_chunkBuffer w"
  let ?w = "w\<lparr> e_chunkBuffer := ?c, e_chunkTableOffsets := e_chunkTableOffsets w @
      [ucast (e_currentFileOffset w - e_sectorsSectionOffset w)] \<rparr>"
  have "length ?c = kChunkSize" using st assms(3) by auto
  then have small: "\<forall>xs \<in> set [?c, le32 (CalculateAdler32 ?c 1)]. length xs < 2 ^ 32"
    by (simp add: kChunkSize_def)
  obtain c where "e01_at files opened p c ?w" using st by auto
  from e_puts_reliable [OF assms(1) this small] obtain v
    where "all_ok (map (e_put api) [?c, le32 (CalculateAdler32 ?c 1)]) ?w = (True, v)" by blast
  then have v: "all_ok [e_put api ?c, e_put api (le32 (CalculateAdler32 ?c 1))] ?w = (True, v)"
    by (simp only: list.map)
  have "e_chunkBufferUsed w \<noteq> 0" using st False by simp
  then show ?thesis
    unfolding FlushActiveChunk_def Let_def by (simp only: if_False v prod.case bool.case) blast
qed

lemma e_copy_loop_reliable:
  assumes "reliable_files api opened" and "e01_streaming files opened p m phys cs rest w"
    and "length rest \<le> kChunkSize"
  shows "\<exists>w'. e_copy_loop api xs w = (True, w')"
  using assms(2,3)
proof (induction "2 * length xs + (if e_chunkBufferUsed w = kChunkSize then 1 else 0 :: nat)"
    arbitrary: xs w cs rest rule: less_induct)
  case less
  show ?case
  proof (cases "xs = []")
    case True
    then show ?thesis by (simp add: e_copy_loop.simps [of api])
  next
    case False
    note st = less.prems(1) [unfolded e01_streaming_def]
    let ?k = "min (length xs) (kChunkSize - length rest)"
    let ?rest = "rest @ take ?k xs"
    let ?w = "w\<lparr> e_chunkBuffer := overlay (e_chunkBuffer w) (length rest) (take ?k xs),
                 e_chunkBufferUsed := length rest + ?k \<rparr>"
    have len: "length ?rest = length rest + ?k" "length ?rest \<le> kChunkSize"
      using less.prems(2) by auto
    have "take (length ?rest) (overlay (e_chunkBuffer w) (length rest) (take ?k xs)) = ?rest"
      using st len by (simp add: overlay_def)
    then have st': "e01_streaming files opened p m phys cs ?rest ?w"
      using st len by (simp add: e01_streaming_def min_def)
    show ?thesis
    proof (cases "length ?rest = kChunkSize")
      case full: True
      obtain v where fl: "FlushActiveChunk api ?w = (True, v)"
        using FlushActiveChunk_reliable [OF assms(1) st' len(2)] by blast
      have "?rest \<noteq> []" using full by (auto simp: kChunkSize_def)
      then have v: "e01_streaming files opened p m phys (cs @ [?rest]) [] v"
        using FlushActiveChunk_True [OF fl st' len(2)] full by simp
      have "2 * length (drop ?k xs) + (if e_chunkBufferUsed v = kChunkSize then 1 else 0) <
          2 * length xs + (if e_chunkBufferUsed w = kChunkSize then 1 else 0 :: nat)"
        using False st less.prems(2) FlushActiveChunk_empties [OF fl]
        by (auto simp: kChunkSize_def min_def)
      from less.hyps [OF this v] obtain w' where "e_copy_loop api (drop ?k xs) v = (True, w')" by auto
      then show ?thesis
        using False st len fl full less.prems(2)
        by (subst e_copy_loop.simps) (simp add: Let_def)
    next
      case part: False
      then have "?k = length xs" "length rest + length xs \<noteq> kChunkSize"
        using len less.prems(2) by (auto simp: min_def split: if_splits)
      then show ?thesis
        using False st part less.prems(2)
        by (subst e_copy_loop.simps) (simp add: Let_def e_copy_loop.simps [of api "[]"])
    qed
  qed
qed

lemma e01_writes_reliable:
  assumes "reliable_files api opened" and "e01_streaming files opened p m phys cs rest w"
    and "length rest < kChunkSize" and "\<forall>(off, xs) \<in> set ws. xs \<noteq> []"
  shows "\<exists>w'. all_ok (map (\<lambda>(off, xs). E01Writer_WriteAt api off xs) ws) w = (True, w')"
  using assms(2-4)
proof (induction ws arbitrary: w cs rest)
  case (Cons x ws)
  obtain off xs where x: "x = (off, xs)" by fastforce
  have "e_file w \<noteq> INVALID_HANDLE_VALUE" "xs \<noteq> []"
    using Cons.prems(1,3) x by (auto simp: e01_streaming_def e01_at_def)
  then obtain v where v: "E01Writer_WriteAt api off xs w = (True, v)"
    using e_copy_loop_reliable [OF assms(1) Cons.prems(1), of xs] Cons.prems(2)
    by (auto simp: E01Writer_WriteAt_def)
  obtain cs1 rest1 where st: "e01_streaming files opened p m phys cs1 rest1 v" "length rest1 < kChunkSize"
    using E01_WriteAt_streaming [OF v Cons.prems(1,2)] by blast
  obtain w' where "all_ok (map (\<lambda>(off, xs). E01Writer_WriteAt api off xs) ws) v = (True, w')"
    using Cons.IH [OF st] Cons.prems(3) by auto
  then show ?case using v x by auto
qed simp

lemma sections_reliable:
  assumes "reliable_files api opened" and "e01_at files opened p c w"
  shows "length (ascii (metadata_text (e_metadata w))) < 2 ^ 32 \<Longrightarrow> \<exists>w'. WriteHeaderSection api w = (True, w')"
    and "\<exists>w'. WriteVolumeSection api w = (True, w')"
    and "4 * length (e_chunkTableOffsets w) < 2 ^ 32 \<Longrightarrow> \<exists>w'. WriteTableSection api w = (True, w')"
    and "\<exists>w'. WriteHashSection api w = (True, w')"
    and "\<exists>w'. WriteDoneSection api w = (True, w')"
proof -
  note puts = e_puts_reliable [OF assms(1), of p c, unfolded list.map]
  have put: "\<exists>w'. e_put api xs v = (True, w')" if "e01_at files opened p c v" "length xs < 2 ^ 32" for xs v
    using e_put_reliable [OF assms(1) that] by blast
  show "\<exists>w'. WriteHeaderSection api w = (True, w')" if "length (ascii (metadata_text (e_metadata w))) < 2 ^ 32"
    unfolding WriteHeaderSection_def Let_def
    by (rule puts [of _ "[_, _, _]", unfolded list.map]) (use assms(2) that in simp_all)
  show "\<exists>w'. WriteHashSection api w = (True, w')"
    unfolding WriteHashSection_def Let_def
    by (rule puts [of _ "[_, _]", unfolded list.map]) (use assms(2) in simp_all)
  show "\<exists>w'. WriteDoneSection api w = (True, w')"
    unfolding WriteDoneSection_def Let_def
    by (rule put) (use assms(2) in simp_all)
  have "length (table_bytes (e_chunkTableOffsets w)) = 4 * length (e_chunkTableOffsets w)"
    unfolding table_bytes_def by (rule length_concat_const) simp
  then show "\<exists>w'. WriteTableSection api w = (True, w')" if "4 * length (e_chunkTableOffsets w) < 2 ^ 32"
    using puts [of _ "[_, _]", unfolded list.map] puts [of _ "[_, _, _]", unfolded list.map] assms(2) that
    by (cases "e_chunkTableOffsets w = []") (simp_all add: WriteTableSection_def Let_def del: all_ok_Cons_True)
  let ?w = "w\<lparr> e_volumeSectionOffset := e_currentFileOffset w \<rparr>"
  let ?v = "volume_bytes (volume_section (e_totalPhysicalBytes ?w))"
  let ?h = "section_bytes (make_section ''volume'' (e_currentFileOffset ?w +
      of_nat (sizeof_EwfSectionHeader + 992 + 4)) (of_nat (sizeof_EwfSectionHeader + 992 + 4)))"
  have "\<exists>v. all_ok [e_put api ?h, e_put api ?v, e_put api (le32 (CalculateAdler32 ?v 1))] ?w = (True, v)"
    by (rule puts [of _ "[_, _, _]", unfolded list.map]) (use assms(2) in simp_all)
  then obtain v where
    "all_ok [e_put api ?h, e_put api ?v, e_put api (le32 (CalculateAdler32 ?v 1))] ?w = (True, v)" ..
  then show "\<exists>w'. WriteVolumeSection api w = (True, w')"
    by (simp add: WriteVolumeSection_def Let_def del: all_ok_Cons_True)
qed

lemma E01_open_reliable:
  assumes "reliable_files api opened" and "e01_fresh w"
    and c: "w_CreateFileW api p (GENERIC_READ OR GENERIC_WRITE) CREATE_ALWAYS (e_sys w) = (h, s)"
    and h: "h \<noteq> INVALID_HANDLE_VALUE" and m: "length (ascii (metadata_text (e_metadata w))) < 2 ^ 32"
  shows "\<exists>w'. E01Writer_PreflightAndOpen api p n phys w = (True, w')"
proof -
  let ?w = "(e_reset_file api h (w\<lparr> e_totalPhysicalBytes := phys, e_chunkBufferUsed := 0,
      e_totalChunks := 0, e_chunkTableOffsets := [], e_sys := s \<rparr>))\<lparr> e_currentFileOffset := 0 \<rparr>"
  have s: "h \<noteq> 0" "files s p = Some []" "opened s h = Some (p, 0)"
    using create_always [OF c h] by simp_all
  have w: "e01_at files opened p [] ?w" "e_metadata ?w = e_metadata w"
    using s h assms(2) by (simp_all add: e01_at_def e_reset_file_def handle_reset_def e01_fresh_def)
  obtain w1 where 1: "e_put api file_header_bytes ?w = (True, w1)"
    and at1: "e01_at files opened p file_header_bytes w1" "e01_same ?w w1"
    using e_put_reliable [OF assms(1) w(1), of file_header_bytes] by auto
  have m1: "e_metadata w1 = e_metadata w" using at1(2) w(2) by (simp add: e01_same_def)
  then obtain w2 where 2: "WriteHeaderSection api w1 = (True, w2)"
    using sections_reliable(1) [OF assms(1) at1(1)] m by auto
  obtain c2 where at2: "e01_at files opened p c2 w2"
    using WriteHeaderSection_True [OF 2 at1(1)] by blast
  obtain w3 where 3: "WriteVolumeSection api w2 = (True, w3)"
    using sections_reliable(2) [OF assms(1) at2] by blast
  obtain c3 where at3: "e01_at files opened p c3 w3"
    using WriteVolumeSection_True [OF 3 at2] by blast
  obtain w' where "e_put api (section_bytes (make_section ''sectors'' 0 (of_nat sizeof_EwfSectionHeader))) w3 = (True, w')"
    using e_put_reliable [OF assms(1) at3] by (metis small_header)
  then show ?thesis
    using c h 1 2 3 by (simp add: E01Writer_PreflightAndOpen_def Let_def)
qed

lemma E01_FlushAndClose_reliable:
  assumes "reliable_files api opened" and "e01_streaming files opened p m phys cs rest w"
    and "length rest < kChunkSize" and "\<And>h s. fst (w_FlushFileBuffers api h s)"
    and "length (e01_file m phys (concat cs @ rest)) < 2 ^ 64"
    and "4 * length (chunks (concat cs @ rest)) < 2 ^ 32"
  shows "\<exists>w'. E01Writer_FlushAndClose api w = (True, w')"
proof -
  let ?cs = "chunks (concat cs @ rest)"
  have cs: "\<forall>c \<in> set cs. length c = kChunkSize" using assms(2) by (simp add: e01_streaming_def)
  obtain u where fl: "FlushActiveChunk api w = (True, u)"
    using FlushActiveChunk_reliable [OF assms(1,2)] assms(3) by auto
  have u: "e01_streaming files opened p m phys ?cs [] u"
  proof (cases "rest = []")
    case True
    then have "u = w" using fl assms(2) by (simp add: FlushActiveChunk_def e01_streaming_def)
    then show ?thesis using assms(2) True chunks_concat [OF cs, of "[]"] by simp
  next
    case False
    then show ?thesis
      using FlushActiveChunk_True [OF fl assms(2) _ False] assms(3) chunks_concat [OF cs, of rest] by simp
  qed
  have at_u: "e01_at files opened p
      (e01_prelude m phys @ section_bytes (make_section ''sectors'' 0 76) @ chunk_stream ?cs) u"
    and so: "e_sectorsSectionOffset u = of_nat (length (e01_prelude m phys))"
    and tab: "e_chunkTableOffsets u = map chunk_offset [0..<length ?cs]"
    using u by (simp_all add: e01_streaming_def)
  have small: "length (e01_prelude m phys @ section_bytes (make_section ''sectors'' 0 76) @ chunk_stream ?cs) < 2 ^ 64"
    using assms(5) by (simp add: e01_file_def Let_def)
  let ?v = "rewrite_sectors_header api u"
  obtain c where at: "e01_at files opened p c ?v" and tv: "e_chunkTableOffsets ?v = map chunk_offset [0..<length ?cs]"
    using rewrite_sectors_header_at [OF assms(1) at_u _ small so] tab by auto
  obtain v1 where 1: "WriteTableSection api ?v = (True, v1)"
    using sections_reliable(3) [OF assms(1) at] assms(6) tv by auto
  obtain c1 where at1: "e01_at files opened p c1 v1"
    using WriteTableSection_True [OF 1 at tv] by blast
  obtain v2 where 2: "WriteHashSection api v1 = (True, v2)"
    using sections_reliable(4) [OF assms(1) at1] by blast
  obtain v3 where 3: "WriteDoneSection api v2 = (True, v3)"
    using sections_reliable(5) [OF assms(1) WriteHashSection_True [OF 2 at1]] by blast
  obtain s where "w_FlushFileBuffers api (e_file v3) (e_sys v3) = (True, s)"
    using assms(4) by (metis prod.collapse)
  moreover have "e_file w \<noteq> INVALID_HANDLE_VALUE"
    using assms(2) by (simp add: e01_streaming_def e01_at_def)
  moreover have "all_ok [WriteTableSection api, WriteHashSection api, WriteDoneSection api] ?v = (True, v3)"
    using 1 2 3 by simp
  ultimately show ?thesis
    using fl by (simp add: E01Writer_FlushAndClose_def del: all_ok_Cons_True)
qed

lemma e01_session_reliable:
  assumes "reliable_files api opened" and "\<And>h s. fst (w_FlushFileBuffers api h s)" and "e01_fresh w"
    and "w_CreateFileW api p (GENERIC_READ OR GENERIC_WRITE) CREATE_ALWAYS (e_sys w) = (h, s)"
    and "h \<noteq> INVALID_HANDLE_VALUE" and "length (ascii (metadata_text (e_metadata w))) < 2 ^ 32"
    and "\<forall>(off, xs) \<in> set ws. xs \<noteq> []"
    and "length (e01_file (e_metadata w) phys (e01_data ws)) < 2 ^ 64"
    and "4 * length (chunks (e01_data ws)) < 2 ^ 32"
  shows "\<exists>w'. e01_session api p lsize phys ws w = (True, w')"
proof -
  obtain v where op: "E01Writer_PreflightAndOpen api p lsize phys w = (True, v)"
    using E01_open_reliable [OF assms(1,3,4,5,6)] by blast
  have fresh: "e_file w = INVALID_HANDLE_VALUE" "length (e_chunkBuffer w) = kChunkSize"
    using assms(3) by (simp_all add: e01_fresh_def)
  have st: "e01_streaming files opened p (e_metadata w) phys [] [] v" "length ([] :: bytes) < kChunkSize"
    using E01_open_streaming [OF op fresh] by (simp_all add: kChunkSize_def)
  obtain u where wr: "all_ok (map (\<lambda>(off, xs). E01Writer_WriteAt api off xs) ws) v = (True, u)"
    using e01_writes_reliable [OF assms(1) st assms(7)] by blast
  obtain cs rest where st': "e01_streaming files opened p (e_metadata w) phys cs rest u" "length rest < kChunkSize"
    and eq: "concat cs @ rest = e01_data ws"
    using e01_writes_streaming [OF wr st] by auto
  obtain w' where "E01Writer_FlushAndClose api u = (True, w')"
    using E01_FlushAndClose_reliable [OF assms(1) st' assms(2)] assms(8,9) unfolding eq by blast
  then show ?thesis
    using op wr by (auto simp: e01_session_def all_ok_append_True)
qed

end

section \<open>The session on the volume\<close>

lemma length_chunks: "length (chunks xs) = (length xs + 65535) div 65536"
proof (induction xs rule: chunks.induct)
  case (1 xs)
  then show ?case
    by (subst chunks.simps) (auto simp: kChunkSize_def div_if [of "_ + 65535" 65536])
qed

lemma length_data_section: "length typ \<le> 16 \<Longrightarrow> length (data_section typ pos xs) = 80 + length xs"
  by (simp add: data_section_def Let_def)

lemma length_e01_file:
  "length (e01_file m phys xs) =
     1509 + length (metadata_text m) + 65544 * length (chunks xs)"
proof -
  have "length (chunk_stream (chunks xs)) = 65540 * length (chunks xs)"
    by (rule length_chunk_stream) (simp add: chunks_length)
  then show ?thesis
    by (simp add: e01_file_def e01_prelude_def Let_def length_data_section ascii_def)
qed

definition bench_e01 :: "disk E01Writer" where
  "bench_e01 = E01Writer_Configure [] KernelHints_default EvidenceMetadata_default (E01Writer_init blank_disk)"

lemma bench_e01_facts:
  "e01_fresh bench_e01" "e_metadata bench_e01 = EvidenceMetadata_default" "e_sys bench_e01 = blank_disk"
  by (simp_all add: bench_e01_def e01_fresh_configured) (simp_all add: E01Writer_Configure_def E01Writer_init_def)

lemma bench_metadata_length: "length (metadata_text EvidenceMetadata_default) < 400"
  by (simp add: metadata_text_def or_default_def EvidenceMetadata_default_def tab_def eol_def)

lemma bench_session_runs:
  "\<exists>w'. e01_session steady_api (wide ''ram.e01'') 64 3 [(16, [1, 2]), (32, [3])] bench_e01 = (True, w')"
proof (rule steady.e01_session_reliable)
  show "reliable_files steady_api disk_open" by (rule steady_reliable)
  show "e01_fresh bench_e01" by (rule bench_e01_facts)
  have "fst (w_CreateFileW steady_api (wide ''ram.e01'') (GENERIC_READ OR GENERIC_WRITE) CREATE_ALWAYS blank_disk) = 2"
    by code_simp
  then show "w_CreateFileW steady_api (wide ''ram.e01'') (GENERIC_READ OR GENERIC_WRITE) CREATE_ALWAYS (e_sys bench_e01) =
      (2, snd (w_CreateFileW steady_api (wide ''ram.e01'') (GENERIC_READ OR GENERIC_WRITE) CREATE_ALWAYS blank_disk))"
    unfolding bench_e01_facts by (metis prod.collapse)
  show "length (e01_file (e_metadata bench_e01) 3 (e01_data [(16, [1, 2]), (32, [3])])) < 2 ^ 64"
    using bench_metadata_length by (simp add: length_e01_file bench_e01_facts e01_data_def length_chunks)
  show "length (ascii (metadata_text (e_metadata bench_e01))) < 2 ^ 32"
    using bench_metadata_length by (simp add: bench_e01_facts ascii_def)
qed (simp_all add: steady_api_def INVALID_HANDLE_VALUE_def e01_data_def length_chunks)

lemma bench_session_small: "length (e01_file (e_metadata bench_e01) 3 (e01_data [(16, [1, 2]), (32, [3])])) < 2 ^ 64"
  using bench_metadata_length by (simp add: length_e01_file bench_e01_facts e01_data_def length_chunks)

lemma ex_conj_fact: "\<exists>x. P x \<Longrightarrow> (\<And>x. P x \<Longrightarrow> Q x) \<Longrightarrow> \<exists>x. P x \<and> Q x"
  by blast

section \<open>Properties\<close>

text \<open>
  C16: \<open>CalculateAdler32\<close>, which reduces two 32-bit sums after every byte, computes the Adler-32
  checksum of RFC 1950: the sums taken over unbounded numbers and reduced once at the end. No
  intermediate sum overflows.
\<close>

theorem adler32_is_rfc1950: "unat (CalculateAdler32 xs 1) = adler32_spec xs"
  by (rule CalculateAdler32_spec)

text \<open>
  C9: On a system whose writes and positionings do not fail, a session of the writer that reports
  success leaves the one file that the pure encoder \<open>e01_file\<close> gives for the metadata, the announced
  size and the concatenation of the written pieces, whatever the sizes of the pieces and whatever
  offsets they were written at; the file is closed.
\<close>

theorem e01_session_writes_encoding:
  assumes "win32_files api files opened" and "reliable_files api opened" and "e01_fresh w"
    and "e01_session api p lsize phys ws w = (True, w')"
    and "length (e01_file (e_metadata w) phys (e01_data ws)) < 2 ^ 64"
  shows "files (e_sys w') p = Some (e01_file (e_metadata w) phys (e01_data ws)) \<and>
    e_file w' = INVALID_HANDLE_VALUE"
  by (rule win32_files.e01_session_True [OF assms(1,4,3,2,5)])

theorem e01_session_writes_encoding_witness:
  "\<exists>w'. e01_session steady_api (wide ''ram.e01'') 64 3 [(16, [1, 2]), (32, [3])] bench_e01 = (True, w') \<and>
    disk_files (e_sys w') (wide ''ram.e01'') =
      Some (e01_file (e_metadata bench_e01) 3 (e01_data [(16, [1, 2]), (32, [3])])) \<and>
    e_file w' = INVALID_HANDLE_VALUE"
  by (rule ex_conj_fact [OF bench_session_runs])
    (rule e01_session_writes_encoding [OF steady.win32_files_axioms steady_reliable
        bench_e01_facts(1) _ bench_session_small])

text \<open>
  C17: In that file a reader that starts behind the file header and follows the next offsets meets
  exactly the sections header, volume, sectors, table, hash and done, in this order, each with a
  valid checksum of its header, and the last one ends with the file.
\<close>

theorem e01_sections_chain:
  assumes "win32_files api files opened" and "reliable_files api opened" and "e01_fresh w"
    and "e01_session api p lsize phys ws w = (True, w')"
    and "length (e01_file (e_metadata w) phys (e01_data ws)) < 2 ^ 64"
  shows "\<exists>c offs. files (e_sys w') p = Some c \<and> length offs = 6 \<and>
    section_walk 6 c 13 = zip (map ascii e01_section_names) (map (\<lambda>off. (off, True)) offs) \<and>
    last offs + 76 = length c"
  using win32_files.e01_session_True [OF assms(1,4,3,2,5)] e01_chain [OF assms(5)] by blast

theorem e01_sections_chain_witness:
  "\<exists>w'. e01_session steady_api (wide ''ram.e01'') 64 3 [(16, [1, 2]), (32, [3])] bench_e01 = (True, w') \<and>
    (\<exists>c offs. disk_files (e_sys w') (wide ''ram.e01'') = Some c \<and> length offs = 6 \<and>
      section_walk 6 c 13 = zip (map ascii e01_section_names) (map (\<lambda>off. (off, True)) offs) \<and>
      last offs + 76 = length c)"
  by (rule ex_conj_fact [OF bench_session_runs])
    (rule e01_sections_chain [OF steady.win32_files_axioms steady_reliable
        bench_e01_facts(1) _ bench_session_small])

text \<open>
  C18: While the chunk offsets fit into the 32 bits of the table (a little under 4 GiB of data), a
  reader that goes from the table to the chunks and checks every chunk's sum gets back the written
  bytes in order, filled up with zeros to a multiple of 64 KiB.
\<close>

theorem e01_reads_back:
  assumes "win32_files api files opened" and "reliable_files api opened" and "e01_fresh w"
    and "e01_session api p lsize phys ws w = (True, w')"
    and "length (e01_file (e_metadata w) phys (e01_data ws)) < 2 ^ 64"
    and "76 + 65540 * ((length (e01_data ws) + 65535) div 65536) < 2 ^ 32"
  shows "\<exists>c k. files (e_sys w') p = Some c \<and> e01_read c = Some (e01_data ws @ replicate k 0) \<and>
    k < kChunkSize \<and> kChunkSize dvd length (e01_data ws) + k"
proof (intro exI conjI)
  let ?xs = "e01_data ws" and ?k = "kChunkSize * length (chunks (e01_data ws)) - length (e01_data ws)"
  show "files (e_sys w') p = Some (e01_file (e_metadata w) phys ?xs)"
    using win32_files.e01_session_True [OF assms(1,4,3,2,5)] by blast
  show "e01_read (e01_file (e_metadata w) phys ?xs) = Some (?xs @ replicate ?k 0)"
    by (rule e01_read_file [OF assms(5)]) (use assms(6) in \<open>simp only: length_chunks\<close>)
  have "length ?xs + ?k = kChunkSize * length (chunks ?xs)" "?k < kChunkSize"
    unfolding kChunkSize_def length_chunks by linarith+
  then show "?k < kChunkSize" "kChunkSize dvd length ?xs + ?k" by simp_all
qed

theorem e01_reads_back_witness:
  "\<exists>w'. e01_session steady_api (wide ''ram.e01'') 64 3 [(16, [1, 2]), (32, [3])] bench_e01 = (True, w') \<and>
    (\<exists>c k. disk_files (e_sys w') (wide ''ram.e01'') = Some c \<and>
      e01_read c = Some (e01_data [(16, [1, 2]), (32, [3])] @ replicate k 0) \<and>
      k < kChunkSize \<and> kChunkSize dvd length (e01_data [(16 :: u64, [1, 2]), (32, [3])]) + k)"
  by (rule ex_conj_fact [OF bench_session_runs])
    (rule e01_reads_back [OF steady.win32_files_axioms steady_reliable
        bench_e01_facts(1) _ bench_session_small], simp_all add: e01_data_def)

text \<open>
  Progress. On a system whose writes, positionings and flushes do not fail, a session that can
  create its file and writes non-empty pieces completes: no buffer state makes the chunking, the
  sections or the closing fail.
\<close>

theorem e01_session_completes:
  assumes "win32_files api files opened" and "reliable_files api opened"
    and "\<And>h s. fst (w_FlushFileBuffers api h s)" and "e01_fresh w"
    and "fst (w_CreateFileW api p (GENERIC_READ OR GENERIC_WRITE) CREATE_ALWAYS (e_sys w)) \<noteq> INVALID_HANDLE_VALUE"
    and "length (metadata_text (e_metadata w)) < 2 ^ 32" and "\<forall>(off, xs) \<in> set ws. xs \<noteq> []"
    and "length (e01_data ws) < 2 ^ 45"
  shows "\<exists>w'. e01_session api p lsize phys ws w = (True, w')"
proof -
  obtain h s where c: "w_CreateFileW api p (GENERIC_READ OR GENERIC_WRITE) CREATE_ALWAYS (e_sys w) = (h, s)"
    by fastforce
  have n: "4 * length (chunks (e01_data ws)) < 2 ^ 32"
    using assms(8) unfolding length_chunks by simp
  then have "length (e01_file (e_metadata w) phys (e01_data ws)) < 2 ^ 64"
    using assms(6) unfolding length_e01_file by simp
  with n show ?thesis
    using win32_files.e01_session_reliable [OF assms(1-4) c _ _ assms(7)] assms(5,6) c
    by (simp add: ascii_def)
qed

theorem e01_session_completes_witness:
  "\<exists>w'. e01_session steady_api (wide ''ram.e01'') 64 3 [(16, [1, 2]), (32, [3])] bench_e01 = (True, w')"
proof (rule e01_session_completes [OF steady.win32_files_axioms steady_reliable _ bench_e01_facts(1)])
  show "fst (w_CreateFileW steady_api (wide ''ram.e01'') (GENERIC_READ OR GENERIC_WRITE) CREATE_ALWAYS
      (e_sys bench_e01)) \<noteq> INVALID_HANDLE_VALUE"
    unfolding bench_e01_facts by code_simp
  show "length (metadata_text (e_metadata bench_e01)) < 2 ^ 32"
    using bench_metadata_length by (simp add: bench_e01_facts)
qed (simp_all add: steady_api_def e01_data_def)

section \<open>Limits of the format as written\<close>

text \<open>
  The table entries are 32-bit offsets from the sectors section: at chunk 65532, a little under
  4 GiB, the entry wraps around and points into the section's own header, so that a longer image
  cannot be read back through its table.
\<close>

lemma chunk_offset_wraps: "unat (chunk_offset 65532) = 60 \<and> \<not> unat (chunk_offset 65532) = 76 + 65540 * 65532"
  by (simp add: chunk_offset_def)

text \<open>The position of the data is ignored: two writes leave the same file wherever they belong.\<close>

lemma E01Writer_ignores_offset: "E01Writer_WriteAt api off xs w = E01Writer_WriteAt api off' xs w"
  by (simp add: E01Writer_WriteAt_def)

end
