(* ===== verification/Evidence.thy ===== *)
theory Evidence
  imports Acquire RawWriter ZdmpWriter E01Writer MapJson Sha256
begin

text \<open>
  The evidence transaction, \<open>cli/evidence_transaction.cpp\<close>: capture into staging files, then publish
  the sidecars and last the image. The virtual dispatch on \<open>IRawWriter\<close> is the datatype
  \<open>evidence_writer\<close>; a writer carries the state of the file system it works on, which the
  transaction takes over between and after the writer's calls.
\<close>

section \<open>Paths\<close>

record EvidencePaths =
  ep_rawFinal :: wstring
  ep_rawPartial :: wstring
  ep_mapFinal :: wstring
  ep_mapPartial :: wstring
  ep_hashFinal :: wstring
  ep_hashPartial :: wstring

definition BuildEvidencePaths :: "wstring \<Rightarrow> EvidencePaths" where
  "BuildEvidencePaths outputPath = \<lparr>
     ep_rawFinal = outputPath,
     ep_rawPartial = outputPath @ wide ''.partial'',
     ep_mapFinal = outputPath @ wide ''.map.json'',
     ep_mapPartial = outputPath @ wide ''.map.json.partial'',
     ep_hashFinal = outputPath @ wide ''.sha256'',
     ep_hashPartial = outputPath @ wide ''.sha256.partial'' \<rparr>"

text \<open>
  \<open>std::filesystem::path\<close> on Windows: the root name is a drive letter with its colon, or two slashes
  and what follows up to the next slash; the file name is what follows the last slash behind it; the
  extension starts at the last dot of the file name, in front of an alternate stream, unless that
  dot is the first character or the name is two dots.
\<close>

definition is_slash :: "wchar \<Rightarrow> bool" where
  "is_slash c \<longleftrightarrow> c = 0x5C \<or> c = 0x2F"

definition is_drive_letter :: "wchar \<Rightarrow> bool" where
  "is_drive_letter c \<longleftrightarrow> (0x41 \<le> c \<and> c \<le> 0x5A) \<or> (0x61 \<le> c \<and> c \<le> 0x7A)"

fun relative_path :: "wstring \<Rightarrow> wstring" where
  "relative_path (c # d # p) =
     (if is_drive_letter c \<and> d = 0x3A then p
      else if is_slash c \<and> is_slash d \<and> p \<noteq> [] \<and> \<not> is_slash (p ! 0)
      then dropWhile (\<lambda>x. \<not> is_slash x) p
      else c # d # p)"
| "relative_path p = p"

definition path_filename :: "wstring \<Rightarrow> wstring" where
  "path_filename p = rev (takeWhile (\<lambda>c. \<not> is_slash c) (rev (relative_path p)))"

definition path_extension :: "wstring \<Rightarrow> wstring" where
  "path_extension p =
     (let name = takeWhile (\<lambda>c. c \<noteq> 0x3A) (path_filename p);
          ext = takeWhile (\<lambda>c. c \<noteq> 0x2E) (rev name)
      in if length name \<le> 1 then []
         else if last name = 0x2E then (if name = [0x2E, 0x2E] then [] else [0x2E])
         else if length ext + 1 < length name then 0x2E # rev ext
         else [])"

section \<open>Files by name\<close>

definition PathExists :: "'s win32 \<Rightarrow> wstring \<Rightarrow> 's \<Rightarrow> bool \<times> 's" where
  "PathExists api path s =
     (case w_GetFileAttributesW api path s of (a, s) \<Rightarrow> (a \<noteq> INVALID_FILE_ATTRIBUTES, s))"

definition DeleteIfPresent :: "'s win32 \<Rightarrow> wstring \<Rightarrow> 's \<Rightarrow> 's" where
  "DeleteIfPresent api path s = (if path \<noteq> [] then snd (w_DeleteFileW api path s) else s)"

definition RemoveStagingFiles :: "'s win32 \<Rightarrow> EvidencePaths \<Rightarrow> 's \<Rightarrow> 's" where
  "RemoveStagingFiles api paths s =
     DeleteIfPresent api (ep_hashPartial paths)
       (DeleteIfPresent api (ep_mapPartial paths)
         (DeleteIfPresent api (ep_rawPartial paths) s))"

definition RemoveFinalizedSidecars :: "'s win32 \<Rightarrow> EvidencePaths \<Rightarrow> 's \<Rightarrow> 's" where
  "RemoveFinalizedSidecars api paths s =
     DeleteIfPresent api (ep_hashFinal paths) (DeleteIfPresent api (ep_mapFinal paths) s)"

fun any_exists :: "'s win32 \<Rightarrow> wstring list \<Rightarrow> 's \<Rightarrow> bool \<times> 's" where
  "any_exists api [] s = (False, s)"
| "any_exists api (p # ps) s =
     (case PathExists api p s of
        (True, s) \<Rightarrow> (True, s)
      | (False, s) \<Rightarrow> any_exists api ps s)"

definition path_list :: "EvidencePaths \<Rightarrow> wstring list" where
  "path_list paths = [ep_rawFinal paths, ep_rawPartial paths, ep_mapFinal paths, ep_mapPartial paths,
     ep_hashFinal paths, ep_hashPartial paths]"

definition HasAnyCollision :: "'s win32 \<Rightarrow> EvidencePaths \<Rightarrow> 's \<Rightarrow> bool \<times> 's" where
  "HasAnyCollision api paths = any_exists api (path_list paths)"

section \<open>Results\<close>

datatype EvidenceCaptureStatus = Complete | Incomplete | Cancelled | Failed

record EvidenceCaptureResult =
  ec_status :: EvidenceCaptureStatus
  ec_summary :: AcquisitionSummary
  ec_error :: wstring
  ec_systemError :: u32

definition EvidenceCaptureResult_default :: EvidenceCaptureResult where
  "EvidenceCaptureResult_default = \<lparr> ec_status = Failed, ec_summary = AcquisitionSummary_default,
     ec_error = [], ec_systemError = ERROR_SUCCESS \<rparr>"

definition HasFinalizedBundle :: "EvidenceCaptureResult \<Rightarrow> bool" where
  "HasFinalizedBundle r \<longleftrightarrow> ec_status r = Complete \<or> ec_status r = Incomplete"

definition Failure :: "EvidenceCaptureStatus \<Rightarrow> wstring \<Rightarrow> u32 \<Rightarrow> EvidenceCaptureResult" where
  "Failure status message systemError =
     EvidenceCaptureResult_default\<lparr> ec_status := status, ec_error := message, ec_systemError := systemError \<rparr>"

section \<open>The writer chosen\<close>

datatype 's evidence_writer = WRaw "'s RawWriter" | WZdmp "'s ZdmpWriter" | WE01 "'s E01Writer"

fun writer_sys :: "'s evidence_writer \<Rightarrow> 's" where
  "writer_sys (WRaw w) = rw_sys w"
| "writer_sys (WZdmp w) = zw_sys w"
| "writer_sys (WE01 w) = e_sys w"

fun on_sys :: "'s \<Rightarrow> 's evidence_writer \<Rightarrow> 's evidence_writer" where
  "on_sys s (WRaw w) = WRaw (w\<lparr> rw_sys := s \<rparr>)"
| "on_sys s (WZdmp w) = WZdmp (w\<lparr> zw_sys := s \<rparr>)"
| "on_sys s (WE01 w) = WE01 (w\<lparr> e_sys := s \<rparr>)"

text \<open>Dispatch: one call of a method of the class behind the pointer.\<close>

fun dispatch ::
  "('s RawWriter fallible) \<Rightarrow> ('s ZdmpWriter fallible) \<Rightarrow> ('s E01Writer fallible) \<Rightarrow> 's evidence_writer fallible" where
  "dispatch f g h (WRaw w) = map_prod id WRaw (f w)"
| "dispatch f g h (WZdmp w) = map_prod id WZdmp (g w)"
| "dispatch f g h (WE01 w) = map_prod id WE01 (h w)"

fun writer_Configure ::
  "MemoryRun list \<Rightarrow> KernelHints \<Rightarrow> EvidenceMetadata \<Rightarrow> 's evidence_writer \<Rightarrow> 's evidence_writer" where
  "writer_Configure runs hints metadata (WRaw w) = WRaw w"
| "writer_Configure runs hints metadata (WZdmp w) = WZdmp (ZdmpWriter_Configure runs hints metadata w)"
| "writer_Configure runs hints metadata (WE01 w) = WE01 (E01Writer_Configure runs hints metadata w)"

fun writer_Close :: "'s win32 \<Rightarrow> 's evidence_writer \<Rightarrow> 's evidence_writer" where
  "writer_Close api (WRaw w) = WRaw (RawWriter_Close api w)"
| "writer_Close api (WZdmp w) = WZdmp (ZdmpWriter_Close api w)"
| "writer_Close api (WE01 w) = WE01 (E01Writer_Close api w)"

fun writer_LastError :: "'s evidence_writer \<Rightarrow> u32" where
  "writer_LastError (WRaw w) = rw_lastError w"
| "writer_LastError (WZdmp w) = zw_lastError w"
| "writer_LastError (WE01 w) = e_lastError w"

fun writer_IsSparse :: "'s evidence_writer \<Rightarrow> bool" where
  "writer_IsSparse (WRaw w) = rw_sparse w"
| "writer_IsSparse _ = False"

definition evidence_writer_class :: "'s win32 \<Rightarrow> 's evidence_writer IRawWriter" where
  "evidence_writer_class api = \<lparr>
     wr_Configure = writer_Configure,
     wr_PreflightAndOpen = (\<lambda>p n phys. dispatch (RawWriter_PreflightAndOpen api p n phys)
        (ZdmpWriter_PreflightAndOpen api p n phys) (E01Writer_PreflightAndOpen api p n phys)),
     wr_WriteAt = (\<lambda>off xs. dispatch (RawWriter_WriteAt api off xs)
        (ZdmpWriter_WriteAt api off xs) (E01Writer_WriteAt api off xs)),
     wr_FlushAndClose = dispatch (RawWriter_FlushAndClose api)
        (ZdmpWriter_FlushAndClose api) (E01Writer_FlushAndClose api),
     wr_Close = writer_Close api, wr_IsSparse = writer_IsSparse, wr_LastError = writer_LastError \<rparr>"

text \<open>A format of \<open>Raw\<close> gives way to the extension of the path.\<close>

definition chosen_format :: "OutputFormat \<Rightarrow> wstring \<Rightarrow> OutputFormat" where
  "chosen_format format outputPath =
     (let ext = map towlower (path_extension outputPath)
      in if format = Raw
         then (if ext = wide ''.zdmp'' \<or> ext = wide ''.dmp'' then Zdmp
               else if ext = wide ''.e01'' then E01 else format)
         else format)"

definition make_writer :: "OutputFormat \<Rightarrow> 's \<Rightarrow> 's evidence_writer" where
  "make_writer format s =
     (if format = Zdmp then WZdmp (ZdmpWriter_init s)
      else if format = E01 then WE01 (E01Writer_init s)
      else WRaw (RawWriter_init s))"

section \<open>The transaction\<close>

text \<open>What the transaction holds while it runs: the device, the writer with its file system, the
  hasher with its provider, and the host.\<close>

record ('d, 's, 'c) capture =
  cp_dev :: 'd
  cp_wr :: "'s evidence_writer"
  cp_hash :: "'c Sha256"
  cp_host :: host

definition cp_sys :: "('d, 's, 'c) capture \<Rightarrow> 's" where
  "cp_sys c = writer_sys (cp_wr c)"

definition with_sys :: "('d, 's, 'c) capture \<Rightarrow> 's \<Rightarrow> ('d, 's, 'c) capture" where
  "with_sys c s = c\<lparr> cp_wr := on_sys s (cp_wr c) \<rparr>"

text \<open>Remove the staging files and report a failure.\<close>

definition give_up ::
  "'s win32 \<Rightarrow> EvidencePaths \<Rightarrow> wstring \<Rightarrow> u32 \<Rightarrow> ('d, 's, 'c) capture \<Rightarrow>
   EvidenceCaptureResult \<times> ('d, 's, 'c) capture" where
  "give_up api paths message systemError c =
     (Failure Failed message systemError, with_sys c (RemoveStagingFiles api paths (cp_sys c)))"

text \<open>Publication: the map, the hash, and last the image.\<close>

definition publish ::
  "'s win32 \<Rightarrow> EvidencePaths \<Rightarrow> AcquisitionSummary \<Rightarrow> 's \<Rightarrow> EvidenceCaptureResult \<times> 's" where
  "publish api paths summary s =
     (case PromoteStagingFile api (ep_mapPartial paths) (ep_mapFinal paths) s of
        (False, s) \<Rightarrow>
          (Failure Failed (wide ''The provenance map could not be promoted to its final name.'') (w_GetLastError api s),
           RemoveStagingFiles api paths s)
      | (True, s) \<Rightarrow>
          (case PromoteStagingFile api (ep_hashPartial paths) (ep_hashFinal paths) s of
             (False, s) \<Rightarrow>
               (Failure Failed (wide ''The SHA-256 sidecar could not be promoted to its final name.'') (w_GetLastError api s),
                RemoveFinalizedSidecars api paths (RemoveStagingFiles api paths s))
           | (True, s) \<Rightarrow>
               (case PromoteStagingFile api (ep_rawPartial paths) (ep_rawFinal paths) s of
                  (False, s) \<Rightarrow>
                    (Failure Failed (wide ''The RAW image could not be promoted to its final name.'') (w_GetLastError api s),
                     RemoveFinalizedSidecars api paths (RemoveStagingFiles api paths s))
                | (True, s) \<Rightarrow>
                    (\<lparr> ec_status = (if as_topologyChanged summary \<or> as_unreadableBytes summary \<noteq> 0
                                    then Incomplete else Complete),
                       ec_summary = summary, ec_error = [], ec_systemError = ERROR_SUCCESS \<rparr>, s))))"

text \<open>From a finished acquisition to the staged bundle, and its publication.\<close>

definition seal ::
  "'s win32 \<Rightarrow> 'c cng_api \<Rightarrow> utf8_api \<Rightarrow> wstring \<Rightarrow> AcquisitionSummary \<Rightarrow> ('d, 's, 'c) capture \<Rightarrow>
   EvidenceCaptureResult \<times> ('d, 's, 'c) capture" where
  "seal api provider conv outputPath summary c =
     (let paths = BuildEvidencePaths outputPath; W = evidence_writer_class api in
      case Sha256_Finish provider (cp_hash c) of
        (False, sha, h) \<Rightarrow>
          give_up api paths (wide ''SHA-256 finalization failed; no evidence bundle was published.'') ERROR_SUCCESS
            (c\<lparr> cp_hash := h, cp_wr := wr_Close W (cp_wr c) \<rparr>)
      | (True, sha, h) \<Rightarrow>
          (let summary = summary\<lparr> as_sha256 := sha \<rparr> in
           case wr_FlushAndClose W (cp_wr c) of
             (False, w) \<Rightarrow>
               give_up api paths
                 (wide ''The staged evidence image could not be flushed durably; no evidence bundle was published.'')
                 (wr_LastError W w) (c\<lparr> cp_hash := h, cp_wr := w \<rparr>)
           | (True, w) \<Rightarrow>
               (let c = c\<lparr> cp_hash := h, cp_wr := w \<rparr> in
                if as_acquiredBytes summary > u64_max - as_unreadableBytes summary \<or>
                   as_acquiredBytes summary + as_unreadableBytes summary \<noteq> as_physicalBytes summary
                then give_up api paths
                  (wide ''Acquisition byte accounting violated an internal forensic invariant; no evidence bundle was published.'')
                  ERROR_INVALID_DATA c
                else
                  (case WriteMapJson api (ep_mapPartial paths) summary (cp_sys c) of
                     (False, s) \<Rightarrow>
                       give_up api paths
                         (wide ''The provenance map could not be written durably; no evidence bundle was published.'')
                         ERROR_SUCCESS (with_sys c s)
                   | (True, s) \<Rightarrow>
                       (case WriteSha256Sidecar api conv (ep_hashPartial paths) (path_filename outputPath)
                               (as_sha256 summary) s of
                          (False, s) \<Rightarrow>
                            give_up api paths
                              (wide ''The SHA-256 sidecar could not be written durably; no evidence bundle was published.'')
                              ERROR_SUCCESS (with_sys c s)
                        | (True, s) \<Rightarrow>
                            (case publish api paths summary s of (r, s) \<Rightarrow> (r, with_sys c s)))))))"

text \<open>The end of a failed acquisition: two separate reads of the cancellation flag.\<close>

definition abort_capture ::
  "'d IDeviceSession \<Rightarrow> 's win32 \<Rightarrow> EvidencePaths \<Rightarrow> AcquisitionSummary \<Rightarrow> ('d, 's, 'c) capture \<Rightarrow>
   EvidenceCaptureResult \<times> ('d, 's, 'c) capture" where
  "abort_capture D api paths summary c =
     (let c = c\<lparr> cp_wr := wr_Close (evidence_writer_class api) (cp_wr c) \<rparr>;
          c = with_sys c (RemoveStagingFiles api paths (cp_sys c)) in
      case cancel_load (cp_host c) of (c1, host) \<Rightarrow>
        (case cancel_load host of (c2, host) \<Rightarrow>
           (\<lparr> ec_status = (if c1 then Cancelled else Failed), ec_summary = summary,
              ec_error = wide (if c2 then ''Memory acquisition was cancelled.''
                else ''Memory acquisition failed before a complete evidence transaction could be finalized.''),
              ec_systemError = dev_LastError D (cp_dev c) \<rparr>,
            c\<lparr> cp_host := host \<rparr>)))"

text \<open>From the opened writer on.\<close>

definition capture_with ::
  "'d IDeviceSession \<Rightarrow> 's win32 \<Rightarrow> 'c cng_api \<Rightarrow> utf8_api \<Rightarrow> wstring \<Rightarrow> AcquisitionConfig \<Rightarrow>
   u64 \<Rightarrow> u64 \<Rightarrow> ('d, 's, 'c) capture \<Rightarrow> EvidenceCaptureResult \<times> ('d, 's, 'c) capture" where
  "capture_with D api provider conv outputPath config highestPhysicalEnd totalPhysicalBytes c =
     (let paths = BuildEvidencePaths outputPath; W = evidence_writer_class api in
      case wr_PreflightAndOpen W (ep_rawPartial paths) highestPhysicalEnd totalPhysicalBytes (cp_wr c) of
        (False, w) \<Rightarrow>
          (Failure Failed (wide ''Unable to create and preflight the staged evidence image.'') (wr_LastError W w),
           c\<lparr> cp_wr := w \<rparr>)
      | (True, w) \<Rightarrow>
          (case Acquire D W (Sha256_class provider) config (cp_dev c) w (cp_hash c) (cp_host c) of
             (ok, r) \<Rightarrow>
               (let c = c\<lparr> cp_dev := ar_dev r, cp_wr := ar_wr r, cp_hash := ar_hash r, cp_host := ar_host r \<rparr>
                in if \<not> ok then abort_capture D api paths (ar_summary r) c
                   else seal api provider conv outputPath (ar_summary r) c)))"

text \<open>
  The whole function. Leaving it destroys the writer and the hasher, which close what they still
  hold open.
\<close>

definition release ::
  "'s win32 \<Rightarrow> 'c cng_api \<Rightarrow> EvidenceCaptureResult \<times> ('d, 's, 'c) capture \<Rightarrow>
   EvidenceCaptureResult \<times> 'd \<times> 's \<times> 'c \<times> host" where
  "release api provider rc = (case rc of (r, c) \<Rightarrow>
     (r, cp_dev c, writer_sys (writer_Close api (cp_wr c)), sha_sys (Sha256_Reset provider (cp_hash c)), cp_host c))"

definition CaptureEvidenceToFile ::
  "'d IDeviceSession \<Rightarrow> 's win32 \<Rightarrow> 'c cng_api \<Rightarrow> utf8_api \<Rightarrow> wstring \<Rightarrow> AcquisitionConfig \<Rightarrow>
   'd \<Rightarrow> 's \<Rightarrow> 'c \<Rightarrow> host \<Rightarrow> EvidenceCaptureResult \<times> 'd \<times> 's \<times> 'c \<times> host" where
  "CaptureEvidenceToFile D api provider conv outputPath config d s k host =
     (if outputPath = [] \<or> outputPath = wide ''-''
      then (Failure Failed (wide ''A filesystem evidence path is required. Raw stdout acquisition is not supported because it cannot preserve unreadable-byte provenance.'') ERROR_INVALID_PARAMETER,
            d, s, k, host)
      else
        (case HasAnyCollision api (BuildEvidencePaths outputPath) s of
           (True, s) \<Rightarrow>
             (Failure Failed (wide ''Refusing to overwrite an existing evidence file or staging file.'') ERROR_FILE_EXISTS,
              d, s, k, host)
         | (False, s) \<Rightarrow>
             (case dev_Query D d of
                (False, _, d) \<Rightarrow>
                  (Failure Failed (wide ''Unable to query the frozen physical-memory topology.'') (dev_LastError D d),
                   d, s, k, host)
              | (True, (highestPhysicalEnd, totalPhysicalBytes, runs), d) \<Rightarrow>
                  (case Sha256_Initialize provider (Sha256_init k) of
                     (False, h) \<Rightarrow>
                       (Failure Failed (wide ''Unable to initialize SHA-256.'') ERROR_SUCCESS,
                        d, s, sha_sys (Sha256_Reset provider h), host)
                   | (True, h) \<Rightarrow>
                       (case dev_QueryHints D d of (_, hints, d) \<Rightarrow>
                          (let w = make_writer (chosen_format (cfg_format config) outputPath) s;
                               w = wr_Configure (evidence_writer_class api) runs hints (cfg_metadata config) w
                           in release api provider
                                (capture_with D api provider conv outputPath config highestPhysicalEnd
                                   totalPhysicalBytes
                                   \<lparr> cp_dev = d, cp_wr = w, cp_hash = h, cp_host = host \<rparr>)))))))"

end
