(* ===== verification/EvidenceFrame.thy ===== *)
theory EvidenceFrame
  imports Evidence AcquireSafety
begin

text \<open>
  What the steps of the evidence transaction can touch. The contract \<open>staged_writer\<close> says what the
  transaction needs of a writer besides the data: it works on the staging file alone. All three
  writers keep it, and so does the dispatching writer.
\<close>

section \<open>A view of the writer through an acquisition\<close>

definition wr_view :: "('d, 'w, 'h) acq \<Rightarrow> 'w" where
  "wr_view s = a_wr s"

lemma primitive_wr_view [simp]:
  "wr_view (snd (load_cancelled s)) = wr_view s"
  "wr_view (snd (hashZerosTo H p s)) = wr_view s"
  "wr_view (snd (hash_data H xs s)) = wr_view s"
  "wr_view (snd (add_hashPosition n s)) = wr_view s"
  "wr_view (snd (add_offset n s)) = wr_view s"
  "wr_view (snd (add_processed n s)) = wr_view s"
  "wr_view (snd (add_acquired n s)) = wr_view s"
  "wr_view (snd (add_transferred n s)) = wr_view s"
  "wr_view (snd (pace cfg s)) = wr_view s"
  "wr_view (ReportProgress cfg s) = wr_view s"
  "wr_view (snd (snd (read_run D i off m32 e s))) = wr_view s"
  "wr_view (s\<lparr> a_summary := x \<rparr>) = wr_view s"
  "wr_view (s\<lparr> a_offset := m \<rparr>) = wr_view s"
  by (auto simp: wr_view_def load_cancelled_def hashZerosTo_def hash_data_def
      add_hashPosition_def add_offset_def add_processed_def add_acquired_def add_transferred_def
      pace_def read_run_def split: prod.splits option.splits bool.splits)

lemma primitive_wr_view_eq:
  "f s = (b, s') \<Longrightarrow> wr_view (snd (f s)) = wr_view s \<Longrightarrow> wr_view s' = wr_view s"
  by simp

lemma path_invariant_wr:
  fixes H :: "'h IHasher" and D :: "'d IDeviceSession"
  assumes "\<And>w p xs. P w \<Longrightarrow> P (snd (wr_WriteAt W p xs w))"
  shows "path_invariant D W H cfg run (\<lambda>s. P (wr_view s))"
proof (rule path_invariantI)
  fix s :: "('d, 'a, 'h) acq" and r assume s: "P (wr_view s)"
  have wr: "P (wr_view (snd (write_data W p xs t)))" if "P (wr_view t)" for p xs t
    using assms [of "wr_view t" p xs] that
    by (cases "wr_WriteAt W p xs (a_wr t)") (simp add: write_data_def wr_view_def)
  show "P (wr_view (snd (StoreCopied W H cfg r s)))"
    unfolding StoreCopied_def
  proof (rule all_ok_preserves [where I = "\<lambda>t. P (wr_view t)"])
    fix f t b t'
    assume mem: "f \<in> set [hashZerosTo H (rr_physicalAddress r), write_data W (rr_physicalAddress r) (rr_data r),
        hash_data H (rr_data r), add_hashPosition (ucast (rr_copied r)), add_offset (ucast (rr_copied r)),
        add_processed (ucast (rr_copied r)), add_acquired (ucast (rr_copied r)),
        add_transferred (ucast (rr_copied r)), pace cfg]"
      and f: "f t = (b, t')" and t: "P (wr_view t)"
    from mem t have "P (wr_view (snd (f t)))" by (auto intro: wr)
    then show "P (wr_view t')" using f by simp
  qed (rule prod.collapse [symmetric], rule s)
qed simp_all

lemma FinishAcquire_wr: "wr_view (snd (FinishAcquire D H st)) = wr_view st"
proof -
  obtain b s where hz: "hashZerosTo H (as_logicalSize (a_summary st)) st = (b, s)" by fastforce
  have "wr_view s = wr_view st"
    using primitive_wr_view(2) [of H "as_logicalSize (a_summary st)" st] hz by simp
  then show ?thesis
    by (auto simp: FinishAcquire_def hz wr_view_def Let_def split: bool.splits prod.splits)
qed

text \<open>A property of the writer that every write keeps holds after an acquisition, failed or not.\<close>

lemma Acquire_wr:
  assumes "P w" and "\<And>w p xs. P w \<Longrightarrow> P (snd (wr_WriteAt W p xs w))"
  shows "P (ar_wr (snd (Acquire D W H cfg d w h host)))"
proof -
  obtain ok hi tot runs d1 where q: "dev_Query D d = (ok, (hi, tot, runs), d1)" by (metis prod.collapse)
  obtain hok hints d2 where hq: "dev_QueryHints D d1 = (hok, hints, d2)" by (metis prod.collapse)
  obtain t host1 where c: "clock_now host = (t, host1)" by fastforce
  let ?summary = "(if hok then AcquisitionSummary_default\<lparr> as_hints := hints \<rparr>
                   else AcquisitionSummary_default)
      \<lparr> as_logicalSize := hi, as_physicalBytes := tot, as_ranges := runs \<rparr>"
  let ?st0 = "(acq_start ?summary d2 w h host1)\<lparr> a_startedAt := t \<rparr>"
  obtain b st1 where ar: "AcquireRuns D W H cfg runs ?st0 = (b, st1)" by fastforce
  obtain b2 st2 where fin: "FinishAcquire D H st1 = (b2, st2)" by fastforce
  have "P (wr_view st1)"
    by (rule AcquireRuns_path [OF _ _ _ ar, where I = "\<lambda>s. P (wr_view s)"])
      (simp only: path_invariant_wr [of P W, OF assms(2)], use assms in \<open>simp_all add: wr_view_def acq_start_def\<close>)
  then have st1: "P (a_wr st1)" by (simp add: wr_view_def)
  have st2: "a_wr st2 = a_wr st1" using FinishAcquire_wr [of D H st1] fin by (simp add: wr_view_def)
  have "Acquire D W H cfg d w h host =
      (if \<not> ok \<or> hi = 0 \<or> tot = 0 \<or> runs = []
       then (False, acq_out (acq_start AcquisitionSummary_default d1 w h host))
       else if b then (b2, acq_out st2) else (False, acq_out st1))"
    using q hq c ar fin by (simp add: Acquire_def Let_def)
  then show ?thesis using assms(1) st1 st2 by (simp add: acq_out_def acq_start_def)
qed

section \<open>Writers that stay on their staging file\<close>

locale staged_writer =
  fixes W :: "'w IRawWriter"
    and files :: "'s \<Rightarrow> wstring \<Rightarrow> bytes option"
    and sys :: "'w \<Rightarrow> 's"
    and ready :: "'w \<Rightarrow> bool"
    and working :: "wstring \<Rightarrow> 'w \<Rightarrow> bool"
  assumes open_stages:
      "ready w \<Longrightarrow> wr_PreflightAndOpen W p n phys w = (ok, w') \<Longrightarrow>
       only_file files p (sys w) (sys w') \<and> (ok \<longrightarrow> working p w')"
    and write_stages:
      "working p w \<Longrightarrow> wr_WriteAt W off xs w = (ok, w') \<Longrightarrow>
       only_file files p (sys w) (sys w') \<and> working p w'"
    and flush_stages:
      "working p w \<Longrightarrow> wr_FlushAndClose W w = (ok, w') \<Longrightarrow> only_file files p (sys w) (sys w')"
    and close_stages: "files (sys (wr_Close W w)) = files (sys w)"
begin

lemma Acquire_stages:
  assumes "working p w" and "Acquire D W H cfg d w h host = (ok, r)"
  shows "only_file files p (sys w) (sys (ar_wr r)) \<and> working p (ar_wr r)"
proof -
  let ?P = "\<lambda>v. only_file files p (sys w) (sys v) \<and> working p v"
  have "?P (snd (wr_WriteAt W off xs v))" if "?P v" for v off xs
    using write_stages [of p v off xs] that by (metis only_file_trans prod.collapse)
  then have "?P (ar_wr (snd (Acquire D W H cfg d w h host)))"
    using assms(1) by (intro Acquire_wr [where P = ?P]) simp_all
  then show ?thesis using assms(2) by simp
qed

end

definition zdmp_working ::
  "('s \<Rightarrow> wstring \<Rightarrow> bytes option) \<Rightarrow> ('s \<Rightarrow> u64 \<Rightarrow> (wstring \<times> nat) option) \<Rightarrow> wstring \<Rightarrow> 's ZdmpWriter \<Rightarrow> bool" where
  "zdmp_working files opened p w \<longleftrightarrow>
     (\<exists>pos. opened (zw_sys w) (zw_file w) = Some (p, pos)) \<and> files (zw_sys w) p \<noteq> None"

definition e01_working ::
  "('s \<Rightarrow> wstring \<Rightarrow> bytes option) \<Rightarrow> ('s \<Rightarrow> u64 \<Rightarrow> (wstring \<times> nat) option) \<Rightarrow> wstring \<Rightarrow> 's E01Writer \<Rightarrow> bool" where
  "e01_working files opened p w \<longleftrightarrow>
     (\<exists>pos. opened (e_sys w) (e_file w) = Some (p, pos)) \<and> files (e_sys w) p \<noteq> None"

text \<open>On the staging file since \<open>s\<close>.\<close>

definition e01_on ::
  "('s \<Rightarrow> wstring \<Rightarrow> bytes option) \<Rightarrow> ('s \<Rightarrow> u64 \<Rightarrow> (wstring \<times> nat) option) \<Rightarrow> wstring \<Rightarrow> 's \<Rightarrow> 's E01Writer \<Rightarrow> bool" where
  "e01_on files opened p s w \<longleftrightarrow> only_file files p s (e_sys w) \<and> e01_working files opened p w"

text \<open>Chains of sections and single writes.\<close>

definition e_steps :: "'s win32 \<Rightarrow> 's E01Writer fallible set" where
  "e_steps api = range (e_put api) \<union> {WriteHeaderSection api, WriteVolumeSection api, WriteTableSection api,
     WriteHashSection api, WriteDoneSection api}"

lemma e01_on_update [simp]:
  "e01_on files opened p s (w\<lparr> e_lastError := x1 \<rparr>) = e01_on files opened p s w"
  "e01_on files opened p s (w\<lparr> e_currentFileOffset := x2 \<rparr>) = e01_on files opened p s w"
  "e01_on files opened p s (w\<lparr> e_headerSectionOffset := x2 \<rparr>) = e01_on files opened p s w"
  "e01_on files opened p s (w\<lparr> e_volumeSectionOffset := x2 \<rparr>) = e01_on files opened p s w"
  "e01_on files opened p s (w\<lparr> e_sectorsSectionOffset := x2 \<rparr>) = e01_on files opened p s w"
  "e01_on files opened p s (w\<lparr> e_tableSectionOffset := x2 \<rparr>) = e01_on files opened p s w"
  "e01_on files opened p s (w\<lparr> e_hashSectionOffset := x2 \<rparr>) = e01_on files opened p s w"
  "e01_on files opened p s (w\<lparr> e_doneSectionOffset := x2 \<rparr>) = e01_on files opened p s w"
  "e01_on files opened p s (w\<lparr> e_chunkBuffer := x3 \<rparr>) = e01_on files opened p s w"
  "e01_on files opened p s (w\<lparr> e_chunkBufferUsed := x4 \<rparr>) = e01_on files opened p s w"
  "e01_on files opened p s (w\<lparr> e_totalChunks := x1 \<rparr>) = e01_on files opened p s w"
  "e01_on files opened p s (w\<lparr> e_chunkTableOffsets := x5 \<rparr>) = e01_on files opened p s w"
  by (simp_all add: e01_on_def e01_working_def)

context win32_files
begin

lemma e_put_on:
  assumes "e_put api xs w = (b, w')" and "e01_on files opened p s w"
  shows "e01_on files opened p s w'"
proof -
  obtain pos c where o: "opened (e_sys w) (e_file w) = Some (p, pos)" "files (e_sys w) p = Some c"
    using assms(2) by (auto simp: e01_on_def e01_working_def)
  obtain ok n t where w: "w_WriteFile api (e_file w) xs (e_sys w) = (ok, n, t)" by (metis prod.collapse)
  from write_only [OF w o] have "e01_on files opened p s (w\<lparr> e_sys := t \<rparr>)"
    using assms(2) by (auto simp: e01_on_def e01_working_def only_file_def)
  then show ?thesis using assms(1) w by (auto simp: e_put_def Let_def e_fail_def split: if_splits)
qed

lemma e_puts_on:
  assumes "all_ok fs w = (b, w')" and "e01_on files opened p s w"
    and "\<And>f. f \<in> set fs \<Longrightarrow> \<exists>xs. f = e_put api xs"
  shows "e01_on files opened p s w'"
proof (rule all_ok_preserves [of fs "e01_on files opened p s", OF _ assms(1,2)])
  fix f v r v' assume "f \<in> set fs" and f: "f v = (r, v')" and "e01_on files opened p s v"
  then show "e01_on files opened p s v'" using assms(3) e_put_on [of _ v r v'] by metis
qed

lemma e_sections_on:
  assumes "e01_on files opened p s w"
  shows "WriteHeaderSection api w = (b, w') \<Longrightarrow> e01_on files opened p s w'"
    and "WriteTableSection api w = (b, w') \<Longrightarrow> e01_on files opened p s w'"
    and "WriteHashSection api w = (b, w') \<Longrightarrow> e01_on files opened p s w'"
    and "WriteDoneSection api w = (b, w') \<Longrightarrow> e01_on files opened p s w'"
proof -
  show "WriteHeaderSection api w = (b, w') \<Longrightarrow> e01_on files opened p s w'"
    unfolding WriteHeaderSection_def Let_def by (erule e_puts_on) (use assms in auto)
  show "WriteTableSection api w = (b, w') \<Longrightarrow> e01_on files opened p s w'"
    unfolding WriteTableSection_def Let_def by (erule e_puts_on) (use assms in \<open>auto split: if_splits\<close>)
  show "WriteHashSection api w = (b, w') \<Longrightarrow> e01_on files opened p s w'"
    unfolding WriteHashSection_def Let_def by (erule e_puts_on) (use assms in auto)
  show "WriteDoneSection api w = (b, w') \<Longrightarrow> e01_on files opened p s w'"
    unfolding WriteDoneSection_def Let_def by (erule e_put_on) (use assms in simp)
qed

lemma WriteVolumeSection_on:
  assumes "WriteVolumeSection api w = (b, w')" and "e01_on files opened p s w"
  shows "e01_on files opened p s w'"
proof -
  let ?t = "of_nat (sizeof_EwfSectionHeader + 992 + 4)" and ?vol = "volume_bytes (volume_section (e_totalPhysicalBytes w))"
  obtain d v where v: "all_ok [e_put api (section_bytes (make_section ''volume'' (e_currentFileOffset w + ?t) ?t)),
      e_put api ?vol, e_put api (le32 (CalculateAdler32 ?vol 1))] (w\<lparr> e_volumeSectionOffset := e_currentFileOffset w \<rparr>) = (d, v)"
    by fastforce
  have "e01_on files opened p s v" by (rule e_puts_on [OF v]) (use assms(2) in auto)
  then show ?thesis using assms(1) v by (auto simp: WriteVolumeSection_def Let_def split: bool.splits)
qed

lemma e_steps_on:
  assumes "f \<in> e_steps api" and "f w = (b, w')" and "e01_on files opened p s w"
  shows "e01_on files opened p s w'"
  using assms e_put_on [of _ w b w' p s] e_sections_on [OF assms(3), of b w'] WriteVolumeSection_on [of w b w' p s]
  unfolding e_steps_def by blast

lemma e_chain_on:
  assumes "all_ok fs w = (b, w')" and "e01_on files opened p s w" and "set fs \<subseteq> e_steps api"
  shows "e01_on files opened p s w'"
  by (rule all_ok_preserves [of fs "e01_on files opened p s", OF _ assms(1,2)]) (use assms(3) e_steps_on in blast)

lemma FlushActiveChunk_on:
  assumes "FlushActiveChunk api w = (b, w')" and "e01_on files opened p s w"
  shows "e01_on files opened p s w'"
proof (cases "e_chunkBufferUsed w = 0")
  case True
  then show ?thesis using assms by (simp add: FlushActiveChunk_def)
next
  case False
  let ?buf = "if e_chunkBufferUsed w < kChunkSize then take (e_chunkBufferUsed w) (e_chunkBuffer w) @
      replicate (kChunkSize - e_chunkBufferUsed w) 0 else e_chunkBuffer w"
  let ?v = "w\<lparr> e_chunkBuffer := ?buf, e_chunkTableOffsets := e_chunkTableOffsets w @
      [ucast (e_currentFileOffset w - e_sectorsSectionOffset w)] \<rparr>"
  obtain d u where v: "all_ok [e_put api ?buf, e_put api (le32 (CalculateAdler32 ?buf 1))] ?v = (d, u)" by fastforce
  have "e01_on files opened p s u" by (rule e_puts_on [OF v]) (use assms(2) in auto)
  then show ?thesis
    using assms(1) v False by (cases d) (auto simp: FlushActiveChunk_def Let_def simp del: all_ok_Cons_True)
qed

lemma e_copy_loop_on:
  assumes "e_copy_loop api xs w = (b, w')" and "e01_on files opened p s w"
  shows "e01_on files opened p s w'"
  using assms
proof (induction "2 * length xs + (if e_chunkBufferUsed w = kChunkSize then 1 else 0 :: nat)"
    arbitrary: xs w rule: less_induct)
  case less
  let ?k = "min (length xs) (kChunkSize - e_chunkBufferUsed w)"
  let ?w = "w\<lparr> e_chunkBuffer := overlay (e_chunkBuffer w) (e_chunkBufferUsed w) (take ?k xs),
      e_chunkBufferUsed := e_chunkBufferUsed w + ?k \<rparr>"
  have on: "e01_on files opened p s ?w" using less.prems(2) by simp
  show ?case
  proof (cases "xs = [] \<or> e_chunkBufferUsed w > kChunkSize")
    case True
    then show ?thesis using less.prems by (auto simp: e_copy_loop.simps [of api xs w] split: if_splits)
  next
    case False
    then have loop: "(if e_chunkBufferUsed w + ?k = kChunkSize
        then (case FlushActiveChunk api ?w of (False, v) \<Rightarrow> (False, v) | (True, v) \<Rightarrow> e_copy_loop api (drop ?k xs) v)
        else e_copy_loop api (drop ?k xs) ?w) = (b, w')"
      using less.prems(1) by (subst (asm) e_copy_loop.simps) (simp add: Let_def)
    obtain d v where fl: "FlushActiveChunk api ?w = (d, v)" by fastforce
    have v: "e01_on files opened p s v" by (rule FlushActiveChunk_on [OF fl on])
    show ?thesis
    proof (cases "e_chunkBufferUsed w + ?k = kChunkSize")
      case full: True
      show ?thesis
      proof (cases d)
        case True
        have "2 * length (drop ?k xs) + (if e_chunkBufferUsed v = kChunkSize then 1 else 0) <
            2 * length xs + (if e_chunkBufferUsed w = kChunkSize then 1 else 0 :: nat)"
          using False full FlushActiveChunk_empties [of api ?w v] fl True by (auto simp: kChunkSize_def min_def)
        from less.hyps [OF this _ v] show ?thesis using loop full fl True by simp
      qed (use loop full fl v in simp)
    next
      case part: False
      then have "drop ?k xs = []" using False by (auto simp: min_def split: if_splits)
      then have "w' = ?w" using loop part by (simp add: e_copy_loop.simps [of api "[]"])
      then show ?thesis using on by simp
    qed
  qed
qed

lemma rewrite_sectors_header_on:
  assumes "e01_on files opened p s w"
  shows "e01_on files opened p s (rewrite_sectors_header api w)"
proof -
  obtain pos c where o: "opened (e_sys w) (e_file w) = Some (p, pos)" "files (e_sys w) p = Some c"
    using assms by (auto simp: e01_on_def e01_working_def)
  obtain b1 s1 where 1: "w_SetFilePointerEx api (e_file w) (e_sectorsSectionOffset w) (e_sys w) = (b1, s1)" by fastforce
  then have s1: "files s1 = files (e_sys w)" "\<exists>pos. opened s1 (e_file w) = Some (p, pos)"
    using pointer_only [OF 1 o(1)] by auto
  then obtain pos1 where o1: "opened s1 (e_file w) = Some (p, pos1)" "files s1 p = Some c" using o by auto
  let ?hdr = "section_bytes (make_section ''sectors'' (e_currentFileOffset w) (e_currentFileOffset w - e_sectorsSectionOffset w))"
  obtain b2 n s2 where 2: "w_WriteFile api (e_file w) ?hdr s1 = (b2, n, s2)" by (metis prod.collapse)
  obtain pos2 where s2: "only_file files p s1 s2" "files s2 p \<noteq> None" "opened s2 (e_file w) = Some (p, pos2)"
    using write_only [OF 2 o1] by auto
  obtain b3 s3 where 3: "w_SetFilePointerEx api (e_file w) (e_currentFileOffset w) s2 = (b3, s3)" by fastforce
  have "files s3 = files s2" "\<exists>pos. opened s3 (e_file w) = Some (p, pos)"
    using pointer_only [OF 3 s2(3)] by auto
  then show ?thesis
    using assms s1 s2 1 2 3 by (simp add: rewrite_sectors_header_def Let_def e01_on_def e01_working_def only_file_def)
qed

lemma e_reset_files: "files (e_sys (e_reset_file api h w)) = files (e_sys w)"
  by (simp add: e_reset_file_def handle_reset_view)

lemma E01_FlushAndClose_only:
  assumes "E01Writer_FlushAndClose api w = (b, w')" and "e01_on files opened p s w"
  shows "only_file files p s (e_sys w')"
proof -
  obtain d1 w1 where 1: "FlushActiveChunk api w = (d1, w1)" by fastforce
  have on1: "e01_on files opened p s w1" by (rule FlushActiveChunk_on [OF 1 assms(2)])
  obtain d2 w2 where 2: "all_ok [WriteTableSection api, WriteHashSection api, WriteDoneSection api]
      (rewrite_sectors_header api w1) = (d2, w2)" by fastforce
  have on2: "e01_on files opened p s w2"
    by (rule e_chain_on [OF 2 rewrite_sectors_header_on [OF on1]]) (simp add: e_steps_def)
  obtain d3 s3 where 3: "w_FlushFileBuffers api (e_file w2) (e_sys w2) = (d3, s3)" by fastforce
  have "files s3 = files (e_sys w2)" using flush_frame [OF 3] by simp
  then show ?thesis
    using assms 1 2 3 on1 on2
    by (auto simp: E01Writer_FlushAndClose_def e_reset_files e01_on_def only_file_def split: if_splits bool.splits)
qed

lemma E01_open_only:
  assumes "E01Writer_PreflightAndOpen api p n phys w = (b, w')" and "e_file w = INVALID_HANDLE_VALUE"
  shows "only_file files p (e_sys w) (e_sys w') \<and> (b \<longrightarrow> e01_working files opened p w')"
proof -
  obtain h s where c: "w_CreateFileW api p (GENERIC_READ OR GENERIC_WRITE) CREATE_ALWAYS (e_sys w) = (h, s)"
    by fastforce
  let ?w = "(e_reset_file api h (w\<lparr> e_totalPhysicalBytes := phys, e_chunkBufferUsed := 0,
      e_totalChunks := 0, e_chunkTableOffsets := [], e_sys := s \<rparr>))\<lparr> e_currentFileOffset := 0 \<rparr>"
  have only: "only_file files p (e_sys w) s" using create_only [OF c] by simp
  have sys: "e_sys ?w = s" using assms(2) by (simp add: e_reset_file_def handle_reset_def)
  show ?thesis
  proof (cases "h = INVALID_HANDLE_VALUE")
    case True
    then show ?thesis
      using assms c only by (auto simp: E01Writer_PreflightAndOpen_def Let_def e_fail_def e_reset_file_def handle_reset_def)
  next
    case False
    have on: "e01_on files opened p (e_sys w) ?w"
      using create_always [OF c False] only sys by (simp add: e01_on_def e01_working_def e_reset_file_def)
    have chain: "all_ok [e_put api file_header_bytes, WriteHeaderSection api, WriteVolumeSection api,
        e_put api (section_bytes (make_section ''sectors'' 0 (of_nat sizeof_EwfSectionHeader)))] ?w = (b, w')"
      using assms(1) c False by (simp add: E01Writer_PreflightAndOpen_def Let_def)
    have "e01_on files opened p (e_sys w) w'"
      by (rule e_chain_on [OF chain on]) (simp add: e_steps_def)
    then show ?thesis by (simp add: e01_on_def)
  qed
qed

section \<open>The three writers and the dispatching one\<close>

sublocale staged_raw: staged_writer "RawWriter_class api" files rw_sys "\<lambda>w. True" "\<lambda>p w. raw_holds files opened w p"
proof
  fix p n phys ok and w w' :: "'s RawWriter"
  assume "wr_PreflightAndOpen (RawWriter_class api) p n phys w = (ok, w')"
  then have o: "RawWriter_PreflightAndOpen api p n phys w = (ok, w')" by (simp add: RawWriter_class_def)
  show "only_file files p (rw_sys w) (rw_sys w') \<and> (ok \<longrightarrow> raw_holds files opened w' p)"
    using PreflightAndOpen_files(1,2) [OF o] by (auto simp: raw_at_def raw_holds_def)
next
  fix p ok and w w' :: "'s RawWriter"
  assume "wr_FlushAndClose (RawWriter_class api) w = (ok, w')"
  then show "only_file files p (rw_sys w) (rw_sys w')"
    using FlushAndClose_files(1) [of w ok w'] by (simp add: RawWriter_class_def only_file_def)
qed (auto simp: RawWriter_class_def Close_files dest: WriteAt_files)

sublocale staged_zdmp: staged_writer "ZdmpWriter_class api" files zw_sys "\<lambda>w. zw_file w = INVALID_HANDLE_VALUE"
  "zdmp_working files opened"
proof
  fix p n phys ok and w w' :: "'s ZdmpWriter"
  assume "zw_file w = INVALID_HANDLE_VALUE" and "wr_PreflightAndOpen (ZdmpWriter_class api) p n phys w = (ok, w')"
  then show "only_file files p (zw_sys w) (zw_sys w') \<and> (ok \<longrightarrow> zdmp_working files opened p w')"
    using ZdmpWriter_open_files(1,2) [of p n phys w ok w'] by (auto simp: ZdmpWriter_class_def zdmp_at_def zdmp_working_def)
next
  fix p off xs ok and w w' :: "'s ZdmpWriter"
  assume "zdmp_working files opened p w" and "wr_WriteAt (ZdmpWriter_class api) off xs w = (ok, w')"
  then show "only_file files p (zw_sys w) (zw_sys w') \<and> zdmp_working files opened p w'"
    using ZdmpWriter_WriteAt_only [of off xs w ok w' p] by (auto simp: ZdmpWriter_class_def zdmp_working_def)
qed (auto simp: ZdmpWriter_class_def ZdmpWriter_Close_def zdmp_reset_view only_file_def dest: ZdmpWriter_close_files)

sublocale staged_e01: staged_writer "E01Writer_class api" files e_sys "\<lambda>w. e_file w = INVALID_HANDLE_VALUE"
  "e01_working files opened"
proof
  fix p off xs ok and w w' :: "'s E01Writer"
  assume "e01_working files opened p w" and wr: "wr_WriteAt (E01Writer_class api) off xs w = (ok, w')"
  then have on: "e01_on files opened p (e_sys w) w" by (simp add: e01_on_def)
  have "e01_on files opened p (e_sys w) w'"
    using wr on e_copy_loop_on [of xs w ok w' p "e_sys w"]
    by (auto simp: E01Writer_class_def E01Writer_WriteAt_def split: if_splits)
  then show "only_file files p (e_sys w) (e_sys w') \<and> e01_working files opened p w'" by (simp add: e01_on_def)
next
  fix p ok and w w' :: "'s E01Writer"
  assume "e01_working files opened p w" and "wr_FlushAndClose (E01Writer_class api) w = (ok, w')"
  then show "only_file files p (e_sys w) (e_sys w')"
    by (intro E01_FlushAndClose_only [of w ok w' p]) (simp_all add: E01Writer_class_def e01_on_def)
qed (simp_all add: E01Writer_class_def E01_open_only E01Writer_Close_def e_reset_files)

end

fun ew_ready :: "'s evidence_writer \<Rightarrow> bool" where
  "ew_ready (WRaw w) \<longleftrightarrow> True"
| "ew_ready (WZdmp w) \<longleftrightarrow> zw_file w = INVALID_HANDLE_VALUE"
| "ew_ready (WE01 w) \<longleftrightarrow> e_file w = INVALID_HANDLE_VALUE"

fun ew_working ::
  "('s \<Rightarrow> wstring \<Rightarrow> bytes option) \<Rightarrow> ('s \<Rightarrow> u64 \<Rightarrow> (wstring \<times> nat) option) \<Rightarrow> wstring \<Rightarrow> 's evidence_writer \<Rightarrow> bool" where
  "ew_working files opened p (WRaw w) \<longleftrightarrow> raw_holds files opened w p"
| "ew_working files opened p (WZdmp w) \<longleftrightarrow> zdmp_working files opened p w"
| "ew_working files opened p (WE01 w) \<longleftrightarrow> e01_working files opened p w"

lemma writer_sys_on [simp]: "writer_sys (on_sys s w) = s"
  by (cases w) simp_all

lemma dispatch_cases:
  assumes "dispatch f g h w = (ok, w')"
  obtains (raw) v v' where "w = WRaw v" "w' = WRaw v'" "f v = (ok, v')"
  | (zdmp) v v' where "w = WZdmp v" "w' = WZdmp v'" "g v = (ok, v')"
  | (e01) v v' where "w = WE01 v" "w' = WE01 v'" "h v = (ok, v')"
  using assms by (cases w) (auto simp: map_prod_def split: prod.splits)

lemma class_sels [simp]:
  "wr_PreflightAndOpen (RawWriter_class api) = RawWriter_PreflightAndOpen api"
  "wr_WriteAt (RawWriter_class api) = RawWriter_WriteAt api"
  "wr_FlushAndClose (RawWriter_class api) = RawWriter_FlushAndClose api"
  "wr_Close (RawWriter_class api) = RawWriter_Close api"
  "wr_PreflightAndOpen (ZdmpWriter_class api) = ZdmpWriter_PreflightAndOpen api"
  "wr_WriteAt (ZdmpWriter_class api) = ZdmpWriter_WriteAt api"
  "wr_FlushAndClose (ZdmpWriter_class api) = ZdmpWriter_FlushAndClose api"
  "wr_Close (ZdmpWriter_class api) = ZdmpWriter_Close api"
  "wr_PreflightAndOpen (E01Writer_class api) = E01Writer_PreflightAndOpen api"
  "wr_WriteAt (E01Writer_class api) = E01Writer_WriteAt api"
  "wr_FlushAndClose (E01Writer_class api) = E01Writer_FlushAndClose api"
  "wr_Close (E01Writer_class api) = E01Writer_Close api"
  by (simp_all add: RawWriter_class_def ZdmpWriter_class_def E01Writer_class_def)

lemma evidence_writer_sels:
  "wr_PreflightAndOpen (evidence_writer_class api) p n phys = dispatch (RawWriter_PreflightAndOpen api p n phys)
     (ZdmpWriter_PreflightAndOpen api p n phys) (E01Writer_PreflightAndOpen api p n phys)"
  "wr_WriteAt (evidence_writer_class api) off xs = dispatch (RawWriter_WriteAt api off xs)
     (ZdmpWriter_WriteAt api off xs) (E01Writer_WriteAt api off xs)"
  "wr_FlushAndClose (evidence_writer_class api) = dispatch (RawWriter_FlushAndClose api)
     (ZdmpWriter_FlushAndClose api) (E01Writer_FlushAndClose api)"
  "wr_Close (evidence_writer_class api) = writer_Close api"
  "wr_Configure (evidence_writer_class api) = writer_Configure"
  by (simp_all add: evidence_writer_class_def)

context win32_files
begin

sublocale staged: staged_writer "evidence_writer_class api" files writer_sys ew_ready "ew_working files opened"
proof
  fix p n phys ok and w w' :: "'s evidence_writer"
  assume r: "ew_ready w" and "wr_PreflightAndOpen (evidence_writer_class api) p n phys w = (ok, w')"
  from this(2) [unfolded evidence_writer_sels]
  show "only_file files p (writer_sys w) (writer_sys w') \<and> (ok \<longrightarrow> ew_working files opened p w')"
  proof (cases rule: dispatch_cases)
    case raw
    then show ?thesis using staged_raw.open_stages by simp
  next
    case zdmp
    then show ?thesis using r staged_zdmp.open_stages by simp
  next
    case e01
    then show ?thesis using r staged_e01.open_stages by simp
  qed
next
  fix p off xs ok and w w' :: "'s evidence_writer"
  assume r: "ew_working files opened p w" and "wr_WriteAt (evidence_writer_class api) off xs w = (ok, w')"
  from this(2) [unfolded evidence_writer_sels]
  show "only_file files p (writer_sys w) (writer_sys w') \<and> ew_working files opened p w'"
  proof (cases rule: dispatch_cases)
    case raw
    then show ?thesis using r staged_raw.write_stages by simp
  next
    case zdmp
    then show ?thesis using r staged_zdmp.write_stages by simp
  next
    case e01
    then show ?thesis using r staged_e01.write_stages by simp
  qed
next
  fix p ok and w w' :: "'s evidence_writer"
  assume r: "ew_working files opened p w" and "wr_FlushAndClose (evidence_writer_class api) w = (ok, w')"
  from this(2) [unfolded evidence_writer_sels]
  show "only_file files p (writer_sys w) (writer_sys w')"
  proof (cases rule: dispatch_cases)
    case raw
    then show ?thesis using r staged_raw.flush_stages by simp
  next
    case zdmp
    then show ?thesis using r staged_zdmp.flush_stages by simp
  next
    case e01
    then show ?thesis using r staged_e01.flush_stages by simp
  qed
next
  fix w :: "'s evidence_writer"
  show "files (writer_sys (wr_Close (evidence_writer_class api) w)) = files (writer_sys w)"
    unfolding evidence_writer_sels
    using staged_raw.close_stages staged_zdmp.close_stages staged_e01.close_stages by (cases w) simp_all
qed

end

context win32_files
begin

lemma staged_contract:
  "staged_writer (evidence_writer_class api) files writer_sys ew_ready (ew_working files opened)"
  by unfold_locales

end

end
