(* ===== verification/EvidenceAtomic.thy ===== *)
theory EvidenceAtomic
  imports EvidenceFrame
begin

text \<open>
  The evidence transaction is all or nothing: on a volume where deletions succeed, a capture that is
  not published leaves the files as they were, and a published one adds exactly three files.
\<close>

section \<open>The six names\<close>

lemma distinct_paths: "distinct (path_list (BuildEvidencePaths p))"
  by (simp add: path_list_def BuildEvidencePaths_def wide_def)

lemma paths_nonempty: "q \<in> set (path_list (BuildEvidencePaths p)) \<Longrightarrow> p \<noteq> [] \<Longrightarrow> q \<noteq> []"
  by (auto simp: path_list_def BuildEvidencePaths_def wide_def)

text \<open>Six different, non-empty names.\<close>

definition paths_ok :: "EvidencePaths \<Rightarrow> bool" where
  "paths_ok ps \<longleftrightarrow> distinct (path_list ps) \<and> [] \<notin> set (path_list ps)"

lemma BuildEvidencePaths_ok: "p \<noteq> [] \<Longrightarrow> paths_ok (BuildEvidencePaths p)"
  using distinct_paths paths_nonempty by (auto simp: paths_ok_def)

lemma paths_okD:
  assumes "paths_ok ps"
  shows "ep_rawFinal ps \<noteq> []" "ep_rawPartial ps \<noteq> []" "ep_mapFinal ps \<noteq> []" "ep_mapPartial ps \<noteq> []"
    "ep_hashFinal ps \<noteq> []" "ep_hashPartial ps \<noteq> []"
    "ep_rawFinal ps \<noteq> ep_rawPartial ps" "ep_rawFinal ps \<noteq> ep_mapFinal ps" "ep_rawFinal ps \<noteq> ep_mapPartial ps"
    "ep_rawFinal ps \<noteq> ep_hashFinal ps" "ep_rawFinal ps \<noteq> ep_hashPartial ps"
    "ep_rawPartial ps \<noteq> ep_mapFinal ps" "ep_rawPartial ps \<noteq> ep_mapPartial ps"
    "ep_rawPartial ps \<noteq> ep_hashFinal ps" "ep_rawPartial ps \<noteq> ep_hashPartial ps"
    "ep_mapFinal ps \<noteq> ep_mapPartial ps" "ep_mapFinal ps \<noteq> ep_hashFinal ps" "ep_mapFinal ps \<noteq> ep_hashPartial ps"
    "ep_mapPartial ps \<noteq> ep_hashFinal ps" "ep_mapPartial ps \<noteq> ep_hashPartial ps"
    "ep_hashFinal ps \<noteq> ep_hashPartial ps"
  using assms by (auto simp: paths_ok_def path_list_def)

section \<open>Removing files\<close>

definition without :: "wstring list \<Rightarrow> (wstring \<Rightarrow> bytes option) \<Rightarrow> wstring \<Rightarrow> bytes option" where
  "without ps f q = (if q \<in> set ps then None else f q)"

context win32_files
begin

lemma DeleteIfPresent_files:
  assumes "deletes_work api files" and "p \<noteq> []"
  shows "files (DeleteIfPresent api p s) = without [p] (files s)"
proof -
  obtain b t where d: "w_DeleteFileW api p s = (b, t)" by fastforce
  show ?thesis
  proof (cases "files s p = None")
    case True
    then show ?thesis
      using d delete_ok [of p s t] delete_failed [of p s t] assms(2)
      by (cases b) (auto simp: DeleteIfPresent_def without_def fun_eq_iff)
  next
    case False
    then have "b" using assms(1) d by (auto simp: deletes_work_def dest!: spec [of _ p])
    then show ?thesis using d delete_ok [of p s t] assms(2) by (auto simp: DeleteIfPresent_def without_def fun_eq_iff)
  qed
qed

lemma RemoveStagingFiles_files:
  assumes "deletes_work api files" and "paths_ok ps"
  shows "files (RemoveStagingFiles api ps s) =
    without [ep_rawPartial ps, ep_mapPartial ps, ep_hashPartial ps] (files s)"
  using paths_okD [OF assms(2)]
  by (simp add: RemoveStagingFiles_def DeleteIfPresent_files [OF assms(1)]) (auto simp: without_def fun_eq_iff)

lemma RemoveFinalizedSidecars_files:
  assumes "deletes_work api files" and "paths_ok ps"
  shows "files (RemoveFinalizedSidecars api ps s) = without [ep_mapFinal ps, ep_hashFinal ps] (files s)"
  using paths_okD [OF assms(2)]
  by (simp add: RemoveFinalizedSidecars_def DeleteIfPresent_files [OF assms(1)]) (auto simp: without_def fun_eq_iff)

lemma any_exists_files:
  "any_exists api ps s = (b, s') \<Longrightarrow> files s' = files s \<and> (\<not> b \<longrightarrow> sees_files api files \<longrightarrow> (\<forall>p \<in> set ps. files s p = None))"
proof (induction ps arbitrary: s)
  case (Cons p ps)
  obtain a t where a: "w_GetFileAttributesW api p s = (a, t)" by fastforce
  have t: "files t = files s" using attributes_frame [OF a] by simp
  show ?case
  proof (cases "a = INVALID_FILE_ATTRIBUTES")
    case True
    then have "any_exists api ps t = (b, s')" using Cons.prems a by (simp add: PathExists_def)
    moreover have "sees_files api files \<Longrightarrow> files s p = None"
      using True a by (auto simp: sees_files_def dest!: spec [of _ p] spec [of _ s])
    ultimately show ?thesis using Cons.IH [of t] t by simp
  next
    case False
    then show ?thesis using Cons.prems a t by (simp add: PathExists_def)
  qed
qed simp

lemma HasAnyCollision_files:
  assumes "HasAnyCollision api ps s = (b, s')"
  shows "files s' = files s" and "\<not> b \<Longrightarrow> sees_files api files \<Longrightarrow> q \<in> set (path_list ps) \<Longrightarrow> files s q = None"
  using any_exists_files [OF assms [unfolded HasAnyCollision_def]] by blast+

end

section \<open>Publication\<close>

text \<open>The bundle, when the staging files have become the final ones.\<close>

definition promoted :: "EvidencePaths \<Rightarrow> (wstring \<Rightarrow> bytes option) \<Rightarrow> wstring \<Rightarrow> bytes option" where
  "promoted ps f = (without [ep_rawPartial ps, ep_mapPartial ps, ep_hashPartial ps] f)
     (ep_mapFinal ps := f (ep_mapPartial ps), ep_hashFinal ps := f (ep_hashPartial ps),
      ep_rawFinal ps := f (ep_rawPartial ps))"

text \<open>The final names are free.\<close>

definition finals_free :: "EvidencePaths \<Rightarrow> (wstring \<Rightarrow> bytes option) \<Rightarrow> bool" where
  "finals_free ps f \<longleftrightarrow> f (ep_rawFinal ps) = None \<and> f (ep_mapFinal ps) = None \<and> f (ep_hashFinal ps) = None"

lemma Failure_not_final [simp]: "\<not> HasFinalizedBundle (Failure Failed m e)"
  by (simp add: HasFinalizedBundle_def Failure_def)

definition bundle_result :: "AcquisitionSummary \<Rightarrow> EvidenceCaptureResult" where
  "bundle_result summary = \<lparr> ec_status = (if as_topologyChanged summary \<or> as_unreadableBytes summary \<noteq> 0
       then Incomplete else Complete), ec_summary = summary, ec_error = [], ec_systemError = ERROR_SUCCESS \<rparr>"

lemma bundle_result_final [simp]: "HasFinalizedBundle (bundle_result summary)"
  by (simp add: HasFinalizedBundle_def bundle_result_def)

context win32_files
begin

lemma publish_files:
  assumes "publish api ps summary s = (r, s')" and "paths_ok ps" and "finals_free ps (files s)"
    and "deletes_work api files"
  shows "(r = bundle_result summary \<and> files s' = promoted ps (files s) \<and>
      files s (ep_rawPartial ps) \<noteq> None \<and> files s (ep_mapPartial ps) \<noteq> None \<and> files s (ep_hashPartial ps) \<noteq> None) \<or>
    (\<not> HasFinalizedBundle r \<and>
      files s' = without [ep_rawPartial ps, ep_mapPartial ps, ep_hashPartial ps] (files s))"
proof -
  note ne = paths_okD [OF assms(2)] and rs = RemoveStagingFiles_files [OF assms(4,2)]
    and rf = RemoveFinalizedSidecars_files [OF assms(4,2)]
  obtain b1 s1 where 1: "PromoteStagingFile api (ep_mapPartial ps) (ep_mapFinal ps) s = (b1, s1)" by fastforce
  obtain b2 s2 where 2: "PromoteStagingFile api (ep_hashPartial ps) (ep_hashFinal ps) s1 = (b2, s2)" by fastforce
  obtain b3 s3 where 3: "PromoteStagingFile api (ep_rawPartial ps) (ep_rawFinal ps) s2 = (b3, s3)" by fastforce
  note view = PromoteStagingFile_view
  show ?thesis
  proof (cases b1)
    case False
    then show ?thesis using assms(1) 1 view(2) [of _ _ s s1] rs by (auto simp: publish_def)
  next
    case b1: True
    have f1: "files s (ep_mapPartial ps) \<noteq> None"
        "files s1 = (files s)(ep_mapPartial ps := None, ep_mapFinal ps := files s (ep_mapPartial ps))"
      using view(1) [of "ep_mapPartial ps" "ep_mapFinal ps" s s1] 1 b1 by simp_all
    show ?thesis
    proof (cases b2)
      case False
      then have "files s2 = files s1" using view(2) [of _ _ s1 s2] 2 by simp
      then show ?thesis
        using assms(1,3) 1 2 b1 False ne f1 by (auto simp: publish_def rs rf without_def finals_free_def fun_eq_iff)
    next
      case b2: True
      have f2: "files s (ep_hashPartial ps) \<noteq> None"
          "files s2 = (files s1)(ep_hashPartial ps := None, ep_hashFinal ps := files s1 (ep_hashPartial ps))"
        using view(1) [of "ep_hashPartial ps" "ep_hashFinal ps" s1 s2] 2 b2 f1 ne by auto
      show ?thesis
      proof (cases b3)
        case False
        then have "files s3 = files s2" using view(2) [of _ _ s2 s3] 3 by simp
        then show ?thesis
          using assms(1,3) 1 2 3 b1 b2 False ne f1 f2
          by (auto simp: publish_def rs rf without_def finals_free_def fun_eq_iff)
      next
        case b3: True
        have f3: "files s (ep_rawPartial ps) \<noteq> None"
            "files s3 = (files s2)(ep_rawPartial ps := None, ep_rawFinal ps := files s2 (ep_rawPartial ps))"
          using view(1) [of "ep_rawPartial ps" "ep_rawFinal ps" s2 s3] 3 b3 f1 f2 ne by auto
        have "files s3 = promoted ps (files s)"
          using ne by (auto simp: f1(2) f2(2) f3(2) promoted_def without_def fun_eq_iff)
        moreover have "r = bundle_result summary" "s' = s3"
          using assms(1) 1 2 3 b1 b2 b3 by (auto simp: publish_def bundle_result_def)
        ultimately show ?thesis using f1(1) f2(1) f3(1) by simp
      qed
    qed
  qed
qed

section \<open>From the acquisition to the result\<close>

lemma give_up_files:
  assumes "give_up api ps m e c = (r, c')" and "paths_ok ps" and "deletes_work api files"
  shows "\<not> HasFinalizedBundle r \<and>
    files (cp_sys c') = without [ep_rawPartial ps, ep_mapPartial ps, ep_hashPartial ps] (files (cp_sys c))"
  using assms(1) by (auto simp: give_up_def with_sys_def cp_sys_def RemoveStagingFiles_files [OF assms(3,2)])

lemma staging_cleanup:
  assumes "\<And>q. q \<notin> {ep_rawPartial ps, ep_mapPartial ps, ep_hashPartial ps} \<Longrightarrow> f q = g q"
    and "g (ep_mapPartial ps) = None" and "g (ep_hashPartial ps) = None"
  shows "without [ep_rawPartial ps, ep_mapPartial ps, ep_hashPartial ps] f = without [ep_rawPartial ps] g"
  using assms by (auto simp: without_def fun_eq_iff)

text \<open>The text artifacts, staged one after the other.\<close>

lemma WriteMapJson_only:
  assumes "WriteMapJson api p summary s = (ok, s')"
  shows "only_file files p s s'"
    and "ok \<Longrightarrow> map_allowed summary \<and> files s' = (files s)(p \<mapsto> ascii (map_json summary))"
  using assms WriteAtomicString_only(1) [of p "map_json summary" s ok s']
    WriteAtomicString_True [of p "map_json summary" s s']
  by (auto simp: WriteMapJson_def only_file_def split: if_splits)

lemma WriteSha256Sidecar_only:
  assumes "WriteSha256Sidecar api conv p name sha s = (ok, s')"
  shows "only_file files p s s'"
    and "ok \<Longrightarrow> IsSha256Hex sha \<and> NarrowUtf8 conv name \<noteq> [] \<and>
      files s' = (files s)(p \<mapsto> ascii (sidecar_text sha (NarrowUtf8 conv name)))"
  using assms WriteAtomicString_only(1) [of p "sidecar_text sha (NarrowUtf8 conv name)" s ok s']
    WriteAtomicString_True [of p "sidecar_text sha (NarrowUtf8 conv name)" s s']
  by (auto simp: WriteSha256Sidecar_def Let_def only_file_def split: if_splits)

end

text \<open>The published bundle over the volume it was added to.\<close>

definition bundle_files ::
  "EvidencePaths \<Rightarrow> bytes option \<Rightarrow> AcquisitionSummary \<Rightarrow> string \<Rightarrow> (wstring \<Rightarrow> bytes option) \<Rightarrow> wstring \<Rightarrow> bytes option" where
  "bundle_files ps img summary name f = (without [ep_rawPartial ps] f)
     (ep_mapFinal ps \<mapsto> ascii (map_json summary),
      ep_hashFinal ps \<mapsto> ascii (sidecar_text (as_sha256 summary) name),
      ep_rawFinal ps := img)"

text \<open>The code's test of the byte counts, over unbounded numbers.\<close>

definition accounted :: "AcquisitionSummary \<Rightarrow> bool" where
  "accounted s \<longleftrightarrow> unat (as_acquiredBytes s) + unat (as_unreadableBytes s) = unat (as_physicalBytes s)"

lemma accounted_test:
  "\<not> (as_acquiredBytes s > u64_max - as_unreadableBytes s \<or>
      as_acquiredBytes s + as_unreadableBytes s \<noteq> as_physicalBytes s) \<Longrightarrow> accounted s"
  using word_gt_max_minus_iff [of "as_unreadableBytes s" "as_acquiredBytes s"]
    unat_add_u64 [of "as_acquiredBytes s" "as_unreadableBytes s"]
  by (simp add: accounted_def not_le add.commute)

definition sealed ::
  "'s win32 \<Rightarrow> ('s \<Rightarrow> wstring \<Rightarrow> bytes option) \<Rightarrow> 'c cng_api \<Rightarrow> utf8_api \<Rightarrow> wstring \<Rightarrow> AcquisitionSummary \<Rightarrow>
   ('d, 's, 'c) capture \<Rightarrow> EvidenceCaptureResult \<Rightarrow> ('d, 's, 'c) capture \<Rightarrow> bool" where
  "sealed api files provider conv out summary c r c' \<longleftrightarrow>
     (\<exists>sha h w. Sha256_Finish provider (cp_hash c) = (True, sha, h) \<and>
        wr_FlushAndClose (evidence_writer_class api) (cp_wr c) = (True, w) \<and>
        (let ps = BuildEvidencePaths out; summary' = summary\<lparr> as_sha256 := sha \<rparr>;
             name = NarrowUtf8 conv (path_filename out); img = files (writer_sys w) (ep_rawPartial ps)
         in r = bundle_result summary' \<and> accounted summary' \<and> map_allowed summary' \<and> IsSha256Hex sha \<and>
            name \<noteq> [] \<and> img \<noteq> None \<and>
            files (cp_sys c') = bundle_files ps img summary' name (files (cp_sys c))))"

context win32_files
begin

lemma seal_files:
  assumes "seal api provider conv out summary c = (r, c')" and "out \<noteq> []" and "deletes_work api files"
    and "ew_working files opened (ep_rawPartial (BuildEvidencePaths out)) (cp_wr c)"
    and "\<And>q. q \<in> set (path_list (BuildEvidencePaths out)) \<Longrightarrow> q \<noteq> ep_rawPartial (BuildEvidencePaths out) \<Longrightarrow>
      files (cp_sys c) q = None"
  shows "sealed api files provider conv out summary c r c' \<or>
    (\<not> HasFinalizedBundle r \<and> files (cp_sys c') = without [ep_rawPartial (BuildEvidencePaths out)] (files (cp_sys c)))"
proof -
  let ?ps = "BuildEvidencePaths out" and ?W = "evidence_writer_class api"
  have ps: "paths_ok ?ps" by (rule BuildEvidencePaths_ok [OF assms(2)])
  note ne = paths_okD [OF ps]
  have free: "files (cp_sys c) (ep_rawFinal ?ps) = None" "files (cp_sys c) (ep_mapFinal ?ps) = None"
    "files (cp_sys c) (ep_mapPartial ?ps) = None" "files (cp_sys c) (ep_hashFinal ?ps) = None"
    "files (cp_sys c) (ep_hashPartial ?ps) = None"
    using assms(5) ne by (auto simp: path_list_def)
  have failed: "\<not> HasFinalizedBundle r \<and> files (cp_sys c') = without [ep_rawPartial ?ps] (files (cp_sys c))"
    if "give_up api ?ps m e x = (r, c')"
      and "\<And>q. q \<notin> {ep_rawPartial ?ps, ep_mapPartial ?ps, ep_hashPartial ?ps} \<Longrightarrow>
        files (cp_sys x) q = files (cp_sys c) q" for m e x
    using give_up_files [OF that(1) ps assms(3)] staging_cleanup [of ?ps "files (cp_sys x)" "files (cp_sys c)"]
      that(2) free by simp
  obtain b1 sha h where 1: "Sha256_Finish provider (cp_hash c) = (b1, sha, h)" by (metis prod.collapse)
  obtain b2 w where 2: "wr_FlushAndClose ?W (cp_wr c) = (b2, w)" by fastforce
  let ?summary = "summary\<lparr> as_sha256 := sha \<rparr>"
  obtain b3 s3 where 3: "WriteMapJson api (ep_mapPartial ?ps) ?summary (writer_sys w) = (b3, s3)" by fastforce
  obtain b4 s4 where 4: "WriteSha256Sidecar api conv (ep_hashPartial ?ps) (path_filename out) sha s3 = (b4, s4)" by fastforce
  obtain r5 s5 where 5: "publish api ?ps ?summary s4 = (r5, s5)" by fastforce
  let ?bad = "as_acquiredBytes ?summary > u64_max - as_unreadableBytes ?summary \<or>
      as_acquiredBytes ?summary + as_unreadableBytes ?summary \<noteq> as_physicalBytes ?summary"
  have w: "only_file files (ep_rawPartial ?ps) (cp_sys c) (writer_sys w)"
    using staged.flush_stages [OF assms(4) 2] by (simp add: cp_sys_def)
  note s3 = WriteMapJson_only [OF 3] and s4 = WriteSha256Sidecar_only [OF 4]
  show ?thesis
  proof (cases "b1 \<and> b2 \<and> \<not> ?bad \<and> b3 \<and> b4")
    case True
    have f4: "files s4 = (files (writer_sys w))(ep_mapPartial ?ps \<mapsto> ascii (map_json ?summary),
        ep_hashPartial ?ps \<mapsto> ascii (sidecar_text sha (NarrowUtf8 conv (path_filename out))))"
      using s3(2) s4(2) True by simp
    have fin: "finals_free ?ps (files s4)"
      using f4 w free ne by (simp add: finals_free_def only_file_def)
    have rc: "r = r5" "c' = with_sys (c\<lparr> cp_hash := h, cp_wr := w \<rparr>) s5"
      using assms(1) 1 2 3 4 5 True by (auto simp: seal_def Let_def cp_sys_def with_sys_def)
    have "promoted ?ps (files s4) = bundle_files ?ps (files (writer_sys w) (ep_rawPartial ?ps)) ?summary
        (NarrowUtf8 conv (path_filename out)) (files (cp_sys c))"
      using w free ne by (auto simp: f4 promoted_def bundle_files_def without_def only_file_def fun_eq_iff)
    moreover have "without [ep_rawPartial ?ps, ep_mapPartial ?ps, ep_hashPartial ?ps] (files s4) =
        without [ep_rawPartial ?ps] (files (cp_sys c))"
      by (rule staging_cleanup) (use w free f4 in \<open>auto simp: only_file_def\<close>)
    moreover have "accounted ?summary" using True accounted_test by blast
    ultimately show ?thesis
      using publish_files [OF 5 ps fin assms(3)] s3(2) s4(2) True 1 2 f4 ne
      unfolding sealed_def Let_def rc by (auto simp: cp_sys_def with_sys_def)
  next
    case False
    have "\<exists>m e x. give_up api ?ps m e x = (r, c') \<and> (x = c\<lparr> cp_hash := h, cp_wr := wr_Close ?W (cp_wr c) \<rparr> \<or>
        (x = (c\<lparr> cp_hash := h, cp_wr := w \<rparr>) \<or> x = with_sys (c\<lparr> cp_hash := h, cp_wr := w \<rparr>) s3 \<or>
        x = with_sys (c\<lparr> cp_hash := h, cp_wr := w \<rparr>) s4))"
      using assms(1) 1 2 3 4 False
      by (cases b1; cases b2; cases ?bad; cases b3; cases b4) (auto simp: seal_def Let_def cp_sys_def)
    then obtain m e x where g: "give_up api ?ps m e x = (r, c')"
      and x: "files (cp_sys x) = files (cp_sys c) \<or> cp_sys x = writer_sys w \<or> cp_sys x = s3 \<or> cp_sys x = s4"
      using staged.close_stages [of "cp_wr c"] by (auto simp: cp_sys_def with_sys_def)
    show ?thesis
      by (rule disjI2, rule failed [OF g]) (use x w s3(1) s4(1) in \<open>auto simp: only_file_def\<close>)
  qed
qed

text \<open>A raw writer that cannot be opened leaves nothing behind.\<close>

lemma rw_abandon_clean:
  assumes "rw_abandon api p w = (ok, w')" and "deletes_work api files"
  shows "files (rw_sys w') p = None"
proof -
  let ?c = "RawWriter_Close api (w\<lparr> rw_lastError := w_GetLastError api (rw_sys w) \<rparr>)"
  obtain b t where d: "w_DeleteFileW api p (rw_sys ?c) = (b, t)" by fastforce
  have "files (rw_sys ?c) p = None \<or> b" using assms(2) d by (auto simp: deletes_work_def dest!: spec [of _ p])
  then have "files t p = None"
    using d delete_ok [of p "rw_sys ?c" t] delete_failed [of p "rw_sys ?c" t] by (cases b) auto
  then show ?thesis using assms(1) d by (auto simp: rw_abandon_def Let_def)
qed

lemma RawWriter_open_clean:
  assumes "RawWriter_PreflightAndOpen api p n phys w = (False, w')" and "deletes_work api files"
    and "files (rw_sys w) p = None"
  shows "files (rw_sys w') = files (rw_sys w)"
proof -
  let ?w = "(RawWriter_Close api w)\<lparr> rw_lastError := ERROR_SUCCESS, rw_sparse := False, rw_logicalSize := 0 \<rparr>"
  obtain a sp u where pre: "rw_preflight api p n phys ?w = (a, sp, u)" by (metis prod.collapse)
  have u: "files (rw_sys u) = files (rw_sys w)" "rw_file u = INVALID_HANDLE_VALUE"
    using rw_preflight_frame [OF pre] by (simp_all add: Close_files)
  have only: "only_file files p (rw_sys w) (rw_sys w')" by (rule PreflightAndOpen_files(1) [OF assms(1)])
  have "files (rw_sys w') p = None"
  proof (cases a)
    case False
    then show ?thesis using assms(1,3) pre u by (auto simp: RawWriter_PreflightAndOpen_def Let_def)
  next
    case True
    then have cr: "rw_create api p n sp u = (False, w')"
      using assms(1) pre by (simp add: RawWriter_PreflightAndOpen_def Let_def)
    obtain h s1 where c: "w_CreateFileW api p (GENERIC_READ OR GENERIC_WRITE) CREATE_NEW (rw_sys u) = (h, s1)"
      by fastforce
    show ?thesis
    proof (cases "h = INVALID_HANDLE_VALUE")
      case True
      then show ?thesis using cr c u assms(3) create_failed [of p _ _ "rw_sys u" s1]
        by (auto simp: rw_create_def rw_fail_def)
    next
      case False
      then have "\<exists>v. rw_abandon api p v = (False, w')"
        using cr c by (auto simp: rw_create_def Let_def split: prod.splits bool.splits if_splits)
      then show ?thesis using rw_abandon_clean [OF _ assms(2)] by blast
    qed
  qed
  then have "\<forall>q. files (rw_sys w') q = files (rw_sys w) q"
    using only assms(3) unfolding only_file_def by metis
  then show ?thesis by (simp add: fun_eq_iff)
qed

section \<open>The whole transaction\<close>

lemma abort_capture_files:
  assumes "abort_capture D api ps summary c = (r, c')" and "paths_ok ps" and "deletes_work api files"
  shows "\<not> HasFinalizedBundle r \<and>
    files (cp_sys c') = without [ep_rawPartial ps, ep_mapPartial ps, ep_hashPartial ps] (files (cp_sys c))"
  using assms(1) staged.close_stages [of "cp_wr c"] RemoveStagingFiles_files [OF assms(3,2)]
  by (auto simp: abort_capture_def Let_def with_sys_def cp_sys_def HasFinalizedBundle_def split: prod.splits if_splits)

end

text \<open>A capture that went all the way: what each step returned.\<close>

definition captured ::
  "'d IDeviceSession \<Rightarrow> 's win32 \<Rightarrow> ('s \<Rightarrow> wstring \<Rightarrow> bytes option) \<Rightarrow> 'c cng_api \<Rightarrow> utf8_api \<Rightarrow> wstring \<Rightarrow>
   AcquisitionConfig \<Rightarrow> u64 \<Rightarrow> u64 \<Rightarrow> ('d, 's, 'c) capture \<Rightarrow> EvidenceCaptureResult \<Rightarrow> ('d, 's, 'c) capture \<Rightarrow> bool" where
  "captured D api files provider conv out config hi tot c r c' \<longleftrightarrow>
     (\<exists>w a. wr_PreflightAndOpen (evidence_writer_class api) (ep_rawPartial (BuildEvidencePaths out)) hi tot (cp_wr c) = (True, w) \<and>
        Acquire D (evidence_writer_class api) (Sha256_class provider) config (cp_dev c) w (cp_hash c) (cp_host c) = (True, a) \<and>
        sealed api files provider conv out (ar_summary a)
          (c\<lparr> cp_dev := ar_dev a, cp_wr := ar_wr a, cp_hash := ar_hash a, cp_host := ar_host a \<rparr>) r c')"

context win32_files
begin

lemma capture_with_files:
  assumes "capture_with D api provider conv out config hi tot c = (r, c')" and "out \<noteq> []"
    and "deletes_work api files" and "ew_ready (cp_wr c)"
    and free: "\<And>q. q \<in> set (path_list (BuildEvidencePaths out)) \<Longrightarrow> files (cp_sys c) q = None"
  shows "captured D api files provider conv out config hi tot c r c' \<or>
    (\<not> HasFinalizedBundle r \<and> only_file files (ep_rawPartial (BuildEvidencePaths out)) (cp_sys c) (cp_sys c') \<and>
     ((\<exists>v. cp_wr c = WRaw v) \<longrightarrow> files (cp_sys c') = files (cp_sys c)))"
proof -
  let ?ps = "BuildEvidencePaths out" and ?W = "evidence_writer_class api"
  let ?p = "ep_rawPartial ?ps"
  have ps: "paths_ok ?ps" by (rule BuildEvidencePaths_ok [OF assms(2)])
  have partials: "files (cp_sys c) (ep_rawPartial ?ps) = None" "files (cp_sys c) (ep_mapPartial ?ps) = None"
      "files (cp_sys c) (ep_hashPartial ?ps) = None"
    by (simp_all add: free path_list_def)
  obtain b w where 1: "wr_PreflightAndOpen ?W ?p hi tot (cp_wr c) = (b, w)" by fastforce
  have w: "only_file files ?p (cp_sys c) (writer_sys w)" "b \<Longrightarrow> ew_working files opened ?p w"
    using staged.open_stages [OF assms(4) 1] by (simp_all add: cp_sys_def)
  obtain ok a where 2: "Acquire D ?W (Sha256_class provider) config (cp_dev c) w (cp_hash c) (cp_host c) = (ok, a)"
    by fastforce
  let ?c = "c\<lparr> cp_dev := ar_dev a, cp_wr := ar_wr a, cp_hash := ar_hash a, cp_host := ar_host a \<rparr>"
  have clean: "without [?p] f = files (cp_sys c)" if "\<And>q. q \<noteq> ?p \<Longrightarrow> f q = files (cp_sys c) q" for f
    using that partials(1) by (auto simp: without_def fun_eq_iff)
  show ?thesis
  proof (cases b)
    case False
    then have r: "\<not> HasFinalizedBundle r" "cp_sys c' = writer_sys w"
      using assms(1) 1 by (auto simp: capture_with_def Let_def cp_sys_def)
    have "files (writer_sys w) = files (cp_sys c)" if raw: "cp_wr c = WRaw v" for v
    proof -
      obtain v' where "RawWriter_PreflightAndOpen api ?p hi tot v = (False, v')" "w = WRaw v'"
        using 1 [unfolded evidence_writer_sels raw] False by (cases "RawWriter_PreflightAndOpen api ?p hi tot v") auto
      then show ?thesis using RawWriter_open_clean [OF _ assms(3), of ?p hi tot v v'] partials(1) by (simp add: cp_sys_def raw)
    qed
    then show ?thesis using r w(1) by auto
  next
    case True
    have a: "only_file files ?p (cp_sys c) (cp_sys ?c)" "ew_working files opened ?p (ar_wr a)"
      using staged.Acquire_stages [OF w(2) [OF True] 2] w(1) by (auto simp: cp_sys_def intro: only_file_trans)
    show ?thesis
    proof (cases ok)
      case False
      then have "abort_capture D api ?ps (ar_summary a) ?c = (r, c')"
        using assms(1) 1 2 True by (simp add: capture_with_def Let_def)
      note ab = abort_capture_files [OF this ps assms(3)]
      have "without [?p, ep_mapPartial ?ps, ep_hashPartial ?ps] (files (cp_sys ?c)) = files (cp_sys c)"
        using a(1) partials by (auto simp: without_def only_file_def fun_eq_iff)
      then show ?thesis using ab by (simp add: only_file_def)
    next
      case ok: True
      have se: "seal api provider conv out (ar_summary a) ?c = (r, c')"
        using assms(1) 1 2 True ok by (simp add: capture_with_def Let_def)
      have "files (cp_sys ?c) q = None" if "q \<in> set (path_list ?ps)" "q \<noteq> ?p" for q
        using free [OF that(1)] that(2) a(1) by (simp add: only_file_def)
      from seal_files [OF se assms(2,3) _ this] a(2) have
        "sealed api files provider conv out (ar_summary a) ?c r c' \<or>
         (\<not> HasFinalizedBundle r \<and> files (cp_sys c') = without [?p] (files (cp_sys ?c)))" by simp
      moreover have "without [?p] (files (cp_sys ?c)) = files (cp_sys c)"
        by (rule clean) (use a(1) in \<open>simp add: only_file_def\<close>)
      ultimately show ?thesis using 1 2 True ok unfolding captured_def by (auto simp: only_file_def)
    qed
  qed
qed

lemma release_files:
  assumes "release api provider (r0, c) = (r, d', s', k', host')"
  shows "r = r0 \<and> files s' = files (cp_sys c)"
  using assms staged.close_stages [of "cp_wr c"] by (auto simp: release_def cp_sys_def evidence_writer_sels)

end

lemma make_writer_simps [simp]:
  "writer_sys (make_writer format s) = s"
  "writer_sys (writer_Configure runs hints metadata w) = writer_sys w"
  "ew_ready (writer_Configure runs hints metadata (make_writer format s))"
  "format = Raw \<Longrightarrow> make_writer format s = WRaw (RawWriter_init s)"
  by (auto simp: make_writer_def RawWriter_init_def ZdmpWriter_init_def E01Writer_init_def
      ZdmpWriter_Configure_def E01Writer_Configure_def)
    (cases w; simp add: ZdmpWriter_Configure_def E01Writer_Configure_def)

text \<open>The state in which the writer is opened.\<close>

definition capture_start ::
  "wstring \<Rightarrow> AcquisitionConfig \<Rightarrow> MemoryRun list \<Rightarrow> KernelHints \<Rightarrow> 'd \<Rightarrow> 's \<Rightarrow> 'c Sha256 \<Rightarrow> host \<Rightarrow> ('d, 's, 'c) capture" where
  "capture_start out config runs hints d s h host = \<lparr> cp_dev = d,
     cp_wr = writer_Configure runs hints (cfg_metadata config) (make_writer (chosen_format (cfg_format config) out) s),
     cp_hash = h, cp_host = host \<rparr>"

definition published ::
  "'d IDeviceSession \<Rightarrow> 's win32 \<Rightarrow> ('s \<Rightarrow> wstring \<Rightarrow> bytes option) \<Rightarrow> 'c cng_api \<Rightarrow> utf8_api \<Rightarrow> wstring \<Rightarrow>
   AcquisitionConfig \<Rightarrow> 'd \<Rightarrow> 's \<Rightarrow> 'c \<Rightarrow> host \<Rightarrow> EvidenceCaptureResult \<Rightarrow> 's \<Rightarrow> bool" where
  "published D api files provider conv out config d s k host r s' \<longleftrightarrow>
     (\<exists>hi tot runs d1 ok hints d2 h s0 c'.
        dev_Query D d = (True, (hi, tot, runs), d1) \<and> dev_QueryHints D d1 = (ok, hints, d2) \<and>
        Sha256_Initialize provider (Sha256_init k) = (True, h) \<and> files s0 = files s \<and>
        captured D api files provider conv out config hi tot (capture_start out config runs hints d2 s0 h host) r c' \<and>
        files s' = files (cp_sys c'))"

context win32_files
begin

lemma capture_files:
  assumes "CaptureEvidenceToFile D api provider conv out config d s k host = (r, d', s', k', host')"
    and "deletes_work api files" and "sees_files api files"
  shows "(out \<noteq> [] \<and> (\<forall>q \<in> set (path_list (BuildEvidencePaths out)). files s q = None) \<and>
      published D api files provider conv out config d s k host r s') \<or>
    (\<not> HasFinalizedBundle r \<and>
     (\<forall>q. files s' q = files s q \<or> q = ep_rawPartial (BuildEvidencePaths out) \<and> files s q = None) \<and>
     (chosen_format (cfg_format config) out = Raw \<longrightarrow> files s' = files s))"
proof -
  let ?ps = "BuildEvidencePaths out"
  obtain b s0 where 1: "HasAnyCollision api ?ps s = (b, s0)" by fastforce
  obtain q hi tot runs d1 where 2: "dev_Query D d = (q, (hi, tot, runs), d1)" by (metis prod.collapse)
  obtain i h where 3: "Sha256_Initialize provider (Sha256_init k) = (i, h)" by fastforce
  obtain ok hints d2 where 4: "dev_QueryHints D d1 = (ok, hints, d2)" by (metis prod.collapse)
  let ?c = "capture_start out config runs hints d2 s0 h host"
  obtain r0 c where 5: "capture_with D api provider conv out config hi tot ?c = (r0, c)" by fastforce
  have s0: "files s0 = files s" using HasAnyCollision_files(1) [OF 1] .
  show ?thesis
  proof (cases "out = [] \<or> out = wide ''-'' \<or> b \<or> \<not> q \<or> \<not> i")
    case True
    then have "\<not> HasFinalizedBundle r \<and> files s' = files s"
      using assms(1) 1 2 3 s0
      by (cases b; cases q; cases i) (auto simp: CaptureEvidenceToFile_def split: if_splits)
    then show ?thesis by simp
  next
    case False
    then have "release api provider (r0, c) = (r, d', s', k', host')"
      using assms(1) 1 2 3 4 5 by (simp add: CaptureEvidenceToFile_def capture_start_def evidence_writer_sels)
    note rel = release_files [OF this]
    have start: "cp_sys ?c = s0" "ew_ready (cp_wr ?c)"
      by (simp_all add: capture_start_def cp_sys_def)
    have free: "files s q = None" if "q \<in> set (path_list ?ps)" for q
      using HasAnyCollision_files(2) [OF 1 _ assms(3) that] False by simp
    have raw: "\<exists>v. cp_wr ?c = WRaw v" if "chosen_format (cfg_format config) out = Raw"
      using that by (simp add: capture_start_def)
    from capture_with_files [OF 5 _ assms(2) start(2)] False free s0 start(1)
    have "captured D api files provider conv out config hi tot ?c r0 c \<or>
      (\<not> HasFinalizedBundle r0 \<and> only_file files (ep_rawPartial ?ps) s0 (cp_sys c) \<and>
       ((\<exists>v. cp_wr ?c = WRaw v) \<longrightarrow> files (cp_sys c) = files s0))" by simp
    then show ?thesis
    proof (elim disjE)
      assume "captured D api files provider conv out config hi tot ?c r0 c"
      then have "published D api files provider conv out config d s k host r s'"
        unfolding published_def using 2 3 4 False s0 rel by auto
      then show ?thesis using False free by simp
    next
      assume "\<not> HasFinalizedBundle r0 \<and> only_file files (ep_rawPartial ?ps) s0 (cp_sys c) \<and>
        ((\<exists>v. cp_wr ?c = WRaw v) \<longrightarrow> files (cp_sys c) = files s0)"
      then have "\<not> HasFinalizedBundle r" "\<forall>q. q \<noteq> ep_rawPartial ?ps \<longrightarrow> files s' q = files s q"
        "chosen_format (cfg_format config) out = Raw \<longrightarrow> files s' = files s"
        using rel raw s0 by (simp_all add: only_file_def)
      moreover have "files s (ep_rawPartial ?ps) = None" by (rule free) (simp add: path_list_def)
      ultimately show ?thesis by metis
    qed
  qed
qed

text \<open>What a published bundle adds to the volume.\<close>

lemma published_bundle:
  assumes "published D api files provider conv out config d s k host r s'"
    and "\<forall>q \<in> set (path_list (BuildEvidencePaths out)). files s q = None"
  obtains img summary name where "r = bundle_result summary" and "HasFinalizedBundle r"
    and "files s' = (files s)(ep_mapFinal (BuildEvidencePaths out) \<mapsto> ascii (map_json summary),
      ep_hashFinal (BuildEvidencePaths out) \<mapsto> ascii (sidecar_text (as_sha256 summary) name),
      ep_rawFinal (BuildEvidencePaths out) \<mapsto> img)"
proof -
  let ?ps = "BuildEvidencePaths out" and ?W = "evidence_writer_class api"
  obtain hi tot runs h s0 c' d2 hints where s0: "files s0 = files s"
    and cap: "captured D api files provider conv out config hi tot (capture_start out config runs hints d2 s0 h host) r c'"
    and s': "files s' = files (cp_sys c')"
    using assms(1) by (auto simp: published_def)
  let ?c = "capture_start out config runs hints d2 s0 h host"
  obtain w a where 1: "wr_PreflightAndOpen ?W (ep_rawPartial ?ps) hi tot (cp_wr ?c) = (True, w)"
    and 2: "Acquire D ?W (Sha256_class provider) config (cp_dev ?c) w (cp_hash ?c) (cp_host ?c) = (True, a)"
    and 3: "sealed api files provider conv out (ar_summary a)
          (?c\<lparr> cp_dev := ar_dev a, cp_wr := ar_wr a, cp_hash := ar_hash a, cp_host := ar_host a \<rparr>) r c'"
    using cap by (auto simp: captured_def)
  obtain sha img name where r: "r = bundle_result ((ar_summary a)\<lparr> as_sha256 := sha \<rparr>)"
    and c': "files (cp_sys c') = bundle_files ?ps (Some img) ((ar_summary a)\<lparr> as_sha256 := sha \<rparr>) name
      (files (writer_sys (ar_wr a)))"
    using 3 by (auto simp: sealed_def Let_def cp_sys_def)
  have ready: "ew_ready (cp_wr ?c)" "writer_sys (cp_wr ?c) = s0" by (simp_all add: capture_start_def)
  have "only_file files (ep_rawPartial ?ps) s0 (writer_sys w)" "ew_working files opened (ep_rawPartial ?ps) w"
    using staged.open_stages [OF ready(1) 1] ready(2) by simp_all
  then have "only_file files (ep_rawPartial ?ps) s0 (writer_sys (ar_wr a))"
    using staged.Acquire_stages [OF _ 2] by (blast intro: only_file_trans)
  then have "without [ep_rawPartial ?ps] (files (writer_sys (ar_wr a))) = files s"
    using s0 assms(2) by (auto simp: without_def only_file_def fun_eq_iff path_list_def)
  then show thesis
    using that [of "(ar_summary a)\<lparr> as_sha256 := sha \<rparr>" name img] r c' s' by (simp add: bundle_files_def)
qed

end

end
