(* ===== verification/EvidenceBench.thy ===== *)
theory EvidenceBench
  imports EvidenceAtomic WriterTheorems
begin

text \<open>
  A capture that runs to its end: the bench memory, a volume and a hash provider on which nothing
  fails. The theorems about the evidence transaction are applied to it.
\<close>

section \<open>A volume at rest, and one with a single open file\<close>

definition idle :: "nat \<Rightarrow> disk \<Rightarrow> bool" where
  "idle n s \<longleftrightarrow> k_fails s = (\<lambda>_. False) \<and> k_calls s = n \<and> 0 < n \<and> n < 1000 \<and> disk_open s = Map.empty"

definition serving :: "nat \<Rightarrow> u64 \<Rightarrow> wstring \<Rightarrow> disk \<Rightarrow> bool" where
  "serving n h p s \<longleftrightarrow> k_fails s = (\<lambda>_. False) \<and> k_calls s = n \<and> 0 < n \<and> n < 1000 \<and> h \<noteq> INVALID_HANDLE_VALUE \<and> h \<noteq> 0 \<and>
     (\<exists>pos. disk_open s = [h \<mapsto> (p, pos)]) \<and> disk_files s p \<noteq> None"

lemma steady_sels:
  "w_CreateFileW steady_api = disk_create" "w_WriteFile steady_api = steady_write"
  "w_SetFilePointerEx steady_api = steady_pointer" "w_FlushFileBuffers steady_api h s = (True, s)"
  "w_CloseHandle steady_api h s = s\<lparr> k_open := AList.delete h (k_open s) \<rparr>"
  "w_MoveFileExW steady_api = disk_move"
  "w_GetFileAttributesW steady_api p s = (if p \<in> set disk_directories then 0x10
     else if disk_files s p = None then INVALID_FILE_ATTRIBUTES else 0x80, s)"
  "w_SetEndOfFile steady_api = disk_end_of_file"
  "w_SetSparse steady_api h = disk_call (Pair False) (Pair True)"
  "w_GetVolumePathNameW steady_api p s = (True, take 3 p, s)"
  "w_GetVolumeInformationW steady_api p s = (True, (k_flags s, k_fsname s), s)"
  "w_GetDiskFreeSpaceExW steady_api p s = (True, k_free s, s)"
  by (simp_all add: steady_api_def disk_api_def)

lemma small_handle: "0 < n \<Longrightarrow> n < 1000 \<Longrightarrow> (of_nat n :: u64) \<noteq> 0 \<and> (of_nat n :: u64) \<noteq> INVALID_HANDLE_VALUE"
  using unat_of_nat_small [of n] by (auto simp: INVALID_HANDLE_VALUE_def)

lemma idle_create_new:
  assumes "idle n s" and "disk_files s p = None" and "n < 999"
  shows "\<exists>h s'. w_CreateFileW steady_api p acc CREATE_NEW s = (h, s') \<and> serving (Suc n) h p s'"
  using assms small_handle [of "Suc n"]
  by (auto simp: steady_sels disk_create_def disk_call_def idle_def serving_def Let_def CREATE_NEW_def CREATE_ALWAYS_def)

lemma serving_write:
  assumes "serving n h p s" and "length xs < 4294967296"
  shows "\<exists>s'. w_WriteFile steady_api h xs s = (True, of_nat (length xs), s') \<and> serving n h p s'"
  using assms by (auto simp: steady_sels steady_write_def serving_def Let_def min_absorb1)

lemma serving_pointer:
  assumes "serving n h p s"
  shows "\<exists>s'. w_SetFilePointerEx steady_api h off s = (True, s') \<and> serving n h p s'"
  using assms by (auto simp: steady_sels steady_pointer_def serving_def)

lemma serving_end_of_file:
  assumes "serving n h p s" and "n < 999"
  shows "\<exists>s'. w_SetEndOfFile steady_api h s = (True, s') \<and> serving (Suc n) h p s'"
proof -
  obtain pos where "disk_open s h = Some (p, pos)" "disk_open s = [h \<mapsto> (p, pos)]" using assms(1) by (auto simp: serving_def)
  then show ?thesis
    using assms by (auto simp: steady_sels disk_end_of_file_def disk_call_def serving_def Let_def)
qed

lemma serving_close:
  assumes "serving n h p s"
  shows "idle n (handle_reset steady_api h s)"
  using assms by (auto simp: handle_reset_def steady_sels serving_def idle_def fun_eq_iff)

lemma serving_WriteAll:
  assumes "serving n h p s" and "0 < chunk" and "chunk < 4294967296"
  shows "\<exists>s'. WriteAll steady_api chunk h xs k s = (True, s') \<and> serving n h p s'"
  using assms(1)
proof (induction "length xs - k" arbitrary: k s rule: less_induct)
  case less
  show ?case
  proof (cases "k < length xs")
    case False
    then show ?thesis using less.prems by (simp add: WriteAll.simps [of steady_api])
  next
    case True
    let ?req = "min (length xs - k) chunk"
    have req: "?req < 4294967296" "0 < ?req" using assms True by auto
    have "length (take ?req (drop k xs)) = ?req" by simp
    then obtain t where t: "w_WriteFile steady_api h (take ?req (drop k xs)) s = (True, of_nat ?req, t)" "serving n h p t"
      using serving_write [OF less.prems, of "take ?req (drop k xs)"] req(1) by auto
    have m: "unat (of_nat ?req :: u32) = ?req" using req(1) by (simp add: unat_of_nat take_bit_nat_eq_self)
    have "length xs - (k + unat (of_nat ?req :: u32)) < length xs - k" unfolding m using True req(2) by linarith
    from less.hyps [OF this t(2)] obtain s' where
      "WriteAll steady_api chunk h xs (k + unat (of_nat ?req :: u32)) t = (True, s')" "serving n h p s'" by blast
    moreover have "(of_nat ?req :: u32) \<noteq> 0" using m req(2) by (metis unat_0 less_irrefl)
    ultimately show ?thesis using True t(1) by (simp add: WriteAll.simps [of steady_api chunk h xs k s] Let_def)
  qed
qed

lemma idle_WriteAtomicString:
  assumes "idle n s" and "disk_files s p = None" and "n < 999"
  shows "\<exists>s'. WriteAtomicString steady_api p content s = (True, s') \<and> idle (Suc n) s'"
proof -
  obtain h s1 where c: "w_CreateFileW steady_api p GENERIC_WRITE CREATE_NEW s = (h, s1)" "serving (Suc n) h p s1"
    using idle_create_new [OF assms] by blast
  obtain s2 where w: "WriteAll steady_api kTextChunkBytes h (ascii content) 0 s1 = (True, s2)" "serving (Suc n) h p s2"
    using serving_WriteAll [OF c(2), of kTextChunkBytes] by (auto simp: kTextChunkBytes_def)
  have "h \<noteq> INVALID_HANDLE_VALUE" using c(2) by (simp add: serving_def)
  then show ?thesis using c w serving_close [OF w(2)] by (simp add: WriteAtomicString_def steady_sels)
qed

lemma idle_move:
  assumes "idle n s" and "disk_files s src \<noteq> None" and "disk_files s dst = None" and "n < 999"
  shows "\<exists>s'. PromoteStagingFile steady_api src dst s = (True, s') \<and> idle (Suc n) s'"
  using assms by (auto simp: PromoteStagingFile_def steady_sels disk_move_def disk_call_def idle_def Let_def)

lemma steady_deletes: "deletes_work steady_api disk_files"
  by (auto simp: deletes_work_def steady_api_def)

lemma steady_sees: "sees_files steady_api disk_files"
  by (auto simp: sees_files_def steady_sels INVALID_FILE_ATTRIBUTES_def)

section \<open>The raw writer and the hasher on it\<close>

definition raw_serving :: "nat \<Rightarrow> wstring \<Rightarrow> disk RawWriter \<Rightarrow> bool" where
  "raw_serving n p w \<longleftrightarrow> serving n (rw_file w) p (rw_sys w) \<and> rw_logicalSize w = 24"

lemma raw_serving_WriteAt:
  assumes "raw_serving n p w" and "unat off + length xs \<le> 24"
  shows "\<exists>w'. RawWriter_WriteAt steady_api off xs w = (True, w') \<and> raw_serving n p w'"
proof -
  have s: "serving n (rw_file w) p (rw_sys w)" "rw_logicalSize w = 24" using assms(1) by (simp_all add: raw_serving_def)
  obtain s1 where 1: "w_SetFilePointerEx steady_api (rw_file w) off (rw_sys w) = (True, s1)" "serving n (rw_file w) p s1"
    using serving_pointer [OF s(1)] by blast
  obtain s2 where 2: "WriteAll steady_api kWriteChunkBytes (rw_file w) xs 0 s1 = (True, s2)" "serving n (rw_file w) p s2"
    using serving_WriteAll [OF 1(2), of kWriteChunkBytes] by (auto simp: kWriteChunkBytes_def)
  have "off \<le> 24" "length xs \<le> unat (24 - off)"
    using assms(2) by (auto simp: word_le_nat_alt unat_diff_u64)
  then show ?thesis
    using s 1 2 by (auto simp: RawWriter_WriteAt_def raw_serving_def serving_def not_less not_le)
qed

definition hash_live :: "hash_system Sha256 \<Rightarrow> bool" where
  "hash_live h \<longleftrightarrow> sha_initialized h \<and> hk_absorbed (sha_sys h) (sha_hash h) \<noteq> None"

lemma hash_live_loop: "hash_live h \<Longrightarrow> \<exists>h'. Sha256_UpdateLoop hash_api xs h = (True, h') \<and> hash_live h'"
proof (induction "length xs" arbitrary: xs h rule: less_induct)
  case less
  show ?case
  proof (cases "xs = []")
    case True
    then show ?thesis using less.prems by (simp add: Sha256_UpdateLoop.simps [of hash_api])
  next
    case False
    let ?n = "min (length xs) kHashChunkBytes"
    obtain bs where bs: "hk_absorbed (sha_sys h) (sha_hash h) = Some bs"
      using less.prems by (auto simp: hash_live_def)
    let ?h = "h\<lparr> sha_sys := (sha_sys h)\<lparr> hk_objects := AList.update (sha_hash h) (bs @ take ?n xs) (hk_objects (sha_sys h)) \<rparr> \<rparr>"
    have d: "BCryptHashData hash_api (sha_hash h) (take ?n xs) (sha_sys h) = (0, sha_sys ?h)"
      using bs by (simp add: hash_api_def)
    have "hash_live ?h" using less.prems by (simp add: hash_live_def hk_absorbed_def)
    moreover have "length (drop ?n xs) < length xs" using False by (simp add: kHashChunkBytes_def)
    ultimately obtain h' where "Sha256_UpdateLoop hash_api (drop ?n xs) ?h = (True, h')" "hash_live h'"
      using less.hyps by blast
    then show ?thesis using False d by (simp add: Sha256_UpdateLoop.simps [of hash_api xs h] Let_def)
  qed
qed

lemma hash_live_update: "hash_live h \<Longrightarrow> \<exists>h'. Sha256_Update hash_api xs h = (True, h') \<and> hash_live h'"
  using hash_live_loop [of h xs] by (simp add: Sha256_Update_def hash_live_def)

lemma hash_live_zeros: "hash_live h \<Longrightarrow> \<exists>h'. Sha256_ZerosLoop hash_api n h = (True, h') \<and> hash_live h'"
proof (induction n arbitrary: h rule: less_induct)
  case (less n)
  show ?case
  proof (cases "n = 0")
    case True
    then show ?thesis using less.prems by (simp add: Sha256_ZerosLoop.simps [of hash_api])
  next
    case False
    obtain h1 where 1: "Sha256_Update hash_api (replicate (min n kZeros) 0) h = (True, h1)" "hash_live h1"
      using hash_live_update [OF less.prems] by blast
    have "n - min n kZeros < n" using False by (simp add: kZeros_def)
    from less.IH [OF this 1(2)] obtain h2 where "Sha256_ZerosLoop hash_api (n - min n kZeros) h1 = (True, h2)" "hash_live h2"
      by blast
    then show ?thesis using False 1(1) by (simp add: Sha256_ZerosLoop.simps [of hash_api n h] Let_def)
  qed
qed

lemma hash_live_finish:
  assumes "hash_live h"
  shows "\<exists>bs h'. Sha256_Finish hash_api h = (True, hex_of (some_digest bs), h')"
proof -
  obtain bs where "hk_absorbed (sha_sys h) (sha_hash h) = Some bs" using assms by (auto simp: hash_live_def)
  then show ?thesis using assms by (auto simp: Sha256_Finish_def hash_live_def hash_api_def)
qed

section \<open>The capture\<close>

definition bench_conv :: utf8_api where
  "bench_conv xs n = (int (length xs), if n = 0 then [] else map ucast xs)"

definition bench_cng :: hash_system where
  "bench_cng = \<lparr> hk_objects = [], hk_next = 1, hk_fails = False \<rparr>"

definition bench_out :: wstring where "bench_out = wide ''ram.raw''"

abbreviation bench_D :: "nat IDeviceSession" where
  "bench_D \<equiv> bench_device 24 12 bench_runs bench_mem bench_bad"

definition bench_capture :: "EvidenceCaptureResult \<times> nat \<times> disk \<times> hash_system \<times> host" where
  "bench_capture = CaptureEvidenceToFile bench_D steady_api hash_api bench_conv bench_out bench_config 0
     blank_disk bench_cng bench_host"

lemma bench_raw: "chosen_format Raw bench_out = Raw"
  by code_simp

lemma bench_hash_starts:
  "\<exists>h. Sha256_Initialize hash_api (Sha256_init bench_cng) = (True, h) \<and> hash_live h"
  by (simp add: Sha256_Initialize_def Sha256_init_def Sha256_Reset_def hash_api_def bench_cng_def hash_live_def
      hk_absorbed_def Let_def)

text \<open>A volume with room for the bundle: at rest, NTFS, and none of the six names taken.\<close>

definition roomy :: "nat \<Rightarrow> disk \<Rightarrow> bool" where
  "roomy n s \<longleftrightarrow> idle n s \<and> n < 100 \<and> k_flags s = FILE_SUPPORTS_SPARSE_FILES \<and> k_fsname s = wide ''NTFS'' \<and>
     k_free s = 0x10000000000 \<and> (\<forall>q \<in> set (path_list (BuildEvidencePaths bench_out)). disk_files s q = None)"

lemma blank_idle: "disk_files blank_disk = Map.empty" "idle 1 blank_disk"
  by (simp_all add: disk_files_def disk_open_def idle_def blank_disk_def del: disk_call_simps)

lemma blank_roomy: "roomy 1 blank_disk"
proof -
  have "k_flags blank_disk = FILE_SUPPORTS_SPARSE_FILES" "k_fsname blank_disk = wide ''NTFS''" "k_free blank_disk = 0x10000000000"
    by (simp_all add: blank_disk_def)
  then show ?thesis using blank_idle by (simp add: roomy_def del: One_nat_def)
qed

lemma bench_no_directory: "\<forall>q \<in> set (path_list (BuildEvidencePaths bench_out)). q \<notin> set disk_directories"
  by (simp add: path_list_def BuildEvidencePaths_def bench_out_def disk_directories_def wide_def)

lemma roomy_no_collision: "roomy n s \<Longrightarrow> HasAnyCollision steady_api (BuildEvidencePaths bench_out) s = (False, s)"
  using bench_no_directory by (simp add: HasAnyCollision_def roomy_def path_list_def PathExists_def steady_sels)

lemma roomy_opens:
  assumes "roomy n s"
  shows "\<exists>w. RawWriter_PreflightAndOpen steady_api (ep_rawPartial (BuildEvidencePaths bench_out)) 24 12 (RawWriter_init s) = (True, w) \<and>
     raw_serving (n + 3) (ep_rawPartial (BuildEvidencePaths bench_out)) w"
proof -
  let ?p = "ep_rawPartial (BuildEvidencePaths bench_out)"
  have room: "idle n s" "n < 100" "k_flags s = FILE_SUPPORTS_SPARSE_FILES" "k_fsname s = wide ''NTFS''"
      "k_free s = 0x10000000000" "disk_files s ?p = None"
    using assms by (simp_all add: roomy_def path_list_def)
  have p: "length ?p = 15" "?p ! 0 = 114" "?p \<noteq> []" by code_simp+
  let ?w = "RawWriter_init s"
  have pre: "rw_preflight steady_api ?p 24 12 ?w = (True, True, ?w)"
    using p room by (simp add: rw_preflight_def ResolveVolumeRoot_def RawWriter_init_def steady_sels
        FILE_SUPPORTS_SPARSE_FILES_def kDiskHeadroomBytes_def u64_max_def wide_def backslash_def Let_def)
  obtain h s1 where c: "w_CreateFileW steady_api ?p (GENERIC_READ OR GENERIC_WRITE) CREATE_NEW s = (h, s1)"
      "serving (Suc n) h ?p s1"
    using idle_create_new [OF room(1,6), of "GENERIC_READ OR GENERIC_WRITE"] room(2) by auto
  obtain s2 where 2: "w_SetSparse steady_api h s1 = (True, s2)" "serving (Suc (Suc n)) h ?p s2"
    using c(2) room(2) by (auto simp: steady_sels disk_call_def serving_def)
  obtain s3 where 3: "w_SetFilePointerEx steady_api h 24 s2 = (True, s3)" "serving (Suc (Suc n)) h ?p s3"
    using serving_pointer [OF 2(2)] by blast
  obtain s4 where 4: "w_SetEndOfFile steady_api h s3 = (True, s4)" "serving (n + 3) h ?p s4"
    using serving_end_of_file [OF 3(2)] room(2) by (auto simp: numeral_3_eq_3)
  have h: "h \<noteq> INVALID_HANDLE_VALUE" using c(2) by (simp add: serving_def)
  let ?v = "?w\<lparr> rw_sys := s4, rw_file := h, rw_sparse := True, rw_logicalSize := 24 \<rparr>"
  have "(RawWriter_Close steady_api ?w)\<lparr> rw_lastError := ERROR_SUCCESS, rw_sparse := False, rw_logicalSize := 0 \<rparr> = ?w"
    by (simp add: RawWriter_Close_def rw_reset_file_def RawWriter_init_def handle_reset_def)
  moreover have "rw_create steady_api ?p 24 True ?w = (True, ?v)"
    using c 2 3 4 h by (simp add: rw_create_def RawWriter_init_def Let_def)
  ultimately have "RawWriter_PreflightAndOpen steady_api ?p 24 12 ?w = (True, ?v)"
    using pre by (simp add: RawWriter_PreflightAndOpen_def Let_def)
  moreover have "raw_serving (n + 3) ?p ?v" using 4(2) by (simp add: raw_serving_def)
  ultimately show ?thesis by blast
qed

text \<open>A device that makes every acquisition of the bench ranges complete when its writer does not fail.\<close>

definition bench_driven :: "'d IDeviceSession \<Rightarrow> ('d \<Rightarrow> bool) \<Rightarrow> bool" where
  "bench_driven D dinv \<longleftrightarrow>
     (\<forall>winv. (\<forall>w run xs p. winv w \<longrightarrow> run \<in> set bench_runs \<longrightarrow> xs \<noteq> [] \<longrightarrow>
          {unat p ..< unat p + length xs} \<subseteq> run_addresses run \<longrightarrow>
          (\<exists>w'. wr_WriteAt (evidence_writer_class steady_api) p xs w = (True, w') \<and> winv w')) \<longrightarrow>
        reliable_acquisition D (evidence_writer_class steady_api) bench_hasher dinv winv (\<lambda>h. h \<noteq> None) 24 12 bench_runs)"

lemma bench_is_driven: "bench_driven (bench_device 24 12 bench_runs mem bad) (\<lambda>_. True)"
  unfolding bench_driven_def by (intro allI impI bench_reliable) blast

lemma driven_reliable:
  assumes "bench_driven D dinv"
  shows "reliable_acquisition D (evidence_writer_class steady_api) (Sha256_class hash_api) dinv
    (\<lambda>v. \<exists>w. v = WRaw w \<and> raw_serving n p w) hash_live 24 12 bench_runs"
proof -
  let ?winv = "\<lambda>v. \<exists>w. v = WRaw w \<and> raw_serving n p w"
  have "\<exists>v'. wr_WriteAt (evidence_writer_class steady_api) q xs v = (True, v') \<and> ?winv v'"
    if v: "?winv v" and run: "run \<in> set bench_runs" and xs: "xs \<noteq> []"
      and sub: "{unat q ..< unat q + length xs} \<subseteq> run_addresses run" for v run and xs :: bytes and q :: u64
  proof -
    have "unat q + length xs \<le> 24" using run xs sub by (auto simp: bench_runs_def run_addresses_def)
    then show ?thesis
      using v raw_serving_WriteAt [of n p _ q xs] by (fastforce simp: evidence_writer_sels)
  qed
  then have "reliable_acquisition D (evidence_writer_class steady_api) bench_hasher dinv ?winv (\<lambda>h. h \<noteq> None) 24 12 bench_runs"
    by (intro assms [unfolded bench_driven_def, rule_format])
  then show ?thesis
    using hash_live_update hash_live_zeros
    by (simp add: reliable_acquisition_def Sha256_class_def Sha256_UpdateZeros_def hash_live_def)
qed

lemma driven_acquires:
  assumes "bench_driven D dinv" and "dinv d" and "\<forall>n. \<not> h_cancel host n"
    and "raw_serving n p w" and "hash_live h"
  shows "\<exists>r w'. Acquire D (evidence_writer_class steady_api) (Sha256_class hash_api) cfg d (WRaw w) h host = (True, r) \<and>
    ar_wr r = WRaw w' \<and> raw_serving n p w' \<and> hash_live (ar_hash r) \<and> as_ranges (ar_summary r) = bench_runs \<and>
    as_physicalBytes (ar_summary r) = 12"
proof -
  let ?W = "evidence_writer_class steady_api"
  have wr: "\<exists>v. WRaw w = WRaw v \<and> raw_serving n p v" using assms(4) by simp
  obtain r where r: "Acquire D ?W (Sha256_class hash_api) cfg d (WRaw w) h host = (True, r)"
      "as_ranges (ar_summary r) = bench_runs" "as_physicalBytes (ar_summary r) = 12"
      "\<exists>v. ar_wr r = WRaw v \<and> raw_serving n p v" "hash_live (ar_hash r)"
    using reliable_acquisition.Acquire_succeeds_live [OF driven_reliable [OF assms(1), of n p] assms(2) wr assms(5,3),
        of cfg] by metis
  then show ?thesis by metis
qed

text \<open>From the acquisition on: the artifacts are written and everything is published.\<close>

lemma publish_idle:
  assumes "idle n s" and "n < 900" and "paths_ok ps" and "finals_free ps (disk_files s)"
    and "disk_files s (ep_rawPartial ps) \<noteq> None" "disk_files s (ep_mapPartial ps) \<noteq> None"
    and "disk_files s (ep_hashPartial ps) \<noteq> None"
  shows "\<exists>s'. publish steady_api ps summary s = (bundle_result summary, s')"
proof -
  note ne = paths_okD [OF assms(3)] and view = win32_files.PromoteStagingFile_view [OF steady.win32_files_axioms]
  have free: "disk_files s (ep_rawFinal ps) = None" "disk_files s (ep_mapFinal ps) = None" "disk_files s (ep_hashFinal ps) = None"
    using assms(4) by (simp_all add: finals_free_def)
  obtain s1 where 1: "PromoteStagingFile steady_api (ep_mapPartial ps) (ep_mapFinal ps) s = (True, s1)" "idle (Suc n) s1"
    using idle_move [OF assms(1,6) free(2)] assms(2) by auto
  have v1: "disk_files s1 = (disk_files s)(ep_mapPartial ps := None, ep_mapFinal ps := disk_files s (ep_mapPartial ps))"
    using view(1) [OF 1(1)] by simp
  obtain s2 where 2: "PromoteStagingFile steady_api (ep_hashPartial ps) (ep_hashFinal ps) s1 = (True, s2)" "idle (Suc (Suc n)) s2"
    using idle_move [OF 1(2), of "ep_hashPartial ps" "ep_hashFinal ps"] v1 ne ne [symmetric] assms(2,7) free by auto
  have v2: "disk_files s2 = (disk_files s1)(ep_hashPartial ps := None, ep_hashFinal ps := disk_files s1 (ep_hashPartial ps))"
    using view(1) [OF 2(1)] by simp
  obtain s3 where 3: "PromoteStagingFile steady_api (ep_rawPartial ps) (ep_rawFinal ps) s2 = (True, s3)"
    using idle_move [OF 2(2), of "ep_rawPartial ps" "ep_rawFinal ps"] v1 v2 ne ne [symmetric] assms(2,5) free by auto
  show ?thesis using 1(1) 2(1) 3 by (simp add: publish_def bundle_result_def)
qed

lemma bench_name: "NarrowUtf8 bench_conv (path_filename bench_out) \<noteq> []"
  by code_simp

lemma bench_seals:
  fixes c :: "('d, disk, hash_system) capture"
  assumes "cp_wr c = WRaw w" and "raw_serving n (ep_rawPartial (BuildEvidencePaths bench_out)) w" and "n < 200" and "hash_live (cp_hash c)"
    and "\<And>q. q \<in> set (path_list (BuildEvidencePaths bench_out)) \<Longrightarrow> q \<noteq> ep_rawPartial (BuildEvidencePaths bench_out) \<Longrightarrow>
      disk_files (cp_sys c) q = None"
    and "as_completed summary" and "as_ranges summary \<noteq> []" and "accounted summary"
  shows "\<exists>r c'. seal steady_api hash_api bench_conv bench_out summary c = (r, c') \<and> HasFinalizedBundle r"
proof -
  let ?ps = "BuildEvidencePaths bench_out"
  have ps: "paths_ok ?ps" by (rule BuildEvidencePaths_ok) (simp add: bench_out_def wide_def)
  note ne = paths_okD [OF ps]
  obtain bs h where h: "Sha256_Finish hash_api (cp_hash c) = (True, hex_of (some_digest bs), h)"
    using hash_live_finish [OF assms(4)] by blast
  let ?summary = "summary\<lparr> as_sha256 := hex_of (some_digest bs) \<rparr>"
  have hex: "IsSha256Hex (hex_of (some_digest bs))"
    by (simp add: IsSha256Hex_def hex_of_isxdigit some_digest_def)
  have serv: "serving n (rw_file w) (ep_rawPartial ?ps) (rw_sys w)" using assms(2) by (simp add: raw_serving_def)
  let ?w = "(rw_reset_file steady_api w)\<lparr> rw_logicalSize := 0 \<rparr>"
  have fl: "wr_FlushAndClose (evidence_writer_class steady_api) (cp_wr c) = (True, WRaw ?w)"
    using serv by (simp add: assms(1) evidence_writer_sels RawWriter_FlushAndClose_def serving_def steady_sels)
  let ?s = "handle_reset steady_api (rw_file w) (rw_sys w)"
  have sys: "writer_sys (WRaw ?w) = ?s" by (simp add: rw_reset_file_def)
  have idle: "idle n ?s" by (rule serving_close [OF serv])
  have files: "disk_files ?s = disk_files (cp_sys c)" by (simp add: cp_sys_def assms(1) steady.handle_reset_view)
  have free: "disk_files ?s (ep_rawFinal ?ps) = None" "disk_files ?s (ep_mapFinal ?ps) = None"
      "disk_files ?s (ep_hashFinal ?ps) = None" "disk_files ?s (ep_mapPartial ?ps) = None" "disk_files ?s (ep_hashPartial ?ps) = None"
    unfolding files using assms(5) ne by (auto simp: path_list_def)
  have raw: "disk_files ?s (ep_rawPartial ?ps) \<noteq> None" using serv by (simp add: steady.handle_reset_view serving_def)
  have ok: "\<not> (as_acquiredBytes summary > u64_max - as_unreadableBytes summary)"
      "as_acquiredBytes summary + as_unreadableBytes summary = as_physicalBytes summary"
    using assms(8) unat_lt_u64 [of "as_physicalBytes summary"]
    by (simp_all add: accounted_def word_gt_max_minus_iff unat_add_u64 add.commute word_unat_eq_iff del: unat_lt_u64)
  have allowed: "map_allowed ?summary" using ok hex assms(6,7) by (simp add: map_allowed_def)
  obtain s1 where 1: "WriteMapJson steady_api (ep_mapPartial ?ps) ?summary ?s = (True, s1)" "idle (Suc n) s1"
    using idle_WriteAtomicString [OF idle free(4), of "map_json ?summary"] allowed assms(3) by (auto simp: WriteMapJson_def)
  have v1: "disk_files s1 = (disk_files ?s)(ep_mapPartial ?ps \<mapsto> ascii (map_json ?summary))"
    using win32_files.WriteMapJson_only(2) [OF steady.win32_files_axioms 1(1)] by simp
  obtain s2 where 2: "WriteSha256Sidecar steady_api bench_conv (ep_hashPartial ?ps) (path_filename bench_out)
      (hex_of (some_digest bs)) s1 = (True, s2)" "idle (Suc (Suc n)) s2"
    using idle_WriteAtomicString [OF 1(2), of "ep_hashPartial ?ps" "sidecar_text (hex_of (some_digest bs)) (NarrowUtf8 bench_conv (path_filename bench_out))"]
      hex bench_name v1 free ne assms(3) by (auto simp: WriteSha256Sidecar_def Let_def)
  have v2: "disk_files s2 = (disk_files s1)(ep_hashPartial ?ps \<mapsto> ascii (sidecar_text (hex_of (some_digest bs)) (NarrowUtf8 bench_conv (path_filename bench_out))))"
    using win32_files.WriteSha256Sidecar_only(2) [OF steady.win32_files_axioms 2(1)] by simp
  obtain s3 where 3: "publish steady_api ?ps ?summary s2 = (bundle_result ?summary, s3)"
    using publish_idle [OF 2(2) _ ps, of ?summary] v1 v2 free raw ne assms(3) by (auto simp: finals_free_def)
  show ?thesis
    using h fl ok 1(1) 2(1) 3 sys by (auto simp: seal_def Let_def cp_sys_def not_less)
qed

lemma driven_capture_final:
  assumes "bench_driven D dinv" and "dinv d" and "\<forall>n. \<not> h_cancel host n" and "roomy n s" and "cfg_format cfg = Raw"
  shows "\<exists>r d' s' k host'. CaptureEvidenceToFile D steady_api hash_api bench_conv bench_out cfg d s bench_cng host =
    (r, d', s', k, host') \<and> HasFinalizedBundle r"
proof -
  let ?ps = "BuildEvidencePaths bench_out" and ?p = "ep_rawPartial (BuildEvidencePaths bench_out)"
  note rel = driven_reliable [OF assms(1), of "n + 3" ?p]
  obtain d1 where q: "dev_Query D d = (True, (24, 12, bench_runs), d1)" "dinv d1"
    using reliable_acquisition.query [OF rel assms(2)] by blast
  obtain ok hints d2 where hq: "dev_QueryHints D d1 = (ok, hints, d2)" by (metis prod_cases3)
  have d2: "dinv d2" by (rule reliable_acquisition.hints [OF rel q(2) hq])
  obtain h where h: "Sha256_Initialize hash_api (Sha256_init bench_cng) = (True, h)" "hash_live h"
    using bench_hash_starts by blast
  obtain w where w: "RawWriter_PreflightAndOpen steady_api ?p 24 12 (RawWriter_init s) = (True, w)" "raw_serving (n + 3) ?p w"
    using roomy_opens [OF assms(4)] by blast
  obtain a w' where a: "Acquire D (evidence_writer_class steady_api) (Sha256_class hash_api) cfg d2 (WRaw w) h host = (True, a)"
    "ar_wr a = WRaw w'" "raw_serving (n + 3) ?p w'" "hash_live (ar_hash a)" "as_ranges (ar_summary a) = bench_runs"
    "as_physicalBytes (ar_summary a) = 12"
    using driven_acquires [OF assms(1) d2 assms(3) w(2) h(2)] by blast
  let ?c = "\<lparr> cp_dev = ar_dev a, cp_wr = ar_wr a, cp_hash = ar_hash a, cp_host = ar_host a \<rparr> :: ('a, disk, hash_system) capture"
  have "as_completed (ar_summary a)" using Acquire_completed [of D "evidence_writer_class steady_api"] a(1) by (metis fst_conv snd_conv)
  moreover have "accounted (ar_summary a)"
    using Acquire_accounts [OF a(1)] a(5,6) by (simp add: accounted_def bench_runs_def)
  moreover have "disk_files (cp_sys ?c) q = None" if "q \<in> set (path_list ?ps)" "q \<noteq> ?p" for q
  proof -
    have "only_file disk_files ?p s (rw_sys w)"
      using steady.PreflightAndOpen_files(1) [OF w(1)] by (simp add: RawWriter_init_def)
    moreover have "ew_working disk_files disk_open ?p (WRaw w)"
      using w(2) by (auto simp: raw_serving_def serving_def raw_holds_def)
    then have "only_file disk_files ?p (rw_sys w) (writer_sys (ar_wr a))"
      using staged_writer.Acquire_stages [OF win32_files.staged_contract [OF steady.win32_files_axioms] _ a(1)] by simp
    ultimately show ?thesis using that assms(4) by (simp add: only_file_def cp_sys_def roomy_def)
  qed
  moreover have "n + 3 < 200" using assms(4) by (simp add: roomy_def)
  ultimately obtain r c' where seal: "seal steady_api hash_api bench_conv bench_out (ar_summary a) ?c = (r, c')" "HasFinalizedBundle r"
    using bench_seals [of ?c w' "n + 3" "ar_summary a"] a(2-5) by (auto simp: bench_runs_def)
  have fmt: "writer_Configure bench_runs hints (cfg_metadata cfg)
      (make_writer (chosen_format (cfg_format cfg) bench_out) s) = WRaw (RawWriter_init s)"
    using bench_raw assms(5) by (simp add: make_writer_def)
  have out: "bench_out \<noteq> []" "bench_out \<noteq> wide ''-''" by (simp_all add: bench_out_def wide_def)
  show ?thesis
    using h(1) w(1) a(1) seal q(1) hq fmt out roomy_no_collision [OF assms(4)]
    by (simp add: CaptureEvidenceToFile_def capture_with_def release_def evidence_writer_sels Let_def)
qed

lemma bench_capture_final:
  "\<exists>r d s k host. bench_capture = (r, d, s, k, host) \<and> HasFinalizedBundle r"
  unfolding bench_capture_def
  by (rule driven_capture_final [OF bench_is_driven TrueI _ blank_roomy]) (simp_all add: bench_host_def bench_config_def)

end
