(* ===== verification/EvidenceTheorems.thy ===== *)
theory EvidenceTheorems
  imports EvidenceBench E01Theorems
begin

text \<open>
  What a published bundle says, and that an unpublished capture says nothing: the properties of the
  evidence transaction over the acquisition engine, the three writers, the hasher and the text
  artifacts.
\<close>

section \<open>All or nothing\<close>

lemma capture_atomic:
  assumes "win32_files api files opened" and "deletes_work api files" and "sees_files api files"
    and "CaptureEvidenceToFile D api provider conv out config d s k host = (r, d', s', k', host')"
  shows "(HasFinalizedBundle r \<longrightarrow>
      (\<forall>q \<in> set (path_list (BuildEvidencePaths out)). files s q = None) \<and>
      (\<exists>img map hash. files s' = (files s)(ep_mapFinal (BuildEvidencePaths out) \<mapsto> map,
         ep_hashFinal (BuildEvidencePaths out) \<mapsto> hash, ep_rawFinal (BuildEvidencePaths out) \<mapsto> img))) \<and>
    (\<not> HasFinalizedBundle r \<longrightarrow>
      (\<forall>q. files s' q = files s q \<or> q = ep_rawPartial (BuildEvidencePaths out) \<and> files s q = None) \<and>
      (chosen_format (cfg_format config) out = Raw \<longrightarrow> files s' = files s))"
  using win32_files.capture_files [OF assms(1,4,2,3)]
proof (elim disjE)
  let ?ps = "BuildEvidencePaths out"
  assume "out \<noteq> [] \<and> (\<forall>q \<in> set (path_list ?ps). files s q = None) \<and>
    published D api files provider conv out config d s k host r s'"
  then have free: "\<forall>q \<in> set (path_list ?ps). files s q = None"
    and pub: "published D api files provider conv out config d s k host r s'" by blast+
  from win32_files.published_bundle [OF assms(1) pub free] show ?thesis
    using free by metis
qed auto

text \<open>
  C2: A capture is all or nothing. When it reports a finalized bundle, none of its six names
  existed before and exactly three files have been added: the image, the map and the hash under
  their final names; the staging names are gone and every other file is as it was. When it reports
  anything else - a refusal, a failure anywhere, a cancellation - no file has appeared under a final
  name and no file that existed has changed; with a raw image nothing has changed at all. (The crash
  dump and the E01 container leave their staging file behind when they cannot be opened.)
\<close>

theorem capture_is_atomic:
  assumes "win32_files api files opened" and "deletes_work api files" and "sees_files api files"
    and "CaptureEvidenceToFile D api provider conv out config d s k host = (r, d', s', k', host')"
  shows "(HasFinalizedBundle r \<longrightarrow>
      (\<forall>q \<in> set (path_list (BuildEvidencePaths out)). files s q = None) \<and>
      (\<exists>img map hash. files s' = (files s)(ep_mapFinal (BuildEvidencePaths out) \<mapsto> map,
         ep_hashFinal (BuildEvidencePaths out) \<mapsto> hash, ep_rawFinal (BuildEvidencePaths out) \<mapsto> img))) \<and>
    (\<not> HasFinalizedBundle r \<longrightarrow>
      (\<forall>q. files s' q = files s q \<or> q = ep_rawPartial (BuildEvidencePaths out) \<and> files s q = None) \<and>
      (chosen_format (cfg_format config) out = Raw \<longrightarrow> files s' = files s))"
  by (rule capture_atomic [OF assms])

lemma capture_is_atomic_witness:
  "\<exists>r d s k host img map hash. bench_capture = (r, d, s, k, host) \<and> HasFinalizedBundle r \<and>
     disk_files s = (disk_files blank_disk)(ep_mapFinal (BuildEvidencePaths bench_out) \<mapsto> map,
       ep_hashFinal (BuildEvidencePaths bench_out) \<mapsto> hash, ep_rawFinal (BuildEvidencePaths bench_out) \<mapsto> img)"
proof -
  obtain r d s k host where c: "bench_capture = (r, d, s, k, host)" "HasFinalizedBundle r"
    using bench_capture_final by blast
  from capture_is_atomic [OF steady.win32_files_axioms steady_deletes steady_sees c(1) [unfolded bench_capture_def]] c
  show ?thesis by blast
qed

section \<open>What the image holds\<close>

text \<open>
  What a file of each format says about the bytes at the addresses \<open>A\<close>: a flat image; a dump header and
  the ranges one behind the other; or an EWF container of the bytes in the order of their addresses.
\<close>

fun image_content ::
  "OutputFormat \<Rightarrow> (nat \<Rightarrow> u8) \<Rightarrow> u64 \<Rightarrow> u64 \<Rightarrow> MemoryRun list \<Rightarrow> KernelHints \<Rightarrow> EvidenceMetadata \<Rightarrow>
   nat set \<Rightarrow> bytes \<Rightarrow> bool" where
  "image_content Raw mem hi tot runs hints metadata A c \<longleftrightarrow> c = image_of mem A (unat hi)"
| "image_content Zdmp mem hi tot runs hints metadata A c \<longleftrightarrow>
     dump_content mem runs (header_bytes (zdmp_header runs hints tot)) A c"
| "image_content E01 mem hi tot runs hints metadata A c \<longleftrightarrow>
     c = e01_file metadata tot (map mem (sorted_list_of_set A))"

fun ew_holds ::
  "('s \<Rightarrow> wstring \<Rightarrow> bytes option) \<Rightarrow> ('s \<Rightarrow> u64 \<Rightarrow> (wstring \<times> nat) option) \<Rightarrow> wstring \<Rightarrow> (nat \<Rightarrow> u8) \<Rightarrow> u64 \<Rightarrow> u64 \<Rightarrow>
   MemoryRun list \<Rightarrow> KernelHints \<Rightarrow> EvidenceMetadata \<Rightarrow> nat set \<Rightarrow> 's evidence_writer \<Rightarrow> bool" where
  "ew_holds files opened p mem hi tot runs hints metadata A (WRaw w) \<longleftrightarrow>
     raw_at files opened w p (image_of mem A (unat hi))"
| "ew_holds files opened p mem hi tot runs hints metadata A (WZdmp w) \<longleftrightarrow>
     zdmp_holds files opened mem runs (header_bytes (zdmp_header runs hints tot)) p A w"
| "ew_holds files opened p mem hi tot runs hints metadata A (WE01 w) \<longleftrightarrow>
     (\<exists>cs rest. e01_streaming files opened p metadata tot cs rest w \<and> length rest < kChunkSize \<and>
        concat cs @ rest = map mem (sorted_list_of_set A))"

fun format_of :: "'s evidence_writer \<Rightarrow> OutputFormat" where
  "format_of (WRaw w) = Raw" | "format_of (WZdmp w) = Zdmp" | "format_of (WE01 w) = E01"

lemma sorted_list_append:
  assumes "A \<subseteq> {..<p}"
  shows "sorted_list_of_set (A \<union> {p ..< p + n}) = sorted_list_of_set A @ [p ..< p + n]"
proof (rule sorted_distinct_set_unique)
  have fin: "finite A" using assms finite_subset by blast
  show "sorted (sorted_list_of_set A @ [p ..< p + n])"
    using assms fin by (fastforce simp: sorted_append)
  show "distinct (sorted_list_of_set A @ [p ..< p + n])"
    using assms fin by auto
  show "set (sorted_list_of_set (A \<union> {p ..< p + n})) = set (sorted_list_of_set A @ [p ..< p + n])"
    using fin by auto
qed simp_all

lemma list_from_memory:
  "(\<And>j. j < length xs \<Longrightarrow> xs ! j = mem (p + j)) \<Longrightarrow> xs = map mem [p ..< p + length xs]"
  by (rule nth_equalityI) simp_all

context win32_files
begin

lemma ew_write_holds:
  assumes "ew_holds files opened p mem hi tot runs hints metadata A w" and "A \<subseteq> {..<unat off}" and "xs \<noteq> []"
    and "run \<in> set runs" and "{unat off ..< unat off + length xs} \<subseteq> run_addresses run"
    and "\<And>j. j < length xs \<Longrightarrow> xs ! j = mem (unat off + j)"
    and "wr_WriteAt (evidence_writer_class api) off xs w = (True, w')"
    and "format_of w = Zdmp \<Longrightarrow> runs_wf runs \<and> 4096 + runs_total runs < 2 ^ 64"
  shows "ew_holds files opened p mem hi tot runs hints metadata (A \<union> {unat off ..< unat off + length xs}) w'"
  using assms(7) [unfolded evidence_writer_sels]
proof (cases rule: dispatch_cases)
  case (raw v v')
  have at: "raw_at files opened v p (image_of mem A (unat hi))" using assms(1) raw by simp
  note ok = WriteAt_ok [OF raw(3) at]
  show ?thesis
    using ok overlay_image_of [of "unat off" xs "unat hi" mem A] assms(6) raw(2) by simp
next
  case (zdmp v v')
  then show ?thesis
    using ZdmpWriter_WriteAt_holds [OF zdmp(3) _ _ _ assms(4,5,3), of mem] assms(1,6,8) by simp
next
  case (e01 v v')
  obtain cs rest where st: "e01_streaming files opened p metadata tot cs rest v" "length rest < kChunkSize"
    and eq: "concat cs @ rest = map mem (sorted_list_of_set A)"
    using assms(1) e01(1) by auto
  have "xs = map mem [unat off ..< unat off + length xs]" by (rule list_from_memory) (rule assms(6))
  then have "concat cs @ rest @ xs = map mem (sorted_list_of_set (A \<union> {unat off ..< unat off + length xs}))"
    unfolding sorted_list_append [OF assms(2)] map_append eq [symmetric] by simp
  then show ?thesis using E01_WriteAt_streaming [OF e01(3) st] e01(2) by auto
qed

lemma ew_open_holds:
  assumes "wr_PreflightAndOpen (evidence_writer_class api) p hi tot
      (writer_Configure runs hints metadata (make_writer format s)) = (True, w)"
  shows "ew_holds files opened p mem hi tot runs hints metadata {} w \<and> format_of w = format"
proof -
  consider (Raw) "format = Raw" | (Zdmp) "format = Zdmp" | (E01) "format = E01" by (cases format)
  then show ?thesis
  proof cases
    case Raw
    then obtain v where v: "RawWriter_PreflightAndOpen api p hi tot (RawWriter_init s) = (True, v)" "w = WRaw v"
      using assms [unfolded evidence_writer_sels] by (cases "RawWriter_PreflightAndOpen api p hi tot (RawWriter_init s)") auto
    then show ?thesis using PreflightAndOpen_files(2) [OF v(1)] Raw by (simp add: image_of_empty)
  next
    case Zdmp
    let ?z = "ZdmpWriter_Configure runs hints metadata (ZdmpWriter_init s)"
    obtain v where v: "ZdmpWriter_PreflightAndOpen api p hi tot ?z = (True, v)" "w = WZdmp v"
      using assms [unfolded evidence_writer_sels] Zdmp
      by (cases "ZdmpWriter_PreflightAndOpen api p hi tot ?z") (auto simp: make_writer_def)
    have z: "zw_file ?z = INVALID_HANDLE_VALUE" "zw_runs ?z = runs" "zw_hints ?z = hints"
        "zw_runFileOffsets ?z = run_file_offsets 4096 runs"
      by (simp_all add: ZdmpWriter_Configure_def ZdmpWriter_init_def sizeof_DumpHeader64_def)
    have "dump_content mem runs (header_bytes (zdmp_header runs hints tot)) {} (header_bytes (zdmp_header runs hints tot))"
      by (simp add: dump_content_def length_header_bytes)
    then show ?thesis
      using ZdmpWriter_open_files(2-4) [OF v(1) z(1)] z v(2) Zdmp by (auto simp: zdmp_holds_def)
  next
    case E01
    let ?z = "E01Writer_Configure runs hints metadata (E01Writer_init s)"
    obtain v where v: "E01Writer_PreflightAndOpen api p hi tot ?z = (True, v)" "w = WE01 v"
      using assms [unfolded evidence_writer_sels] E01
      by (cases "E01Writer_PreflightAndOpen api p hi tot ?z") (auto simp: make_writer_def)
    have z: "e_file ?z = INVALID_HANDLE_VALUE" "length (e_chunkBuffer ?z) = kChunkSize" "e_metadata ?z = metadata"
      by (simp_all add: E01Writer_Configure_def E01Writer_init_def)
    have "\<exists>cs rest. e01_streaming files opened p metadata tot cs rest v \<and> length rest < kChunkSize \<and>
        concat cs @ rest = map mem (sorted_list_of_set {})"
      using E01_open_streaming [OF v(1) z(1,2)] z(3) by (intro exI [of _ "[]"]) (simp add: kChunkSize_def)
    then show ?thesis using v(2) E01 by simp
  qed
qed

text \<open>Flushing and closing.\<close>

lemma ew_close_holds:
  assumes "ew_holds files opened p mem hi tot runs hints metadata A w"
    and "wr_FlushAndClose (evidence_writer_class api) w = (True, w')"
    and "format_of w = E01 \<Longrightarrow> reliable_files api opened \<and>
      length (e01_file metadata tot (map mem (sorted_list_of_set A))) < 2 ^ 64"
  shows "\<exists>c. files (writer_sys w') p = Some c \<and> image_content (format_of w) mem hi tot runs hints metadata A c"
  using assms(2) [unfolded evidence_writer_sels]
proof (cases rule: dispatch_cases)
  case (raw v v')
  then show ?thesis using FlushAndClose_files(1) [OF raw(3)] assms(1) by (simp add: raw_at_def)
next
  case (zdmp v v')
  then show ?thesis using ZdmpWriter_close_files(1) [OF zdmp(3)] assms(1) by (auto simp: zdmp_holds_def zdmp_at_def)
next
  case (e01 v v')
  obtain cs rest where st: "e01_streaming files opened p metadata tot cs rest v" "length rest < kChunkSize"
    and eq: "concat cs @ rest = map mem (sorted_list_of_set A)"
    using assms(1) e01(1) by auto
  have "reliable_files api opened" "length (e01_file metadata tot (concat cs @ rest)) < 2 ^ 64"
    using assms(3) e01(1) eq by simp_all
  from E01_FlushAndClose_file(1) [OF e01(3) st this] show ?thesis using e01(1,2) eq by simp
qed

end

section \<open>What a published bundle says\<close>

text \<open>What the chosen format needs of the volume and of the amount of memory.\<close>

definition format_fits ::
  "'s win32 \<Rightarrow> ('s \<Rightarrow> u64 \<Rightarrow> (wstring \<times> nat) option) \<Rightarrow> OutputFormat \<Rightarrow> EvidenceMetadata \<Rightarrow> MemoryRun list \<Rightarrow> bool" where
  "format_fits api opened format metadata runs \<longleftrightarrow>
     (format = Zdmp \<longrightarrow> 4096 + runs_total runs < 2 ^ 64) \<and>
     (format = E01 \<longrightarrow> reliable_files api opened \<and> runs_total runs < 2 ^ 45 \<and> length (metadata_text metadata) < 2 ^ 32)"

lemma card_ranges: "finite (ranges_addresses rs) \<and> card (ranges_addresses rs) \<le> runs_total rs"
proof (induction rs)
  case (Cons r rs)
  have eq: "ranges_addresses (r # rs) = run_addresses r \<union> ranges_addresses rs"
    by (simp add: ranges_addresses_def)
  have fin: "finite (run_addresses r)" "card (run_addresses r) = unat (mr_length r)"
    by (simp_all add: run_addresses_def)
  have "card (ranges_addresses (r # rs)) \<le> card (run_addresses r) + card (ranges_addresses rs)"
    unfolding eq by (rule card_Un_le)
  then show ?case using Cons fin by (simp add: eq)
qed (simp add: ranges_addresses_def)

lemma e01_file_fits:
  assumes "format_fits api opened E01 metadata runs" and "A \<subseteq> ranges_addresses runs"
  shows "length (e01_file metadata tot (map mem (sorted_list_of_set A))) < 2 ^ 64"
proof -
  have "card A \<le> runs_total runs"
    using card_ranges [of runs] card_mono [OF _ assms(2)] by linarith
  then have "length (map mem (sorted_list_of_set A)) < 2 ^ 45"
    using assms(1) by (simp add: format_fits_def)
  then have "4 * length (chunks (map mem (sorted_list_of_set A))) < 2 ^ 32"
    unfolding length_chunks by simp
  then show ?thesis using assms(1) unfolding length_e01_file by (simp add: format_fits_def)
qed

context win32_files
begin

lemma ew_acquisition:
  assumes "hasher_contract H fed digest_hex" and "device_contract D dinv" and "frozen_memory D dinv mem hi tot runs"
    and "runs_wf runs" and "format_fits api opened format metadata runs"
  shows "acquisition H fed digest_hex D dinv (evidence_writer_class api) mem runs
    (\<lambda>A w. ew_holds files opened p mem hi tot runs hints metadata A w \<and> format_of w = format)"
proof -
  have "acquisition_axioms D dinv (evidence_writer_class api) mem runs
    (\<lambda>A w. ew_holds files opened p mem hi tot runs hints metadata A w \<and> format_of w = format)"
  proof
    fix d i off n r d' j
    assume "dinv d" "dev_Read D i off n d = (True, r, d')" "j < length (rr_data r)"
    then show "rr_data r ! j = mem (unat (rr_physicalAddress r) + j)"
      using assms(3) unfolding frozen_memory_def by blast
  next
    fix A w q xs run w'
    assume w: "ew_holds files opened p mem hi tot runs hints metadata A w \<and> format_of w = format"
      and wr: "wr_WriteAt (evidence_writer_class api) q xs w = (True, w')"
      and rest: "A \<subseteq> {..<unat q}" "xs \<noteq> []" "run \<in> set runs"
        "{unat q ..< unat q + length xs} \<subseteq> run_addresses run"
      and data: "\<And>j. j < length xs \<Longrightarrow> xs ! j = mem (unat q + j)"
    have "format_of w' = format_of w"
      using wr [unfolded evidence_writer_sels] by (cases rule: dispatch_cases) auto
    moreover have "ew_holds files opened p mem hi tot runs hints metadata (A \<union> {unat q ..< unat q + length xs}) w'"
      by (rule ew_write_holds [OF _ rest data wr]) (use w assms(4,5) in \<open>auto simp: format_fits_def\<close>)
    ultimately show "ew_holds files opened p mem hi tot runs hints metadata (A \<union> {unat q ..< unat q + length xs}) w' \<and>
        format_of w' = format"
      using w by simp
  qed
  then show ?thesis using assms(1,2) by (simp add: acquisition_def)
qed

end

context cng
begin

lemma sha_contract: "hasher_contract (Sha256_class api) (sha_fed absorbed) (\<lambda>bs. hex_of (sha256_digest bs))"
  by unfold_locales

end

context win32_files
begin

text \<open>A capture that went all the way, over a frozen memory.\<close>

lemma captured_content:
  assumes "captured D api files provider conv out config hi tot
      (capture_start out config runs hints d s0 h host) r c'"
    and "cng provider absorbed sha256_digest" and "device_contract D dinv" and "frozen_memory D dinv mem hi tot runs"
    and "dinv d" and "runs_wf runs" and "sha_fed absorbed h = Some []"
    and "format_fits api opened (chosen_format (cfg_format config) out) (cfg_metadata config) runs"
  shows "\<exists>img summary A. r = bundle_result summary \<and> accounted summary \<and> map_allowed summary \<and>
    A = ranges_addresses runs - spans_addresses (as_unreadable summary) \<and>
    as_ranges summary = runs \<and> as_logicalSize summary = hi \<and> as_physicalBytes summary = tot \<and>
    image_content (chosen_format (cfg_format config) out) mem hi tot runs hints (cfg_metadata config) A img \<and>
    as_sha256 summary = hex_of (sha256_digest (image_of mem A (unat hi))) \<and>
    files (cp_sys c') (ep_rawFinal (BuildEvidencePaths out)) = Some img \<and>
    files (cp_sys c') (ep_mapFinal (BuildEvidencePaths out)) = Some (ascii (map_json summary)) \<and>
    files (cp_sys c') (ep_hashFinal (BuildEvidencePaths out)) =
      Some (ascii (sidecar_text (as_sha256 summary) (NarrowUtf8 conv (path_filename out))))"
proof -
  let ?ps = "BuildEvidencePaths out" and ?W = "evidence_writer_class api"
  let ?c = "capture_start out config runs hints d s0 h host"
  let ?fmt = "chosen_format (cfg_format config) out" and ?meta = "cfg_metadata config"
  let ?holds = "\<lambda>A w. ew_holds files opened (ep_rawPartial ?ps) mem hi tot runs hints ?meta A w \<and> format_of w = ?fmt"
  obtain w a where 1: "wr_PreflightAndOpen ?W (ep_rawPartial ?ps) hi tot (cp_wr ?c) = (True, w)"
    and 2: "Acquire D ?W (Sha256_class provider) config d w h host = (True, a)"
    and 3: "sealed api files provider conv out (ar_summary a)
          (?c\<lparr> cp_dev := ar_dev a, cp_wr := ar_wr a, cp_hash := ar_hash a, cp_host := ar_host a \<rparr>) r c'"
    using assms(1) by (auto simp: captured_def capture_start_def)
  have hash: "hasher_contract (Sha256_class provider) (sha_fed absorbed) (\<lambda>bs. hex_of (sha256_digest bs))"
    by (rule cng.sha_contract [OF assms(2)])
  note acq = ew_acquisition [OF hash assms(3,4,6,8)]
  have open_holds: "?holds {} w"
    using ew_open_holds [of "ep_rawPartial ?ps" hi tot runs hints ?meta ?fmt s0 w mem] 1 by (simp add: capture_start_def)
  obtain d1 where "dev_Query D d = (True, (as_logicalSize (ar_summary a), as_physicalBytes (ar_summary a), as_ranges (ar_summary a)), d1)"
    using Acquire_summary [OF 2] by metis
  then have sum: "as_logicalSize (ar_summary a) = hi" "as_physicalBytes (ar_summary a) = tot" "as_ranges (ar_summary a) = runs"
    using assms(4,5) unfolding frozen_memory_def by blast+
  define A where "A = ranges_addresses runs - spans_addresses (as_unreadable (ar_summary a))"
  note image = acquisition.Acquire_holds [OF acq 2 assms(5) sum(3) open_holds assms(7), folded ranges_addresses_def, folded A_def]
  obtain sha h' w' where fin: "Sha256_Finish provider (ar_hash a) = (True, sha, h')"
    and fl: "wr_FlushAndClose ?W (ar_wr a) = (True, w')"
    and r: "r = bundle_result ((ar_summary a)\<lparr> as_sha256 := sha \<rparr>)" "accounted ((ar_summary a)\<lparr> as_sha256 := sha \<rparr>)"
      "map_allowed ((ar_summary a)\<lparr> as_sha256 := sha \<rparr>)"
    and c': "files (cp_sys c') = bundle_files ?ps (files (writer_sys w') (ep_rawPartial ?ps))
      ((ar_summary a)\<lparr> as_sha256 := sha \<rparr>) (NarrowUtf8 conv (path_filename out)) (files (writer_sys (ar_wr a)))"
    using 3 by (auto simp: sealed_def Let_def cp_sys_def)
  have sha: "sha = hex_of (sha256_digest (image_of mem A (unat hi)))"
    using hasher_contract.finish_hex [OF hash image(2)] fin sum(1) by (simp add: Sha256_class_def)
  have "length (e01_file ?meta tot (map mem (sorted_list_of_set A))) < 2 ^ 64" if "?fmt = E01"
    by (rule e01_file_fits [OF assms(8) [unfolded that]]) (auto simp: A_def)
  then have "\<exists>img. files (writer_sys w') (ep_rawPartial ?ps) = Some img \<and>
      image_content ?fmt mem hi tot runs hints ?meta A img"
    using ew_close_holds [OF _ fl, of "ep_rawPartial ?ps" mem hi tot runs hints ?meta A] image(1) assms(8)
    by (simp add: format_fits_def)
  then obtain img where "files (writer_sys w') (ep_rawPartial ?ps) = Some img"
      "image_content ?fmt mem hi tot runs hints ?meta A img" by blast
  moreover have ne: "ep_rawFinal ?ps \<noteq> ep_mapFinal ?ps" "ep_rawFinal ?ps \<noteq> ep_hashFinal ?ps" "ep_mapFinal ?ps \<noteq> ep_hashFinal ?ps"
    using distinct_paths [of out] by (auto simp: path_list_def)
  ultimately show ?thesis
    using r c' sha sum A_def ne [symmetric]
    by (intro exI [of _ img] exI [of _ "(ar_summary a)\<lparr> as_sha256 := sha \<rparr>"] exI [of _ A])
      (simp add: bundle_files_def)
qed

end

lemma bundle_evidence:
  assumes "win32_files api files opened" and "deletes_work api files" and "sees_files api files"
    and "cng provider absorbed sha256_digest" and "device_contract D dinv"
    and "frozen_memory D dinv mem hi tot runs" and "dinv d"
    and "format_fits api opened (chosen_format (cfg_format config) out) (cfg_metadata config) runs"
    and "CaptureEvidenceToFile D api provider conv out config d s k host = (r, d', s', k', host')"
    and "HasFinalizedBundle r"
  defines "A \<equiv> ranges_addresses runs - spans_addresses (as_unreadable (ec_summary r))"
  shows "\<exists>img hints text. files s' (ep_rawFinal (BuildEvidencePaths out)) = Some img \<and>
    image_content (chosen_format (cfg_format config) out) mem hi tot runs hints (cfg_metadata config) A img \<and>
    unhex (as_sha256 (ec_summary r)) = Some (sha256_digest (image_of mem A (unat hi))) \<and>
    files s' (ep_hashFinal (BuildEvidencePaths out)) =
      Some (ascii (sidecar_text (as_sha256 (ec_summary r)) (NarrowUtf8 conv (path_filename out)))) \<and>
    files s' (ep_mapFinal (BuildEvidencePaths out)) = Some (ascii text) \<and>
    read_map text = Some (reported (ec_summary r)) \<and> as_ranges (ec_summary r) = runs \<and>
    unat (as_acquiredBytes (ec_summary r)) + unat (as_unreadableBytes (ec_summary r)) = unat tot \<and>
    (ec_status r = Complete \<longleftrightarrow> \<not> as_topologyChanged (ec_summary r) \<and> as_unreadableBytes (ec_summary r) = 0)"
proof -
  have "published D api files provider conv out config d s k host r s'"
    using win32_files.capture_files [OF assms(1,9,2,3)] assms(10) by blast
  then obtain hi' tot' runs' d1 ok hints d2 h s0 c' where q: "dev_Query D d = (True, (hi', tot', runs'), d1)"
    and hq: "dev_QueryHints D d1 = (ok, hints, d2)" and i: "Sha256_Initialize provider (Sha256_init k) = (True, h)"
    and cap: "captured D api files provider conv out config hi' tot' (capture_start out config runs' hints d2 s0 h host) r c'"
    and s': "files s' = files (cp_sys c')"
    unfolding published_def by blast
  have same: "hi' = hi" "tot' = tot" "runs' = runs"
    using q assms(6,7) unfolding frozen_memory_def by blast+
  have d2: "dinv d2" and wf: "runs_wf runs"
    using device_contract.query_inv [OF assms(5,7) q] device_contract.hints_inv [OF assms(5) _ hq]
      device_contract.query_runs [OF assms(5,7) q] same by simp_all
  from win32_files.captured_content [OF assms(1) cap [unfolded same] assms(4-6) d2 wf
      cng.initialize_empty [OF assms(4) i] assms(8)]
  obtain img summary B where r: "r = bundle_result summary" "accounted summary" "map_allowed summary"
    and B: "B = ranges_addresses runs - spans_addresses (as_unreadable summary)"
    and rest: "as_ranges summary = runs" "as_physicalBytes summary = tot"
      "image_content (chosen_format (cfg_format config) out) mem hi tot runs hints (cfg_metadata config) B img"
      "as_sha256 summary = hex_of (sha256_digest (image_of mem B (unat hi)))"
      "files s' (ep_rawFinal (BuildEvidencePaths out)) = Some img"
      "files s' (ep_mapFinal (BuildEvidencePaths out)) = Some (ascii (map_json summary))"
      "files s' (ep_hashFinal (BuildEvidencePaths out)) =
        Some (ascii (sidecar_text (as_sha256 summary) (NarrowUtf8 conv (path_filename out))))"
    unfolding s' by blast
  have eqs: "ec_summary r = summary" "A = B" using r(1) B by (simp_all add: bundle_result_def A_def)
  have "ec_status r = Complete \<longleftrightarrow> \<not> as_topologyChanged summary \<and> as_unreadableBytes summary = 0"
    using r(1) by (simp add: bundle_result_def)
  then show ?thesis
    unfolding eqs using rest r(2) read_map_json [OF r(3)]
    by (intro exI [of _ img] exI [of _ hints] exI [of _ "map_json summary"])
      (simp add: accounted_def unhex_hex_of)
qed

text \<open>
  C3: A published bundle is evidence. For a device that shows one unchanging memory, a bundle whose
  capture was reported as finalized holds together: the image contains every byte that was read, at
  its place in the chosen format; the SHA-256 text is the digest of the flat physical image, unread
  bytes as zeros; the hash file carries that text; a JSON reader gets from the map the summary the
  program reports, with the ranges of the device; the counts add up to the physical bytes; and the
  status is \<open>Complete\<close> exactly when nothing was unreadable and the topology did not change.
\<close>

theorem published_bundle_is_evidence:
  assumes "win32_files api files opened" and "deletes_work api files" and "sees_files api files"
    and "cng provider absorbed sha256_digest" and "device_contract D dinv"
    and "frozen_memory D dinv mem hi tot runs" and "dinv d"
    and "format_fits api opened (chosen_format (cfg_format config) out) (cfg_metadata config) runs"
    and "CaptureEvidenceToFile D api provider conv out config d s k host = (r, d', s', k', host')"
    and "HasFinalizedBundle r"
  defines "A \<equiv> ranges_addresses runs - spans_addresses (as_unreadable (ec_summary r))"
  shows "\<exists>img hints text. files s' (ep_rawFinal (BuildEvidencePaths out)) = Some img \<and>
    image_content (chosen_format (cfg_format config) out) mem hi tot runs hints (cfg_metadata config) A img \<and>
    unhex (as_sha256 (ec_summary r)) = Some (sha256_digest (image_of mem A (unat hi))) \<and>
    files s' (ep_hashFinal (BuildEvidencePaths out)) =
      Some (ascii (sidecar_text (as_sha256 (ec_summary r)) (NarrowUtf8 conv (path_filename out)))) \<and>
    files s' (ep_mapFinal (BuildEvidencePaths out)) = Some (ascii text) \<and>
    read_map text = Some (reported (ec_summary r)) \<and> as_ranges (ec_summary r) = runs \<and>
    unat (as_acquiredBytes (ec_summary r)) + unat (as_unreadableBytes (ec_summary r)) = unat tot \<and>
    (ec_status r = Complete \<longleftrightarrow> \<not> as_topologyChanged (ec_summary r) \<and> as_unreadableBytes (ec_summary r) = 0)"
  unfolding A_def by (rule bundle_evidence [OF assms(1-10)])

lemma bench_frozen: "frozen_memory (bench_device hi tot bench_runs mem bad) (\<lambda>_. True) mem hi tot bench_runs"
  using bench_reads [of hi tot mem bad] by (fastforce simp: frozen_memory_def bench_device_def)

lemma published_bundle_is_evidence_witness:
  "\<exists>r d s k host img. bench_capture = (r, d, s, k, host) \<and>
     disk_files s bench_out = Some img \<and>
     img = image_of bench_mem (ranges_addresses bench_runs - spans_addresses (as_unreadable (ec_summary r))) 24 \<and>
     unhex (as_sha256 (ec_summary r)) = Some (some_digest img)"
proof -
  obtain r d s k host where c: "bench_capture = (r, d, s, k, host)" "HasFinalizedBundle r"
    using bench_capture_final by blast
  have fmt: "chosen_format (cfg_format bench_config) bench_out = Raw" using bench_raw by (simp add: bench_config_def)
  then have fits: "format_fits steady_api disk_open (chosen_format (cfg_format bench_config) bench_out) (cfg_metadata bench_config) bench_runs"
    by (simp add: format_fits_def)
  let ?A = "ranges_addresses bench_runs - spans_addresses (as_unreadable (ec_summary r))"
  from published_bundle_is_evidence [OF steady.win32_files_axioms steady_deletes steady_sees hash_system.cng_axioms
      bench_contracts(2) bench_frozen TrueI fits c(1) [unfolded bench_capture_def] c(2)]
  obtain img hints where "disk_files s (ep_rawFinal (BuildEvidencePaths bench_out)) = Some img"
    "image_content (chosen_format (cfg_format bench_config) bench_out) bench_mem 24 12 bench_runs hints (cfg_metadata bench_config) ?A img"
    "unhex (as_sha256 (ec_summary r)) = Some (some_digest (image_of bench_mem ?A (unat (24 :: u64))))"
    by blast
  then have "disk_files s bench_out = Some img \<and> img = image_of bench_mem ?A 24 \<and> unhex (as_sha256 (ec_summary r)) = Some (some_digest img)"
    unfolding fmt by (simp add: BuildEvidencePaths_def)
  then show ?thesis using c(1) by blast
qed

end
