(* ===== verification/Protocol.thy ===== *)
theory Protocol
  imports Interfaces Layout
begin

text \<open>
  The protocol between the capture program and the driver (\<open>shared/phylaram.h\<close>): control codes,
  and the packed structures as records with the bytes that cross the boundary. A writer fills a
  structure field by field in memory, which the kernel copies as bytes; a reader overlays the
  structure on the bytes it receives.
\<close>

section \<open>Status values\<close>

type_synonym NTSTATUS = u32

definition NT_SUCCESS :: "NTSTATUS \<Rightarrow> bool" where "NT_SUCCESS s \<longleftrightarrow> s < 0x80000000"

definition STATUS_SUCCESS :: NTSTATUS where "STATUS_SUCCESS = 0"
definition STATUS_INVALID_PARAMETER :: NTSTATUS where "STATUS_INVALID_PARAMETER = 0xC000000D"
definition STATUS_INVALID_DEVICE_REQUEST :: NTSTATUS where "STATUS_INVALID_DEVICE_REQUEST = 0xC0000010"
definition STATUS_BUFFER_TOO_SMALL :: NTSTATUS where "STATUS_BUFFER_TOO_SMALL = 0xC0000023"
definition STATUS_INTEGER_OVERFLOW :: NTSTATUS where "STATUS_INTEGER_OVERFLOW = 0xC0000095"
definition STATUS_INSUFFICIENT_RESOURCES :: NTSTATUS where "STATUS_INSUFFICIENT_RESOURCES = 0xC000009A"
definition STATUS_INVALID_USER_BUFFER :: NTSTATUS where "STATUS_INVALID_USER_BUFFER = 0xC00000E8"
definition STATUS_INVALID_DEVICE_STATE :: NTSTATUS where "STATUS_INVALID_DEVICE_STATE = 0xC0000184"
definition STATUS_NOT_FOUND :: NTSTATUS where "STATUS_NOT_FOUND = 0xC0000225"

lemmas status_defs = STATUS_SUCCESS_def STATUS_INVALID_PARAMETER_def STATUS_INVALID_DEVICE_REQUEST_def
  STATUS_BUFFER_TOO_SMALL_def STATUS_INTEGER_OVERFLOW_def STATUS_INSUFFICIENT_RESOURCES_def
  STATUS_INVALID_USER_BUFFER_def STATUS_INVALID_DEVICE_STATE_def STATUS_NOT_FOUND_def

lemma NT_SUCCESS_values [simp]:
  "NT_SUCCESS STATUS_SUCCESS" "\<not> NT_SUCCESS STATUS_INVALID_PARAMETER"
  "\<not> NT_SUCCESS STATUS_INVALID_DEVICE_REQUEST" "\<not> NT_SUCCESS STATUS_BUFFER_TOO_SMALL"
  "\<not> NT_SUCCESS STATUS_INTEGER_OVERFLOW" "\<not> NT_SUCCESS STATUS_INSUFFICIENT_RESOURCES"
  "\<not> NT_SUCCESS STATUS_INVALID_USER_BUFFER" "\<not> NT_SUCCESS STATUS_INVALID_DEVICE_STATE"
  "\<not> NT_SUCCESS STATUS_NOT_FOUND"
  by (simp_all add: NT_SUCCESS_def status_defs)

section \<open>Control codes\<close>

definition FILE_DEVICE_UNKNOWN :: u32 where "FILE_DEVICE_UNKNOWN = 0x22"
definition FILE_READ_ACCESS :: u32 where "FILE_READ_ACCESS = 1"
definition METHOD_BUFFERED :: u32 where "METHOD_BUFFERED = 0"
definition METHOD_OUT_DIRECT :: u32 where "METHOD_OUT_DIRECT = 2"

definition CTL_CODE :: "u32 \<Rightarrow> u32 \<Rightarrow> u32 \<Rightarrow> u32 \<Rightarrow> u32" where
  "CTL_CODE device function method access =
     push_bit 16 device OR push_bit 14 access OR push_bit 2 function OR method"

definition IOCTL_PHYLA_QUERY_INFO :: u32 where
  "IOCTL_PHYLA_QUERY_INFO = CTL_CODE FILE_DEVICE_UNKNOWN 0x800 METHOD_BUFFERED FILE_READ_ACCESS"
definition IOCTL_PHYLA_GET_RANGES :: u32 where
  "IOCTL_PHYLA_GET_RANGES = CTL_CODE FILE_DEVICE_UNKNOWN 0x801 METHOD_BUFFERED FILE_READ_ACCESS"
definition IOCTL_PHYLA_READ_RUN :: u32 where
  "IOCTL_PHYLA_READ_RUN = CTL_CODE FILE_DEVICE_UNKNOWN 0x802 METHOD_OUT_DIRECT FILE_READ_ACCESS"
definition IOCTL_PHYLA_END_SESSION :: u32 where
  "IOCTL_PHYLA_END_SESSION = CTL_CODE FILE_DEVICE_UNKNOWN 0x803 METHOD_BUFFERED FILE_READ_ACCESS"
definition IOCTL_PHYLA_QUERY_HINTS :: u32 where
  "IOCTL_PHYLA_QUERY_HINTS = CTL_CODE FILE_DEVICE_UNKNOWN 0x804 METHOD_BUFFERED FILE_READ_ACCESS"

lemma ioctl_values:
  "IOCTL_PHYLA_QUERY_INFO = 0x226000" "IOCTL_PHYLA_GET_RANGES = 0x226004"
  "IOCTL_PHYLA_READ_RUN = 0x22600A" "IOCTL_PHYLA_END_SESSION = 0x22600C"
  "IOCTL_PHYLA_QUERY_HINTS = 0x226010"
  by (simp_all add: IOCTL_PHYLA_QUERY_INFO_def IOCTL_PHYLA_GET_RANGES_def IOCTL_PHYLA_READ_RUN_def
      IOCTL_PHYLA_END_SESSION_def IOCTL_PHYLA_QUERY_HINTS_def CTL_CODE_def FILE_DEVICE_UNKNOWN_def
      FILE_READ_ACCESS_def METHOD_BUFFERED_def METHOD_OUT_DIRECT_def)

lemma ioctl_distinct [simp]:
  "IOCTL_PHYLA_GET_RANGES \<noteq> IOCTL_PHYLA_QUERY_INFO"
  "IOCTL_PHYLA_READ_RUN \<noteq> IOCTL_PHYLA_QUERY_INFO" "IOCTL_PHYLA_READ_RUN \<noteq> IOCTL_PHYLA_GET_RANGES"
  "IOCTL_PHYLA_END_SESSION \<noteq> IOCTL_PHYLA_QUERY_INFO" "IOCTL_PHYLA_END_SESSION \<noteq> IOCTL_PHYLA_GET_RANGES"
  "IOCTL_PHYLA_END_SESSION \<noteq> IOCTL_PHYLA_READ_RUN"
  "IOCTL_PHYLA_QUERY_HINTS \<noteq> IOCTL_PHYLA_QUERY_INFO" "IOCTL_PHYLA_QUERY_HINTS \<noteq> IOCTL_PHYLA_GET_RANGES"
  "IOCTL_PHYLA_QUERY_HINTS \<noteq> IOCTL_PHYLA_READ_RUN" "IOCTL_PHYLA_QUERY_HINTS \<noteq> IOCTL_PHYLA_END_SESSION"
  by (simp_all add: ioctl_values)

section \<open>Structures\<close>

record PHYLA_MEMORY_RUN =
  pm_BaseAddress :: u64
  pm_NumberOfBytes :: u64

record PHYLA_QUERY_INFO =
  qi_Version :: u32
  qi_RunCount :: u32
  qi_TotalBytes :: u64
  qi_HighestPhysicalEnd :: u64

record PHYLA_READ_REQUEST =
  rd_RunIndex :: u32
  rd_Length :: u32
  rd_OffsetWithinRun :: u64

record PHYLA_READ_RESULT =
  rs_Version :: u32
  rs_HeaderSize :: u32
  rs_PhysicalAddress :: u64
  rs_RequestedLength :: u32
  rs_BytesCopied :: u32
  rs_CopyStatus :: u32
  rs_Reserved :: u32

record PHYLA_END_RESULT =
  er_Version :: u32
  er_TopologyChanged :: u32
  er_CurrentRunCount :: u32
  er_Reserved :: u32

record PHYLA_KERNEL_HINTS =
  ph_Version :: u32
  ph_HypervisorPresent :: u32
  ph_MajorVersion :: u32
  ph_MinorVersion :: u32
  ph_BuildNumber :: u32
  ph_NumberOfProcessors :: u32
  ph_Reserved :: u32
  ph_Reserved2 :: u32
  ph_DirectoryTableBase :: u64
  ph_KpcrAddress :: u64
  ph_KernelBase :: u64
  ph_KernelSize :: u64

section \<open>Their bytes\<close>

text \<open>
  The memory of a structure as the x64 compiler lays it out, with natural alignment and the sizes the
  header asserts. Neither side converts: both read and write the buffers of a request through
  pointers to the structures, which the models of the two sides say with \<open>..._bytes\<close> and \<open>..._of\<close>.
\<close>

definition memory_run_bytes :: "PHYLA_MEMORY_RUN \<Rightarrow> bytes" where
  "memory_run_bytes r = le64 (pm_BaseAddress r) @ le64 (pm_NumberOfBytes r)"

definition query_info_bytes :: "PHYLA_QUERY_INFO \<Rightarrow> bytes" where
  "query_info_bytes i = le32 (qi_Version i) @ le32 (qi_RunCount i) @ le64 (qi_TotalBytes i) @
     le64 (qi_HighestPhysicalEnd i)"

definition read_request_bytes :: "PHYLA_READ_REQUEST \<Rightarrow> bytes" where
  "read_request_bytes r = le32 (rd_RunIndex r) @ le32 (rd_Length r) @ le64 (rd_OffsetWithinRun r)"

definition read_result_bytes :: "PHYLA_READ_RESULT \<Rightarrow> bytes" where
  "read_result_bytes r = le32 (rs_Version r) @ le32 (rs_HeaderSize r) @ le64 (rs_PhysicalAddress r) @
     le32 (rs_RequestedLength r) @ le32 (rs_BytesCopied r) @ le32 (rs_CopyStatus r) @ le32 (rs_Reserved r)"

definition end_result_bytes :: "PHYLA_END_RESULT \<Rightarrow> bytes" where
  "end_result_bytes r = le32 (er_Version r) @ le32 (er_TopologyChanged r) @
     le32 (er_CurrentRunCount r) @ le32 (er_Reserved r)"

definition kernel_hints_bytes :: "PHYLA_KERNEL_HINTS \<Rightarrow> bytes" where
  "kernel_hints_bytes h = le32 (ph_Version h) @ le32 (ph_HypervisorPresent h) @
     le32 (ph_MajorVersion h) @ le32 (ph_MinorVersion h) @ le32 (ph_BuildNumber h) @
     le32 (ph_NumberOfProcessors h) @ le32 (ph_Reserved h) @ le32 (ph_Reserved2 h) @
     le64 (ph_DirectoryTableBase h) @ le64 (ph_KpcrAddress h) @ le64 (ph_KernelBase h) @
     le64 (ph_KernelSize h)"

definition memory_run_at :: "bytes \<Rightarrow> nat \<Rightarrow> PHYLA_MEMORY_RUN" where
  "memory_run_at bs off = \<lparr> pm_BaseAddress = u64_at bs off, pm_NumberOfBytes = u64_at bs (off + 8) \<rparr>"

definition query_info_of :: "bytes \<Rightarrow> PHYLA_QUERY_INFO" where
  "query_info_of bs = \<lparr> qi_Version = u32_at bs 0, qi_RunCount = u32_at bs 4,
     qi_TotalBytes = u64_at bs 8, qi_HighestPhysicalEnd = u64_at bs 16 \<rparr>"

definition read_request_of :: "bytes \<Rightarrow> PHYLA_READ_REQUEST" where
  "read_request_of bs = \<lparr> rd_RunIndex = u32_at bs 0, rd_Length = u32_at bs 4,
     rd_OffsetWithinRun = u64_at bs 8 \<rparr>"

definition read_result_of :: "bytes \<Rightarrow> PHYLA_READ_RESULT" where
  "read_result_of bs = \<lparr> rs_Version = u32_at bs 0, rs_HeaderSize = u32_at bs 4,
     rs_PhysicalAddress = u64_at bs 8, rs_RequestedLength = u32_at bs 16,
     rs_BytesCopied = u32_at bs 20, rs_CopyStatus = u32_at bs 24, rs_Reserved = u32_at bs 28 \<rparr>"

definition end_result_of :: "bytes \<Rightarrow> PHYLA_END_RESULT" where
  "end_result_of bs = \<lparr> er_Version = u32_at bs 0, er_TopologyChanged = u32_at bs 4,
     er_CurrentRunCount = u32_at bs 8, er_Reserved = u32_at bs 12 \<rparr>"

definition kernel_hints_of :: "bytes \<Rightarrow> PHYLA_KERNEL_HINTS" where
  "kernel_hints_of bs = \<lparr> ph_Version = u32_at bs 0, ph_HypervisorPresent = u32_at bs 4,
     ph_MajorVersion = u32_at bs 8, ph_MinorVersion = u32_at bs 12, ph_BuildNumber = u32_at bs 16,
     ph_NumberOfProcessors = u32_at bs 20, ph_Reserved = u32_at bs 24, ph_Reserved2 = u32_at bs 28,
     ph_DirectoryTableBase = u64_at bs 32, ph_KpcrAddress = u64_at bs 40,
     ph_KernelBase = u64_at bs 48, ph_KernelSize = u64_at bs 56 \<rparr>"

text \<open>The sizes the header asserts at compile time.\<close>

lemma struct_sizes [simp]:
  "length (memory_run_bytes r) = 16" "length (query_info_bytes i) = 24"
  "length (read_request_bytes q) = 16" "length (read_result_bytes s) = 32"
  "length (end_result_bytes e) = 16" "length (kernel_hints_bytes h) = 64"
  by (simp_all add: memory_run_bytes_def query_info_bytes_def read_request_bytes_def
      read_result_bytes_def end_result_bytes_def kernel_hints_bytes_def)

text \<open>What one side stores the other side reads.\<close>

lemma query_info_of_bytes [simp]: "query_info_of (query_info_bytes i @ r) = i"
  by (simp add: query_info_of_def query_info_bytes_def u32_at_skip u64_at_skip)

lemma read_request_of_bytes [simp]: "read_request_of (read_request_bytes q @ r) = q"
  by (simp add: read_request_of_def read_request_bytes_def u32_at_skip u64_at_skip)

lemma read_result_of_bytes [simp]: "read_result_of (read_result_bytes s @ r) = s"
  by (simp add: read_result_of_def read_result_bytes_def u32_at_skip u64_at_skip)

lemma end_result_of_bytes [simp]: "end_result_of (end_result_bytes e @ r) = e"
  by (simp add: end_result_of_def end_result_bytes_def u32_at_skip u64_at_skip)

lemma kernel_hints_of_bytes [simp]: "kernel_hints_of (kernel_hints_bytes h @ r) = h"
  by (simp add: kernel_hints_of_def kernel_hints_bytes_def u32_at_skip u64_at_skip)

lemma memory_run_at_bytes:
  "i < length rs \<Longrightarrow> memory_run_at (concat (map memory_run_bytes rs) @ r) (16 * i) = rs ! i"
proof -
  assume i: "i < length rs"
  let ?bs = "concat (map memory_run_bytes rs) @ r"
  have f: "field ?bs (16 * i) 16 = memory_run_bytes (rs ! i)"
    using i by (intro field_concat_const) simp_all
  have "field ?bs (16 * i) 8 = field (memory_run_bytes (rs ! i)) 0 8"
    "field ?bs (16 * i + 8) 8 = field (memory_run_bytes (rs ! i)) 8 8"
    by (simp_all add: f [symmetric] field_field)
  then show ?thesis
    by (simp add: memory_run_at_def u64_at_def memory_run_bytes_def field_skip field_def)
qed

lemma memory_runs_of_bytes:
  "map (\<lambda>i. memory_run_at (concat (map memory_run_bytes rs) @ r) (16 * i)) [0..<length rs] = rs"
  by (rule nth_equalityI) (simp_all add: memory_run_at_bytes)

end
