(* ===== verification/DeviceSession.thy ===== *)
theory DeviceSession
  imports Win32Files Protocol
begin

text \<open>
  The device session of the capture program (\<open>cli/device.cpp\<close>): the client side of the driver
  protocol. \<open>DeviceIoControl\<close> is a parameter of its own; it takes the output buffer as it is before
  the call and returns the buffer after it. The received structures are checked before use, the runs
  are sorted by base and overlapping runs are refused, which gives the contract the acquisition
  engine relies on.
\<close>

definition OPEN_EXISTING :: u32 where "OPEN_EXISTING = 3"

definition PHYLA_USER_DEVICE_NAME :: wstring where
  "PHYLA_USER_DEVICE_NAME = wide (CHR 0x5C # CHR 0x5C # CHR 0x2E # CHR 0x5C # ''PhylaRAM'')"

type_synonym 's device_io_control = "u64 \<Rightarrow> u32 \<Rightarrow> bytes \<Rightarrow> bytes \<Rightarrow> 's \<Rightarrow> bool \<times> u32 \<times> bytes \<times> 's"

section \<open>The class\<close>

record 's DeviceSession =
  ds_sys :: 's
  ds_handle :: u64
  ds_lastError :: u32
  ds_ioBuffer :: bytes

definition DeviceSession_init :: "'s \<Rightarrow> 's DeviceSession" where
  "DeviceSession_init s = \<lparr> ds_sys = s, ds_handle = INVALID_HANDLE_VALUE, ds_lastError = ERROR_SUCCESS,
     ds_ioBuffer = replicate (32 + unat PHYLA_MAX_TRANSFER) 0 \<rparr>"

definition DeviceSession_fail :: "u32 \<Rightarrow> 's DeviceSession \<Rightarrow> 's DeviceSession" where
  "DeviceSession_fail e d = d \<lparr> ds_lastError := e \<rparr>"

definition DeviceSession_Open :: "'s win32 \<Rightarrow> 's DeviceSession \<Rightarrow> bool \<times> 's DeviceSession" where
  "DeviceSession_Open api d =
     (case w_CreateFileW api PHYLA_USER_DEVICE_NAME GENERIC_READ OPEN_EXISTING (ds_sys d) of (h, s) \<Rightarrow>
        let d' = d \<lparr> ds_handle := h, ds_sys := handle_reset api (ds_handle d) s \<rparr>
        in if h = INVALID_HANDLE_VALUE
           then (False, d' \<lparr> ds_lastError := w_GetLastError api (ds_sys d') \<rparr>)
           else (True, d'))"

definition DeviceSession_Close :: "'s win32 \<Rightarrow> 's DeviceSession \<Rightarrow> 's DeviceSession" where
  "DeviceSession_Close api d =
     d \<lparr> ds_sys := handle_reset api (ds_handle d) (ds_sys d), ds_handle := INVALID_HANDLE_VALUE \<rparr>"

text \<open>A control request: the flag, the byte count and the buffer after the call; a failure is recorded.\<close>

definition DeviceSession_control ::
  "'s win32 \<Rightarrow> 's device_io_control \<Rightarrow> u32 \<Rightarrow> bytes \<Rightarrow> bytes \<Rightarrow> 's DeviceSession \<Rightarrow>
   bool \<times> u32 \<times> bytes \<times> 's DeviceSession" where
  "DeviceSession_control api io code input buffer d =
     (case io (ds_handle d) code input buffer (ds_sys d) of (ok, returned, buffer', s) \<Rightarrow>
        let d' = d \<lparr> ds_sys := s \<rparr>
        in (ok, returned, buffer', if \<not> ok then d' \<lparr> ds_lastError := w_GetLastError api s \<rparr> else d'))"

fun take_runs :: "bytes \<Rightarrow> u32 \<Rightarrow> nat \<Rightarrow> MemoryRun list \<Rightarrow> bool \<times> MemoryRun list" where
  "take_runs raw i 0 runs = (True, runs)"
| "take_runs raw i (Suc left) runs =
     (let r = memory_run_at raw (16 * unat i)
      in if pm_NumberOfBytes r = 0 \<or> pm_BaseAddress r > u64_max - pm_NumberOfBytes r then (False, runs)
         else take_runs raw (i + 1) left
                (runs @ [\<lparr> mr_driverIndex = i, mr_base = pm_BaseAddress r, mr_length = pm_NumberOfBytes r \<rparr>]))"

fun runs_overlap :: "MemoryRun list \<Rightarrow> bool" where
  "runs_overlap (r # r' # rs) \<longleftrightarrow> mr_base r + mr_length r > mr_base r' \<or> runs_overlap (r' # rs)"
| "runs_overlap rs \<longleftrightarrow> False"

definition DeviceSession_Query ::
  "'s win32 \<Rightarrow> 's device_io_control \<Rightarrow> 's DeviceSession \<Rightarrow>
   bool \<times> (u64 \<times> u64 \<times> MemoryRun list) \<times> 's DeviceSession" where
  "DeviceSession_Query api io d =
     (if ds_handle d = INVALID_HANDLE_VALUE
      then (False, (0, 0, []), DeviceSession_fail ERROR_INVALID_HANDLE d)
      else
        (case DeviceSession_control api io IOCTL_PHYLA_QUERY_INFO [] (replicate 24 0) d of
           (False, returned, buffer, d) \<Rightarrow> (False, (0, 0, []), d)
         | (True, returned, buffer, d) \<Rightarrow>
             let info = query_info_of buffer
             in if returned \<noteq> 24 \<or> qi_Version info \<noteq> PHYLA_PROTOCOL_VERSION \<or>
                   qi_RunCount info = 0 \<or> qi_RunCount info > 1024 * 1024
                then (False, (0, 0, []), DeviceSession_fail ERROR_INVALID_DATA d)
                else
                  (let expectedBytes = qi_RunCount info * 16
                   in case DeviceSession_control api io IOCTL_PHYLA_GET_RANGES []
                             (replicate (unat expectedBytes) 0) d of
                        (False, returned, buffer, d) \<Rightarrow> (False, (0, 0, []), d)
                      | (True, returned, raw, d) \<Rightarrow>
                          if returned \<noteq> expectedBytes
                          then (False, (0, 0, []), DeviceSession_fail ERROR_INVALID_DATA d)
                          else
                            (case take_runs raw 0 (unat (qi_RunCount info)) [] of
                               (False, runs) \<Rightarrow> (False, (0, 0, runs), DeviceSession_fail ERROR_INVALID_DATA d)
                             | (True, runs) \<Rightarrow>
                                 let runs = sort_key mr_base runs
                                 in if runs_overlap runs
                                    then (False, (0, 0, runs), DeviceSession_fail ERROR_INVALID_DATA d)
                                    else (True, (qi_HighestPhysicalEnd info, qi_TotalBytes info, runs), d)))))"

definition DeviceSession_QueryHints ::
  "'s win32 \<Rightarrow> 's device_io_control \<Rightarrow> 's DeviceSession \<Rightarrow> bool \<times> KernelHints \<times> 's DeviceSession" where
  "DeviceSession_QueryHints api io d =
     (if ds_handle d = INVALID_HANDLE_VALUE
      then (False, KernelHints_default, DeviceSession_fail ERROR_INVALID_HANDLE d)
      else
        (case DeviceSession_control api io IOCTL_PHYLA_QUERY_HINTS [] (replicate 64 0) d of
           (False, returned, buffer, d) \<Rightarrow> (False, KernelHints_default, d)
         | (True, returned, buffer, d) \<Rightarrow>
             let raw = kernel_hints_of buffer
             in if returned \<noteq> 64 \<or> ph_Version raw \<noteq> PHYLA_PROTOCOL_VERSION
                then (False, KernelHints_default, DeviceSession_fail ERROR_INVALID_DATA d)
                else (True,
                  \<lparr> kh_available = True, kh_hypervisorPresent = (ph_HypervisorPresent raw \<noteq> 0),
                    kh_majorVersion = ph_MajorVersion raw, kh_minorVersion = ph_MinorVersion raw,
                    kh_buildNumber = ph_BuildNumber raw, kh_numberOfProcessors = ph_NumberOfProcessors raw,
                    kh_directoryTableBase = ph_DirectoryTableBase raw, kh_kpcrAddress = ph_KpcrAddress raw,
                    kh_kernelBase = ph_KernelBase raw, kh_kernelSize = ph_KernelSize raw \<rparr>, d)))"

text \<open>A failing \<open>Read\<close> leaves the caller's result alone; the model returns a blank one.\<close>

definition ReadResult_blank :: ReadResult where
  "ReadResult_blank = \<lparr> rr_physicalAddress = 0, rr_requested = 0, rr_copied = 0, rr_copyStatus = 0, rr_data = [] \<rparr>"

definition DeviceSession_Read ::
  "'s win32 \<Rightarrow> 's device_io_control \<Rightarrow> u32 \<Rightarrow> u64 \<Rightarrow> u32 \<Rightarrow> 's DeviceSession \<Rightarrow>
   bool \<times> ReadResult \<times> 's DeviceSession" where
  "DeviceSession_Read api io runIndex offset len d =
     (if ds_handle d = INVALID_HANDLE_VALUE
      then (False, ReadResult_blank, DeviceSession_fail ERROR_INVALID_HANDLE d)
      else if len = 0 \<or> len > PHYLA_MAX_TRANSFER
      then (False, ReadResult_blank, DeviceSession_fail ERROR_INVALID_PARAMETER d)
      else
        (let request = \<lparr> rd_RunIndex = runIndex, rd_Length = len, rd_OffsetWithinRun = offset \<rparr>;
             neededCapacity = 32 + unat len;
             ioBuffer = (if length (ds_ioBuffer d) < neededCapacity
                         then resize (ds_ioBuffer d) neededCapacity else ds_ioBuffer d)
         in case DeviceSession_control api io IOCTL_PHYLA_READ_RUN (read_request_bytes request)
                   (take neededCapacity ioBuffer) (d \<lparr> ds_ioBuffer := ioBuffer \<rparr>) of
              (False, returned, buffer, d) \<Rightarrow>
                (False, ReadResult_blank, d \<lparr> ds_ioBuffer := overlay (ds_ioBuffer d) 0 buffer \<rparr>)
            | (True, returned, buffer, d) \<Rightarrow>
                let d = d \<lparr> ds_ioBuffer := overlay (ds_ioBuffer d) 0 buffer \<rparr>;
                    header = read_result_of (ds_ioBuffer d)
                in if returned < 32 \<or> rs_Version header \<noteq> PHYLA_PROTOCOL_VERSION \<or>
                      rs_HeaderSize header \<noteq> 32 \<or> rs_BytesCopied header > len \<or>
                      (ucast returned :: u64) \<noteq> 32 + ucast (rs_BytesCopied header)
                   then (False, ReadResult_blank, DeviceSession_fail ERROR_INVALID_DATA d)
                   else (True,
                     \<lparr> rr_physicalAddress = rs_PhysicalAddress header,
                       rr_requested = rs_RequestedLength header, rr_copied = rs_BytesCopied header,
                       rr_copyStatus = rs_CopyStatus header,
                       rr_data = field (ds_ioBuffer d) 32 (unat (rs_BytesCopied header)) \<rparr>, d)))"

definition DeviceSession_End ::
  "'s win32 \<Rightarrow> 's device_io_control \<Rightarrow> 's DeviceSession \<Rightarrow> bool \<times> bool \<times> 's DeviceSession" where
  "DeviceSession_End api io d =
     (if ds_handle d = INVALID_HANDLE_VALUE
      then (False, False, DeviceSession_fail ERROR_INVALID_HANDLE d)
      else
        (case DeviceSession_control api io IOCTL_PHYLA_END_SESSION [] (replicate 16 0) d of
           (False, returned, buffer, d) \<Rightarrow> (False, False, d)
         | (True, returned, buffer, d) \<Rightarrow>
             let endResult = end_result_of buffer
             in if returned \<noteq> 16 \<or> er_Version endResult \<noteq> PHYLA_PROTOCOL_VERSION
                then (False, False, DeviceSession_fail ERROR_INVALID_DATA d)
                else (True, er_TopologyChanged endResult \<noteq> 0, d)))"

definition DeviceSession_class :: "'s win32 \<Rightarrow> 's device_io_control \<Rightarrow> 's DeviceSession IDeviceSession" where
  "DeviceSession_class api io = \<lparr>
     dev_Open = DeviceSession_Open api,
     dev_Close = DeviceSession_Close api,
     dev_Query = DeviceSession_Query api io,
     dev_QueryHints = DeviceSession_QueryHints api io,
     dev_Read = DeviceSession_Read api io,
     dev_End = DeviceSession_End api io,
     dev_LastError = ds_lastError \<rparr>"

end
