(* ===== verification/DeviceContract.thy ===== *)
theory DeviceContract
  imports DeviceSession "HOL-Library.Multiset"
begin

text \<open>
  Every list of runs a successful \<open>Query\<close> reports is the driver's, in ascending order, with no run
  empty, wrapping around or overlapping another, however the driver answers: the device session
  keeps the contract of \<open>IDeviceSession\<close>.
\<close>

definition received_run :: "bytes \<Rightarrow> nat \<Rightarrow> MemoryRun" where
  "received_run raw i = (let r = memory_run_at raw (16 * i)
     in \<lparr> mr_driverIndex = of_nat i, mr_base = pm_BaseAddress r, mr_length = pm_NumberOfBytes r \<rparr>)"

lemma take_runs_iff:
  assumes "unat i + left < 2 ^ 32"
  shows "take_runs raw i left acc = (True, rs) \<longleftrightarrow>
    (\<forall>j \<in> {unat i ..< unat i + left}. run_ok (received_run raw j)) \<and>
    rs = acc @ map (received_run raw) [unat i ..< unat i + left]"
  using assms
proof (induction left arbitrary: i acc)
  case 0
  then show ?case by auto
next
  case (Suc left)
  let ?r = "memory_run_at raw (16 * unat i)"
  have s: "unat (i + 1) = Suc (unat i)"
    using Suc.prems by (simp add: unat_plus_if')
  have ok: "run_ok (received_run raw (unat i)) \<longleftrightarrow>
      \<not> (pm_NumberOfBytes ?r = 0 \<or> pm_BaseAddress ?r > u64_max - pm_NumberOfBytes ?r)"
    using word_gt_max_minus_iff [of "pm_NumberOfBytes ?r" "pm_BaseAddress ?r"]
    by (auto simp: run_ok_def received_run_def Let_def add.commute)
  have up: "[unat i ..< unat i + Suc left] = unat i # [Suc (unat i) ..< Suc (unat i) + left]"
    by (simp add: upt_conv_Cons)
  have run: "received_run raw (unat i) =
      \<lparr> mr_driverIndex = i, mr_base = pm_BaseAddress ?r, mr_length = pm_NumberOfBytes ?r \<rparr>"
    by (simp add: received_run_def Let_def)
  have set: "{unat i ..< unat i + Suc left} = insert (unat i) {Suc (unat i) ..< Suc (unat i) + left}"
    by auto
  show ?case
  proof (cases "run_ok (received_run raw (unat i))")
    case True
    then have "take_runs raw i (Suc left) acc = take_runs raw (i + 1) left (acc @ [received_run raw (unat i)])"
      using ok by (simp add: Let_def run)
    then show ?thesis
      using Suc.IH [of "i + 1" "acc @ [received_run raw (unat i)]"] Suc.prems s True
      unfolding up set by (simp del: upt_Suc)
  next
    case False
    then show ?thesis using ok set by (auto simp: Let_def)
  qed
qed

lemma runs_overlap_iff:
  "\<forall>r \<in> set rs. run_ok r \<Longrightarrow> \<not> runs_overlap rs \<longleftrightarrow> runs_ordered rs"
proof (induction rs rule: runs_ordered.induct)
  case (3 r r' rs)
  then have "unat (mr_base r + mr_length r) = unat (mr_base r) + unat (mr_length r)"
    by (intro unat_add_u64) (simp add: run_ok_def)
  then show ?case
    using 3 by (auto simp: word_less_nat_alt)
qed simp_all

lemma control_fields:
  "DeviceSession_control api io code input buffer d = (ok, n, b, d') \<Longrightarrow>
   ds_handle d' = ds_handle d \<and> ds_ioBuffer d' = ds_ioBuffer d \<and>
   io (ds_handle d) code input buffer (ds_sys d) = (ok, n, b, ds_sys d')"
  by (auto simp: DeviceSession_control_def Let_def split: prod.splits if_splits)

text \<open>What a successful query went through.\<close>

lemma Query_success:
  assumes "DeviceSession_Query api io d = (True, (hi, tot, rs), d')"
  obtains buffer d1 raw n where
    "DeviceSession_control api io IOCTL_PHYLA_QUERY_INFO [] (replicate 24 0) d = (True, 24, buffer, d1)"
    "n = qi_RunCount (query_info_of buffer)" "n \<noteq> 0" "n \<le> 1024 * 1024"
    "DeviceSession_control api io IOCTL_PHYLA_GET_RANGES [] (replicate (16 * unat n) 0) d1 = (True, n * 16, raw, d')"
    "hi = qi_HighestPhysicalEnd (query_info_of buffer)" "tot = qi_TotalBytes (query_info_of buffer)"
    "\<forall>j < unat n. run_ok (received_run raw j)"
    "rs = sort_key mr_base (map (received_run raw) [0..<unat n])" "\<not> runs_overlap rs"
    "ds_handle d \<noteq> INVALID_HANDLE_VALUE" "qi_Version (query_info_of buffer) = PHYLA_PROTOCOL_VERSION"
proof -
  obtain ok1 n1 buffer d1 where c1: "DeviceSession_control api io IOCTL_PHYLA_QUERY_INFO [] (replicate 24 0) d =
      (ok1, n1, buffer, d1)" by (metis prod_cases4)
  let ?n = "qi_RunCount (query_info_of buffer)"
  obtain ok2 n2 raw d2 where c2: "DeviceSession_control api io IOCTL_PHYLA_GET_RANGES []
      (replicate (unat (?n * 16)) 0) d1 = (ok2, n2, raw, d2)" by (metis prod_cases4)
  obtain b runs where t: "take_runs raw 0 (unat ?n) [] = (b, runs)" by fastforce
  have h: "ds_handle d \<noteq> INVALID_HANDLE_VALUE" and ok: "ok1" "n1 = 24" "qi_Version (query_info_of buffer) = PHYLA_PROTOCOL_VERSION" "?n \<noteq> 0" "?n \<le> 1024 * 1024"
    "ok2" "n2 = ?n * 16" "b" "\<not> runs_overlap (sort_key mr_base runs)"
    and out: "hi = qi_HighestPhysicalEnd (query_info_of buffer)" "tot = qi_TotalBytes (query_info_of buffer)"
      "rs = sort_key mr_base runs" "d' = d2"
    using assms c1 c2 t
    by (auto simp: DeviceSession_Query_def Let_def not_less split: if_splits bool.splits)
  have small: "unat ?n \<le> 1048576" using ok(5) by (simp add: word_le_nat_alt)
  then have mult: "unat (?n * 16) = 16 * unat ?n"
    by (simp add: unat_word_ariths)
  have "(\<forall>j \<in> {0 ..< unat ?n}. run_ok (received_run raw j)) \<and> runs = map (received_run raw) [0..<unat ?n]"
    using t ok(8) small take_runs_iff [of 0 "unat ?n" raw "[]" runs] by simp
  then show ?thesis
    using that [of buffer d1 ?n raw] c1 c2 ok out h mult by simp
qed

text \<open>
  The two answers of the driver a successful query rests on, read at the offsets of the protocol: the
  counters, and the entries as runs, each with its position as driver index.
\<close>

definition answered_query :: "'s device_io_control \<Rightarrow> u64 \<Rightarrow> 's \<Rightarrow> bytes \<Rightarrow> bytes \<Rightarrow> nat \<Rightarrow> 's \<Rightarrow> bool" where
  "answered_query io h s info raw n s' \<longleftrightarrow>
     (\<exists>s1. io h IOCTL_PHYLA_QUERY_INFO [] (replicate 24 0) s = (True, 24, info, s1) \<and>
        io h IOCTL_PHYLA_GET_RANGES [] (replicate (16 * n) 0) s1 = (True, of_nat (16 * n), raw, s')) \<and>
     u32_at info 0 = PHYLA_PROTOCOL_VERSION \<and> u32_at info 4 = of_nat n"

definition entry_run :: "bytes \<Rightarrow> nat \<Rightarrow> MemoryRun" where
  "entry_run raw i = \<lparr> mr_driverIndex = of_nat i, mr_base = u64_at raw (16 * i), mr_length = u64_at raw (16 * i + 8) \<rparr>"

lemma received_entry_run: "received_run = entry_run"
  by (simp add: fun_eq_iff received_run_def entry_run_def memory_run_at_def)

lemma Query_runs_wf:
  assumes "DeviceSession_Query api io d = (True, (hi, tot, rs), d')"
  shows "runs_wf rs \<and> rs \<noteq> [] \<and> length rs \<le> 1024 * 1024 \<and>
    (\<exists>info raw. answered_query io (ds_handle d) (ds_sys d) info raw (length rs) (ds_sys d') \<and>
       tot = u64_at info 8 \<and> hi = u64_at info 16 \<and> mset rs = mset (map (entry_run raw) [0..<length rs]))"
proof -
  from Query_success [OF assms] obtain info d1 raw n where
    c: "DeviceSession_control api io IOCTL_PHYLA_QUERY_INFO [] (replicate 24 0) d = (True, 24, info, d1)"
      "n = qi_RunCount (query_info_of info)"
      "DeviceSession_control api io IOCTL_PHYLA_GET_RANGES [] (replicate (16 * unat n) 0) d1 = (True, n * 16, raw, d')"
      "hi = qi_HighestPhysicalEnd (query_info_of info)" "tot = qi_TotalBytes (query_info_of info)"
      "qi_Version (query_info_of info) = PHYLA_PROTOCOL_VERSION"
    and q: "\<forall>j < unat (n :: u32). run_ok (received_run raw j)" "rs = sort_key mr_base (map (received_run raw) [0..<unat n])"
      "\<not> runs_overlap rs" "n \<noteq> 0" "n \<le> 1024 * 1024" by metis
  have ok: "\<forall>r \<in> set rs. run_ok r" using q(1,2) by auto
  moreover have "runs_ordered rs" using runs_overlap_iff [OF ok] q(3) by simp
  moreover have len: "length rs = unat n" and mset: "mset rs = mset (map (received_run raw) [0..<unat n])"
    by (simp_all add: q(2))
  moreover have "unat n \<noteq> 0" using q(4) by (simp add: unat_eq_0)
  moreover have "unat n \<le> 1048576" using q(5) by (simp add: word_le_nat_alt)
  moreover have "of_nat (16 * unat n) = n * 16" by simp
  then have "answered_query io (ds_handle d) (ds_sys d) info raw (length rs) (ds_sys d')"
    using control_fields [OF c(1)] control_fields [OF c(3)] c(2,6) unfolding len answered_query_def
    by (auto simp: query_info_of_def)
  ultimately show ?thesis
    using c(4,5) unfolding received_entry_run runs_wf_def by (auto simp: query_info_of_def simp del: mset_map)
qed

interpretation session: device_contract "DeviceSession_class api io" "\<lambda>_. True"
  by unfold_locales (auto simp: DeviceSession_class_def dest: Query_runs_wf)

end
