(* ===== verification/Driver.thy ===== *)
theory Driver
  imports Protocol "HOL-Library.Monad_Syntax"
begin

text \<open>
  The kernel driver (\<open>driver/session.c\<close>, \<open>memory.c\<close>, \<open>ioctl.c\<close>, \<open>driver.c\<close>). The Windows kernel and
  the driver framework are parameters: \<open>kernel\<close> holds the kernel routines the driver calls, over an
  abstract kernel state, and \<open>WDFREQUEST\<close> what the framework's request routines answer for one
  request. Pointers are addresses, \<open>0\<close> is \<open>NULL\<close>, and \<open>k_pool\<close> shows the array of physical ranges at
  the address of a live block. The functions return an option: \<open>None\<close> is a bug check (an access
  outside a live block, a block freed twice) or a loop that never ends, so that a callback returns
  \<open>Some\<close> exactly when it is memory-safe and terminates.
\<close>

section \<open>The kernel\<close>

record PHYSICAL_MEMORY_RANGE =
  pr_BaseAddress :: u64
  pr_NumberOfBytes :: u64

record 'k kernel =
  k_MmGetPhysicalMemoryRangesEx2 :: "'k \<Rightarrow> u64 \<times> 'k"
  k_pool :: "'k \<Rightarrow> u64 \<Rightarrow> PHYSICAL_MEMORY_RANGE list option"
  k_ExFreePool :: "u64 \<Rightarrow> 'k \<Rightarrow> 'k"
  k_KeGetCurrentIrql :: "'k \<Rightarrow> u8"
  k_MmCopyMemory :: "u64 \<Rightarrow> u64 \<Rightarrow> 'k \<Rightarrow> bytes \<times> u64 \<times> NTSTATUS \<times> 'k"
  k_PsGetVersion :: "'k \<Rightarrow> u32 \<times> u32 \<times> u32"
  k_KeQueryActiveProcessorCountEx :: "'k \<Rightarrow> u32"
  k_PsInitialSystemProcess :: "'k \<Rightarrow> u64"
  k_KeStackAttachProcess :: "u64 \<Rightarrow> 'k \<Rightarrow> 'k"
  k_KeUnstackDetachProcess :: "'k \<Rightarrow> 'k"
  k_readcr3 :: "'k \<Rightarrow> u64"
  k_readgsqword :: "u32 \<Rightarrow> 'k \<Rightarrow> u64"
  k_RtlPcToFileHeader :: "'k \<Rightarrow> u64"
  k_Mem16 :: "u64 \<Rightarrow> 'k \<Rightarrow> u16"
  k_Mem32 :: "u64 \<Rightarrow> 'k \<Rightarrow> u32"
  k_cpuid_ecx :: "u32 \<Rightarrow> 'k \<Rightarrow> u32"

definition pool_free :: "'k kernel \<Rightarrow> u64 \<Rightarrow> 'k \<Rightarrow> 'k option" where
  "pool_free K p k = (if k_pool K k p = None then None else Some (k_ExFreePool K p k))"

definition array_at :: "'a list \<Rightarrow> u32 \<Rightarrow> 'a option" where
  "array_at xs i = (if unat i < length xs then Some (xs ! unat i) else None)"

section \<open>Sessions (\<open>session.c\<close>)\<close>

record PHYLA_FILE_CONTEXT =
  fc_Ranges :: u64
  fc_RunCount :: u32
  fc_TotalBytes :: u64
  fc_HighestPhysicalEnd :: u64
  fc_SessionEnded :: bool

partial_function (option) PhylaCountLoop :: "PHYSICAL_MEMORY_RANGE list \<Rightarrow> u32 \<Rightarrow> u32 option" where
  "PhylaCountLoop Ranges count =
     (case array_at Ranges count of None \<Rightarrow> None
      | Some r \<Rightarrow> if pr_BaseAddress r \<noteq> 0 \<or> pr_NumberOfBytes r \<noteq> 0
                 then PhylaCountLoop Ranges (count + 1) else Some count)"

declare PhylaCountLoop.simps [code]

definition PhylaCountRanges :: "'k kernel \<Rightarrow> u64 \<Rightarrow> 'k \<Rightarrow> u32 option" where
  "PhylaCountRanges K Ranges k =
     (if Ranges = 0 then Some 0
      else do { arr \<leftarrow> k_pool K k Ranges; PhylaCountLoop arr 0 })"

fun PhylaSummarizeLoop ::
  "PHYSICAL_MEMORY_RANGE list \<Rightarrow> u32 \<Rightarrow> nat \<Rightarrow> u64 \<times> u64 \<Rightarrow> (u64 \<times> u64) option" where
  "PhylaSummarizeLoop Ranges i 0 acc = Some acc"
| "PhylaSummarizeLoop Ranges i (Suc left) (totalBytes, highest) =
     (case array_at Ranges i of None \<Rightarrow> None
      | Some r \<Rightarrow>
          (let base = pr_BaseAddress r; len = pr_NumberOfBytes r
           in if len > u64_max - base then PhylaSummarizeLoop Ranges (i + 1) left (totalBytes, highest)
              else
                (let last = base + len;
                     totalBytes' = (if u64_max - totalBytes \<ge> len then totalBytes + len else totalBytes);
                     highest' = (if last > highest then last else highest)
                 in PhylaSummarizeLoop Ranges (i + 1) left (totalBytes', highest'))))"

definition PhylaSummarizeRanges :: "'k kernel \<Rightarrow> u64 \<Rightarrow> u32 \<Rightarrow> 'k \<Rightarrow> (u64 \<times> u64) option" where
  "PhylaSummarizeRanges K Ranges Count k =
     (if Count = 0 then Some (0, 0)
      else do { arr \<leftarrow> k_pool K k Ranges; PhylaSummarizeLoop arr 0 (unat Count) (0, 0) })"

fun PhylaRangesEqualLoop ::
  "PHYSICAL_MEMORY_RANGE list \<Rightarrow> PHYSICAL_MEMORY_RANGE list \<Rightarrow> u32 \<Rightarrow> nat \<Rightarrow> bool option" where
  "PhylaRangesEqualLoop A B i 0 = Some True"
| "PhylaRangesEqualLoop A B i (Suc left) =
     do { a \<leftarrow> array_at A i; b \<leftarrow> array_at B i;
          if pr_BaseAddress a \<noteq> pr_BaseAddress b \<or> pr_NumberOfBytes a \<noteq> pr_NumberOfBytes b
          then Some False else PhylaRangesEqualLoop A B (i + 1) left }"

definition PhylaRangesEqual :: "'k kernel \<Rightarrow> u64 \<Rightarrow> u32 \<Rightarrow> u64 \<Rightarrow> u32 \<Rightarrow> 'k \<Rightarrow> bool option" where
  "PhylaRangesEqual K A CountA B CountB k =
     (if CountA \<noteq> CountB then Some False
      else if CountA = 0 then Some True
      else do { a \<leftarrow> k_pool K k A; b \<leftarrow> k_pool K k B; PhylaRangesEqualLoop a b 0 (unat CountA) })"

definition PhylaSessionBegin ::
  "'k kernel \<Rightarrow> PHYLA_FILE_CONTEXT option \<Rightarrow> 'k \<Rightarrow> (NTSTATUS \<times> PHYLA_FILE_CONTEXT option \<times> 'k) option" where
  "PhylaSessionBegin K Context k =
     (case Context of None \<Rightarrow> Some (STATUS_INVALID_PARAMETER, None, k)
      | Some c \<Rightarrow>
          (case k_MmGetPhysicalMemoryRangesEx2 K k of (ranges, k1) \<Rightarrow>
             if ranges = 0 then Some (STATUS_INSUFFICIENT_RESOURCES, Some c, k1)
             else do {
               count \<leftarrow> PhylaCountRanges K ranges k1;
               if count = 0
               then do { k2 \<leftarrow> pool_free K ranges k1; Some (STATUS_NOT_FOUND, Some c, k2) }
               else do {
                 (totalBytes, highest) \<leftarrow> PhylaSummarizeRanges K ranges count k1;
                 Some (STATUS_SUCCESS,
                   Some (c \<lparr> fc_Ranges := ranges, fc_RunCount := count, fc_SessionEnded := False,
                             fc_TotalBytes := totalBytes, fc_HighestPhysicalEnd := highest \<rparr>), k1)
               }
             }))"

definition PhylaSessionRelease ::
  "'k kernel \<Rightarrow> PHYLA_FILE_CONTEXT option \<Rightarrow> 'k \<Rightarrow> (PHYLA_FILE_CONTEXT option \<times> 'k) option" where
  "PhylaSessionRelease K Context k =
     (case Context of None \<Rightarrow> Some (None, k)
      | Some c \<Rightarrow> do {
          k' \<leftarrow> (if fc_Ranges c \<noteq> 0 then pool_free K (fc_Ranges c) k else Some k);
          Some (Some (c \<lparr> fc_Ranges := 0, fc_RunCount := 0, fc_TotalBytes := 0,
                          fc_HighestPhysicalEnd := 0, fc_SessionEnded := True \<rparr>), k')
        })"

text \<open>\<open>outs\<close>: neither of the two out-parameters is \<open>NULL\<close>.\<close>

definition PhylaSessionEnd ::
  "'k kernel \<Rightarrow> PHYLA_FILE_CONTEXT option \<Rightarrow> bool \<Rightarrow> bool \<times> u32 \<Rightarrow> 'k \<Rightarrow>
   (NTSTATUS \<times> (bool \<times> u32) \<times> PHYLA_FILE_CONTEXT option \<times> 'k) option" where
  "PhylaSessionEnd K Context outs out k =
     (case Context of None \<Rightarrow> Some (STATUS_INVALID_PARAMETER, out, None, k)
      | Some c \<Rightarrow>
          if \<not> outs then Some (STATUS_INVALID_PARAMETER, out, Some c, k)
          else if fc_Ranges c = 0 \<or> fc_SessionEnded c
          then Some (STATUS_INVALID_DEVICE_STATE, out, Some c, k)
          else
            (case k_MmGetPhysicalMemoryRangesEx2 K k of (current, k1) \<Rightarrow>
               if current = 0 then Some (STATUS_INSUFFICIENT_RESOURCES, out, Some c, k1)
               else do {
                 currentCount \<leftarrow> PhylaCountRanges K current k1;
                 same \<leftarrow> PhylaRangesEqual K (fc_Ranges c) (fc_RunCount c) current currentCount k1;
                 k2 \<leftarrow> pool_free K current k1;
                 Some (STATUS_SUCCESS, (\<not> same, currentCount),
                       Some (c \<lparr> fc_SessionEnded := True \<rparr>), k2)
               }))"

definition KERNEL_HINTS_zero :: PHYLA_KERNEL_HINTS where
  "KERNEL_HINTS_zero = \<lparr> ph_Version = 0, ph_HypervisorPresent = 0, ph_MajorVersion = 0,
     ph_MinorVersion = 0, ph_BuildNumber = 0, ph_NumberOfProcessors = 0, ph_Reserved = 0,
     ph_Reserved2 = 0, ph_DirectoryTableBase = 0, ph_KpcrAddress = 0, ph_KernelBase = 0,
     ph_KernelSize = 0 \<rparr>"

text \<open>The size field of the image at \<open>kernelBase\<close>, when its headers carry both signatures.\<close>

definition kernel_image_size :: "'k kernel \<Rightarrow> u64 \<Rightarrow> 'k \<Rightarrow> u64" where
  "kernel_image_size K kernelBase k =
     (if k_Mem16 K kernelBase k = 0x5A4D
      then (let nt = kernelBase + scast (k_Mem32 K (kernelBase + 0x3C) k)
            in if k_Mem32 K nt k = 0x4550 then ucast (k_Mem32 K (nt + 80) k) else 0)
      else 0)"

text \<open>The x64 build; \<open>Hints\<close> is the address of the structure to fill.\<close>

definition PhylaQueryKernelHints ::
  "'k kernel \<Rightarrow> u64 \<Rightarrow> 'k \<Rightarrow> NTSTATUS \<times> PHYLA_KERNEL_HINTS option \<times> 'k" where
  "PhylaQueryKernelHints K Hints k =
     (if Hints = 0 then (STATUS_INVALID_PARAMETER, None, k)
      else
        (case k_PsGetVersion K k of (major, minor, build) \<Rightarrow>
           (let processors = k_KeQueryActiveProcessorCountEx K k;
                system = k_PsInitialSystemProcess K k;
                attached = k_KeStackAttachProcess K system k;
                dtb = (if system \<noteq> 0 then k_readcr3 K attached else 0);
                k1 = (if system \<noteq> 0 then k_KeUnstackDetachProcess K attached else k);
                kpcr = k_readgsqword K 0x18 k1;
                kernelBase = k_RtlPcToFileHeader K k1
            in (STATUS_SUCCESS,
                Some (KERNEL_HINTS_zero \<lparr> ph_Version := PHYLA_PROTOCOL_VERSION,
                  ph_MajorVersion := major, ph_MinorVersion := minor, ph_BuildNumber := build,
                  ph_NumberOfProcessors := processors, ph_DirectoryTableBase := dtb,
                  ph_KpcrAddress := kpcr, ph_KernelBase := kernelBase,
                  ph_KernelSize := (if kernelBase \<noteq> 0 then kernel_image_size K kernelBase k1 else 0),
                  ph_HypervisorPresent :=
                    (if k_cpuid_ecx K 1 k1 AND push_bit 31 1 \<noteq> 0 then 1 else 0) \<rparr>),
                k1))))"

section \<open>Reading physical memory (\<open>memory.c\<close>)\<close>

definition APC_LEVEL :: u8 where "APC_LEVEL = 1"

text \<open>
  \<open>Payload\<close> and \<open>Result\<close> are the addresses the result is stored at; what is stored is part of the
  result of the function: the header and the bytes \<open>MmCopyMemory\<close> wrote behind it.
\<close>

definition PhylaCopyRun ::
  "'k kernel \<Rightarrow> PHYLA_FILE_CONTEXT option \<Rightarrow> PHYLA_READ_REQUEST option \<Rightarrow> u64 \<Rightarrow> u32 \<Rightarrow> u64 \<Rightarrow> 'k \<Rightarrow>
   (NTSTATUS \<times> (PHYLA_READ_RESULT \<times> bytes) option \<times> 'k) option" where
  "PhylaCopyRun K Context Request Payload PayloadCapacity Result k =
     (case (Context, Request) of
        (Some c, Some q) \<Rightarrow>
          if Payload = 0 \<or> Result = 0 then Some (STATUS_INVALID_PARAMETER, None, k)
          else if k_KeGetCurrentIrql K k > APC_LEVEL then Some (STATUS_INVALID_DEVICE_STATE, None, k)
          else if fc_Ranges c = 0 \<or> fc_SessionEnded c then Some (STATUS_INVALID_DEVICE_STATE, None, k)
          else if rd_RunIndex q \<ge> fc_RunCount c \<or> rd_Length q = 0 \<or>
                  rd_Length q > PHYLA_MAX_TRANSFER \<or> rd_Length q > PayloadCapacity
          then Some (STATUS_INVALID_PARAMETER, None, k)
          else do {
            arr \<leftarrow> k_pool K k (fc_Ranges c);
            r \<leftarrow> array_at arr (rd_RunIndex q);
            let base = pr_BaseAddress r; runLength = pr_NumberOfBytes r; len = ucast (rd_Length q)
            in if rd_OffsetWithinRun q > runLength \<or> len > runLength - rd_OffsetWithinRun q \<or>
                  rd_OffsetWithinRun q > u64_max - base
               then Some (STATUS_INVALID_PARAMETER, None, k)
               else
                 (let physicalAddress = base + rd_OffsetWithinRun q
                  in case k_MmCopyMemory K physicalAddress len k of (data, copied, copyStatus, k') \<Rightarrow>
                    Some (STATUS_SUCCESS,
                      Some (\<lparr> rs_Version = PHYLA_PROTOCOL_VERSION, rs_HeaderSize = 32,
                              rs_PhysicalAddress = physicalAddress,
                              rs_RequestedLength = rd_Length q,
                              rs_BytesCopied = ucast (if copied > 0xFFFFFFFF then 0xFFFFFFFF else copied),
                              rs_CopyStatus = copyStatus, rs_Reserved = 0 \<rparr>, data),
                      k'))
          }
      | _ \<Rightarrow> Some (STATUS_INVALID_PARAMETER, None, k))"

end
