(* ===== verification/DriverIo.thy ===== *)
theory DriverIo
  imports Driver
begin

text \<open>
  The driver's callbacks (\<open>driver/ioctl.c\<close>, \<open>driver/driver.c\<close>). \<open>WDFREQUEST\<close> holds what the framework
  answers for one request; \<open>machine\<close> is the kernel state with the contexts of the file objects that
  exist. A handler returns its status, the byte count, and the bytes it stored at the start of the
  caller's output buffer.
\<close>

section \<open>Requests and the machine\<close>

text \<open>
  \<open>rq_ReadBack\<close>: the value found when a 32-bit field of the output buffer is read again. The buffer
  of \<open>READ_RUN\<close> is the caller's own memory, mapped into the kernel, and the caller's other threads
  can write to it.
\<close>

record WDFREQUEST =
  rq_FileObject :: u64
  rq_RetrieveInputBuffer :: "u64 \<Rightarrow> NTSTATUS \<times> bytes"
  rq_RetrieveOutputBuffer :: "u64 \<Rightarrow> NTSTATUS \<times> u64"
  rq_RetrieveOutputWdmMdl :: "NTSTATUS \<times> u64"
  rq_MmGetSystemAddressForMdlSafe :: "u64 \<Rightarrow> u64"
  rq_MmGetMdlByteCount :: "u64 \<Rightarrow> u32"
  rq_ReadBack :: "u32 \<Rightarrow> u32"

record 'k machine =
  mc_kernel :: 'k
  mc_files :: "u64 \<rightharpoonup> PHYLA_FILE_CONTEXT"

type_synonym 'k handler = "'k machine \<Rightarrow> (NTSTATUS \<times> u64 \<times> bytes \<times> 'k machine) option"

definition PhylaRequestFileContext :: "WDFREQUEST \<Rightarrow> 'k machine \<Rightarrow> PHYLA_FILE_CONTEXT option" where
  "PhylaRequestFileContext req m =
     (if rq_FileObject req \<noteq> 0 then mc_files m (rq_FileObject req) else None)"

definition no_session :: "PHYLA_FILE_CONTEXT option \<Rightarrow> bool" where
  "no_session ctx = (case ctx of None \<Rightarrow> True | Some c \<Rightarrow> fc_Ranges c = 0 \<or> fc_SessionEnded c)"

section \<open>Control requests (\<open>ioctl.c\<close>)\<close>

definition PhylaHandleQueryInfo :: "WDFREQUEST \<Rightarrow> u64 \<Rightarrow> 'k handler" where
  "PhylaHandleQueryInfo req OutputBufferLength m =
     (let ctx = PhylaRequestFileContext req m
      in if no_session ctx then Some (STATUS_INVALID_DEVICE_STATE, 0, [], m)
         else if OutputBufferLength < 24 then Some (STATUS_BUFFER_TOO_SMALL, 0, [], m)
         else
           (case rq_RetrieveOutputBuffer req 24 of (status, info) \<Rightarrow>
              if \<not> NT_SUCCESS status then Some (status, 0, [], m)
              else do {
                c \<leftarrow> ctx;
                Some (STATUS_SUCCESS, 24,
                  query_info_bytes \<lparr> qi_Version = PHYLA_PROTOCOL_VERSION, qi_RunCount = fc_RunCount c,
                    qi_TotalBytes = fc_TotalBytes c, qi_HighestPhysicalEnd = fc_HighestPhysicalEnd c \<rparr>,
                  m)
              }))"

fun PhylaGetRangesLoop :: "PHYSICAL_MEMORY_RANGE list \<Rightarrow> u32 \<Rightarrow> nat \<Rightarrow> bytes option" where
  "PhylaGetRangesLoop Ranges i 0 = Some []"
| "PhylaGetRangesLoop Ranges i (Suc left) =
     do { r \<leftarrow> array_at Ranges i;
          rest \<leftarrow> PhylaGetRangesLoop Ranges (i + 1) left;
          Some (memory_run_bytes \<lparr> pm_BaseAddress = pr_BaseAddress r,
                  pm_NumberOfBytes = pr_NumberOfBytes r \<rparr> @ rest) }"

definition PhylaHandleGetRanges :: "'k kernel \<Rightarrow> WDFREQUEST \<Rightarrow> u64 \<Rightarrow> 'k handler" where
  "PhylaHandleGetRanges K req OutputBufferLength m =
     (let ctx = PhylaRequestFileContext req m
      in if no_session ctx then Some (STATUS_INVALID_DEVICE_STATE, 0, [], m)
         else do {
           c \<leftarrow> ctx;
           if ucast (fc_RunCount c) > u64_max div 16 then Some (STATUS_INTEGER_OVERFLOW, 0, [], m)
           else
             (let required = ucast (fc_RunCount c) * 16
              in if OutputBufferLength < required then Some (STATUS_BUFFER_TOO_SMALL, 0, [], m)
                 else
                   (case rq_RetrieveOutputBuffer req required of (status, out) \<Rightarrow>
                      if \<not> NT_SUCCESS status then Some (status, 0, [], m)
                      else do {
                        arr \<leftarrow> k_pool K (mc_kernel m) (fc_Ranges c);
                        runs \<leftarrow> PhylaGetRangesLoop arr 0 (unat (fc_RunCount c));
                        Some (STATUS_SUCCESS, required, runs, m)
                      }))
         })"

definition PhylaHandleReadRun :: "'k kernel \<Rightarrow> WDFREQUEST \<Rightarrow> u64 \<Rightarrow> 'k handler" where
  "PhylaHandleReadRun K req OutputBufferLength m =
     (let ctx = PhylaRequestFileContext req m
      in if no_session ctx then Some (STATUS_INVALID_DEVICE_STATE, 0, [], m)
         else
           (case rq_RetrieveInputBuffer req 16 of (status, input) \<Rightarrow>
              if \<not> NT_SUCCESS status then Some (status, 0, [], m)
              else
                (case rq_RetrieveOutputWdmMdl req of (status, mdl) \<Rightarrow>
                   if \<not> NT_SUCCESS status \<or> mdl = 0
                   then Some (if NT_SUCCESS status then STATUS_INVALID_USER_BUFFER else status, 0, [], m)
                   else
                     (let output = rq_MmGetSystemAddressForMdlSafe req mdl
                      in if output = 0 then Some (STATUS_INSUFFICIENT_RESOURCES, 0, [], m)
                         else
                           (let byteCount = rq_MmGetMdlByteCount req mdl;
                                outputLength = (if OutputBufferLength < ucast byteCount
                                                then ucast OutputBufferLength else byteCount)
                            in if outputLength < 32 then Some (STATUS_BUFFER_TOO_SMALL, 0, [], m)
                               else do {
                                 (status, stored, k') \<leftarrow>
                                   PhylaCopyRun K ctx (Some (read_request_of input)) (output + 32)
                                     (outputLength - 32) output (mc_kernel m);
                                 let m' = m \<lparr> mc_kernel := k' \<rparr>
                                 in case stored of
                                      None \<Rightarrow> Some (status, 0, [], m')
                                    | Some (result, data) \<Rightarrow>
                                        if \<not> NT_SUCCESS status
                                        then Some (status, 0, read_result_bytes result @ data, m')
                                        else Some (STATUS_SUCCESS,
                                               32 + ucast (rq_ReadBack req (rs_BytesCopied result)),
                                               read_result_bytes result @ data, m')
                               })))))"

definition PhylaHandleEndSession :: "'k kernel \<Rightarrow> WDFREQUEST \<Rightarrow> u64 \<Rightarrow> 'k handler" where
  "PhylaHandleEndSession K req OutputBufferLength m =
     (case PhylaRequestFileContext req m of
        None \<Rightarrow> Some (STATUS_INVALID_DEVICE_STATE, 0, [], m)
      | Some c \<Rightarrow>
          if OutputBufferLength < 16 then Some (STATUS_BUFFER_TOO_SMALL, 0, [], m)
          else
            (case rq_RetrieveOutputBuffer req 16 of (status, out) \<Rightarrow>
               if \<not> NT_SUCCESS status then Some (status, 0, [], m)
               else do {
                 (status, (changed, currentCount), ctx', k') \<leftarrow>
                   PhylaSessionEnd K (Some c) True (False, 0) (mc_kernel m);
                 let m' = m \<lparr> mc_kernel := k', mc_files := (mc_files m)(rq_FileObject req := ctx') \<rparr>
                 in if \<not> NT_SUCCESS status then Some (status, 0, [], m')
                    else Some (STATUS_SUCCESS, 16,
                           end_result_bytes \<lparr> er_Version = PHYLA_PROTOCOL_VERSION,
                             er_TopologyChanged = (if changed then 1 else 0),
                             er_CurrentRunCount = currentCount, er_Reserved = 0 \<rparr>, m')
               }))"

definition PhylaHandleQueryHints :: "'k kernel \<Rightarrow> WDFREQUEST \<Rightarrow> u64 \<Rightarrow> 'k handler" where
  "PhylaHandleQueryHints K req OutputBufferLength m =
     (if OutputBufferLength < 64 then Some (STATUS_BUFFER_TOO_SMALL, 0, [], m)
      else
        (case rq_RetrieveOutputBuffer req 64 of (status, hints) \<Rightarrow>
           if \<not> NT_SUCCESS status then Some (status, 0, [], m)
           else
             (case PhylaQueryKernelHints K hints (mc_kernel m) of (status, stored, k') \<Rightarrow>
                let m' = m \<lparr> mc_kernel := k' \<rparr>
                in if \<not> NT_SUCCESS status then Some (status, 0, [], m')
                   else do { h \<leftarrow> stored; Some (STATUS_SUCCESS, 64, kernel_hints_bytes h, m') })))"

record completion =
  cp_status :: NTSTATUS
  cp_information :: u64
  cp_output :: bytes

definition PhylaEvtIoDeviceControl ::
  "'k kernel \<Rightarrow> WDFREQUEST \<Rightarrow> u64 \<Rightarrow> u64 \<Rightarrow> u32 \<Rightarrow> 'k machine \<Rightarrow> (completion \<times> 'k machine) option" where
  "PhylaEvtIoDeviceControl K req OutputBufferLength InputBufferLength IoControlCode m =
     do {
       (status, bytesReturned, stored, m') \<leftarrow>
         (if IoControlCode = IOCTL_PHYLA_QUERY_INFO then PhylaHandleQueryInfo req OutputBufferLength m
          else if IoControlCode = IOCTL_PHYLA_GET_RANGES then PhylaHandleGetRanges K req OutputBufferLength m
          else if IoControlCode = IOCTL_PHYLA_READ_RUN then PhylaHandleReadRun K req OutputBufferLength m
          else if IoControlCode = IOCTL_PHYLA_END_SESSION then PhylaHandleEndSession K req OutputBufferLength m
          else if IoControlCode = IOCTL_PHYLA_QUERY_HINTS then PhylaHandleQueryHints K req OutputBufferLength m
          else Some (STATUS_INVALID_DEVICE_REQUEST, 0, [], m));
       Some (\<lparr> cp_status = status,
               cp_information = (if \<not> NT_SUCCESS status then 0 else bytesReturned),
               cp_output = stored \<rparr>, m')
     }"

section \<open>File objects (\<open>driver.c\<close>)\<close>

definition FILE_CONTEXT_zero :: PHYLA_FILE_CONTEXT where
  "FILE_CONTEXT_zero = \<lparr> fc_Ranges = 0, fc_RunCount = 0, fc_TotalBytes = 0,
     fc_HighestPhysicalEnd = 0, fc_SessionEnded = False \<rparr>"

text \<open>The status the create request is completed with, and the machine with the object's context.\<close>

definition PhylaEvtFileCreate :: "'k kernel \<Rightarrow> u64 \<Rightarrow> 'k machine \<Rightarrow> (NTSTATUS \<times> 'k machine) option" where
  "PhylaEvtFileCreate K FileObject m =
     do { (status, ctx, k') \<leftarrow> PhylaSessionBegin K (Some FILE_CONTEXT_zero) (mc_kernel m);
          Some (status, m \<lparr> mc_kernel := k', mc_files := (mc_files m)(FileObject := ctx) \<rparr>) }"

definition PhylaEvtFileCleanup :: "'k kernel \<Rightarrow> u64 \<Rightarrow> 'k machine \<Rightarrow> 'k machine option" where
  "PhylaEvtFileCleanup K FileObject m =
     do { (ctx, k') \<leftarrow> PhylaSessionRelease K (mc_files m FileObject) (mc_kernel m);
          Some (m \<lparr> mc_kernel := k', mc_files := (mc_files m)(FileObject := ctx) \<rparr>) }"

definition PhylaEvtFileClose :: "u64 \<Rightarrow> 'k machine \<Rightarrow> 'k machine" where
  "PhylaEvtFileClose FileObject m = m"

section \<open>Loading (\<open>driver.c\<close>)\<close>

text \<open>
  The structures the driver fills in for the framework. \<open>To...\<close> are pointers to its callbacks; a
  \<open>..._INIT\<close> macro leaves what is not named here at the framework's defaults.
\<close>

datatype driver_callback = ToFileCreate | ToFileClose | ToFileCleanup | ToIoDeviceControl | ToDriverUnload

datatype WDF_EXECUTION_LEVEL = WdfExecutionLevelInheritFromParent | WdfExecutionLevelPassive
datatype WDF_SYNCHRONIZATION_SCOPE = WdfSynchronizationScopeInheritFromParent | WdfSynchronizationScopeDevice
datatype WDF_IO_QUEUE_DISPATCH_TYPE = WdfIoQueueDispatchSequential | WdfIoQueueDispatchParallel | WdfIoQueueDispatchManual
datatype WDF_TRI_STATE = WdfFalse | WdfTrue | WdfUseDefault

record WDF_OBJECT_ATTRIBUTES =
  at_ContextType :: "string option"
  at_ExecutionLevel :: WDF_EXECUTION_LEVEL
  at_SynchronizationScope :: WDF_SYNCHRONIZATION_SCOPE

record WDF_FILEOBJECT_CONFIG =
  fo_EvtDeviceFileCreate :: driver_callback
  fo_EvtFileClose :: driver_callback
  fo_EvtFileCleanup :: driver_callback

record WDF_IO_QUEUE_CONFIG =
  iq_DefaultQueue :: bool
  iq_DispatchType :: WDF_IO_QUEUE_DISPATCH_TYPE
  iq_PowerManaged :: WDF_TRI_STATE
  iq_EvtIoDeviceControl :: "driver_callback option"

record WDF_DRIVER_CONFIG =
  dc_EvtDriverDeviceAdd :: "driver_callback option"
  dc_EvtDriverUnload :: "driver_callback option"
  dc_DriverInitFlags :: u32
  dc_DriverPoolTag :: u32

definition WDF_OBJECT_ATTRIBUTES_INIT :: WDF_OBJECT_ATTRIBUTES where
  "WDF_OBJECT_ATTRIBUTES_INIT = \<lparr> at_ContextType = None, at_ExecutionLevel = WdfExecutionLevelInheritFromParent,
     at_SynchronizationScope = WdfSynchronizationScopeInheritFromParent \<rparr>"

definition WDF_IO_QUEUE_CONFIG_INIT_DEFAULT_QUEUE :: "WDF_IO_QUEUE_DISPATCH_TYPE \<Rightarrow> WDF_IO_QUEUE_CONFIG" where
  "WDF_IO_QUEUE_CONFIG_INIT_DEFAULT_QUEUE dispatch = \<lparr> iq_DefaultQueue = True, iq_DispatchType = dispatch,
     iq_PowerManaged = WdfUseDefault, iq_EvtIoDeviceControl = None \<rparr>"

text \<open>
  The framework calls that set the driver up, with the objects and the structures they are given, and
  what the framework answers. \<open>wdf_DeviceCreate\<close> answers with the status, the value left in \<open>init\<close>
  (the framework takes the structure over and clears it when it succeeds) and the device.
\<close>

datatype wdf_call =
    CallDriverCreate WDF_OBJECT_ATTRIBUTES WDF_DRIVER_CONFIG | CallDeviceInitAllocate wstring
  | CallSetExclusive u64 bool | CallSetDeviceType u64 u32 | CallSetIoTypeDirect u64 | CallAssignName u64 wstring
  | CallSetFileObjectConfig u64 WDF_FILEOBJECT_CONFIG WDF_OBJECT_ATTRIBUTES | CallDeviceInitFree u64
  | CallDeviceCreate u64 WDF_OBJECT_ATTRIBUTES | CallCreateSymbolicLink u64 wstring | CallObjectDelete u64
  | CallIoQueueCreate u64 WDF_IO_QUEUE_CONFIG | CallFinishInitializing u64

record wdf =
  wdf_DriverCreate :: NTSTATUS
  wdf_DeviceInitAllocate :: u64
  wdf_AssignName :: NTSTATUS
  wdf_DeviceCreate :: "NTSTATUS \<times> u64 \<times> u64"
  wdf_CreateSymbolicLink :: NTSTATUS
  wdf_IoQueueCreate :: NTSTATUS

definition PHYLA_NT_DEVICE_NAME :: wstring where "PHYLA_NT_DEVICE_NAME = wide (CHR 0x5C # ''Device'' @ CHR 0x5C # ''PhylaRAM'')"
definition PHYLA_DOS_DEVICE_NAME :: wstring where "PHYLA_DOS_DEVICE_NAME = wide (CHR 0x5C # ''DosDevices'' @ CHR 0x5C # ''PhylaRAM'')"

definition PhylaCreateControlDevice :: "wdf \<Rightarrow> NTSTATUS \<times> wdf_call list" where
  "PhylaCreateControlDevice W =
     (let init = wdf_DeviceInitAllocate W;
          calls = [CallDeviceInitAllocate (wide ''D:P(A;;GA;;;SY)(A;;GA;;;BA)'')]
      in if init = 0 then (STATUS_INSUFFICIENT_RESOURCES, calls)
         else
           (let calls = calls @ [CallSetExclusive init True, CallSetDeviceType init FILE_DEVICE_UNKNOWN,
                  CallSetIoTypeDirect init, CallAssignName init PHYLA_NT_DEVICE_NAME];
                status = wdf_AssignName W
            in if \<not> NT_SUCCESS status then (status, calls @ [CallDeviceInitFree init])
               else
                 (let fileConfig = \<lparr> fo_EvtDeviceFileCreate = ToFileCreate, fo_EvtFileClose = ToFileClose,
                        fo_EvtFileCleanup = ToFileCleanup \<rparr>;
                      fileAttributes = WDF_OBJECT_ATTRIBUTES_INIT \<lparr> at_ContextType := Some ''PHYLA_FILE_CONTEXT'',
                        at_ExecutionLevel := WdfExecutionLevelPassive \<rparr>;
                      deviceAttributes = WDF_OBJECT_ATTRIBUTES_INIT \<lparr> at_ExecutionLevel := WdfExecutionLevelPassive,
                        at_SynchronizationScope := WdfSynchronizationScopeDevice \<rparr>;
                      calls = calls @ [CallSetFileObjectConfig init fileConfig fileAttributes,
                        CallDeviceCreate init deviceAttributes]
                  in case wdf_DeviceCreate W of (status, init', device) \<Rightarrow>
                    if \<not> NT_SUCCESS status
                    then (status, calls @ (if init' \<noteq> 0 then [CallDeviceInitFree init'] else []))
                    else
                      (let calls = calls @ [CallCreateSymbolicLink device PHYLA_DOS_DEVICE_NAME];
                           status = wdf_CreateSymbolicLink W
                       in if \<not> NT_SUCCESS status then (status, calls @ [CallObjectDelete device])
                          else
                            (let queueConfig = (WDF_IO_QUEUE_CONFIG_INIT_DEFAULT_QUEUE WdfIoQueueDispatchSequential)
                                   \<lparr> iq_EvtIoDeviceControl := Some ToIoDeviceControl, iq_PowerManaged := WdfFalse \<rparr>;
                                 calls = calls @ [CallIoQueueCreate device queueConfig];
                                 status = wdf_IoQueueCreate W
                             in if \<not> NT_SUCCESS status then (status, calls @ [CallObjectDelete device])
                                else (STATUS_SUCCESS, calls @ [CallFinishInitializing device]))))))"

definition PHYLA_POOL_TAG :: u32 where "PHYLA_POOL_TAG = 0x4D4C5950"
definition WdfDriverInitNonPnpDriver :: u32 where "WdfDriverInitNonPnpDriver = 1"

definition DriverEntry :: "wdf \<Rightarrow> NTSTATUS \<times> wdf_call list" where
  "DriverEntry W =
     (let config = \<lparr> dc_EvtDriverDeviceAdd = None, dc_EvtDriverUnload = Some ToDriverUnload,
            dc_DriverInitFlags = WdfDriverInitNonPnpDriver, dc_DriverPoolTag = PHYLA_POOL_TAG \<rparr>;
          create = CallDriverCreate WDF_OBJECT_ATTRIBUTES_INIT config;
          status = wdf_DriverCreate W
      in if \<not> NT_SUCCESS status then (status, [create])
         else (case PhylaCreateControlDevice W of (status, calls) \<Rightarrow> (status, create # calls)))"

end
