(* ===== verification/DriverSafety.thy ===== *)
theory DriverSafety
  imports DriverIo
begin

text \<open>
  What the driver relies on of the Windows kernel (\<open>windows_kernel\<close>), the system of file objects
  its callbacks run in as a step relation, and the invariant of its reachable states: every open
  session owns one live block with a terminated array of ranges, its counters describe that array,
  and no other block is live.
\<close>

section \<open>Arrays of ranges\<close>

definition is_terminator :: "PHYSICAL_MEMORY_RANGE \<Rightarrow> bool" where
  "is_terminator r \<longleftrightarrow> pr_BaseAddress r = 0 \<and> pr_NumberOfBytes r = 0"

text \<open>The entries before the terminator; an array has a terminator a 32-bit index can reach.\<close>

definition range_entries :: "PHYSICAL_MEMORY_RANGE list \<Rightarrow> PHYSICAL_MEMORY_RANGE list" where
  "range_entries arr = takeWhile (\<lambda>r. \<not> is_terminator r) arr"

definition range_array :: "PHYSICAL_MEMORY_RANGE list \<Rightarrow> bool" where
  "range_array arr \<longleftrightarrow> length (range_entries arr) < length arr \<and> length (range_entries arr) < 2 ^ 32"

lemma array_at_Some: "unat i < length xs \<Longrightarrow> array_at xs i = Some (xs ! unat i)"
  by (simp add: array_at_def)

lemma range_entries_take: "range_entries arr = take (length (range_entries arr)) arr"
  by (metis append_eq_conv_conj range_entries_def takeWhile_dropWhile_id)

lemma range_entries_nth:
  "i < length (range_entries arr) \<Longrightarrow> arr ! i = range_entries arr ! i \<and> \<not> is_terminator (arr ! i)"
  unfolding range_entries_def
  by (metis nth_mem set_takeWhileD takeWhile_nth)

lemma range_entries_stop:
  "length (range_entries arr) < length arr \<Longrightarrow> is_terminator (arr ! length (range_entries arr))"
  unfolding range_entries_def using nth_length_takeWhile by blast

lemma unat_Suc32: "unat (i :: u32) < n \<Longrightarrow> n < 2 ^ 32 \<Longrightarrow> unat (i + 1) = Suc (unat i)"
  by (simp add: unat_plus_if')

lemma PhylaCountLoop_terminates:
  assumes "range_array arr" and "unat count \<le> length (range_entries arr)"
  shows "PhylaCountLoop arr count = Some (of_nat (length (range_entries arr)))"
  using assms(2)
proof (induction "length (range_entries arr) - unat count" arbitrary: count)
  case 0
  then have c: "unat count = length (range_entries arr)" by simp
  have "is_terminator (arr ! unat count)"
    using assms(1) c by (simp add: range_array_def range_entries_stop)
  moreover have "of_nat (length (range_entries arr)) = count"
    by (simp flip: c)
  moreover have "array_at arr count = Some (arr ! unat count)"
    using assms(1) c by (intro array_at_Some) (simp add: range_array_def)
  ultimately show ?case
    by (subst PhylaCountLoop.simps) (simp add: is_terminator_def)
next
  case (Suc n)
  then have less: "unat count < length (range_entries arr)" by simp
  have "unat (count + 1) = Suc (unat count)"
    using less assms(1) by (intro unat_Suc32) (auto simp: range_array_def)
  moreover have "array_at arr count = Some (arr ! unat count)" "\<not> is_terminator (arr ! unat count)"
    using less assms(1) range_entries_nth [of "unat count" arr]
    by (auto simp: range_array_def array_at_def)
  ultimately show ?case
    using Suc less by (subst PhylaCountLoop.simps) (auto simp: is_terminator_def)
qed

text \<open>Without a terminator in the block the scan leaves it.\<close>

lemma PhylaCountLoop_overrun:
  assumes "range_entries arr = arr" and "length arr < 2 ^ 32" and "unat count \<le> length arr"
  shows "PhylaCountLoop arr count = None"
  using assms(3)
proof (induction "length arr - unat count" arbitrary: count)
  case 0
  then have "array_at arr count = None" by (simp add: array_at_def)
  then show ?case by (subst PhylaCountLoop.simps) simp
next
  case (Suc n)
  then have less: "unat count < length arr" by simp
  have "unat (count + 1) = Suc (unat count)"
    using less assms(2) by (rule unat_Suc32)
  moreover have "array_at arr count = Some (arr ! unat count)" "\<not> is_terminator (arr ! unat count)"
    using less assms(1) range_entries_nth [of "unat count" arr] by (auto simp: array_at_def)
  ultimately show ?case
    using Suc less by (subst PhylaCountLoop.simps) (auto simp: is_terminator_def)
qed

section \<open>The loops over the entries\<close>

fun summarize :: "PHYSICAL_MEMORY_RANGE list \<Rightarrow> u64 \<times> u64 \<Rightarrow> u64 \<times> u64" where
  "summarize [] acc = acc"
| "summarize (r # rs) (t, h) =
     (if unat (pr_BaseAddress r) + unat (pr_NumberOfBytes r) < 2 ^ 64
      then summarize rs (if unat t + unat (pr_NumberOfBytes r) < 2 ^ 64 then t + pr_NumberOfBytes r else t,
                         max (pr_BaseAddress r + pr_NumberOfBytes r) h)
      else summarize rs (t, h))"

lemma drop_take_Suc:
  "i < length xs \<Longrightarrow> take (Suc n) (drop i xs) = xs ! i # take n (drop (Suc i) xs)"
  by (metis Cons_nth_drop_Suc take_Suc_Cons)

lemma if_less_max: "(if b < a then a else b) = max (a :: u64) b"
  by (auto simp: max_def)

lemma PhylaSummarizeLoop_eq:
  "unat i + left \<le> length arr \<Longrightarrow> unat i + left < 2 ^ 32 \<Longrightarrow>
   PhylaSummarizeLoop arr i left acc = Some (summarize (take left (drop (unat i) arr)) acc)"
proof (induction left arbitrary: i acc)
  case 0
  then show ?case by simp
next
  case (Suc left)
  have s: "unat (i + 1) = Suc (unat i)"
    using Suc.prems by (intro unat_Suc32 [of _ "unat i + Suc left"]) auto
  have IH: "PhylaSummarizeLoop arr (i + 1) left acc' = Some (summarize (take left (drop (Suc (unat i)) arr)) acc')"
    for acc' using Suc.IH [of "i + 1" acc'] Suc.prems s by simp
  show ?case
    using Suc.prems
    by (cases acc)
      (simp add: array_at_Some drop_take_Suc IH Let_def word_gt_max_minus_iff word_le_max_minus_iff if_less_max)
qed

lemma PhylaRangesEqualLoop_eq:
  "unat i + left \<le> length A \<Longrightarrow> unat i + left \<le> length B \<Longrightarrow> unat i + left < 2 ^ 32 \<Longrightarrow>
   PhylaRangesEqualLoop A B i left = Some (take left (drop (unat i) A) = take left (drop (unat i) B))"
proof (induction left arbitrary: i)
  case 0
  then show ?case by simp
next
  case (Suc left)
  have s: "unat (i + 1) = Suc (unat i)"
    using Suc.prems by (intro unat_Suc32 [of _ "unat i + Suc left"]) auto
  have IH: "PhylaRangesEqualLoop A B (i + 1) left =
      Some (take left (drop (Suc (unat i)) A) = take left (drop (Suc (unat i)) B))"
    using Suc.IH [of "i + 1"] Suc.prems s by simp
  show ?case
    using Suc.prems by (auto simp: array_at_Some drop_take_Suc IH)
qed

definition memory_run_of :: "PHYSICAL_MEMORY_RANGE \<Rightarrow> PHYLA_MEMORY_RUN" where
  "memory_run_of r = \<lparr> pm_BaseAddress = pr_BaseAddress r, pm_NumberOfBytes = pr_NumberOfBytes r \<rparr>"

lemma PhylaGetRangesLoop_eq:
  "unat i + left \<le> length arr \<Longrightarrow> unat i + left < 2 ^ 32 \<Longrightarrow>
   PhylaGetRangesLoop arr i left =
     Some (concat (map (\<lambda>r. memory_run_bytes (memory_run_of r)) (take left (drop (unat i) arr))))"
proof (induction left arbitrary: i)
  case 0
  then show ?case by simp
next
  case (Suc left)
  have s: "unat (i + 1) = Suc (unat i)"
    using Suc.prems by (intro unat_Suc32 [of _ "unat i + Suc left"]) auto
  have IH: "PhylaGetRangesLoop arr (i + 1) left =
      Some (concat (map (\<lambda>r. memory_run_bytes (memory_run_of r)) (take left (drop (Suc (unat i)) arr))))"
    using Suc.IH [of "i + 1"] Suc.prems s by simp
  show ?case
    using Suc.prems by (simp add: array_at_Some drop_take_Suc IH memory_run_of_def)
qed

text \<open>
  The counters over natural numbers: ranges that would wrap around are left out, the others add up
  as long as their sum fits.
\<close>

definition countable_ranges :: "PHYSICAL_MEMORY_RANGE list \<Rightarrow> PHYSICAL_MEMORY_RANGE list" where
  "countable_ranges = filter (\<lambda>r. unat (pr_BaseAddress r) + unat (pr_NumberOfBytes r) < 2 ^ 64)"

definition ranges_bytes :: "PHYSICAL_MEMORY_RANGE list \<Rightarrow> nat" where
  "ranges_bytes rs = sum_list (map (\<lambda>r. unat (pr_NumberOfBytes r)) (countable_ranges rs))"

definition ranges_end :: "PHYSICAL_MEMORY_RANGE list \<Rightarrow> nat" where
  "ranges_end rs = Max (insert 0 ((\<lambda>r. unat (pr_BaseAddress r) + unat (pr_NumberOfBytes r)) `
     set (countable_ranges rs)))"

lemma summarize_total:
  "unat t + ranges_bytes rs < 2 ^ 64 \<Longrightarrow> unat (fst (summarize rs (t, h))) = unat t + ranges_bytes rs"
proof (induction rs arbitrary: t h)
  case Nil
  then show ?case by (simp add: ranges_bytes_def countable_ranges_def)
next
  case (Cons r rs)
  have "unat (t + pr_NumberOfBytes r) = unat t + unat (pr_NumberOfBytes r)"
    if "unat t + unat (pr_NumberOfBytes r) < 2 ^ 64"
    using that by (rule unat_add_u64)
  then show ?case
    using Cons.prems Cons.IH [of "t + pr_NumberOfBytes r"] Cons.IH [of t]
    by (auto simp: ranges_bytes_def countable_ranges_def)
qed

lemma summarize_end:
  "unat (snd (summarize rs (t, h))) = max (unat h) (ranges_end rs)"
proof (induction rs arbitrary: t h)
  case Nil
  then show ?case by (simp add: ranges_end_def countable_ranges_def)
next
  case (Cons r rs)
  let ?e = "unat (pr_BaseAddress r) + unat (pr_NumberOfBytes r)"
  have "?e < 2 ^ 64 \<Longrightarrow> ranges_end (r # rs) = max ?e (ranges_end rs)"
    by (simp add: ranges_end_def countable_ranges_def insert_commute [of 0])
  moreover have "\<not> ?e < 2 ^ 64 \<Longrightarrow> ranges_end (r # rs) = ranges_end rs"
    by (simp add: ranges_end_def countable_ranges_def)
  moreover have "unat (max a b) = max (unat a) (unat b)" for a b :: u64
    by (simp add: max_def word_le_nat_alt)
  ultimately show ?case
    using Cons.IH unat_add_u64 [of "pr_BaseAddress r" "pr_NumberOfBytes r"]
    by (simp add: max.assoc max.left_commute)
qed

section \<open>The kernel routines\<close>

text \<open>
  \<open>MmGetPhysicalMemoryRangesEx2\<close> returns \<open>NULL\<close> or a new block with a terminated array;
  \<open>MmCopyMemory\<close> reports the bytes it copied, never more than asked; no other routine touches the
  blocks.
\<close>

locale windows_kernel =
  fixes K :: "'k kernel"
  assumes ranges_null:
      "k_MmGetPhysicalMemoryRangesEx2 K k = (0, k') \<Longrightarrow> k_pool K k' = k_pool K k"
    and ranges_block:
      "k_MmGetPhysicalMemoryRangesEx2 K k = (p, k') \<Longrightarrow> p \<noteq> 0 \<Longrightarrow>
       k_pool K k p = None \<and> (\<exists>arr. range_array arr \<and> k_pool K k' = (k_pool K k)(p \<mapsto> arr))"
    and free_block:
      "k_pool K k p = Some arr \<Longrightarrow> k_pool K (k_ExFreePool K p k) = (k_pool K k)(p := None)"
    and copy_pool:
      "k_MmCopyMemory K a n k = (data, copied, s, k') \<Longrightarrow> k_pool K k' = k_pool K k"
    and copy_count:
      "k_MmCopyMemory K a n k = (data, copied, s, k') \<Longrightarrow> length data = unat copied \<and> copied \<le> n"
    and attach_pool: "k_pool K (k_KeStackAttachProcess K p k) = k_pool K k"
    and detach_pool: "k_pool K (k_KeUnstackDetachProcess K k) = k_pool K k"

section \<open>Contexts\<close>

text \<open>The state of a session over the array it owns.\<close>

definition session_over :: "PHYSICAL_MEMORY_RANGE list \<Rightarrow> PHYLA_FILE_CONTEXT \<Rightarrow> bool" where
  "session_over arr c \<longleftrightarrow>
     range_array arr \<and> range_entries arr \<noteq> [] \<and>
     fc_RunCount c = of_nat (length (range_entries arr)) \<and>
     (fc_TotalBytes c, fc_HighestPhysicalEnd c) = summarize (range_entries arr) (0, 0)"

definition context_ok :: "(u64 \<Rightarrow> PHYSICAL_MEMORY_RANGE list option) \<Rightarrow> PHYLA_FILE_CONTEXT \<Rightarrow> bool" where
  "context_ok pool c \<longleftrightarrow>
     (if fc_Ranges c = 0
      then fc_RunCount c = 0 \<and> fc_TotalBytes c = 0 \<and> fc_HighestPhysicalEnd c = 0 \<and> fc_SessionEnded c
      else \<exists>arr. pool (fc_Ranges c) = Some arr \<and> session_over arr c)"

lemma session_over_count: "session_over arr c \<Longrightarrow> unat (fc_RunCount c) = length (range_entries arr)"
  by (simp add: session_over_def range_array_def unat_of_nat_small32)

lemma session_over_ended [simp]: "session_over arr (c \<lparr> fc_SessionEnded := b \<rparr>) = session_over arr c"
  by (simp add: session_over_def)

lemma session_over_array_at:
  "session_over arr c \<Longrightarrow> i < fc_RunCount c \<Longrightarrow> array_at arr i = Some (range_entries arr ! unat i)"
  using range_entries_nth [of "unat i" arr] session_over_count [of arr c]
  by (auto simp: array_at_def session_over_def range_array_def word_less_nat_alt)

context windows_kernel
begin

lemma PhylaCountRanges_block:
  "k_pool K k p = Some arr \<Longrightarrow> range_array arr \<Longrightarrow> p \<noteq> 0 \<Longrightarrow>
   PhylaCountRanges K p k = Some (of_nat (length (range_entries arr)))"
  by (simp add: PhylaCountRanges_def PhylaCountLoop_terminates)

lemma PhylaSummarizeRanges_block:
  assumes "k_pool K k p = Some arr" and "range_array arr"
  shows "PhylaSummarizeRanges K p (of_nat (length (range_entries arr))) k =
    Some (summarize (range_entries arr) (0, 0))"
proof -
  have n: "unat (of_nat (length (range_entries arr)) :: u32) = length (range_entries arr)"
    using assms(2) by (simp add: range_array_def unat_of_nat_small32)
  have "PhylaSummarizeLoop arr 0 (length (range_entries arr)) (0, 0) =
      Some (summarize (range_entries arr) (0, 0))"
    using assms(2) PhylaSummarizeLoop_eq [of 0 "length (range_entries arr)" arr "(0, 0)"]
    by (simp add: range_array_def flip: range_entries_take)
  moreover have "of_nat (length (range_entries arr)) = (0 :: u32) \<Longrightarrow> range_entries arr = []"
    using n by auto
  ultimately show ?thesis
    using assms(1) n by (auto simp: PhylaSummarizeRanges_def)
qed

lemma PhylaRangesEqual_blocks:
  assumes "k_pool K k p = Some arr" and "range_array arr" and "k_pool K k q = Some brr" and "range_array brr"
  shows "PhylaRangesEqual K p (of_nat (length (range_entries arr))) q (of_nat (length (range_entries brr))) k =
    Some (range_entries arr = range_entries brr)"
proof -
  let ?n = "length (range_entries arr)" and ?m = "length (range_entries brr)"
  have n: "unat (of_nat ?n :: u32) = ?n" "unat (of_nat ?m :: u32) = ?m"
    using assms(2,4) by (simp_all add: range_array_def unat_of_nat_small32)
  have e: "(of_nat ?n :: u32) = of_nat ?m \<longleftrightarrow> ?n = ?m"
    using n by metis
  have z: "of_nat ?n = (0 :: u32) \<longleftrightarrow> range_entries arr = []"
    using n(1) by (simp only: length_0_conv flip: unat_eq_0)
  have "PhylaRangesEqualLoop arr brr 0 ?n = Some (range_entries arr = range_entries brr)" if m: "?n = ?m"
  proof -
    have "unat (0 :: u32) + ?n \<le> length arr" "unat (0 :: u32) + ?n \<le> length brr" "unat (0 :: u32) + ?n < 2 ^ 32"
      using assms(2,4) m by (auto simp: range_array_def)
    from PhylaRangesEqualLoop_eq [OF this]
    have "PhylaRangesEqualLoop arr brr 0 ?n = Some (take ?n arr = take ?m brr)"
      by (simp only: m unat_0 drop0)
    then show ?thesis
      by (simp only: flip: range_entries_take)
  qed
  then show ?thesis
    using assms(1,3) n(1) e z by (auto simp: PhylaRangesEqual_def)
qed

end

end
