(* ===== verification/DriverLife.thy ===== *)
theory DriverLife
  imports DriverSafety
begin

text \<open>
  The life of a file object: what each callback does to the blocks and the contexts, the step
  relation of the system the callbacks run in, and its invariant.
\<close>

section \<open>The session operations over the blocks\<close>

lemma range_check:
  "(off > run \<or> ucast (len :: u32) > run - off \<or> off > u64_max - base) \<longleftrightarrow>
   \<not> (unat off + unat len \<le> unat run \<and> unat base + unat off < 2 ^ 64)"
proof (cases "off \<le> run")
  case True
  then have "unat (run - off) = unat run - unat off" "unat off \<le> unat run"
    by (simp_all add: unat_diff_u64 word_le_nat_alt)
  then have "ucast len > run - off \<longleftrightarrow> \<not> unat off + unat len \<le> unat run"
    by (auto simp: word_less_nat_alt)
  then show ?thesis
    using True word_gt_max_minus_iff [of base off] by (auto simp: not_less)
next
  case False
  then show ?thesis by (auto simp: word_le_nat_alt word_less_nat_alt)
qed

text \<open>A read request the entries of a snapshot allow.\<close>

definition request_fits :: "PHYSICAL_MEMORY_RANGE list \<Rightarrow> PHYLA_READ_REQUEST \<Rightarrow> bool" where
  "request_fits rs q \<longleftrightarrow>
     unat (rd_RunIndex q) < length rs \<and> rd_Length q \<noteq> 0 \<and> rd_Length q \<le> PHYLA_MAX_TRANSFER \<and>
     unat (rd_OffsetWithinRun q) + unat (rd_Length q) \<le> unat (pr_NumberOfBytes (rs ! unat (rd_RunIndex q))) \<and>
     unat (pr_BaseAddress (rs ! unat (rd_RunIndex q))) + unat (rd_OffsetWithinRun q) < 2 ^ 64"

definition read_header :: "u64 \<Rightarrow> u32 \<Rightarrow> u32 \<Rightarrow> NTSTATUS \<Rightarrow> PHYLA_READ_RESULT" where
  "read_header a requested copied s = \<lparr> rs_Version = PHYLA_PROTOCOL_VERSION, rs_HeaderSize = 32,
     rs_PhysicalAddress = a, rs_RequestedLength = requested, rs_BytesCopied = copied,
     rs_CopyStatus = s, rs_Reserved = 0 \<rparr>"

context windows_kernel
begin

lemma session_begin:
  assumes "PhylaSessionBegin K (Some c0) k = x"
  shows "(\<exists>arr c k'. x = Some (STATUS_SUCCESS, Some c, k') \<and> fc_Ranges c \<noteq> 0 \<and> \<not> fc_SessionEnded c \<and>
            k_pool K k (fc_Ranges c) = None \<and> k_pool K k' = (k_pool K k)(fc_Ranges c \<mapsto> arr) \<and>
            session_over arr c) \<or>
         (\<exists>st k'. x = Some (st, Some c0, k') \<and> \<not> NT_SUCCESS st \<and> k_pool K k' = k_pool K k)"
proof -
  obtain p k1 where g: "k_MmGetPhysicalMemoryRangesEx2 K k = (p, k1)" by fastforce
  show ?thesis
  proof (cases "p = 0")
    case True
    then show ?thesis
      using assms g ranges_null [of k k1] by (auto simp: PhylaSessionBegin_def)
  next
    case False
    obtain arr where arr: "k_pool K k p = None" "range_array arr" "k_pool K k1 = (k_pool K k)(p \<mapsto> arr)"
      using ranges_block [OF g False] by blast
    then have live: "k_pool K k1 p = Some arr" by simp
    have count: "PhylaCountRanges K p k1 = Some (of_nat (length (range_entries arr)))"
      using live arr(2) False by (rule PhylaCountRanges_block)
    have n: "unat (of_nat (length (range_entries arr)) :: u32) = length (range_entries arr)"
      using arr(2) by (simp add: range_array_def unat_of_nat_small32)
    show ?thesis
    proof (cases "range_entries arr = []")
      case True
      have "k_pool K (k_ExFreePool K p k1) = k_pool K k"
        using free_block [OF live] arr by auto
      then show ?thesis
        using assms g False count True live by (auto simp: PhylaSessionBegin_def pool_free_def)
    next
      case ne: False
      then have "(of_nat (length (range_entries arr)) :: u32) \<noteq> 0" using n by auto
      then show ?thesis
        using assms g False count ne live arr PhylaSummarizeRanges_block [OF live arr(2)]
        by (cases "summarize (range_entries arr) (0, 0)", intro disjI1 exI [of _ arr])
          (auto simp: PhylaSessionBegin_def session_over_def)
    qed
  qed
qed

lemma session_release:
  assumes "context_ok (k_pool K k) c"
  shows "\<exists>k'. PhylaSessionRelease K (Some c) k = Some (Some (c \<lparr> fc_Ranges := 0, fc_RunCount := 0,
      fc_TotalBytes := 0, fc_HighestPhysicalEnd := 0, fc_SessionEnded := True \<rparr>), k') \<and>
    k_pool K k' = (if fc_Ranges c = 0 then k_pool K k else (k_pool K k)(fc_Ranges c := None))"
  using assms free_block [of k "fc_Ranges c"]
  by (auto simp: PhylaSessionRelease_def context_ok_def pool_free_def split: if_splits)

text \<open>
  \<open>PhylaSessionEnd\<close> compares the snapshot with the ranges of the moment and gives the second array
  back.
\<close>

lemma session_end_current:
  assumes "k_MmGetPhysicalMemoryRangesEx2 K k = (p, k1)" and "p \<noteq> 0"
    and "k_pool K k (fc_Ranges c) = Some arr" and "session_over arr c"
    and "fc_Ranges c \<noteq> 0" and "\<not> fc_SessionEnded c"
  shows "\<exists>brr k2. k_pool K k1 p = Some brr \<and> range_array brr \<and> k_pool K k2 = k_pool K k \<and>
    PhylaSessionEnd K (Some c) True out k =
      Some (STATUS_SUCCESS, (range_entries arr \<noteq> range_entries brr, of_nat (length (range_entries brr))),
            Some (c \<lparr> fc_SessionEnded := True \<rparr>), k2)"
proof -
  obtain brr where brr: "k_pool K k p = None" "range_array brr" "k_pool K k1 = (k_pool K k)(p \<mapsto> brr)"
    using ranges_block [OF assms(1,2)] by blast
  then have live: "k_pool K k1 p = Some brr" "k_pool K k1 (fc_Ranges c) = Some arr"
    using assms(3) by auto
  have ra: "range_array arr" "fc_RunCount c = of_nat (length (range_entries arr))"
    using assms(4) by (simp_all add: session_over_def)
  have "k_pool K (k_ExFreePool K p k1) = k_pool K k"
    using free_block [OF live(1)] brr by auto
  moreover note PhylaCountRanges_block [OF live(1) brr(2) assms(2)]
    PhylaRangesEqual_blocks [OF live(2) ra(1) live(1) brr(2)]
  ultimately show ?thesis
    using assms live ra brr
    by (intro exI [of _ brr] exI [of _ "k_ExFreePool K p k1"]) (auto simp: PhylaSessionEnd_def pool_free_def)
qed

lemma session_end:
  assumes "context_ok (k_pool K k) c"
  shows "\<exists>st o' c' k'. PhylaSessionEnd K (Some c) outs out k = Some (st, o', Some c', k') \<and>
    k_pool K k' = k_pool K k \<and> (c' = c \<or> c' = c \<lparr> fc_SessionEnded := True \<rparr>)"
proof (cases "\<not> outs \<or> fc_Ranges c = 0 \<or> fc_SessionEnded c")
  case True
  then show ?thesis by (auto simp: PhylaSessionEnd_def)
next
  case False
  obtain p k1 where g: "k_MmGetPhysicalMemoryRangesEx2 K k = (p, k1)" by fastforce
  show ?thesis
  proof (cases "p = 0")
    case True
    then show ?thesis using False g ranges_null [of k k1] by (auto simp: PhylaSessionEnd_def)
  next
    case p: False
    obtain arr where "k_pool K k (fc_Ranges c) = Some arr" "session_over arr c"
      using assms False by (auto simp: context_ok_def)
    from session_end_current [OF g p this, of out] show ?thesis
      using False by auto
  qed
qed

lemma query_hints_pool: "PhylaQueryKernelHints K h k = (st, stored, k') \<Longrightarrow> k_pool K k' = k_pool K k"
  by (auto simp: PhylaQueryKernelHints_def Let_def attach_pool detach_pool split: if_splits prod.splits)

text \<open>
  \<open>PhylaCopyRun\<close> over a live session: one copy inside the run the request names, or no access to
  physical memory at all.
\<close>

lemma copy_run:
  assumes "k_pool K k (fc_Ranges c) = Some arr" and "session_over arr c"
    and "fc_Ranges c \<noteq> 0" and "\<not> fc_SessionEnded c" and "P \<noteq> 0" and "R \<noteq> 0"
    and "\<not> k_KeGetCurrentIrql K k > APC_LEVEL"
  shows "PhylaCopyRun K (Some c) (Some q) P cap R k =
    (if request_fits (range_entries arr) q \<and> rd_Length q \<le> cap
     then (let a = pr_BaseAddress (range_entries arr ! unat (rd_RunIndex q)) + rd_OffsetWithinRun q
           in case k_MmCopyMemory K a (ucast (rd_Length q)) k of (data, copied, s, k') \<Rightarrow>
                Some (STATUS_SUCCESS, Some (read_header a (rd_Length q) (of_nat (length data)) s, data), k'))
     else Some (STATUS_INVALID_PARAMETER, None, k))"
proof -
  have idx: "rd_RunIndex q < fc_RunCount c \<longleftrightarrow> unat (rd_RunIndex q) < length (range_entries arr)"
    using session_over_count [OF assms(2)] by (simp add: word_less_nat_alt)
  have small: "ucast (if copied > 0xFFFFFFFF then 0xFFFFFFFF else copied) = (of_nat (length data) :: u32)"
    if "k_MmCopyMemory K a (ucast (rd_Length q)) k = (data, copied, s, k')" for a data copied s k'
  proof -
    have "copied \<le> ucast (rd_Length q)" "length data = unat copied"
      using copy_count [OF that] by simp_all
    moreover from this have "\<not> copied > 0xFFFFFFFF"
      using unat_lt_u32 [of "rd_Length q"] by (simp add: word_le_nat_alt word_less_nat_alt del: unat_lt_u32)
    ultimately show ?thesis by (simp add: unsigned_ucast_eq)
  qed
  show ?thesis
  proof (cases "unat (rd_RunIndex q) < length (range_entries arr) \<and> rd_Length q \<noteq> 0 \<and>
      rd_Length q \<le> PHYLA_MAX_TRANSFER \<and> rd_Length q \<le> cap")
    case False
    then have "rd_RunIndex q \<ge> fc_RunCount c \<or> rd_Length q = 0 \<or>
        rd_Length q > PHYLA_MAX_TRANSFER \<or> rd_Length q > cap"
      using idx by (meson not_le_imp_less)
    moreover have "\<not> (request_fits (range_entries arr) q \<and> rd_Length q \<le> cap)"
      using False by (auto simp: request_fits_def)
    ultimately show ?thesis
      using assms(3-7) by (simp only: PhylaCopyRun_def option.case prod.case if_False if_True de_Morgan_disj simp_thms)
  next
    case True
    then have at: "array_at arr (rd_RunIndex q) = Some (range_entries arr ! unat (rd_RunIndex q))"
      using session_over_array_at [OF assms(2)] idx by blast
    have guard: "\<not> rd_RunIndex q \<ge> fc_RunCount c" "\<not> rd_Length q > PHYLA_MAX_TRANSFER" "\<not> rd_Length q > cap"
      using True idx by (simp_all add: not_le not_less)
    obtain data copied s k' where m: "k_MmCopyMemory K (pr_BaseAddress (range_entries arr ! unat (rd_RunIndex q)) +
        rd_OffsetWithinRun q) (ucast (rd_Length q)) k = (data, copied, s, k')"
      by (metis prod_cases4)
    show ?thesis
      using assms(3-7) assms(1) True
      by (simp add: PhylaCopyRun_def guard at Let_def m small [OF m] range_check request_fits_def read_header_def
          del: not_less not_le)
  qed
qed

end

end
