(* ===== verification/DriverSystem.thy ===== *)
theory DriverSystem
  imports DriverLife
begin

text \<open>
  The callbacks on the whole machine: every control request is completed, leaves the blocks alone
  and stays inside the caller's buffer; and the system of callbacks as a step relation, with the
  invariant that ties the live blocks to the file objects.
\<close>

section \<open>Control requests\<close>

definition contexts_ok :: "'k kernel \<Rightarrow> 'k machine \<Rightarrow> bool" where
  "contexts_ok K m \<longleftrightarrow> (\<forall>f c. mc_files m f = Some c \<longrightarrow> context_ok (k_pool K (mc_kernel m)) c)"

definition ioctl_effect :: "'k kernel \<Rightarrow> 'k machine \<Rightarrow> 'k machine \<Rightarrow> bool" where
  "ioctl_effect K m m' \<longleftrightarrow>
     k_pool K (mc_kernel m') = k_pool K (mc_kernel m) \<and>
     (mc_files m' = mc_files m \<or>
      (\<exists>f c. mc_files m f = Some c \<and> mc_files m' = (mc_files m)(f \<mapsto> c \<lparr> fc_SessionEnded := True \<rparr>)))"

lemma ioctl_effect_refl [simp]: "ioctl_effect K m m"
  by (simp add: ioctl_effect_def)

lemma ioctl_effect_kernel:
  "ioctl_effect K m (m \<lparr> mc_kernel := k' \<rparr>) \<longleftrightarrow> k_pool K k' = k_pool K (mc_kernel m)"
  by (auto simp: ioctl_effect_def)

text \<open>What a handler promises; \<open>steady\<close>: the caller leaves its output buffer alone meanwhile.\<close>

definition handled :: "'k kernel \<Rightarrow> WDFREQUEST \<Rightarrow> u64 \<Rightarrow> 'k machine \<Rightarrow>
    (NTSTATUS \<times> u64 \<times> bytes \<times> 'k machine) option \<Rightarrow> bool" where
  "handled K req outlen m x \<longleftrightarrow>
     (\<exists>st n out m'. x = Some (st, n, out, m') \<and> ioctl_effect K m m' \<and>
        (if NT_SUCCESS st
         then length out \<le> unat outlen \<and> (rq_ReadBack req = id \<longrightarrow> unat n = length out)
         else out = []))"

lemma handled_failed: "\<not> NT_SUCCESS st \<Longrightarrow> ioctl_effect K m m' \<Longrightarrow> handled K req outlen m (Some (st, n, [], m'))"
  by (simp add: handled_def)

lemma handled_done:
  "ioctl_effect K m m' \<Longrightarrow> length out \<le> unat outlen \<Longrightarrow> unat n = length out \<Longrightarrow>
   handled K req outlen m (Some (STATUS_SUCCESS, n, out, m'))"
  by (simp add: handled_def)

lemma buffer_holds: "\<not> (outlen :: u64) < n \<Longrightarrow> unat n \<le> unat outlen"
  by (simp add: word_less_nat_alt)

lemma handled_QueryInfo: "handled K req outlen m (PhylaHandleQueryInfo req outlen m)"
proof (cases "no_session (PhylaRequestFileContext req m) \<or> outlen < 24 \<or>
    \<not> NT_SUCCESS (fst (rq_RetrieveOutputBuffer req 24))")
  case True
  then show ?thesis
    by (cases "rq_RetrieveOutputBuffer req 24")
      (auto simp: PhylaHandleQueryInfo_def Let_def handled_failed)
next
  case False
  then show ?thesis
    using buffer_holds [of outlen 24]
    by (cases "rq_RetrieveOutputBuffer req 24"; cases "PhylaRequestFileContext req m")
      (simp_all add: PhylaHandleQueryInfo_def Let_def no_session_def handled_done)
qed

context windows_kernel
begin

lemma handled_QueryHints: "handled K req outlen m (PhylaHandleQueryHints K req outlen m)"
proof (cases "outlen < 64 \<or> \<not> NT_SUCCESS (fst (rq_RetrieveOutputBuffer req 64))")
  case True
  then show ?thesis
    by (cases "rq_RetrieveOutputBuffer req 64") (auto simp: PhylaHandleQueryHints_def handled_failed)
next
  case False
  obtain s h where b: "rq_RetrieveOutputBuffer req 64 = (s, h)" by fastforce
  obtain st stored k' where q: "PhylaQueryKernelHints K h (mc_kernel m) = (st, stored, k')"
    by (metis prod_cases3)
  have "NT_SUCCESS st \<longleftrightarrow> stored \<noteq> None"
    using q by (auto simp: PhylaQueryKernelHints_def Let_def split: if_splits prod.splits)
  moreover have "NT_SUCCESS st \<Longrightarrow> st = STATUS_SUCCESS"
    using q by (auto simp: PhylaQueryKernelHints_def Let_def split: if_splits prod.splits)
  ultimately show ?thesis
    using False b q query_hints_pool [OF q] buffer_holds [of outlen 64]
    by (cases "NT_SUCCESS st")
      (auto simp: PhylaHandleQueryHints_def Let_def ioctl_effect_kernel intro!: handled_failed handled_done)
qed

lemma live_context:
  assumes "contexts_ok K m" and "PhylaRequestFileContext req m = Some c" and "fc_Ranges c \<noteq> 0"
  obtains arr where "k_pool K (mc_kernel m) (fc_Ranges c) = Some arr" "session_over arr c"
  using assms by (auto simp: contexts_ok_def PhylaRequestFileContext_def context_ok_def split: if_splits)

lemma get_ranges_loop:
  "session_over arr c \<Longrightarrow> PhylaGetRangesLoop arr 0 (unat (fc_RunCount c)) =
     Some (concat (map (\<lambda>r. memory_run_bytes (memory_run_of r)) (range_entries arr)))"
  using PhylaGetRangesLoop_eq [of 0 "length (range_entries arr)" arr] session_over_count [of arr c]
  by (simp add: session_over_def range_array_def flip: range_entries_take)

lemma unat_required: "unat (ucast (n :: u32) * 16 :: u64) = 16 * unat n"
  proof -
  have "16 * unat n < 18446744073709551616" using unat_lt_u32 [of n] by linarith
  then show ?thesis by (simp add: unat_word_ariths mult.commute)
qed

lemma length_runs: "length (concat (map (\<lambda>r. memory_run_bytes (memory_run_of r)) rs)) = 16 * length rs"
  by (intro length_concat_const) simp

lemma handled_GetRanges:
  assumes "contexts_ok K m"
  shows "handled K req outlen m (PhylaHandleGetRanges K req outlen m)"
proof (cases "no_session (PhylaRequestFileContext req m)")
  case True
  then show ?thesis by (simp add: PhylaHandleGetRanges_def Let_def handled_failed)
next
  case False
  then obtain c where c: "PhylaRequestFileContext req m = Some c" "fc_Ranges c \<noteq> 0" "\<not> fc_SessionEnded c"
    by (auto simp: no_session_def split: option.splits)
  obtain arr where arr: "k_pool K (mc_kernel m) (fc_Ranges c) = Some arr" "session_over arr c"
    using assms c(1,2) by (rule live_context)
  have bytes: "16 * length (range_entries arr) = unat (ucast (fc_RunCount c) * 16 :: u64)"
    using session_over_count [OF arr(2)] by (simp add: unat_required)
  show ?thesis
    using c arr
    by (auto simp: PhylaHandleGetRanges_def Let_def no_session_def not_less get_ranges_loop word_le_nat_alt
        bytes length_runs intro!: handled_failed handled_done split: prod.splits)
qed

lemma handled_EndSession:
  assumes "contexts_ok K m"
  shows "handled K req outlen m (PhylaHandleEndSession K req outlen m)"
proof (cases "PhylaRequestFileContext req m")
  case None
  then show ?thesis by (simp add: PhylaHandleEndSession_def handled_failed)
next
  case (Some c)
  then have ctx: "mc_files m (rq_FileObject req) = Some c"
    by (simp add: PhylaRequestFileContext_def split: if_splits)
  then have "context_ok (k_pool K (mc_kernel m)) c" using assms by (simp add: contexts_ok_def)
  from session_end [OF this, of True "(False, 0)"] obtain st o' c' k' where
    e: "PhylaSessionEnd K (Some c) True (False, 0) (mc_kernel m) = Some (st, o', Some c', k')"
      "k_pool K k' = k_pool K (mc_kernel m)" "c' = c \<or> c' = c \<lparr> fc_SessionEnded := True \<rparr>"
    by blast
  have "ioctl_effect K m (m \<lparr> mc_kernel := k', mc_files := (mc_files m)(rq_FileObject req \<mapsto> c') \<rparr>)"
    using e(2,3) ctx by (auto simp: ioctl_effect_def fun_upd_idem)
  then have effect: "ioctl_effect K m (m \<lparr> mc_kernel := k', mc_files := (mc_files m)(rq_FileObject req := Some c') \<rparr>)" .
  show ?thesis
    using Some e(1) effect buffer_holds [of outlen 16]
    by (cases "rq_RetrieveOutputBuffer req 16"; cases o'; cases "NT_SUCCESS st")
      (auto simp: PhylaHandleEndSession_def Let_def intro!: handled_failed handled_done)
qed

lemma copy_run_total:
  assumes "context_ok (k_pool K k) c"
  shows "\<exists>st stored k'. PhylaCopyRun K (Some c) (Some q) P cap R k = Some (st, stored, k') \<and>
    k_pool K k' = k_pool K k \<and>
    (case stored of None \<Rightarrow> \<not> NT_SUCCESS st
     | Some (h, data) \<Rightarrow> st = STATUS_SUCCESS \<and> length data \<le> unat cap \<and> unat (rs_BytesCopied h) = length data)"
proof (cases "P = 0 \<or> R = 0 \<or> k_KeGetCurrentIrql K k > APC_LEVEL \<or> fc_Ranges c = 0 \<or> fc_SessionEnded c")
  case True
  then show ?thesis by (auto simp: PhylaCopyRun_def)
next
  case False
  then obtain arr where arr: "k_pool K k (fc_Ranges c) = Some arr" "session_over arr c"
    using assms by (auto simp: context_ok_def)
  let ?a = "pr_BaseAddress (range_entries arr ! unat (rd_RunIndex q)) + rd_OffsetWithinRun q"
  obtain data copied s k' where m: "k_MmCopyMemory K ?a (ucast (rd_Length q)) k = (data, copied, s, k')"
    by (metis prod_cases4)
  have n: "length data \<le> unat (rd_Length q)"
    using copy_count [OF m] by (simp add: word_le_nat_alt)
  then have "unat (of_nat (length data) :: u32) = length data"
    using unat_lt_u32 [of "rd_Length q"] by (intro unat_of_nat_small32) (simp del: unat_lt_u32)
  moreover have "rd_Length q \<le> cap \<Longrightarrow> length data \<le> unat cap"
    using n by (simp add: word_le_nat_alt)
  moreover have "k_pool K k' = k_pool K k" using copy_pool [OF m] .
  moreover have "PhylaCopyRun K (Some c) (Some q) P cap R k =
      (if request_fits (range_entries arr) q \<and> rd_Length q \<le> cap
       then Some (STATUS_SUCCESS, Some (read_header ?a (rd_Length q) (of_nat (length data)) s, data), k')
       else Some (STATUS_INVALID_PARAMETER, None, k))"
    using copy_run [OF arr, of P R q cap] False m by simp
  ultimately show ?thesis
    by (simp add: read_header_def)
qed

lemma payload_capacity:
  assumes "\<not> ol < (32 :: u32)"
    and "ol = (if (outlen :: u64) < ucast bc then ucast outlen else (bc :: u32))"
  shows "32 + unat (ol - 32) \<le> unat outlen"
proof -
  have "unat (ol - 32) = unat ol - 32" "32 \<le> unat ol"
    using assms(1) by (auto simp: unat_sub_if' word_less_nat_alt word_le_nat_alt)
  moreover have "unat ol \<le> unat outlen"
  proof (cases "outlen < ucast bc")
    case True
    then have "unat outlen < 2 ^ 32"
      using unat_lt_u32 [of bc] by (simp add: word_less_nat_alt del: unat_lt_u32)
    then show ?thesis using assms(2) True by (simp add: unat_ucast_64_32)
  next
    case False
    then show ?thesis using assms(2) by (simp add: word_less_nat_alt)
  qed
  ultimately show ?thesis by linarith
qed

lemma handled_ReadRun:
  assumes "contexts_ok K m"
  shows "handled K req outlen m (PhylaHandleReadRun K req outlen m)"
proof -
  obtain s1 input where i: "rq_RetrieveInputBuffer req 16 = (s1, input)" by fastforce
  obtain s2 mdl where o: "rq_RetrieveOutputWdmMdl req = (s2, mdl)" by fastforce
  let ?out = "rq_MmGetSystemAddressForMdlSafe req mdl" and ?bc = "rq_MmGetMdlByteCount req mdl"
  let ?ol = "if outlen < ucast ?bc then ucast outlen else ?bc"
  show ?thesis
  proof (cases "no_session (PhylaRequestFileContext req m) \<or> \<not> NT_SUCCESS s1 \<or> \<not> NT_SUCCESS s2 \<or> mdl = 0 \<or>
      ?out = 0 \<or> ?ol < 32")
    case True
    then show ?thesis
      by (auto simp: PhylaHandleReadRun_def Let_def i o intro!: handled_failed)
  next
    case False
    then obtain c where c: "PhylaRequestFileContext req m = Some c"
      by (auto simp: no_session_def split: option.splits)
    then have "context_ok (k_pool K (mc_kernel m)) c"
      using assms by (auto simp: contexts_ok_def PhylaRequestFileContext_def split: if_splits)
    from copy_run_total [OF this, of "read_request_of input" "?out + 32" "?ol - 32" ?out]
    obtain st stored k' where r:
      "PhylaCopyRun K (Some c) (Some (read_request_of input)) (?out + 32) (?ol - 32) ?out (mc_kernel m) =
         Some (st, stored, k')"
      "k_pool K k' = k_pool K (mc_kernel m)"
      "case stored of None \<Rightarrow> \<not> NT_SUCCESS st
       | Some (h, data) \<Rightarrow> st = STATUS_SUCCESS \<and> length data \<le> unat (?ol - 32) \<and>
           unat (rs_BytesCopied h) = length data" by blast
    have "PhylaHandleReadRun K req outlen m =
        (case stored of None \<Rightarrow> Some (st, 0, [], m \<lparr> mc_kernel := k' \<rparr>)
         | Some (result, data) \<Rightarrow>
             if \<not> NT_SUCCESS st then Some (st, 0, read_result_bytes result @ data, m \<lparr> mc_kernel := k' \<rparr>)
             else Some (STATUS_SUCCESS, 32 + ucast (rq_ReadBack req (rs_BytesCopied result)),
                        read_result_bytes result @ data, m \<lparr> mc_kernel := k' \<rparr>))"
      using False i o c r(1) by (simp add: PhylaHandleReadRun_def Let_def)
    moreover have "32 + unat (?ol - 32) \<le> unat outlen"
      using False by (intro payload_capacity [of _ _ ?bc]) simp_all
    moreover have "unat (32 + ucast (n :: u32) :: u64) = 32 + unat n" for n
      using unat_lt_u32 [of n] by (subst unat_add_u64) (simp_all del: unat_lt_u32)
    ultimately show ?thesis
      using r(2,3) by (auto simp: ioctl_effect_kernel intro!: handled_failed handled_def [THEN iffD2]
          split: option.splits)
  qed
qed

lemma ioctl_completes:
  assumes "contexts_ok K m"
  shows "\<exists>c m'. PhylaEvtIoDeviceControl K req outlen inlen code m = Some (c, m') \<and> ioctl_effect K m m' \<and>
    (if NT_SUCCESS (cp_status c)
     then length (cp_output c) \<le> unat outlen \<and>
       (rq_ReadBack req = id \<longrightarrow> unat (cp_information c) = length (cp_output c))
     else cp_information c = 0 \<and> cp_output c = [])"
proof -
  let ?handler = "if code = IOCTL_PHYLA_QUERY_INFO then PhylaHandleQueryInfo req outlen m
       else if code = IOCTL_PHYLA_GET_RANGES then PhylaHandleGetRanges K req outlen m
       else if code = IOCTL_PHYLA_READ_RUN then PhylaHandleReadRun K req outlen m
       else if code = IOCTL_PHYLA_END_SESSION then PhylaHandleEndSession K req outlen m
       else if code = IOCTL_PHYLA_QUERY_HINTS then PhylaHandleQueryHints K req outlen m
       else Some (STATUS_INVALID_DEVICE_REQUEST, 0, [], m)"
  have "handled K req outlen m ?handler"
    using assms
    by (simp add: handled_QueryInfo handled_GetRanges handled_ReadRun handled_EndSession handled_QueryHints
        handled_failed)
  then obtain st n out m' where h: "?handler = Some (st, n, out, m')" "ioctl_effect K m m'"
    "if NT_SUCCESS st then length out \<le> unat outlen \<and> (rq_ReadBack req = id \<longrightarrow> unat n = length out)
     else out = []"
    unfolding handled_def by blast
  have "PhylaEvtIoDeviceControl K req outlen inlen code m =
      Some (\<lparr> cp_status = st, cp_information = (if \<not> NT_SUCCESS st then 0 else n), cp_output = out \<rparr>, m')"
    unfolding PhylaEvtIoDeviceControl_def h(1) by simp
  then show ?thesis
    using h(2,3) by simp
qed

text \<open>
  What a control request reports. Only \<open>READ_RUN\<close> takes its count from the caller's buffer; every other
  request reports what it stored.
\<close>

lemma other_requests_ignore_buffer:
  "code \<noteq> IOCTL_PHYLA_READ_RUN \<Longrightarrow>
   PhylaEvtIoDeviceControl K (req \<lparr> rq_ReadBack := again \<rparr>) outlen inlen code m =
   PhylaEvtIoDeviceControl K req outlen inlen code m"
  by (simp add: PhylaEvtIoDeviceControl_def PhylaHandleQueryInfo_def PhylaHandleGetRanges_def PhylaHandleEndSession_def
      PhylaHandleQueryHints_def PhylaRequestFileContext_def Let_def cong: if_cong option.case_cong)

lemma read_run_count:
  assumes "PhylaHandleReadRun K req outlen m = Some (st, n, out, m')" and "NT_SUCCESS st" and "contexts_ok K m"
  shows "\<exists>copied. n = 32 + ucast (rq_ReadBack req copied) \<and>
    PhylaHandleReadRun K (req \<lparr> rq_ReadBack := id \<rparr>) outlen m = Some (st, 32 + ucast copied, out, m')"
proof -
  obtain s1 input where i: "rq_RetrieveInputBuffer req 16 = (s1, input)" by fastforce
  obtain s2 mdl where o: "rq_RetrieveOutputWdmMdl req = (s2, mdl)" by fastforce
  let ?out = "rq_MmGetSystemAddressForMdlSafe req mdl" and ?bc = "rq_MmGetMdlByteCount req mdl"
  let ?ol = "if outlen < ucast ?bc then ucast outlen else ?bc"
  let ?copy = "PhylaCopyRun K (PhylaRequestFileContext req m) (Some (read_request_of input)) (?out + 32) (?ol - 32) ?out
    (mc_kernel m)"
  have guards: "\<not> (no_session (PhylaRequestFileContext req m) \<or> \<not> NT_SUCCESS s1 \<or> \<not> NT_SUCCESS s2 \<or> mdl = 0 \<or>
      ?out = 0 \<or> ?ol < 32)"
    using assms by (auto simp: PhylaHandleReadRun_def Let_def i o split: if_splits)
  have eq: "PhylaHandleReadRun K (req \<lparr> rq_ReadBack := again \<rparr>) outlen m =
      ?copy \<bind> (\<lambda>(status, stored, k'). case stored of
          None \<Rightarrow> Some (status, 0, [], m \<lparr> mc_kernel := k' \<rparr>)
        | Some (result, data) \<Rightarrow>
            if \<not> NT_SUCCESS status then Some (status, 0, read_result_bytes result @ data, m \<lparr> mc_kernel := k' \<rparr>)
            else Some (STATUS_SUCCESS, 32 + ucast (again (rs_BytesCopied result)), read_result_bytes result @ data,
                       m \<lparr> mc_kernel := k' \<rparr>))" for again
    using guards i o
    by (simp add: PhylaHandleReadRun_def PhylaRequestFileContext_def Let_def cong: if_cong option.case_cong split del: if_split)
  obtain c where c: "PhylaRequestFileContext req m = Some c"
    using guards by (auto simp: no_session_def split: option.splits)
  then have "context_ok (k_pool K (mc_kernel m)) c"
    using assms(3) by (auto simp: contexts_ok_def PhylaRequestFileContext_def split: if_splits)
  from copy_run_total [OF this, of "read_request_of input" "?out + 32" "?ol - 32" ?out]
  obtain st1 stored k' where r: "?copy = Some (st1, stored, k')"
    "case stored of None \<Rightarrow> \<not> NT_SUCCESS st1
     | Some (h, data) \<Rightarrow> st1 = STATUS_SUCCESS \<and> length data \<le> unat (?ol - 32) \<and> unat (rs_BytesCopied h) = length data"
    unfolding c by blast
  have "PhylaHandleReadRun K (req \<lparr> rq_ReadBack := rq_ReadBack req \<rparr>) outlen m = Some (st, n, out, m')"
    using assms(1) by simp
  then obtain h data where "stored = Some (h, data)" "st = STATUS_SUCCESS" "out = read_result_bytes h @ data"
      "n = 32 + ucast (rq_ReadBack req (rs_BytesCopied h))" "m' = m \<lparr> mc_kernel := k' \<rparr>"
    using assms(2) r unfolding eq by (auto split: option.splits if_splits)
  then show ?thesis
    unfolding eq using r by (intro exI [of _ "rs_BytesCopied h"]) simp
qed

lemma ioctl_reports:
  assumes "contexts_ok K m" and "PhylaEvtIoDeviceControl K req outlen inlen code m = Some (c, m')" and "NT_SUCCESS (cp_status c)"
  shows "if code = IOCTL_PHYLA_READ_RUN
    then \<exists>copied. cp_information c = 32 + ucast (rq_ReadBack req copied) \<and> length (cp_output c) = 32 + unat copied
    else unat (cp_information c) = length (cp_output c)"
proof (cases "code = IOCTL_PHYLA_READ_RUN")
  case False
  then have "PhylaEvtIoDeviceControl K (req \<lparr> rq_ReadBack := id \<rparr>) outlen inlen code m = Some (c, m')"
    using other_requests_ignore_buffer assms(2) by simp
  then show ?thesis
    using ioctl_completes [OF assms(1), of "req \<lparr> rq_ReadBack := id \<rparr>" outlen inlen code] assms(3) False by auto
next
  case True
  then obtain n where h: "PhylaHandleReadRun K req outlen m = Some (cp_status c, n, cp_output c, m')" "cp_information c = n"
    using assms(2,3) by (auto simp: PhylaEvtIoDeviceControl_def bind_eq_Some_conv)
  from read_run_count [OF h(1) assms(3,1)] obtain copied where c: "n = 32 + ucast (rq_ReadBack req copied)"
    "PhylaHandleReadRun K (req \<lparr> rq_ReadBack := id \<rparr>) outlen m = Some (cp_status c, 32 + ucast copied, cp_output c, m')"
    by blast
  have "unat (32 + ucast copied :: u64) = length (cp_output c)"
    using ioctl_completes [OF assms(1), of "req \<lparr> rq_ReadBack := id \<rparr>" outlen inlen code] c(2) assms(3) True
    by (auto simp: PhylaEvtIoDeviceControl_def)
  moreover have "unat (32 + ucast copied :: u64) = 32 + unat copied"
    using unat_lt_u32 [of copied] by (subst unat_add_u64) (simp_all del: unat_lt_u32)
  ultimately show ?thesis using True h(2) c(1) by auto
qed

end

section \<open>The system of file objects\<close>

text \<open>
  \<open>cl\<close> are the file objects that have been cleaned up and not yet closed. The framework runs one
  callback at a time (sequential queue, device-wide synchronization), so a callback is one step; a
  file object whose create request fails is destroyed without clean-up; clean-up comes once, before
  close, and requests may still arrive in between. \<open>environment\<close>: the rest of the kernel, which
  does not touch the driver's blocks. A callback that faults has no step.
\<close>

datatype driver_event =
    FileCreated u64 NTSTATUS | IoctlCompleted u32 completion | FileCleanedUp u64 | FileClosed u64
  | KernelRuns

inductive driver_step ::
  "'k kernel \<Rightarrow> 'k machine \<times> u64 set \<Rightarrow> driver_event \<Rightarrow> 'k machine \<times> u64 set \<Rightarrow> bool" for K where
  create: "f \<noteq> 0 \<Longrightarrow> mc_files m f = None \<Longrightarrow> PhylaEvtFileCreate K f m = Some (st, m') \<Longrightarrow> NT_SUCCESS st \<Longrightarrow>
    driver_step K (m, cl) (FileCreated f st) (m', cl)"
| create_failed: "f \<noteq> 0 \<Longrightarrow> mc_files m f = None \<Longrightarrow> PhylaEvtFileCreate K f m = Some (st, m') \<Longrightarrow>
    \<not> NT_SUCCESS st \<Longrightarrow>
    driver_step K (m, cl) (FileCreated f st) (m' \<lparr> mc_files := (mc_files m')(f := None) \<rparr>, cl)"
| ioctl: "PhylaEvtIoDeviceControl K req outlen inlen code m = Some (c, m') \<Longrightarrow>
    driver_step K (m, cl) (IoctlCompleted code c) (m', cl)"
| cleanup: "mc_files m f = Some c \<Longrightarrow> f \<notin> cl \<Longrightarrow> PhylaEvtFileCleanup K f m = Some m' \<Longrightarrow>
    driver_step K (m, cl) (FileCleanedUp f) (m', insert f cl)"
| close: "f \<in> cl \<Longrightarrow> PhylaEvtFileClose f m = m' \<Longrightarrow>
    driver_step K (m, cl) (FileClosed f) (m' \<lparr> mc_files := (mc_files m')(f := None) \<rparr>, cl - {f})"
| environment: "k_pool K k' = k_pool K (mc_kernel m) \<Longrightarrow>
    driver_step K (m, cl) KernelRuns (m \<lparr> mc_kernel := k' \<rparr>, cl)"

inductive driver_reachable :: "'k kernel \<Rightarrow> 'k machine \<times> u64 set \<Rightarrow> bool" for K where
  loaded: "k_pool K (mc_kernel m) = Map.empty \<Longrightarrow> mc_files m = Map.empty \<Longrightarrow> driver_reachable K (m, {})"
| steps: "driver_reachable K s \<Longrightarrow> driver_step K s e s' \<Longrightarrow> driver_reachable K s'"

text \<open>The blocks the contexts point to.\<close>

definition owned :: "'k machine \<Rightarrow> u64 set" where
  "owned m = {fc_Ranges c | f c. mc_files m f = Some c \<and> fc_Ranges c \<noteq> 0}"

definition sole_owner :: "'k machine \<Rightarrow> bool" where
  "sole_owner m \<longleftrightarrow> (\<forall>f g c d. mc_files m f = Some c \<longrightarrow> mc_files m g = Some d \<longrightarrow>
     fc_Ranges c = fc_Ranges d \<longrightarrow> fc_Ranges c \<noteq> 0 \<longrightarrow> f = g)"

definition driver_inv :: "'k kernel \<Rightarrow> 'k machine \<times> u64 set \<Rightarrow> bool" where
  "driver_inv K s \<longleftrightarrow> (case s of (m, cl) \<Rightarrow>
     contexts_ok K m \<and> sole_owner m \<and> dom (k_pool K (mc_kernel m)) = owned m \<and>
     (\<forall>f c. mc_files m f = Some c \<longrightarrow> (f \<in> cl \<longleftrightarrow> fc_Ranges c = 0)) \<and> cl \<subseteq> dom (mc_files m))"

lemma context_ok_ended [simp]: "context_ok pool (c \<lparr> fc_SessionEnded := True \<rparr>) \<longleftrightarrow>
    (if fc_Ranges c = 0 then fc_RunCount c = 0 \<and> fc_TotalBytes c = 0 \<and> fc_HighestPhysicalEnd c = 0
     else context_ok pool c)"
  by (auto simp: context_ok_def)

lemma owned_alt: "owned m = (fc_Ranges ` ran (mc_files m)) - {0}"
  by (auto simp: owned_def ran_def)

lemma driver_inv_ended:
  assumes "driver_inv K (m, cl)" and "ioctl_effect K m m'"
  shows "driver_inv K (m', cl)"
proof -
  show ?thesis
  proof (cases "mc_files m' = mc_files m")
    case True
    then show ?thesis
      using assms by (auto simp: driver_inv_def ioctl_effect_def contexts_ok_def sole_owner_def owned_def)
  next
    case False
    then obtain f c where fc: "mc_files m f = Some c"
      "mc_files m' = (mc_files m)(f \<mapsto> c \<lparr> fc_SessionEnded := True \<rparr>)"
      using assms(2) by (auto simp: ioctl_effect_def)
    have "owned m' = owned m"
      using fc by (auto simp: owned_def) (metis option.inject)
    moreover have "sole_owner m'"
      using fc assms(1) by (auto simp: sole_owner_def driver_inv_def)
    moreover have "contexts_ok K m'"
      using fc assms by (auto simp: contexts_ok_def driver_inv_def ioctl_effect_def context_ok_def split: if_splits)
    ultimately show ?thesis
      using fc assms by (auto simp: driver_inv_def ioctl_effect_def split: if_splits)
  qed
qed

end
