(* ===== verification/DriverSession.thy ===== *)
theory DriverSession
  imports DeviceContract DriverSystem
begin

text \<open>
  The device session over the driver. \<open>driver_connection\<close> states what the program relies on of
  \<open>DeviceIoControl\<close>: the call is the driver's callback on a request that carries the caller's input,
  and a successful one puts the bytes the driver stored at the start of the output buffer. Over a
  live session the client's view is then that of a frozen memory with the runs of the snapshot.
\<close>

section \<open>The connection\<close>

text \<open>The request the I/O manager builds: input bytes as given, output buffer not raced.\<close>

definition request_for :: "u64 \<Rightarrow> bytes \<Rightarrow> WDFREQUEST \<Rightarrow> bool" where
  "request_for f input req \<longleftrightarrow>
     rq_FileObject req = f \<and> rq_ReadBack req = id \<and>
     (\<forall>n st bs. rq_RetrieveInputBuffer req n = (st, bs) \<longrightarrow> NT_SUCCESS st \<longrightarrow> bs = input)"

definition same_driver :: "'k kernel \<Rightarrow> 'k machine \<Rightarrow> 'k machine \<Rightarrow> bool" where
  "same_driver K m m' \<longleftrightarrow>
     mc_files m' = mc_files m \<and> k_pool K (mc_kernel m') = k_pool K (mc_kernel m)"

locale driver_connection = windows_kernel K for K :: "'k kernel" +
  fixes io :: "'s device_io_control" and mach :: "'s \<Rightarrow> 'k machine" and fobj :: "u64 \<Rightarrow> u64"
    and mem :: "nat \<Rightarrow> u8"
  assumes io_request:
      "io h code input buffer s = (ok, returned, buffer', s') \<Longrightarrow> contexts_ok K (mach s) \<Longrightarrow>
       \<exists>req c m'. request_for (fobj h) input req \<and>
         PhylaEvtIoDeviceControl K req (of_nat (length buffer)) (of_nat (length input)) code (mach s) = Some (c, m') \<and>
         same_driver K m' (mach s') \<and> ok = NT_SUCCESS (cp_status c) \<and>
         (ok \<longrightarrow> returned = ucast (cp_information c) \<and> buffer' = overlay buffer 0 (cp_output c))"
    and memory:
      "k_MmCopyMemory K a n k = (data, copied, st, k') \<Longrightarrow> j < length data \<Longrightarrow> data ! j = mem (unat a + j)"

section \<open>What the driver stores\<close>

context windows_kernel
begin

lemma query_info_stores:
  "PhylaHandleQueryInfo req outlen m = Some (st, n, out, m') \<Longrightarrow> NT_SUCCESS st \<Longrightarrow>
   \<exists>c. PhylaRequestFileContext req m = Some c \<and> \<not> no_session (Some c) \<and>
     out = query_info_bytes \<lparr> qi_Version = PHYLA_PROTOCOL_VERSION, qi_RunCount = fc_RunCount c,
       qi_TotalBytes = fc_TotalBytes c, qi_HighestPhysicalEnd = fc_HighestPhysicalEnd c \<rparr>"
  by (cases "PhylaRequestFileContext req m")
    (auto simp: PhylaHandleQueryInfo_def Let_def no_session_def split: if_splits prod.splits)

lemma get_ranges_stores:
  assumes "contexts_ok K m" and "PhylaHandleGetRanges K req outlen m = Some (st, n, out, m')" and "NT_SUCCESS st"
  shows "\<exists>c arr. PhylaRequestFileContext req m = Some c \<and> k_pool K (mc_kernel m) (fc_Ranges c) = Some arr \<and>
    session_over arr c \<and> out = concat (map (\<lambda>r. memory_run_bytes (memory_run_of r)) (range_entries arr))"
proof -
  obtain c where c: "PhylaRequestFileContext req m = Some c" "fc_Ranges c \<noteq> 0" "\<not> fc_SessionEnded c"
    using assms(2,3)
    by (cases "PhylaRequestFileContext req m") (auto simp: PhylaHandleGetRanges_def no_session_def split: if_splits)
  obtain arr where arr: "k_pool K (mc_kernel m) (fc_Ranges c) = Some arr" "session_over arr c"
    using assms(1) c(1,2) by (rule live_context)
  have "out = concat (map (\<lambda>r. memory_run_bytes (memory_run_of r)) (range_entries arr))"
    using assms(2,3) c arr
    by (auto simp: PhylaHandleGetRanges_def Let_def no_session_def get_ranges_loop split: if_splits prod.splits)
  then show ?thesis using c(1) arr by blast
qed

lemma end_session_stores:
  assumes "contexts_ok K m" and "PhylaHandleEndSession K req outlen m = Some (st, n, out, m')" and "NT_SUCCESS st"
  shows "\<exists>c arr p k1 brr. PhylaRequestFileContext req m = Some c \<and> fc_Ranges c \<noteq> 0 \<and> \<not> fc_SessionEnded c \<and>
    k_pool K (mc_kernel m) (fc_Ranges c) = Some arr \<and>
    k_MmGetPhysicalMemoryRangesEx2 K (mc_kernel m) = (p, k1) \<and> p \<noteq> 0 \<and> k_pool K k1 p = Some brr \<and>
    out = end_result_bytes \<lparr> er_Version = PHYLA_PROTOCOL_VERSION,
      er_TopologyChanged = (if range_entries arr \<noteq> range_entries brr then 1 else 0),
      er_CurrentRunCount = of_nat (length (range_entries brr)), er_Reserved = 0 \<rparr> \<and>
    mc_files m' = (mc_files m)(rq_FileObject req \<mapsto> c \<lparr> fc_SessionEnded := True \<rparr>)"
proof -
  obtain s1 buf where b: "rq_RetrieveOutputBuffer req 16 = (s1, buf)" by fastforce
  obtain c where c: "PhylaRequestFileContext req m = Some c"
    using assms(2,3) by (cases "PhylaRequestFileContext req m") (auto simp: PhylaHandleEndSession_def)
  then have guards: "\<not> outlen < 16" "NT_SUCCESS s1"
    using assms(2,3) b by (auto simp: PhylaHandleEndSession_def split: if_splits)
  obtain p k1 where g: "k_MmGetPhysicalMemoryRangesEx2 K (mc_kernel m) = (p, k1)" by fastforce
  have live: "fc_Ranges c \<noteq> 0" "\<not> fc_SessionEnded c" "p \<noteq> 0"
    using assms(2,3) c b g guards
    by (auto simp: PhylaHandleEndSession_def PhylaSessionEnd_def Let_def split: if_splits)
  obtain arr where arr: "k_pool K (mc_kernel m) (fc_Ranges c) = Some arr" "session_over arr c"
    using assms(1) c live(1) by (rule live_context)
  from session_end_current [OF g live(3) arr live(1,2), of "(False, 0)"] obtain brr k2 where e: "k_pool K k1 p = Some brr"
    "PhylaSessionEnd K (Some c) True (False, 0) (mc_kernel m) =
       Some (STATUS_SUCCESS, (range_entries arr \<noteq> range_entries brr, of_nat (length (range_entries brr))),
             Some (c \<lparr> fc_SessionEnded := True \<rparr>), k2)" by blast
  then show ?thesis
    using assms(2) c b guards g live arr(1) by (auto simp: PhylaHandleEndSession_def Let_def)
qed

lemma copy_run_success:
  assumes "context_ok (k_pool K k) c"
    and "PhylaCopyRun K (Some c) (Some q) P cap R k = Some (st, Some (h, data), k')"
  shows "\<exists>a copied s. h = read_header a (rd_Length q) (of_nat (length data)) s \<and>
    k_MmCopyMemory K a (ucast (rd_Length q)) k = (data, copied, s, k')"
proof -
  have live: "P \<noteq> 0" "R \<noteq> 0" "\<not> k_KeGetCurrentIrql K k > APC_LEVEL" "fc_Ranges c \<noteq> 0" "\<not> fc_SessionEnded c"
    using assms(2) by (auto simp: PhylaCopyRun_def split: if_splits)
  then obtain arr where arr: "k_pool K k (fc_Ranges c) = Some arr" "session_over arr c"
    using assms(1) by (auto simp: context_ok_def)
  show ?thesis
    using assms(2) copy_run [OF arr live(4,5,1,2,3), of q cap]
    by (auto simp: Let_def split: if_splits prod.splits)
qed

lemma read_run_stores:
  assumes "contexts_ok K m" and "PhylaHandleReadRun K req outlen m = Some (st, n, out, m')" and "NT_SUCCESS st"
    and "\<And>n st bs. rq_RetrieveInputBuffer req n = (st, bs) \<Longrightarrow> NT_SUCCESS st \<Longrightarrow> bs = read_request_bytes q"
  shows "\<exists>a data copied s k k'. k_MmCopyMemory K a (ucast (rd_Length q)) k = (data, copied, s, k') \<and>
    out = read_result_bytes (read_header a (rd_Length q) (of_nat (length data)) s) @ data"
proof -
  obtain s1 input where i: "rq_RetrieveInputBuffer req 16 = (s1, input)" by fastforce
  obtain s2 mdl where o: "rq_RetrieveOutputWdmMdl req = (s2, mdl)" by fastforce
  let ?out = "rq_MmGetSystemAddressForMdlSafe req mdl" and ?bc = "rq_MmGetMdlByteCount req mdl"
  let ?ol = "if outlen < ucast ?bc then ucast outlen else ?bc"
  have guards: "\<not> (no_session (PhylaRequestFileContext req m) \<or> \<not> NT_SUCCESS s1 \<or> \<not> NT_SUCCESS s2 \<or> mdl = 0 \<or>
      ?out = 0 \<or> ?ol < 32)"
    using assms(2,3) by (auto simp: PhylaHandleReadRun_def Let_def i o split: if_splits)
  then obtain c where c: "PhylaRequestFileContext req m = Some c"
    by (auto simp: no_session_def split: option.splits)
  have ok: "context_ok (k_pool K (mc_kernel m)) c"
    using assms(1) c by (auto simp: contexts_ok_def PhylaRequestFileContext_def split: if_splits)
  have input: "read_request_of input = q"
    using assms(4) [OF i] guards read_request_of_bytes [of q "[]"] by simp
  from copy_run_total [OF ok, of q "?out + 32" "?ol - 32" ?out] obtain st' stored k' where r:
    "PhylaCopyRun K (Some c) (Some q) (?out + 32) (?ol - 32) ?out (mc_kernel m) = Some (st', stored, k')"
    "case stored of None \<Rightarrow> \<not> NT_SUCCESS st' | Some (h, data) \<Rightarrow> st' = STATUS_SUCCESS \<and>
       length data \<le> unat (?ol - 32) \<and> unat (rs_BytesCopied h) = length data" by blast
  have eq: "PhylaHandleReadRun K req outlen m =
      (case stored of None \<Rightarrow> Some (st', 0, [], m \<lparr> mc_kernel := k' \<rparr>)
       | Some (result, data) \<Rightarrow>
           if \<not> NT_SUCCESS st' then Some (st', 0, read_result_bytes result @ data, m \<lparr> mc_kernel := k' \<rparr>)
           else Some (STATUS_SUCCESS, 32 + ucast (rq_ReadBack req (rs_BytesCopied result)),
                      read_result_bytes result @ data, m \<lparr> mc_kernel := k' \<rparr>))"
    using guards i o c r(1) input by (simp add: PhylaHandleReadRun_def Let_def)
  then obtain h data where "stored = Some (h, data)" "out = read_result_bytes h @ data"
    using assms(2,3) r(2) by (auto split: option.splits if_splits)
  then show ?thesis
    using copy_run_success [OF ok, of q "?out + 32" "?ol - 32" ?out st' h data k'] r(1) by blast
qed

end

section \<open>The client's view\<close>

text \<open>
  \<open>connected\<close>: the device session's handle refers to the file object with context \<open>c\<close> (perhaps ended
  meanwhile), whose snapshot is \<open>arr\<close>. \<open>driver_runs\<close> are the entries as runs, in ascending order.
\<close>

definition connected ::
  "'k kernel \<Rightarrow> ('s \<Rightarrow> 'k machine) \<Rightarrow> (u64 \<Rightarrow> u64) \<Rightarrow> PHYLA_FILE_CONTEXT \<Rightarrow> PHYSICAL_MEMORY_RANGE list \<Rightarrow>
   's DeviceSession \<Rightarrow> bool" where
  "connected K mach fobj c arr d \<longleftrightarrow>
     contexts_ok K (mach (ds_sys d)) \<and>
     k_pool K (mc_kernel (mach (ds_sys d))) (fc_Ranges c) = Some arr \<and>
     (\<exists>e. mc_files (mach (ds_sys d)) (fobj (ds_handle d)) = Some e \<and>
        (e = c \<or> e = c \<lparr> fc_SessionEnded := True \<rparr>))"

definition driver_runs :: "PHYSICAL_MEMORY_RANGE list \<Rightarrow> MemoryRun list" where
  "driver_runs rs = sort_key mr_base (map (\<lambda>i. \<lparr> mr_driverIndex = of_nat i,
     mr_base = pr_BaseAddress (rs ! i), mr_length = pr_NumberOfBytes (rs ! i) \<rparr>) [0..<length rs])"

lemma context_ok_endedI: "context_ok pool c \<Longrightarrow> context_ok pool (c \<lparr> fc_SessionEnded := True \<rparr>)"
  by (auto simp: context_ok_def split: if_splits)

lemma contexts_ok_effect:
  assumes "contexts_ok K m" and "ioctl_effect K m m'"
  shows "contexts_ok K m'"
  using assms context_ok_endedI [of "k_pool K (mc_kernel m)"]
  by (auto simp: contexts_ok_def ioctl_effect_def simp del: context_ok_ended split: if_splits)

lemma overlay_front: "overlay c 0 xs = xs @ drop (length xs) c"
  by (simp add: overlay_def)

context driver_connection
begin

lemma control_step:
  assumes c: "DeviceSession_control api io code input buffer d = (ok, n, b, d')"
    and conn: "connected K mach fobj c0 arr d"
  shows "connected K mach fobj c0 arr d' \<and>
    (ok \<longrightarrow> (\<exists>req cc m'. request_for (fobj (ds_handle d)) input req \<and>
       PhylaEvtIoDeviceControl K req (of_nat (length buffer)) (of_nat (length input)) code (mach (ds_sys d)) = Some (cc, m') \<and>
       NT_SUCCESS (cp_status cc) \<and> b = overlay buffer 0 (cp_output cc) \<and> same_driver K m' (mach (ds_sys d'))))"
proof -
  let ?m = "mach (ds_sys d)"
  have ok: "contexts_ok K ?m" using conn by (simp add: connected_def)
  have i: "io (ds_handle d) code input buffer (ds_sys d) = (ok, n, b, ds_sys d')" "ds_handle d' = ds_handle d"
    using control_fields [OF c] by simp_all
  obtain req cc m' where r: "request_for (fobj (ds_handle d)) input req"
    "PhylaEvtIoDeviceControl K req (of_nat (length buffer)) (of_nat (length input)) code ?m = Some (cc, m')"
    "same_driver K m' (mach (ds_sys d'))" "ok = NT_SUCCESS (cp_status cc)"
    "ok \<longrightarrow> b = overlay buffer 0 (cp_output cc)"
    using io_request [OF i(1) ok] by blast
  have eff: "ioctl_effect K ?m m'"
    using ioctl_completes [OF ok, of req "of_nat (length buffer)" "of_nat (length input)" code] r(2) by auto
  have "contexts_ok K m'" using contexts_ok_effect [OF ok eff] .
  moreover have "k_pool K (mc_kernel m') (fc_Ranges c0) = Some arr"
    using eff conn by (simp add: ioctl_effect_def connected_def)
  moreover have "\<exists>e. mc_files m' (fobj (ds_handle d)) = Some e \<and> (e = c0 \<or> e = c0 \<lparr> fc_SessionEnded := True \<rparr>)"
    using eff conn by (auto simp: ioctl_effect_def connected_def)
  ultimately have "connected K mach fobj c0 arr d'"
    using r(3) i(2) by (simp add: connected_def same_driver_def contexts_ok_def)
  then show ?thesis using r by blast
qed

lemma file_context:
  assumes "connected K mach fobj c0 arr d" and "request_for (fobj (ds_handle d)) input req"
    and "PhylaRequestFileContext req (mach (ds_sys d)) = Some c"
  shows "c = c0 \<or> c = c0 \<lparr> fc_SessionEnded := True \<rparr>"
  using assms by (auto simp: connected_def request_for_def PhylaRequestFileContext_def split: if_splits)

lemma query_info_received:
  assumes "DeviceSession_control api io IOCTL_PHYLA_QUERY_INFO [] (replicate 24 0) d = (True, n, buffer, d')"
    and conn: "connected K mach fobj c0 arr d"
  shows "query_info_of buffer = \<lparr> qi_Version = PHYLA_PROTOCOL_VERSION, qi_RunCount = fc_RunCount c0,
    qi_TotalBytes = fc_TotalBytes c0, qi_HighestPhysicalEnd = fc_HighestPhysicalEnd c0 \<rparr>"
proof -
  obtain req cc m' where r: "request_for (fobj (ds_handle d)) [] req"
    "PhylaEvtIoDeviceControl K req 24 0 IOCTL_PHYLA_QUERY_INFO (mach (ds_sys d)) = Some (cc, m')"
    "NT_SUCCESS (cp_status cc)" "buffer = overlay (replicate 24 0) 0 (cp_output cc)"
    using control_step [OF assms] by auto
  obtain st k where h: "PhylaHandleQueryInfo req 24 (mach (ds_sys d)) = Some (st, k, cp_output cc, m')" "NT_SUCCESS st"
    using r(2,3) by (auto simp: PhylaEvtIoDeviceControl_def bind_eq_Some_conv)
  obtain c where c: "PhylaRequestFileContext req (mach (ds_sys d)) = Some c"
    "cp_output cc = query_info_bytes \<lparr> qi_Version = PHYLA_PROTOCOL_VERSION, qi_RunCount = fc_RunCount c,
       qi_TotalBytes = fc_TotalBytes c, qi_HighestPhysicalEnd = fc_HighestPhysicalEnd c \<rparr>"
    using query_info_stores [OF h] by blast
  have "c = c0 \<or> c = c0 \<lparr> fc_SessionEnded := True \<rparr>" using file_context [OF conn r(1) c(1)] .
  then show ?thesis
    using c(2) r(4) query_info_of_bytes [of _ "[]"] by (auto simp: overlay_front)
qed

lemma ranges_received:
  assumes "DeviceSession_control api io IOCTL_PHYLA_GET_RANGES [] (replicate len 0) d = (True, n, raw, d')"
    and conn: "connected K mach fobj c0 arr d"
  shows "\<exists>rest. raw = concat (map memory_run_bytes (map memory_run_of (range_entries arr))) @ rest"
proof -
  obtain req cc m' where r: "request_for (fobj (ds_handle d)) [] req"
    "PhylaEvtIoDeviceControl K req (of_nat len) 0 IOCTL_PHYLA_GET_RANGES (mach (ds_sys d)) = Some (cc, m')"
    "NT_SUCCESS (cp_status cc)" "raw = overlay (replicate len 0) 0 (cp_output cc)"
    using control_step [OF assms] by auto
  obtain st k where h: "PhylaHandleGetRanges K req (of_nat len) (mach (ds_sys d)) = Some (st, k, cp_output cc, m')"
    "NT_SUCCESS st"
    using r(2,3) by (auto simp: PhylaEvtIoDeviceControl_def bind_eq_Some_conv)
  have ok: "contexts_ok K (mach (ds_sys d))" using conn by (simp add: connected_def)
  obtain c brr where c: "PhylaRequestFileContext req (mach (ds_sys d)) = Some c"
    "k_pool K (mc_kernel (mach (ds_sys d))) (fc_Ranges c) = Some brr"
    "cp_output cc = concat (map (\<lambda>r. memory_run_bytes (memory_run_of r)) (range_entries brr))"
    using get_ranges_stores [OF ok h] by blast
  have "c = c0 \<or> c = c0 \<lparr> fc_SessionEnded := True \<rparr>" using file_context [OF conn r(1) c(1)] .
  then have "brr = arr" using c(2) conn by (auto simp: connected_def)
  then show ?thesis
    using c(3) r(4) by (simp add: overlay_front comp_def)
qed

lemma received_entry:
  assumes "j < length rs"
  shows "received_run (concat (map memory_run_bytes (map memory_run_of rs)) @ rest) j =
    \<lparr> mr_driverIndex = of_nat j, mr_base = pr_BaseAddress (rs ! j), mr_length = pr_NumberOfBytes (rs ! j) \<rparr>"
  using assms memory_run_at_bytes [of j "map memory_run_of rs" rest]
  by (simp add: received_run_def memory_run_of_def)

text \<open>A successful query reports the snapshot.\<close>

lemma query_reports_snapshot:
  assumes "DeviceSession_Query api io d = (True, (hi, tot, rs), d')" and conn: "connected K mach fobj c0 arr d"
    and over: "session_over arr c0"
  shows "hi = fc_HighestPhysicalEnd c0 \<and> tot = fc_TotalBytes c0 \<and> rs = driver_runs (range_entries arr)"
proof -
  from Query_success [OF assms(1)] obtain buffer d1 raw n where q:
    "DeviceSession_control api io IOCTL_PHYLA_QUERY_INFO [] (replicate 24 0) d = (True, 24, buffer, d1)"
    "n = qi_RunCount (query_info_of buffer)"
    "DeviceSession_control api io IOCTL_PHYLA_GET_RANGES [] (replicate (16 * unat n) 0) d1 = (True, n * 16, raw, d')"
    "hi = qi_HighestPhysicalEnd (query_info_of buffer)" "tot = qi_TotalBytes (query_info_of buffer)"
    "rs = sort_key mr_base (map (received_run raw) [0..<unat n])" by metis
  have info: "query_info_of buffer = \<lparr> qi_Version = PHYLA_PROTOCOL_VERSION, qi_RunCount = fc_RunCount c0,
      qi_TotalBytes = fc_TotalBytes c0, qi_HighestPhysicalEnd = fc_HighestPhysicalEnd c0 \<rparr>"
    using query_info_received [OF q(1) conn] .
  have "connected K mach fobj c0 arr d1"
    using control_step [OF q(1) conn] by simp
  from ranges_received [OF q(3) this] obtain rest where
    raw: "raw = concat (map memory_run_bytes (map memory_run_of (range_entries arr))) @ rest" ..
  have n: "unat n = length (range_entries arr)"
    using session_over_count [OF over] q(2) info by simp
  have "map (received_run raw) [0..<unat n] = map (\<lambda>i. \<lparr> mr_driverIndex = of_nat i,
      mr_base = pr_BaseAddress (range_entries arr ! i), mr_length = pr_NumberOfBytes (range_entries arr ! i) \<rparr>)
      [0..<length (range_entries arr)]"
    unfolding n raw by (rule map_cong, simp, rule received_entry, simp)
  then show ?thesis
    using q(4-6) info by (simp add: driver_runs_def)
qed

text \<open>
  The end of a session compares the snapshot with the ranges the kernel reports at that moment, and
  ends the session of the file object.
\<close>

lemma end_reports_change:
  assumes "DeviceSession_End api io d = (True, changed, d')" and conn: "connected K mach fobj c0 arr d"
  shows "\<exists>p k1 brr. k_MmGetPhysicalMemoryRangesEx2 K (mc_kernel (mach (ds_sys d))) = (p, k1) \<and> p \<noteq> 0 \<and>
    k_pool K k1 p = Some brr \<and> (changed \<longleftrightarrow> range_entries brr \<noteq> range_entries arr) \<and>
    mc_files (mach (ds_sys d)) (fobj (ds_handle d)) = Some c0 \<and> \<not> fc_SessionEnded c0 \<and>
    mc_files (mach (ds_sys d')) (fobj (ds_handle d)) = Some (c0 \<lparr> fc_SessionEnded := True \<rparr>)"
proof -
  obtain ok n buffer d1 where e: "DeviceSession_control api io IOCTL_PHYLA_END_SESSION [] (replicate 16 0) d =
      (ok, n, buffer, d1)" by (metis prod_cases4)
  have ok: ok "d' = d1" "changed = (er_TopologyChanged (end_result_of buffer) \<noteq> 0)"
    using assms(1) e by (auto simp: DeviceSession_End_def Let_def split: if_splits bool.splits)
  obtain req cc m' where r: "request_for (fobj (ds_handle d)) [] req"
    "PhylaEvtIoDeviceControl K req 16 0 IOCTL_PHYLA_END_SESSION (mach (ds_sys d)) = Some (cc, m')"
    "NT_SUCCESS (cp_status cc)" "buffer = overlay (replicate 16 0) 0 (cp_output cc)"
    "same_driver K m' (mach (ds_sys d1))"
    using control_step [OF e conn] ok(1) by auto
  obtain st k where h: "PhylaHandleEndSession K req 16 (mach (ds_sys d)) = Some (st, k, cp_output cc, m')" "NT_SUCCESS st"
    using r(2,3) by (auto simp: PhylaEvtIoDeviceControl_def bind_eq_Some_conv)
  have ctx: "contexts_ok K (mach (ds_sys d))" using conn by (simp add: connected_def)
  from end_session_stores [OF ctx h] obtain c arr' p k1 brr where c: "PhylaRequestFileContext req (mach (ds_sys d)) = Some c"
    "\<not> fc_SessionEnded c" "k_pool K (mc_kernel (mach (ds_sys d))) (fc_Ranges c) = Some arr'"
    "k_MmGetPhysicalMemoryRangesEx2 K (mc_kernel (mach (ds_sys d))) = (p, k1)" "p \<noteq> 0" "k_pool K k1 p = Some brr"
    and out: "cp_output cc = end_result_bytes \<lparr> er_Version = PHYLA_PROTOCOL_VERSION,
        er_TopologyChanged = (if range_entries arr' \<noteq> range_entries brr then 1 else 0),
        er_CurrentRunCount = of_nat (length (range_entries brr)), er_Reserved = 0 \<rparr>"
    and files: "mc_files m' = (mc_files (mach (ds_sys d)))(rq_FileObject req \<mapsto> c \<lparr> fc_SessionEnded := True \<rparr>)" by blast
  have "c = c0" using file_context [OF conn r(1) c(1)] c(2) by auto
  moreover have "arr' = arr" using c(3) conn \<open>c = c0\<close> by (simp add: connected_def)
  moreover have "changed \<longleftrightarrow> range_entries arr' \<noteq> range_entries brr"
    using ok(3) r(4) out end_result_of_bytes [of _ "[]"] by (simp add: overlay_front)
  moreover have "mc_files (mach (ds_sys d)) (fobj (ds_handle d)) = Some c" "rq_FileObject req = fobj (ds_handle d)"
    using c(1) r(1) by (auto simp: PhylaRequestFileContext_def request_for_def split: if_splits)
  ultimately show ?thesis
    using c files r(5) ok(2) by (auto simp: same_driver_def)
qed

text \<open>A successful read shows the memory at the address it reports.\<close>

lemma read_shows_memory:
  assumes "DeviceSession_Read api io i off len d = (True, r, d')" and conn: "connected K mach fobj c0 arr d"
    and j: "j < length (rr_data r)"
  shows "rr_data r ! j = mem (unat (rr_physicalAddress r) + j)"
proof -
  let ?q = "\<lparr> rd_RunIndex = i, rd_Length = len, rd_OffsetWithinRun = off \<rparr>"
  let ?cap = "32 + unat len"
  let ?io = "if length (ds_ioBuffer d) < ?cap then resize (ds_ioBuffer d) ?cap else ds_ioBuffer d"
  let ?d = "d \<lparr> ds_ioBuffer := ?io \<rparr>"
  obtain ok n buffer d1 where c: "DeviceSession_control api io IOCTL_PHYLA_READ_RUN (read_request_bytes ?q)
      (take ?cap ?io) ?d = (ok, n, buffer, d1)" by (metis prod_cases4)
  have buf1: "ds_ioBuffer d1 = ?io" using control_fields [OF c] by simp
  let ?buf = "overlay ?io 0 buffer"
  have ok: ok
    and r: "rr_data r = field ?buf 32 (unat (rs_BytesCopied (read_result_of ?buf)))"
      "rr_physicalAddress r = rs_PhysicalAddress (read_result_of ?buf)"
    using assms(1) c buf1 by (auto simp: DeviceSession_Read_def Let_def split: if_splits bool.splits)
  have conn': "connected K mach fobj c0 arr ?d" using conn by (simp add: connected_def)
  obtain req cc m' outlen where h: "request_for (fobj (ds_handle d)) (read_request_bytes ?q) req"
    "PhylaEvtIoDeviceControl K req outlen 16 IOCTL_PHYLA_READ_RUN (mach (ds_sys d)) = Some (cc, m')"
    "NT_SUCCESS (cp_status cc)" "buffer = overlay (take ?cap ?io) 0 (cp_output cc)"
    using control_step [OF c conn'] ok by auto
  obtain st k where hr: "PhylaHandleReadRun K req outlen (mach (ds_sys d)) = Some (st, k, cp_output cc, m')"
    "NT_SUCCESS st"
    using h(2,3) by (auto simp: PhylaEvtIoDeviceControl_def bind_eq_Some_conv)
  have ctx: "contexts_ok K (mach (ds_sys d))" using conn by (simp add: connected_def)
  obtain a data copied s kk k' where m: "k_MmCopyMemory K a (ucast len) kk = (data, copied, s, k')"
    "cp_output cc = read_result_bytes (read_header a len (of_nat (length data)) s) @ data"
    using read_run_stores [OF ctx hr, of ?q] h(1) unfolding request_for_def by auto
  have "length data \<le> unat len"
    using copy_count [OF m(1)] by (simp add: word_le_nat_alt)
  then have cnt: "unat (of_nat (length data) :: u32) = length data"
    using unat_lt_u32 [of len] by (intro unat_of_nat_small32) (simp del: unat_lt_u32)
  have "\<exists>rest. ?buf = read_result_bytes (read_header a len (of_nat (length data)) s) @ data @ rest"
    by (simp add: h(4) m(2) overlay_front)
  then obtain rest where b: "?buf = read_result_bytes (read_header a len (of_nat (length data)) s) @ data @ rest" ..
  have "rr_data r = data" "rr_physicalAddress r = a"
    unfolding r b using cnt by (simp_all add: read_header_def field_skip)
  then show ?thesis using memory [OF m(1)] j by simp
qed

end

text \<open>The contract of the device session over a live driver session.\<close>

lemma connected_contract:
  assumes "driver_connection K io mach fobj mem"
  shows "device_contract (DeviceSession_class api io) (connected K mach fobj c0 arr)"
proof -
  note step = driver_connection.control_step [OF assms, THEN conjunct1]
  have fail: "connected K mach fobj c0 arr (DeviceSession_fail e d) = connected K mach fobj c0 arr d"
    "connected K mach fobj c0 arr (d \<lparr> ds_ioBuffer := b \<rparr>) = connected K mach fobj c0 arr d" for e b d
    by (simp_all add: connected_def DeviceSession_fail_def)
  show ?thesis
  proof
    fix d ok out d'
    assume "connected K mach fobj c0 arr d" "dev_Query (DeviceSession_class api io) d = (ok, out, d')"
    then show "connected K mach fobj c0 arr d'"
      by (auto simp: DeviceSession_class_def DeviceSession_Query_def Let_def fail
          split: if_splits prod.splits bool.splits dest!: step)
  next
    fix d hi tot rs d'
    assume "dev_Query (DeviceSession_class api io) d = (True, (hi, tot, rs), d')"
    then show "runs_wf rs"
      using Query_runs_wf [of api io d hi tot rs d'] by (auto simp: DeviceSession_class_def)
  next
    fix d ok hints d'
    assume "connected K mach fobj c0 arr d" "dev_QueryHints (DeviceSession_class api io) d = (ok, hints, d')"
    then show "connected K mach fobj c0 arr d'"
      by (auto simp: DeviceSession_class_def DeviceSession_QueryHints_def Let_def fail
          split: if_splits prod.splits bool.splits dest!: step)
  next
    fix d i off len ok res d'
    assume "connected K mach fobj c0 arr d" "dev_Read (DeviceSession_class api io) i off len d = (ok, res, d')"
    then show "connected K mach fobj c0 arr d'"
      by (auto simp: DeviceSession_class_def DeviceSession_Read_def Let_def fail
          split: if_splits prod.splits bool.splits dest!: step)
  next
    fix d ok changed d'
    assume "connected K mach fobj c0 arr d" "dev_End (DeviceSession_class api io) d = (ok, changed, d')"
    then show "connected K mach fobj c0 arr d'"
      by (auto simp: DeviceSession_class_def DeviceSession_End_def Let_def fail
          split: if_splits prod.splits bool.splits dest!: step)
  qed
qed

lemma connected_frozen:
  assumes "driver_connection K io mach fobj mem" and "session_over arr c0"
  shows "frozen_memory (DeviceSession_class api io) (connected K mach fobj c0 arr) mem
    (fc_HighestPhysicalEnd c0) (fc_TotalBytes c0) (driver_runs (range_entries arr))"
  using driver_connection.query_reports_snapshot [OF assms(1) _ _ assms(2)]
    driver_connection.read_shows_memory [OF assms(1)]
  by (auto simp: frozen_memory_def DeviceSession_class_def)

end
