(* ===== verification/DriverTheorems.thy ===== *)
theory DriverTheorems
  imports DriverSystem
begin

text \<open>
  The invariant of the driver is kept by every step; the properties of the driver, and a small
  kernel that keeps the laws of \<open>windows_kernel\<close> to apply them to.
\<close>

context windows_kernel
begin

lemma file_create:
  assumes "PhylaEvtFileCreate K f m = x"
  shows "\<exists>st c k'. x = Some (st, m \<lparr> mc_kernel := k', mc_files := (mc_files m)(f \<mapsto> c) \<rparr>) \<and>
    (if NT_SUCCESS st
     then fc_Ranges c \<noteq> 0 \<and> k_pool K (mc_kernel m) (fc_Ranges c) = None \<and>
       (\<exists>arr. k_pool K k' = (k_pool K (mc_kernel m))(fc_Ranges c \<mapsto> arr) \<and> session_over arr c)
     else k_pool K k' = k_pool K (mc_kernel m))"
proof -
  consider (ok) arr c k' where "PhylaSessionBegin K (Some FILE_CONTEXT_zero) (mc_kernel m) = Some (STATUS_SUCCESS, Some c, k')"
      "fc_Ranges c \<noteq> 0" "k_pool K (mc_kernel m) (fc_Ranges c) = None"
      "k_pool K k' = (k_pool K (mc_kernel m))(fc_Ranges c \<mapsto> arr)" "session_over arr c"
    | (failed) st k' where "PhylaSessionBegin K (Some FILE_CONTEXT_zero) (mc_kernel m) = Some (st, Some FILE_CONTEXT_zero, k')"
      "\<not> NT_SUCCESS st" "k_pool K k' = k_pool K (mc_kernel m)"
    using session_begin [of FILE_CONTEXT_zero "mc_kernel m", OF refl] by blast
  then show ?thesis
  proof cases
    case ok
    then show ?thesis
      using assms
      by (intro exI [of _ STATUS_SUCCESS] exI [of _ c] exI [of _ k']) (auto simp: PhylaEvtFileCreate_def)
  next
    case failed
    then show ?thesis
      using assms
      by (intro exI [of _ st] exI [of _ FILE_CONTEXT_zero] exI [of _ k']) (auto simp: PhylaEvtFileCreate_def)
  qed
qed

lemma inv_create:
  assumes inv: "driver_inv K (m, cl)" and f: "mc_files m f = None"
    and c: "fc_Ranges c \<noteq> 0" "k_pool K (mc_kernel m) (fc_Ranges c) = None" "session_over arr c"
    and k: "k_pool K k' = (k_pool K (mc_kernel m))(fc_Ranges c \<mapsto> arr)"
  shows "driver_inv K (m \<lparr> mc_kernel := k', mc_files := (mc_files m)(f \<mapsto> c) \<rparr>, cl)"
proof -
  let ?m = "m \<lparr> mc_kernel := k', mc_files := (mc_files m)(f \<mapsto> c) \<rparr>"
  have dom: "dom (k_pool K (mc_kernel m)) = owned m" and new: "fc_Ranges c \<notin> owned m"
    using inv c(2) by (auto simp: driver_inv_def)
  have fresh: "fc_Ranges d \<noteq> fc_Ranges c" if "mc_files m g = Some d" for g d
    using new c(1) that unfolding owned_def by (metis (mono_tags, lifting) mem_Collect_eq)
  have "owned ?m = insert (fc_Ranges c) (owned m)"
    using f c(1) by (auto simp: owned_def) (metis option.distinct(1))
  moreover have "sole_owner ?m"
    using inv fresh by (auto simp: sole_owner_def driver_inv_def) (metis)+
  moreover have "contexts_ok K ?m"
  proof -
    have "context_ok (k_pool K k') d" if "mc_files m g = Some d" for g d
      using that inv fresh [OF that] k
      by (auto simp: driver_inv_def contexts_ok_def context_ok_def split: if_splits)
    moreover have "context_ok (k_pool K k') c"
      using c k by (simp add: context_ok_def)
    ultimately show ?thesis by (simp add: contexts_ok_def)
  qed
  ultimately show ?thesis
    using inv f c(1) dom k by (auto simp: driver_inv_def)
qed

lemma file_cleanup:
  assumes "contexts_ok K m" and "mc_files m f = Some c"
  shows "\<exists>k'. PhylaEvtFileCleanup K f m = Some (m \<lparr> mc_kernel := k', mc_files := (mc_files m)(f \<mapsto>
      c \<lparr> fc_Ranges := 0, fc_RunCount := 0, fc_TotalBytes := 0, fc_HighestPhysicalEnd := 0,
          fc_SessionEnded := True \<rparr>) \<rparr>) \<and>
    k_pool K k' = (if fc_Ranges c = 0 then k_pool K (mc_kernel m)
                   else (k_pool K (mc_kernel m))(fc_Ranges c := None))"
  using session_release [of "mc_kernel m" c] assms by (auto simp: PhylaEvtFileCleanup_def contexts_ok_def)

lemma inv_cleanup:
  assumes inv: "driver_inv K (m, cl)" and f: "mc_files m f = Some c" "f \<notin> cl"
    and k: "k_pool K k' = (k_pool K (mc_kernel m))(fc_Ranges c := None)"
    and z: "fc_Ranges z = 0" "fc_RunCount z = 0" "fc_TotalBytes z = 0" "fc_HighestPhysicalEnd z = 0"
      "fc_SessionEnded z"
  shows "driver_inv K (m \<lparr> mc_kernel := k', mc_files := (mc_files m)(f \<mapsto> z) \<rparr>, insert f cl)"
proof -
  let ?m = "m \<lparr> mc_kernel := k', mc_files := (mc_files m)(f \<mapsto> z) \<rparr>"
  have r: "fc_Ranges c \<noteq> 0" using inv f by (auto simp: driver_inv_def)
  have other: "fc_Ranges d \<noteq> fc_Ranges c" if "mc_files m g = Some d" "g \<noteq> f" for g d
    using inv f(1) that r by (auto simp: driver_inv_def sole_owner_def)
  have "owned ?m = owned m - {fc_Ranges c}"
    using z(1) f(1) other by (auto simp: owned_def) (metis option.inject)
  moreover have "sole_owner ?m"
    using inv z(1) by (auto simp: sole_owner_def driver_inv_def)
  moreover have "contexts_ok K ?m"
    using inv other k z by (auto simp: contexts_ok_def driver_inv_def context_ok_def split: if_splits)
  ultimately show ?thesis
    using inv f z(1) k by (auto simp: driver_inv_def)
qed

lemma inv_close:
  assumes inv: "driver_inv K (m, cl)" and f: "f \<in> cl"
  shows "driver_inv K (m \<lparr> mc_files := (mc_files m)(f := None) \<rparr>, cl - {f})"
proof -
  obtain c where c: "mc_files m f = Some c" "fc_Ranges c = 0"
    using inv f by (auto simp: driver_inv_def dest!: subsetD)
  have "owned (m \<lparr> mc_files := (mc_files m)(f := None) \<rparr>) = owned m"
    using c by (auto simp: owned_def) (metis option.inject)
  then show ?thesis
    using inv by (auto simp: driver_inv_def contexts_ok_def sole_owner_def)
qed

lemma inv_step:
  assumes "driver_inv K s" and "driver_step K s e s'"
  shows "driver_inv K s'"
  using assms(2,1)
proof (cases rule: driver_step.cases)
  case (create f m st m' cl)
  then show ?thesis
    using assms(1) file_create [OF create(6)] inv_create [of m cl f] by auto
next
  case (create_failed f m st m' cl)
  then have eq: "mc_files (m' \<lparr> mc_files := (mc_files m')(f := None) \<rparr>) = mc_files m"
    and "k_pool K (mc_kernel m') = k_pool K (mc_kernel m)"
    using file_create [OF create_failed(6)] by auto
  then have "ioctl_effect K m (m' \<lparr> mc_files := (mc_files m')(f := None) \<rparr>)"
    by (simp add: ioctl_effect_def)
  then show ?thesis
    using assms(1) create_failed(1-5) driver_inv_ended by blast
next
  case (ioctl req outlen inlen code m c m' cl)
  then have "contexts_ok K m" using assms(1) by (simp add: driver_inv_def)
  then have "ioctl_effect K m m'"
    using ioctl_completes [of m req outlen inlen code] ioctl(4) by auto
  then show ?thesis
    using assms(1) ioctl(1-3) driver_inv_ended by blast
next
  case (cleanup m f c cl m')
  then have inv: "driver_inv K (m, cl)" using assms(1) by simp
  then have "contexts_ok K m" "fc_Ranges c \<noteq> 0" using cleanup(4,5) by (auto simp: driver_inv_def)
  from file_cleanup [OF this(1) cleanup(4)] this(2) obtain k' where
    k: "k_pool K k' = (k_pool K (mc_kernel m))(fc_Ranges c := None)"
      "m' = m \<lparr> mc_kernel := k', mc_files := (mc_files m)(f \<mapsto> c \<lparr> fc_Ranges := 0, fc_RunCount := 0,
         fc_TotalBytes := 0, fc_HighestPhysicalEnd := 0, fc_SessionEnded := True \<rparr>) \<rparr>"
    using cleanup(6) by auto
  have "driver_inv K (m', insert f cl)"
    unfolding k(2) by (rule inv_cleanup [OF inv cleanup(4,5) k(1)]) simp_all
  then show ?thesis using cleanup(3) by simp
next
  case (close f cl m m')
  then show ?thesis using assms(1) inv_close [of m cl f] by (simp add: PhylaEvtFileClose_def)
next
  case (environment k' m cl)
  then show ?thesis
    using assms(1) driver_inv_ended [of K m cl] by (simp add: ioctl_effect_def)
qed

lemma inv_reachable: "driver_reachable K s \<Longrightarrow> driver_inv K s"
proof (induction rule: driver_reachable.induct)
  case (loaded m)
  then show ?case
    by (simp add: driver_inv_def contexts_ok_def sole_owner_def owned_def)
next
  case (steps s e s')
  then show ?case by (blast intro: inv_step)
qed

end

section \<open>A small kernel\<close>

text \<open>
  Blocks are handed out at increasing addresses, physical memory is a function, every copy is
  complete; the routines \<open>PhylaQueryKernelHints\<close> calls answer with constants.
\<close>

record small_kernel =
  sk_pool :: "(u64 \<times> PHYSICAL_MEMORY_RANGE list) list"
  sk_next :: u64
  sk_ranges :: "PHYSICAL_MEMORY_RANGE list"

definition small_mem :: "nat \<Rightarrow> u8" where "small_mem a = of_nat a + 1"

definition small_ranges :: "small_kernel \<Rightarrow> u64 \<times> small_kernel" where
  "small_ranges k =
     (if sk_next k = 0 \<or> map_of (sk_pool k) (sk_next k) \<noteq> None \<or> length (sk_ranges k) > 100
      then (0, k)
      else (sk_next k,
            k \<lparr> sk_pool := (sk_next k, sk_ranges k @ [\<lparr> pr_BaseAddress = 0, pr_NumberOfBytes = 0 \<rparr>]) # sk_pool k,
                sk_next := sk_next k + 16 \<rparr>))"

definition small_api :: "small_kernel kernel" where
  "small_api = \<lparr>
     k_MmGetPhysicalMemoryRangesEx2 = small_ranges,
     k_pool = (\<lambda>k. map_of (sk_pool k)),
     k_ExFreePool = (\<lambda>p k. k \<lparr> sk_pool := filter (\<lambda>b. fst b \<noteq> p) (sk_pool k) \<rparr>),
     k_KeGetCurrentIrql = (\<lambda>k. 0),
     k_MmCopyMemory = (\<lambda>a n k. (map (\<lambda>i. small_mem (unat a + i)) [0..<unat n], n, 0, k)),
     k_PsGetVersion = (\<lambda>k. (10, 0, 26100)),
     k_KeQueryActiveProcessorCountEx = (\<lambda>k. 8),
     k_PsInitialSystemProcess = (\<lambda>k. 0xFFFF800000001000),
     k_KeStackAttachProcess = (\<lambda>p k. k),
     k_KeUnstackDetachProcess = (\<lambda>k. k),
     k_readcr3 = (\<lambda>k. 0x1AD000),
     k_readgsqword = (\<lambda>o' k. 0xFFFFF80000002000),
     k_RtlPcToFileHeader = (\<lambda>k. 0xFFFFF80010000000),
     k_Mem16 = (\<lambda>a k. 0x5A4D),
     k_Mem32 = (\<lambda>a k. if a = 0xFFFFF8001000003C then 0x100 else if a = 0xFFFFF80010000100 then 0x4550 else 0x1046000),
     k_cpuid_ecx = (\<lambda>leaf k. 0x80000000) \<rparr>"

lemma map_of_filter_fst: "map_of (filter (\<lambda>b. fst b \<noteq> p) xs) = (map_of xs)(p := None)"
  by (induction xs) auto

lemma small_array: "length rs \<le> 100 \<Longrightarrow> range_array (rs @ [\<lparr> pr_BaseAddress = 0, pr_NumberOfBytes = 0 \<rparr>])"
proof -
  assume small: "length rs \<le> 100"
  let ?z = "\<lparr> pr_BaseAddress = 0, pr_NumberOfBytes = 0 \<rparr> :: PHYSICAL_MEMORY_RANGE"
  have z: "is_terminator ?z" by (simp add: is_terminator_def)
  have "length (range_entries (rs @ [?z])) \<le> length rs"
    unfolding range_entries_def by (induction rs) (simp_all add: z)
  then show ?thesis using small by (simp add: range_array_def)
qed

interpretation small: windows_kernel small_api
proof
  fix k k' p
  assume "k_MmGetPhysicalMemoryRangesEx2 small_api k = (p, k')" "p \<noteq> 0"
  then show "k_pool small_api k p = None \<and>
      (\<exists>arr. range_array arr \<and> k_pool small_api k' = (k_pool small_api k)(p \<mapsto> arr))"
    using small_array [of "sk_ranges k"]
    by (auto simp: small_api_def small_ranges_def split: if_splits)
qed (auto simp: small_api_def small_ranges_def map_of_filter_fst split: if_splits)

text \<open>Two runs of 8 and 4 bytes, as in the bench of the engine.\<close>

definition small_kernel_0 :: small_kernel where
  "small_kernel_0 = \<lparr> sk_pool = [], sk_next = 0x1000,
     sk_ranges = [\<lparr> pr_BaseAddress = 8, pr_NumberOfBytes = 8 \<rparr>, \<lparr> pr_BaseAddress = 20, pr_NumberOfBytes = 4 \<rparr>] \<rparr>"

definition small_machine_0 :: "small_kernel machine" where
  "small_machine_0 = \<lparr> mc_kernel = small_kernel_0, mc_files = Map.empty \<rparr>"

definition small_opened :: "small_kernel machine" where
  "small_opened = snd (the (PhylaEvtFileCreate small_api 1 small_machine_0))"

lemma small_entries:
  "range_entries [\<lparr> pr_BaseAddress = 8, pr_NumberOfBytes = 8 \<rparr>, \<lparr> pr_BaseAddress = 20, pr_NumberOfBytes = 4 \<rparr>,
     \<lparr> pr_BaseAddress = 0, pr_NumberOfBytes = 0 \<rparr>] =
   [\<lparr> pr_BaseAddress = 8, pr_NumberOfBytes = 8 \<rparr>, \<lparr> pr_BaseAddress = 20, pr_NumberOfBytes = 4 \<rparr>]"
  by (simp add: range_entries_def is_terminator_def)

lemma small_opened_context:
  "PhylaEvtFileCreate small_api 1 small_machine_0 = Some (STATUS_SUCCESS, small_opened) \<and>
   mc_files small_opened 1 = Some \<lparr> fc_Ranges = 0x1000, fc_RunCount = 2, fc_TotalBytes = 12,
     fc_HighestPhysicalEnd = 24, fc_SessionEnded = False \<rparr> \<and>
   k_pool small_api (mc_kernel small_opened) 0x1000 =
     Some [\<lparr> pr_BaseAddress = 8, pr_NumberOfBytes = 8 \<rparr>, \<lparr> pr_BaseAddress = 20, pr_NumberOfBytes = 4 \<rparr>,
           \<lparr> pr_BaseAddress = 0, pr_NumberOfBytes = 0 \<rparr>]"
proof -
  have "PhylaEvtFileCreate small_api 1 small_machine_0 \<noteq> None \<and>
      fst (the (PhylaEvtFileCreate small_api 1 small_machine_0)) = STATUS_SUCCESS"
    by code_simp
  then have "PhylaEvtFileCreate small_api 1 small_machine_0 = Some (STATUS_SUCCESS, small_opened)"
    by (auto simp: small_opened_def)
  moreover have "mc_files small_opened 1 = Some \<lparr> fc_Ranges = 0x1000, fc_RunCount = 2, fc_TotalBytes = 12,
     fc_HighestPhysicalEnd = 24, fc_SessionEnded = False \<rparr>" by code_simp
  moreover have "k_pool small_api (mc_kernel small_opened) 0x1000 =
     Some [\<lparr> pr_BaseAddress = 8, pr_NumberOfBytes = 8 \<rparr>, \<lparr> pr_BaseAddress = 20, pr_NumberOfBytes = 4 \<rparr>,
           \<lparr> pr_BaseAddress = 0, pr_NumberOfBytes = 0 \<rparr>]" by code_simp
  ultimately show ?thesis by blast
qed

lemma small_reachable: "driver_reachable small_api (small_opened, {})"
proof -
  have "driver_reachable small_api (small_machine_0, {})"
    by (rule loaded) (simp_all add: small_machine_0_def small_kernel_0_def small_api_def)
  then show ?thesis
    by (rule steps) (rule create [where st = STATUS_SUCCESS and f = 1],
      simp_all add: small_opened_context small_machine_0_def [THEN arg_cong [where f = mc_files]])
qed

section \<open>The properties\<close>

text \<open>
  The scan for the zero entry ends. On an array shorter than 2^32 entries it returns the number
  of entries before the first all-zero one, and it leaves the array exactly when there is no such
  entry: the loop itself never spins.
\<close>

theorem count_loop_terminates:
  assumes "length arr < 2 ^ 32"
  shows "PhylaCountLoop arr 0 =
    (if length (range_entries arr) < length arr then Some (of_nat (length (range_entries arr))) else None)"
proof (cases "length (range_entries arr) < length arr")
  case True
  then have "range_array arr" using assms by (simp add: range_array_def)
  then show ?thesis using True by (simp add: PhylaCountLoop_terminates)
next
  case False
  moreover have "length (range_entries arr) \<le> length arr"
    by (simp add: range_entries_def length_takeWhile_le)
  ultimately have "range_entries arr = arr"
    using range_entries_take [of arr] by simp
  then show ?thesis using assms PhylaCountLoop_overrun [of arr 0] by simp
qed

theorem count_loop_terminates_witness:
  "PhylaCountLoop [\<lparr> pr_BaseAddress = 8, pr_NumberOfBytes = 8 \<rparr>, \<lparr> pr_BaseAddress = 0, pr_NumberOfBytes = 4 \<rparr>,
     \<lparr> pr_BaseAddress = 0, pr_NumberOfBytes = 0 \<rparr>] 0 = Some 2"
  using count_loop_terminates [of "[\<lparr> pr_BaseAddress = 8, pr_NumberOfBytes = 8 \<rparr>,
     \<lparr> pr_BaseAddress = 0, pr_NumberOfBytes = 4 \<rparr>, \<lparr> pr_BaseAddress = 0, pr_NumberOfBytes = 0 \<rparr>]"]
  by (simp add: range_entries_def is_terminator_def)

text \<open>
  The counters of a session. Over a live block whose valid lengths add up to less than 2^64,
  the total is the sum of the lengths of all ranges that do not wrap around and the end is the
  highest end of these; a range that wraps around changes neither.
\<close>

theorem session_counters:
  assumes "k_pool K k p = Some arr" and "unat n \<le> length arr" and "ranges_bytes (take (unat n) arr) < 2 ^ 64"
  shows "\<exists>t h. PhylaSummarizeRanges K p n k = Some (t, h) \<and>
    unat t = ranges_bytes (take (unat n) arr) \<and> unat h = ranges_end (take (unat n) arr)"
proof -
  let ?s = "summarize (take (unat n) arr) (0, 0)"
  have "PhylaSummarizeRanges K p n k = Some ?s"
    using assms(1,2) PhylaSummarizeLoop_eq [of 0 "unat n" arr "(0, 0)"]
    by (auto simp: PhylaSummarizeRanges_def)
  moreover have "unat (fst ?s) = ranges_bytes (take (unat n) arr)"
    using summarize_total [of 0 "take (unat n) arr" 0] assms(3) by simp
  moreover have "unat (snd ?s) = ranges_end (take (unat n) arr)"
    using summarize_end [of "take (unat n) arr" 0 0] by simp
  ultimately show ?thesis by (cases ?s) auto
qed

theorem session_counters_witness:
  "\<exists>t h. PhylaSummarizeRanges small_api 0x1000 2 (mc_kernel small_opened) = Some (t, h) \<and>
     unat t = 12 \<and> unat h = 24"
  using session_counters [where K = small_api and k = "mc_kernel small_opened" and p = "0x1000" and n = 2 and arr =
      "[\<lparr> pr_BaseAddress = 8, pr_NumberOfBytes = 8 \<rparr>, \<lparr> pr_BaseAddress = 20, pr_NumberOfBytes = 4 \<rparr>,
        \<lparr> pr_BaseAddress = 0, pr_NumberOfBytes = 0 \<rparr>]"] small_opened_context
  by (simp add: ranges_bytes_def ranges_end_def countable_ranges_def)

text \<open>
  C4: The callbacks are memory-safe and return. In every reachable state of the system each control
  request, whatever its code, buffers and file object, is completed; each create request is
  completed; and each clean-up returns: no callback follows a stale or null pointer, leaves an array
  or frees a block twice.
\<close>

theorem driver_never_faults:
  assumes "windows_kernel K" and "driver_reachable K (m, cl)"
  shows "(\<exists>c m'. PhylaEvtIoDeviceControl K req outlen inlen code m = Some (c, m')) \<and>
    (\<exists>st m'. PhylaEvtFileCreate K f m = Some (st, m')) \<and>
    (mc_files m g \<noteq> None \<longrightarrow> (\<exists>m'. PhylaEvtFileCleanup K g m = Some m'))"
proof -
  have ok: "contexts_ok K m"
    using windows_kernel.inv_reachable [OF assms] by (simp add: driver_inv_def)
  show ?thesis
    using windows_kernel.ioctl_completes [OF assms(1) ok, of req outlen inlen code]
      windows_kernel.file_create [OF assms(1) refl, of f m] windows_kernel.file_cleanup [OF assms(1) ok, of g]
    by auto
qed

definition small_request :: WDFREQUEST where
  "small_request = \<lparr> rq_FileObject = 1,
     rq_RetrieveInputBuffer = (\<lambda>n. (STATUS_SUCCESS,
       read_request_bytes \<lparr> rd_RunIndex = 1, rd_Length = 3, rd_OffsetWithinRun = 1 \<rparr>)),
     rq_RetrieveOutputBuffer = (\<lambda>n. (STATUS_SUCCESS, 0x20000)),
     rq_RetrieveOutputWdmMdl = (STATUS_SUCCESS, 0x30000),
     rq_MmGetSystemAddressForMdlSafe = (\<lambda>p. 0x40000),
     rq_MmGetMdlByteCount = (\<lambda>p. 64),
     rq_ReadBack = id \<rparr>"

theorem driver_never_faults_witness:
  "\<exists>c m'. PhylaEvtIoDeviceControl small_api small_request 64 16 IOCTL_PHYLA_READ_RUN small_opened = Some (c, m')"
  using driver_never_faults [OF small.windows_kernel_axioms small_reachable, of small_request 64 16 IOCTL_PHYLA_READ_RUN]
  by blast

text \<open>
  C25: No leak and no sharing. In every reachable state the live blocks are exactly the snapshots of
  the file objects that have not been cleaned up, no two file objects share one, and when no file
  object is left no block is.
\<close>

theorem driver_owns_its_blocks:
  assumes "windows_kernel K" and "driver_reachable K (m, cl)"
  shows "{p. k_pool K (mc_kernel m) p \<noteq> None} = {fc_Ranges c | f c. mc_files m f = Some c \<and> f \<notin> cl} \<and>
    (\<forall>f g c d. mc_files m f = Some c \<and> mc_files m g = Some d \<and> f \<notin> cl \<and> fc_Ranges c = fc_Ranges d \<longrightarrow> f = g) \<and>
    (mc_files m = Map.empty \<longrightarrow> k_pool K (mc_kernel m) = Map.empty)"
proof -
  have inv: "contexts_ok K m" "sole_owner m" "dom (k_pool K (mc_kernel m)) = owned m"
      "\<And>f c. mc_files m f = Some c \<Longrightarrow> f \<in> cl \<longleftrightarrow> fc_Ranges c = 0"
    using windows_kernel.inv_reachable [OF assms] by (auto simp: driver_inv_def)
  have "owned m = {fc_Ranges c | f c. mc_files m f = Some c \<and> f \<notin> cl}"
    using inv(4) by (auto simp: owned_def)
  moreover have "f = g" if "mc_files m f = Some c" "mc_files m g = Some d" "f \<notin> cl" "fc_Ranges c = fc_Ranges d"
    for f g c d
    using inv(2) inv(4) [OF that(1)] that by (simp add: sole_owner_def)
  moreover have "mc_files m = Map.empty \<Longrightarrow> k_pool K (mc_kernel m) = Map.empty"
    using inv(3) by (simp add: owned_def)
  ultimately show ?thesis
    using inv(3) by (auto simp: dom_def)
qed

theorem driver_owns_its_blocks_witness:
  "{p. k_pool small_api (mc_kernel small_opened) p \<noteq> None} =
     {fc_Ranges c | f c. mc_files small_opened f = Some c \<and> f \<notin> {}}"
  using driver_owns_its_blocks [OF small.windows_kernel_axioms small_reachable] by blast

text \<open>
  C28: The type of a file context. In every reachable state the context of a file object that is
  still open describes the block it points to: a terminated, non-empty array, its entry count, the
  sum of its lengths (when that fits 64 bits) and its highest end; the context of a cleaned-up
  object is all zero and marked ended.
\<close>

theorem file_contexts_well_typed:
  assumes "windows_kernel K" and "driver_reachable K (m, cl)" and "mc_files m f = Some c"
  shows "if f \<in> cl
    then c = FILE_CONTEXT_zero \<lparr> fc_SessionEnded := True \<rparr>
    else \<exists>arr. k_pool K (mc_kernel m) (fc_Ranges c) = Some arr \<and> range_array arr \<and>
      fc_RunCount c \<noteq> 0 \<and> unat (fc_RunCount c) = length (range_entries arr) \<and>
      (ranges_bytes (range_entries arr) < 2 ^ 64 \<longrightarrow> unat (fc_TotalBytes c) = ranges_bytes (range_entries arr)) \<and>
      unat (fc_HighestPhysicalEnd c) = ranges_end (range_entries arr)"
proof -
  have ok: "context_ok (k_pool K (mc_kernel m)) c" and cl: "f \<in> cl \<longleftrightarrow> fc_Ranges c = 0"
    using windows_kernel.inv_reachable [OF assms(1,2)] assms(3) by (auto simp: driver_inv_def contexts_ok_def)
  show ?thesis
  proof (cases "f \<in> cl")
    case True
    then show ?thesis
      using ok cl by (cases c) (simp add: context_ok_def FILE_CONTEXT_zero_def)
  next
    case False
    then obtain arr where arr: "k_pool K (mc_kernel m) (fc_Ranges c) = Some arr" "session_over arr c"
      using ok cl by (auto simp: context_ok_def)
    have n: "unat (fc_RunCount c) = length (range_entries arr)"
      using arr(2) by (rule session_over_count)
    have s: "fc_TotalBytes c = fst (summarize (range_entries arr) (0, 0))"
        "fc_HighestPhysicalEnd c = snd (summarize (range_entries arr) (0, 0))"
      using arr(2) by (metis session_over_def fst_conv, metis session_over_def snd_conv)
    have "fc_RunCount c \<noteq> 0"
      using n arr(2) by (auto simp: session_over_def)
    then show ?thesis
      using False arr n summarize_total [of 0 "range_entries arr" 0] summarize_end [of "range_entries arr" 0 0]
      by (intro if_not_P [THEN iffD2] exI [of _ arr]) (simp_all add: s session_over_def)
  qed
qed

theorem file_contexts_well_typed_witness:
  "\<exists>arr. k_pool small_api (mc_kernel small_opened) 0x1000 = Some arr \<and> range_array arr"
  using file_contexts_well_typed [OF small.windows_kernel_axioms small_reachable, of 1] small_opened_context
  by auto

text \<open>
  C26: Physical memory is only read inside the snapshot. Over a live session \<open>PhylaCopyRun\<close> either
  performs one copy whose addresses all lie in the run the request names, returning exactly the
  bytes copied, never more than the payload buffer holds, with the status of the copy; or it refuses
  the request, which then does not fit the run or the buffer, and reads nothing.
\<close>

theorem copy_run_inside_snapshot:
  assumes "windows_kernel K"
    and "k_pool K k (fc_Ranges c) = Some arr" and "session_over arr c" and "fc_Ranges c \<noteq> 0"
    and "\<not> fc_SessionEnded c" and "P \<noteq> 0" and "R \<noteq> 0" and "k_KeGetCurrentIrql K k \<le> APC_LEVEL"
    and "PhylaCopyRun K (Some c) (Some q) P cap R k = Some (st, stored, k')"
  shows "let run = range_entries arr ! unat (rd_RunIndex q);
             a = pr_BaseAddress run + rd_OffsetWithinRun q in
    (st = STATUS_SUCCESS \<and> request_fits (range_entries arr) q \<and> rd_Length q \<le> cap \<and>
     {unat a ..< unat a + unat (rd_Length q)} \<subseteq>
       {unat (pr_BaseAddress run) ..< unat (pr_BaseAddress run) + unat (pr_NumberOfBytes run)} \<and>
     (\<exists>data copied s. k_MmCopyMemory K a (ucast (rd_Length q)) k = (data, copied, s, k') \<and>
        length data \<le> unat cap \<and>
        stored = Some (read_header a (rd_Length q) (of_nat (length data)) s, data)))
    \<or> (st = STATUS_INVALID_PARAMETER \<and> \<not> (request_fits (range_entries arr) q \<and> rd_Length q \<le> cap) \<and>
       stored = None \<and> k' = k)"
proof -
  let ?run = "range_entries arr ! unat (rd_RunIndex q)"
  let ?a = "pr_BaseAddress ?run + rd_OffsetWithinRun q"
  obtain data copied s k1 where m: "k_MmCopyMemory K ?a (ucast (rd_Length q)) k = (data, copied, s, k1)"
    by (metis prod_cases4)
  have n: "length data \<le> unat (rd_Length q)"
    using windows_kernel.copy_count [OF assms(1) m] by (simp add: word_le_nat_alt)
  have "PhylaCopyRun K (Some c) (Some q) P cap R k =
      (if request_fits (range_entries arr) q \<and> rd_Length q \<le> cap
       then Some (STATUS_SUCCESS, Some (read_header ?a (rd_Length q) (of_nat (length data)) s, data), k1)
       else Some (STATUS_INVALID_PARAMETER, None, k))"
    using windows_kernel.copy_run [OF assms(1-7), of q cap] assms(8) m by (simp add: not_less)
  moreover have "{unat ?a ..< unat ?a + unat (rd_Length q)} \<subseteq>
       {unat (pr_BaseAddress ?run) ..< unat (pr_BaseAddress ?run) + unat (pr_NumberOfBytes ?run)}"
    if "request_fits (range_entries arr) q"
    using that unat_add_u64 [of "pr_BaseAddress ?run" "rd_OffsetWithinRun q"]
    by (auto simp: request_fits_def)
  ultimately show ?thesis
    using assms(9) m n by (auto simp: Let_def word_le_nat_alt split: if_splits)
qed

lemma small_session:
  "session_over [\<lparr> pr_BaseAddress = 8, pr_NumberOfBytes = 8 \<rparr>, \<lparr> pr_BaseAddress = 20, pr_NumberOfBytes = 4 \<rparr>,
      \<lparr> pr_BaseAddress = 0, pr_NumberOfBytes = 0 \<rparr>]
    \<lparr> fc_Ranges = 0x1000, fc_RunCount = 2, fc_TotalBytes = 12, fc_HighestPhysicalEnd = 24,
      fc_SessionEnded = False \<rparr>"
  by (simp add: session_over_def range_array_def small_entries)

theorem copy_run_inside_snapshot_witness:
  "\<exists>st stored k'. PhylaCopyRun small_api (mc_files small_opened 1)
      (Some \<lparr> rd_RunIndex = 1, rd_Length = 3, rd_OffsetWithinRun = 1 \<rparr>) 0x40020 32 0x40000 (mc_kernel small_opened) =
        Some (st, stored, k') \<and> st = STATUS_SUCCESS"
proof -
  let ?q = "\<lparr> rd_RunIndex = 1, rd_Length = 3, rd_OffsetWithinRun = 1 \<rparr>"
  obtain st stored k' where r: "PhylaCopyRun small_api (mc_files small_opened 1) (Some ?q) 0x40020 32 0x40000
      (mc_kernel small_opened) = Some (st, stored, k')"
    using small.copy_run_total [of "mc_kernel small_opened" "the (mc_files small_opened 1)" ?q "0x40020" 32 "0x40000"]
      small_opened_context small_session by (auto simp: context_ok_def)
  have "k_KeGetCurrentIrql small_api (mc_kernel small_opened) \<le> APC_LEVEL"
    by (simp add: small_api_def)
  then show ?thesis
    using r copy_run_inside_snapshot [OF small.windows_kernel_axioms _ small_session, of "mc_kernel small_opened"
        "0x40020" "0x40000" ?q 32 st stored k'] small_opened_context
    by (auto simp: small_entries request_fits_def Let_def word_le_nat_alt)
qed

text \<open>
  C27: A control request never stores more than the caller's buffer holds, and a request that fails
  reports and stores nothing. Every request but \<open>READ_RUN\<close> that succeeds reports exactly the bytes it
  stored. \<open>READ_RUN\<close> stores its 32-byte header and the bytes copied, and reports 32 plus the count it
  finds when it reads that count again from the caller's mapped buffer: the bytes it stored as long
  as the caller does not write to its own output buffer meanwhile.
\<close>

theorem ioctl_stays_in_buffer:
  assumes "windows_kernel K" and "driver_reachable K (m, cl)"
    and "PhylaEvtIoDeviceControl K req outlen inlen code m = Some (c, m')"
  shows "if NT_SUCCESS (cp_status c)
    then length (cp_output c) \<le> unat outlen \<and>
      (code \<noteq> IOCTL_PHYLA_READ_RUN \<or> rq_ReadBack req = id \<longrightarrow> unat (cp_information c) = length (cp_output c)) \<and>
      (code = IOCTL_PHYLA_READ_RUN \<longrightarrow> (\<exists>copied. length (cp_output c) = 32 + unat copied \<and>
         cp_information c = 32 + ucast (rq_ReadBack req copied)))
    else cp_information c = 0 \<and> cp_output c = []"
proof -
  have ctx: "contexts_ok K m"
    using windows_kernel.inv_reachable [OF assms(1,2)] by (simp add: driver_inv_def)
  from windows_kernel.ioctl_completes [OF assms(1) ctx, of req outlen inlen code]
    windows_kernel.ioctl_reports [OF assms(1) ctx assms(3)]
  show ?thesis using assms(3) by (auto split: if_splits)
qed

lemma upt_3: "[0..<3] = [0, 1, 2 :: nat]"
  by (simp add: upt_rec)

lemma small_copy:
  "PhylaCopyRun small_api (mc_files small_opened 1) (Some \<lparr> rd_RunIndex = 1, rd_Length = 3, rd_OffsetWithinRun = 1 \<rparr>)
     0x40020 32 0x40000 (mc_kernel small_opened) =
   Some (STATUS_SUCCESS, Some (read_header 21 3 3 0, [22, 23, 24]), mc_kernel small_opened)"
proof -
  let ?q = "\<lparr> rd_RunIndex = 1, rd_Length = 3, rd_OffsetWithinRun = 1 \<rparr>"
  have irql: "\<not> k_KeGetCurrentIrql small_api (mc_kernel small_opened) > APC_LEVEL"
    by (simp add: small_api_def)
  have m: "k_MmCopyMemory small_api 21 3 (mc_kernel small_opened) = ([22, 23, 24], 3, 0, mc_kernel small_opened)"
    by (simp add: small_api_def small_mem_def upt_3)
  show ?thesis
    using small.copy_run [OF _ small_session _ _ _ _ irql, of "0x40020" "0x40000" ?q 32] small_opened_context
    by (simp add: small_entries request_fits_def m word_le_nat_alt Let_def)
qed

lemma small_read:
  "PhylaEvtIoDeviceControl small_api (small_request \<lparr> rq_ReadBack := back \<rparr>) 64 16 IOCTL_PHYLA_READ_RUN small_opened =
     Some (\<lparr> cp_status = STATUS_SUCCESS, cp_information = 32 + ucast (back 3),
       cp_output = read_result_bytes (read_header 21 3 3 0) @ [22, 23, 24] \<rparr>, small_opened)"
proof -
  have q: "read_request_of (read_request_bytes q) = q" for q
    using read_request_of_bytes [of q "[]"] by simp
  have "PhylaHandleReadRun small_api (small_request \<lparr> rq_ReadBack := back \<rparr>) 64 small_opened =
      Some (STATUS_SUCCESS, 32 + ucast (back 3), read_result_bytes (read_header 21 3 3 0) @ [22, 23, 24], small_opened)"
    using small_copy small_opened_context
    by (simp add: PhylaHandleReadRun_def PhylaRequestFileContext_def small_request_def no_session_def q Let_def
        read_header_def)
  then show ?thesis by (simp add: PhylaEvtIoDeviceControl_def)
qed

theorem ioctl_stays_in_buffer_witness:
  "\<exists>c m'. PhylaEvtIoDeviceControl small_api small_request 64 16 IOCTL_PHYLA_READ_RUN small_opened = Some (c, m') \<and>
     NT_SUCCESS (cp_status c) \<and> unat (cp_information c) = length (cp_output c) \<and> length (cp_output c) \<le> 64"
proof -
  obtain c m' where r: "PhylaEvtIoDeviceControl small_api small_request 64 16 IOCTL_PHYLA_READ_RUN small_opened =
      Some (c, m')" "NT_SUCCESS (cp_status c)"
    using small_read [of id] by (simp add: small_request_def)
  show ?thesis
    using ioctl_stays_in_buffer [OF small.windows_kernel_axioms small_reachable r(1)] r
    by (simp add: small_request_def)
qed

text \<open>
  The byte count of \<open>READ_RUN\<close> is read back from the caller's own memory: a caller that overwrites the
  field between the two accesses makes the driver report more bytes than its buffer holds.
\<close>

lemma read_back_is_trusted:
  "\<exists>c. PhylaEvtIoDeviceControl small_api (small_request \<lparr> rq_ReadBack := \<lambda>_. 0x1000 \<rparr>) 64 16 IOCTL_PHYLA_READ_RUN
      small_opened = Some (c, small_opened) \<and> NT_SUCCESS (cp_status c) \<and> unat (cp_information c) > 64"
  by (simp add: small_read)

lemma end_refused:
  assumes "no_session (PhylaRequestFileContext req m)"
  shows "PhylaEvtIoDeviceControl K req outlen inlen IOCTL_PHYLA_END_SESSION m =
    Some (\<lparr> cp_status = (if PhylaRequestFileContext req m = None then STATUS_INVALID_DEVICE_STATE
        else if outlen < 16 then STATUS_BUFFER_TOO_SMALL
        else if \<not> NT_SUCCESS (fst (rq_RetrieveOutputBuffer req 16)) then fst (rq_RetrieveOutputBuffer req 16)
        else STATUS_INVALID_DEVICE_STATE), cp_information = 0, cp_output = [] \<rparr>, m)"
proof (cases "PhylaRequestFileContext req m")
  case None
  then show ?thesis by (simp add: PhylaEvtIoDeviceControl_def PhylaHandleEndSession_def)
next
  case (Some c)
  then have "mc_files m (rq_FileObject req) = Some c" by (simp add: PhylaRequestFileContext_def split: if_splits)
  then have same: "m \<lparr> mc_kernel := mc_kernel m, mc_files := (mc_files m)(rq_FileObject req \<mapsto> c) \<rparr> = m"
    by (simp add: fun_upd_idem)
  have "PhylaSessionEnd K (Some c) True (False, 0) (mc_kernel m) =
      Some (STATUS_INVALID_DEVICE_STATE, (False, 0), Some c, mc_kernel m)"
    using assms Some by (simp add: PhylaSessionEnd_def no_session_def)
  then show ?thesis
    using Some same
    by (cases "rq_RetrieveOutputBuffer req 16") (simp add: PhylaEvtIoDeviceControl_def PhylaHandleEndSession_def Let_def)
qed

lemma hints_without_files:
  "PhylaEvtIoDeviceControl K req outlen inlen IOCTL_PHYLA_QUERY_HINTS (m \<lparr> mc_files := contexts \<rparr>) =
   map_option (\<lambda>(c, m'). (c, m' \<lparr> mc_files := contexts \<rparr>))
     (PhylaEvtIoDeviceControl K req outlen inlen IOCTL_PHYLA_QUERY_HINTS m)"
proof (cases "PhylaQueryKernelHints K (snd (rq_RetrieveOutputBuffer req 64)) (mc_kernel m)")
  case (fields st stored k')
  then show ?thesis
    by (cases "rq_RetrieveOutputBuffer req 64"; cases stored)
      (simp_all add: PhylaEvtIoDeviceControl_def PhylaHandleQueryHints_def Let_def)
qed

text \<open>
  C29: An ended session answers nothing. Once the session of a file object has been ended or released,
  or when the request names no file object, \<open>QUERY_INFO\<close>, \<open>GET_RANGES\<close> and \<open>READ_RUN\<close> are completed with
  \<open>STATUS_INVALID_DEVICE_STATE\<close> whatever their buffers; so is \<open>END_SESSION\<close>, unless it is refused for its
  output buffer before; an unknown code is completed with \<open>STATUS_INVALID_DEVICE_REQUEST\<close>. Nothing is
  reported or stored, and the machine is left as it was. \<open>QUERY_HINTS\<close> is the one request that needs no
  session: its answer and its effect do not depend on the file objects at all.
\<close>

theorem ended_session_refuses:
  assumes "no_session (PhylaRequestFileContext req m)"
  defines "refused \<equiv> \<lambda>st. Some (\<lparr> cp_status = st, cp_information = 0, cp_output = [] \<rparr>, m)"
  shows "(code \<in> {IOCTL_PHYLA_QUERY_INFO, IOCTL_PHYLA_GET_RANGES, IOCTL_PHYLA_READ_RUN} \<longrightarrow>
       PhylaEvtIoDeviceControl K req outlen inlen code m = refused STATUS_INVALID_DEVICE_STATE) \<and>
    (code = IOCTL_PHYLA_END_SESSION \<longrightarrow>
       PhylaEvtIoDeviceControl K req outlen inlen code m =
         refused (if PhylaRequestFileContext req m = None then STATUS_INVALID_DEVICE_STATE
                  else if outlen < 16 then STATUS_BUFFER_TOO_SMALL
                  else if \<not> NT_SUCCESS (fst (rq_RetrieveOutputBuffer req 16)) then fst (rq_RetrieveOutputBuffer req 16)
                  else STATUS_INVALID_DEVICE_STATE)) \<and>
    (code \<notin> {IOCTL_PHYLA_QUERY_INFO, IOCTL_PHYLA_GET_RANGES, IOCTL_PHYLA_READ_RUN, IOCTL_PHYLA_END_SESSION,
        IOCTL_PHYLA_QUERY_HINTS} \<longrightarrow>
       PhylaEvtIoDeviceControl K req outlen inlen code m = refused STATUS_INVALID_DEVICE_REQUEST) \<and>
    (\<forall>contexts. PhylaEvtIoDeviceControl K req outlen inlen IOCTL_PHYLA_QUERY_HINTS (m \<lparr> mc_files := contexts \<rparr>) =
       map_option (\<lambda>(c, m'). (c, m' \<lparr> mc_files := contexts \<rparr>))
         (PhylaEvtIoDeviceControl K req outlen inlen IOCTL_PHYLA_QUERY_HINTS m))"
proof -
  have three: "PhylaEvtIoDeviceControl K req outlen inlen code m = refused STATUS_INVALID_DEVICE_STATE"
    if "code \<in> {IOCTL_PHYLA_QUERY_INFO, IOCTL_PHYLA_GET_RANGES, IOCTL_PHYLA_READ_RUN}"
    using that assms(1)
    by (auto simp: refused_def PhylaEvtIoDeviceControl_def PhylaHandleQueryInfo_def PhylaHandleGetRanges_def
        PhylaHandleReadRun_def Let_def ioctl_distinct [symmetric])
  show ?thesis
    using three end_refused [OF assms(1), of K outlen inlen, folded refused_def]
    by (auto simp: hints_without_files refused_def PhylaEvtIoDeviceControl_def [of K req outlen inlen code])
qed

theorem ended_session_refuses_witness:
  "fst (the (PhylaEvtIoDeviceControl small_api small_request 64 16 IOCTL_PHYLA_READ_RUN small_machine_0)) =
     \<lparr> cp_status = STATUS_INVALID_DEVICE_STATE, cp_information = 0, cp_output = [] \<rparr> \<and>
   fst (the (PhylaEvtIoDeviceControl small_api small_request 64 16 IOCTL_PHYLA_END_SESSION small_machine_0)) =
     \<lparr> cp_status = STATUS_INVALID_DEVICE_STATE, cp_information = 0, cp_output = [] \<rparr>"
proof -
  have "PhylaRequestFileContext small_request small_machine_0 = None"
    by (simp add: PhylaRequestFileContext_def small_machine_0_def)
  then show ?thesis
    using ended_session_refuses [of small_request small_machine_0 IOCTL_PHYLA_READ_RUN small_api 64 16]
      ended_session_refuses [of small_request small_machine_0 IOCTL_PHYLA_END_SESSION small_api 64 16]
    by (simp add: no_session_def)
qed

text \<open>
  C30: Setting the driver up leaves nothing behind when it fails. The device is published exactly
  when \<open>DriverEntry\<close> succeeds; on every failing path the initialisation structure the driver still
  holds is freed exactly once, and a device that was created is deleted exactly once; on success
  neither is. (The framework clears the structure when it takes it over.)
\<close>

theorem driver_entry_cleans_up:
  assumes "wdf_DeviceCreate W = (s, init', device)" and "NT_SUCCESS s \<Longrightarrow> init' = 0"
    and "\<not> NT_SUCCESS s \<Longrightarrow> init' = wdf_DeviceInitAllocate W" and "DriverEntry W = (st, calls)"
  shows "(NT_SUCCESS st \<longleftrightarrow> CallFinishInitializing device \<in> set calls) \<and>
    count_list calls (CallDeviceInitFree (wdf_DeviceInitAllocate W)) =
      (if NT_SUCCESS (wdf_DriverCreate W) \<and> wdf_DeviceInitAllocate W \<noteq> 0 \<and>
          \<not> (NT_SUCCESS (wdf_AssignName W) \<and> NT_SUCCESS s) then 1 else 0) \<and>
    count_list calls (CallObjectDelete device) =
      (if CallCreateSymbolicLink device PHYLA_DOS_DEVICE_NAME \<in> set calls \<and> \<not> NT_SUCCESS st then 1 else 0)"
  using assms
  by (auto simp: DriverEntry_def PhylaCreateControlDevice_def Let_def split: if_splits)

theorem driver_entry_cleans_up_witness:
  "let W = \<lparr> wdf_DriverCreate = 0, wdf_DeviceInitAllocate = 5, wdf_AssignName = 0, wdf_DeviceCreate = (0, 0, 7),
        wdf_CreateSymbolicLink = 0xC0000035, wdf_IoQueueCreate = 0 \<rparr>
   in count_list (snd (DriverEntry W)) (CallObjectDelete 7) = 1 \<and>
      count_list (snd (DriverEntry W)) (CallDeviceInitFree 5) = 0"
proof -
  let ?W = "\<lparr> wdf_DriverCreate = 0, wdf_DeviceInitAllocate = 5, wdf_AssignName = 0, wdf_DeviceCreate = (0, 0, 7),
        wdf_CreateSymbolicLink = 0xC0000035, wdf_IoQueueCreate = 0 \<rparr>"
  show ?thesis
    using driver_entry_cleans_up [of ?W 0 0 7 "fst (DriverEntry ?W)" "snd (DriverEntry ?W)"]
    by (simp add: Let_def NT_SUCCESS_def) (simp add: DriverEntry_def PhylaCreateControlDevice_def Let_def NT_SUCCESS_def)
qed

end
