(* ===== verification/SessionTheorems.thy ===== *)
theory SessionTheorems
  imports DriverSession DriverTheorems
begin

text \<open>
  The properties of the device session, alone and over the driver, and a direct connection to the
  driver on the small kernel to apply them to.
\<close>

section \<open>A direct connection\<close>

definition loop_request :: "u64 \<Rightarrow> bytes \<Rightarrow> u64 \<Rightarrow> WDFREQUEST" where
  "loop_request f input outlen = \<lparr> rq_FileObject = f,
     rq_RetrieveInputBuffer = (\<lambda>n. if length input < unat n then (STATUS_BUFFER_TOO_SMALL, []) else (STATUS_SUCCESS, input)),
     rq_RetrieveOutputBuffer = (\<lambda>n. if outlen < n then (STATUS_BUFFER_TOO_SMALL, 0) else (STATUS_SUCCESS, 0x20000)),
     rq_RetrieveOutputWdmMdl = (STATUS_SUCCESS, 0x30000),
     rq_MmGetSystemAddressForMdlSafe = (\<lambda>p. 0x40000),
     rq_MmGetMdlByteCount = (\<lambda>p. ucast outlen),
     rq_ReadBack = id \<rparr>"

definition loop_io :: "small_kernel machine device_io_control" where
  "loop_io h code input buffer m =
     (case PhylaEvtIoDeviceControl small_api (loop_request h input (of_nat (length buffer)))
             (of_nat (length buffer)) (of_nat (length input)) code m of
        None \<Rightarrow> (False, 0, buffer, m)
      | Some (c, m') \<Rightarrow> (NT_SUCCESS (cp_status c), ucast (cp_information c),
          if NT_SUCCESS (cp_status c) then overlay buffer 0 (cp_output c) else buffer, m'))"

lemma loop_request_for: "request_for h input (loop_request h input outlen)"
  by (auto simp: request_for_def loop_request_def split: if_splits)

interpretation loop: driver_connection small_api loop_io "\<lambda>m. m" "\<lambda>h. h" small_mem
proof
  fix h code input buffer s ok returned buffer' s'
  assume io: "loop_io h code input buffer s = (ok, returned, buffer', s')" and s: "contexts_ok small_api s"
  let ?req = "loop_request h input (of_nat (length buffer))"
  obtain c m' where c: "PhylaEvtIoDeviceControl small_api ?req (of_nat (length buffer)) (of_nat (length input)) code s =
      Some (c, m')"
    using small.ioctl_completes [OF s] by blast
  then show "\<exists>req c m'. request_for h input req \<and>
      PhylaEvtIoDeviceControl small_api req (of_nat (length buffer)) (of_nat (length input)) code s = Some (c, m') \<and>
      same_driver small_api m' s' \<and> ok = NT_SUCCESS (cp_status c) \<and>
      (ok \<longrightarrow> returned = ucast (cp_information c) \<and> buffer' = overlay buffer 0 (cp_output c))"
    using io loop_request_for
    by (intro exI [of _ ?req] exI [of _ c] exI [of _ m']) (auto simp: loop_io_def same_driver_def)
next
  fix a n k data copied st k' j
  assume "k_MmCopyMemory small_api a n k = (data, copied, st, k')" "j < length data"
  then show "data ! j = small_mem (unat a + j)" by (auto simp: small_api_def)
qed

definition small_context :: PHYLA_FILE_CONTEXT where
  "small_context = \<lparr> fc_Ranges = 0x1000, fc_RunCount = 2, fc_TotalBytes = 12, fc_HighestPhysicalEnd = 24,
     fc_SessionEnded = False \<rparr>"

definition small_block :: "PHYSICAL_MEMORY_RANGE list" where
  "small_block = [\<lparr> pr_BaseAddress = 8, pr_NumberOfBytes = 8 \<rparr>, \<lparr> pr_BaseAddress = 20, pr_NumberOfBytes = 4 \<rparr>,
     \<lparr> pr_BaseAddress = 0, pr_NumberOfBytes = 0 \<rparr>]"

definition small_device :: "small_kernel machine DeviceSession" where
  "small_device = (DeviceSession_init small_opened) \<lparr> ds_handle := 1 \<rparr>"

abbreviation small_connected :: "small_kernel machine DeviceSession \<Rightarrow> bool" where
  "small_connected \<equiv> connected small_api (\<lambda>m. m) (\<lambda>h. h) small_context small_block"

lemma small_block_session: "session_over small_block small_context"
  using small_session by (simp add: small_block_def small_context_def)

lemma small_device_connected: "small_connected small_device"
  using small.inv_reachable [OF small_reachable] small_opened_context
  by (simp add: connected_def small_device_def DeviceSession_init_def small_context_def small_block_def driver_inv_def)

lemma small_driver_runs:
  "driver_runs (range_entries small_block) =
     [\<lparr> mr_driverIndex = 0, mr_base = 8, mr_length = 8 \<rparr>, \<lparr> mr_driverIndex = 1, mr_base = 20, mr_length = 4 \<rparr>]"
  by (simp add: driver_runs_def small_block_def small_entries upt_rec)

text \<open>The session is queried end to end.\<close>

lemma loop_query_info:
  "loop_io 1 IOCTL_PHYLA_QUERY_INFO [] (replicate 24 0) small_opened =
     (True, 24, query_info_bytes \<lparr> qi_Version = PHYLA_PROTOCOL_VERSION, qi_RunCount = 2, qi_TotalBytes = 12,
        qi_HighestPhysicalEnd = 24 \<rparr>, small_opened)"
  using small_opened_context
  by (simp add: loop_io_def PhylaEvtIoDeviceControl_def PhylaHandleQueryInfo_def PhylaRequestFileContext_def
      loop_request_def no_session_def overlay_front)

lemma loop_get_ranges:
  "loop_io 1 IOCTL_PHYLA_GET_RANGES [] (replicate 32 0) small_opened =
     (True, 32, concat (map memory_run_bytes (map memory_run_of (range_entries small_block))), small_opened)"
proof -
  have e: "range_entries small_block = [\<lparr> pr_BaseAddress = 8, pr_NumberOfBytes = 8 \<rparr>, \<lparr> pr_BaseAddress = 20, pr_NumberOfBytes = 4 \<rparr>]"
    by (simp add: small_block_def small_entries)
  have "PhylaGetRangesLoop small_block 0 2 =
      Some (concat (map memory_run_bytes (map memory_run_of (range_entries small_block))))"
    using small.get_ranges_loop [OF small_block_session] by (simp add: small_context_def comp_def)
  then show ?thesis
    using small_opened_context
    by (simp add: loop_io_def PhylaEvtIoDeviceControl_def PhylaHandleGetRanges_def PhylaRequestFileContext_def
        loop_request_def no_session_def overlay_front small_block_def [symmetric] u64_max_def e)
qed

lemma small_session_query:
  assumes "ds_handle d = 1" and "ds_sys d = small_opened"
  shows "DeviceSession_Query api loop_io d =
     (True, (24, 12, [\<lparr> mr_driverIndex = 0, mr_base = 8, mr_length = 8 \<rparr>,
        \<lparr> mr_driverIndex = 1, mr_base = 20, mr_length = 4 \<rparr>]), d)"
proof -
  have same: "d \<lparr> ds_sys := small_opened \<rparr> = d" using assms(2) by simp
  let ?raw = "concat (map memory_run_bytes (map memory_run_of (range_entries small_block)))"
  have q: "query_info_of (query_info_bytes i) = i" for i
    using query_info_of_bytes [of i "[]"] by simp
  have runs: "map (received_run ?raw) [0..<2] = [\<lparr> mr_driverIndex = 0, mr_base = 8, mr_length = 8 \<rparr>,
      \<lparr> mr_driverIndex = 1, mr_base = 20, mr_length = 4 \<rparr>]"
    using driver_connection.received_entry [OF loop.driver_connection_axioms, of 0 "range_entries small_block" "[]"]
      driver_connection.received_entry [OF loop.driver_connection_axioms, of 1 "range_entries small_block" "[]"]
    by (simp add: upt_rec small_block_def small_entries)
  have "run_ok (received_run ?raw j)" if "j < 2" for j
  proof -
    have "received_run ?raw j \<in> set (map (received_run ?raw) [0..<2])" using that by simp
    then show ?thesis unfolding runs by (auto simp: run_ok_def)
  qed
  then have "take_runs ?raw 0 2 [] = (True, map (received_run ?raw) [0..<2])"
    by (subst take_runs_iff) (simp_all add: upt_rec)
  then show ?thesis
    using loop_query_info loop_get_ranges runs
    by (simp add: DeviceSession_Query_def DeviceSession_control_def assms same INVALID_HANDLE_VALUE_def q)
qed

lemma small_query:
  "DeviceSession_Query api loop_io small_device =
     (True, (24, 12, [\<lparr> mr_driverIndex = 0, mr_base = 8, mr_length = 8 \<rparr>,
        \<lparr> mr_driverIndex = 1, mr_base = 20, mr_length = 4 \<rparr>]), small_device)"
  by (rule small_session_query) (simp_all add: small_device_def DeviceSession_init_def)

text \<open>The session is ended end to end: the topology of the small kernel never changes.\<close>

lemma small_session_end:
  "\<exists>n c k. PhylaSessionEnd small_api (Some small_context) True (False, 0) (mc_kernel small_opened) =
     Some (STATUS_SUCCESS, (False, n), c, k)"
proof -
  have "map_option (\<lambda>(st, out, c, k). (st, fst out))
      (PhylaSessionEnd small_api (Some small_context) True (False, 0) (mc_kernel small_opened)) = Some (STATUS_SUCCESS, False)"
    by code_simp
  then show ?thesis by (auto simp: map_option_case split: option.splits)
qed

lemma small_device_end:
  assumes "ds_handle d = 1" and "ds_sys d = small_opened"
  shows "\<exists>d'. DeviceSession_End api loop_io d = (True, False, d')"
proof -
  obtain n c k where e: "PhylaSessionEnd small_api (Some small_context) True (False, 0) (mc_kernel small_opened) =
      Some (STATUS_SUCCESS, (False, n), c, k)" using small_session_end by blast
  have "mc_files small_opened 1 = Some small_context"
    using small_opened_context by (simp add: small_context_def)
  then have "\<exists>m. loop_io 1 IOCTL_PHYLA_END_SESSION [] (replicate 16 0) small_opened =
      (True, 16, end_result_bytes \<lparr> er_Version = PHYLA_PROTOCOL_VERSION, er_TopologyChanged = 0, er_CurrentRunCount = n,
         er_Reserved = 0 \<rparr>, m)"
    using e by (simp add: loop_io_def PhylaEvtIoDeviceControl_def PhylaHandleEndSession_def PhylaRequestFileContext_def
        loop_request_def overlay_front Let_def)
  then show ?thesis
    using assms end_result_of_bytes [of _ "[]"]
    by (auto simp: DeviceSession_End_def DeviceSession_control_def Let_def INVALID_HANDLE_VALUE_def)
qed

section \<open>The properties\<close>

text \<open>
  C32: What \<open>Query\<close> accepts. Whatever the driver answers, a successful query made the two requests,
  \<open>info\<close> and \<open>raw\<close> are the buffers they were answered with, and the version is the protocol's. Its runs are
  the entries of \<open>raw\<close>, as many as \<open>info\<close> announces, each with its position as driver index, in
  ascending order; none is empty or wraps around the address space and no two overlap. The totals
  are those of \<open>info\<close>.
\<close>

theorem query_accepts_disjoint_runs:
  assumes "DeviceSession_Query api io d = (True, (hi, tot, rs), d')"
  shows "runs_wf rs \<and> rs \<noteq> [] \<and> length rs \<le> 1024 * 1024 \<and>
    (\<exists>info raw. answered_query io (ds_handle d) (ds_sys d) info raw (length rs) (ds_sys d') \<and>
       tot = u64_at info 8 \<and> hi = u64_at info 16 \<and> mset rs = mset (map (entry_run raw) [0..<length rs]))"
  using assms by (rule Query_runs_wf)

theorem query_accepts_disjoint_runs_witness:
  "\<forall>api. \<exists>rs. fst (DeviceSession_Query api loop_io small_device) \<and>
     rs = snd (snd (fst (snd (DeviceSession_Query api loop_io small_device)))) \<and> length rs = 2 \<and> runs_wf rs"
  using query_accepts_disjoint_runs [OF small_query] by (simp add: small_query)

text \<open>
  C6: The device session over the driver is the abstract device of the acquisition engine. For a
  session the driver serves, \<open>DeviceSession\<close> keeps the contract of \<open>IDeviceSession\<close>, and it shows one
  frozen memory: every successful query reports the same counters and the runs of the kernel's
  snapshot, and every byte a successful read returns is the physical memory at the address it
  reports, through both sides of the protocol and the checks on both.
\<close>

theorem driver_session_refines_memory:
  assumes "driver_connection K io mach fobj mem" and "session_over arr c" and "connected K mach fobj c arr d"
  shows "device_contract (DeviceSession_class api io) (connected K mach fobj c arr) \<and>
    frozen_memory (DeviceSession_class api io) (connected K mach fobj c arr) mem
      (fc_HighestPhysicalEnd c) (fc_TotalBytes c) (driver_runs (range_entries arr)) \<and>
    (\<forall>r d'. DeviceSession_Query api io d = (True, r, d') \<longrightarrow>
       r = (fc_HighestPhysicalEnd c, fc_TotalBytes c, driver_runs (range_entries arr)))"
  using connected_contract [OF assms(1)] connected_frozen [OF assms(1,2)] assms(3)
  by (auto simp: frozen_memory_def DeviceSession_class_def)

theorem driver_session_refines_memory_witness:
  "\<forall>api. frozen_memory (DeviceSession_class api loop_io) small_connected small_mem 24 12
     [\<lparr> mr_driverIndex = 0, mr_base = 8, mr_length = 8 \<rparr>, \<lparr> mr_driverIndex = 1, mr_base = 20, mr_length = 4 \<rparr>] \<and>
   small_connected small_device"
  using driver_session_refines_memory [OF loop.driver_connection_axioms small_block_session small_device_connected]
    small_device_connected
  by (simp add: small_driver_runs) (simp add: small_context_def)

text \<open>
  C31: A topology change is reported. When \<open>End\<close> succeeds over the driver, the session was live, and
  \<open>topologyChanged\<close> says exactly whether the ranges the kernel reports at that moment differ from the
  snapshot the session was opened with; the session is ended in the driver.
\<close>

theorem end_reports_topology_change:
  assumes "driver_connection K io mach fobj mem" and "connected K mach fobj c arr d"
    and "DeviceSession_End api io d = (True, changed, d')"
  shows "\<exists>p k1 brr. k_MmGetPhysicalMemoryRangesEx2 K (mc_kernel (mach (ds_sys d))) = (p, k1) \<and> p \<noteq> 0 \<and>
    k_pool K k1 p = Some brr \<and> (changed \<longleftrightarrow> range_entries brr \<noteq> range_entries arr) \<and>
    mc_files (mach (ds_sys d)) (fobj (ds_handle d)) = Some c \<and> \<not> fc_SessionEnded c \<and>
    mc_files (mach (ds_sys d')) (fobj (ds_handle d)) = Some (c \<lparr> fc_SessionEnded := True \<rparr>)"
  by (rule driver_connection.end_reports_change [OF assms(1,3,2)])

theorem end_reports_topology_change_witness:
  "\<forall>api. \<exists>changed d'. DeviceSession_End api loop_io small_device = (True, changed, d') \<and>
     mc_files (ds_sys d') 1 = Some (small_context \<lparr> fc_SessionEnded := True \<rparr>)"
proof
  fix api :: "small_kernel machine win32"
  obtain changed d' where e: "DeviceSession_End api loop_io small_device = (True, changed, d')"
    using small_device_end [of small_device api] by (auto simp: small_device_def DeviceSession_init_def)
  show "\<exists>changed d'. DeviceSession_End api loop_io small_device = (True, changed, d') \<and>
     mc_files (ds_sys d') 1 = Some (small_context \<lparr> fc_SessionEnded := True \<rparr>)"
    using end_reports_topology_change [OF loop.driver_connection_axioms small_device_connected e] e
    by (auto simp: small_device_def)
qed

end
