(* ===== verification/CommandLine.thy ===== *)
theory CommandLine
  imports Interfaces Format
begin

text \<open>
  The command line of the capture program (\<open>cli/main.cpp\<close>): options, the number parser and the
  argument parser with its error texts and the rules on which options go together. A command line
  that renders options is read back as the same options.
\<close>

section \<open>Options\<close>

datatype Command = Capture | DryRun | Gui | Help

record CliOptions =
  cl_command :: Command
  cl_outputPath :: wstring
  cl_quiet :: bool
  cl_json :: bool
  cl_rateLimitMBps :: u32
  cl_format :: OutputFormat
  cl_metadata :: EvidenceMetadata

definition CliOptions_default :: CliOptions where
  "CliOptions_default = \<lparr> cl_command = Capture, cl_outputPath = [], cl_quiet = False, cl_json = False,
     cl_rateLimitMBps = 0, cl_format = Raw, cl_metadata = EvidenceMetadata_default \<rparr>"

section \<open>Numbers\<close>

definition iswdigit :: "wchar \<Rightarrow> bool" where
  "iswdigit c \<longleftrightarrow> 0x30 \<le> c \<and> c \<le> 0x39"

definition digits_value :: "wstring \<Rightarrow> nat" where
  "digits_value = foldl (\<lambda>v c. 10 * v + unat (c - 0x30)) 0"

text \<open>\<open>wcstoull\<close> on a text that starts with a digit: value, unread rest, range error.\<close>

definition wcstoull :: "wstring \<Rightarrow> nat \<times> wstring \<times> bool" where
  "wcstoull text =
     (let v = digits_value (takeWhile iswdigit text); rest = dropWhile iswdigit text
      in if v < 2 ^ 64 then (v, rest, False) else (2 ^ 64 - 1, rest, True))"

definition ParseUint32 :: "wstring \<Rightarrow> u32 option" where
  "ParseUint32 text =
     (if text = [] then None
      else if \<not> list_all iswdigit text then None
      else (case wcstoull text of (parsed, rest, erange) \<Rightarrow>
              if erange \<or> rest = text \<or> rest \<noteq> [] \<or> parsed > 2 ^ 32 - 1 then None
              else Some (of_nat parsed)))"

section \<open>Arguments\<close>

record cli_scan =
  cs_options :: CliOptions
  cs_sawGui :: bool
  cs_sawHelp :: bool
  cs_sawDryRun :: bool

definition set_metadata :: "(EvidenceMetadata \<Rightarrow> EvidenceMetadata) \<Rightarrow> cli_scan \<Rightarrow> cli_scan" where
  "set_metadata f s = s \<lparr> cs_options := (cs_options s) \<lparr> cl_metadata := f (cl_metadata (cs_options s)) \<rparr> \<rparr>"

definition ParseFormat :: "wstring \<Rightarrow> OutputFormat option" where
  "ParseFormat text =
     (let fmt = map towlower text
      in if fmt = wide ''raw'' then Some Raw
         else if fmt = wide ''zdmp'' \<or> fmt = wide ''dmp'' then Some Zdmp
         else if fmt = wide ''e01'' then Some E01 else None)"

fun ParseArguments :: "wstring list \<Rightarrow> cli_scan \<Rightarrow> wstring + cli_scan" where
  "ParseArguments [] s = Inr s"
| "ParseArguments (argument # rest) s =
     (if argument = wide ''--help'' \<or> argument = wide ''-h'' then ParseArguments rest (s \<lparr> cs_sawHelp := True \<rparr>)
      else if argument = wide ''--gui'' then ParseArguments rest (s \<lparr> cs_sawGui := True \<rparr>)
      else if argument = wide ''--dry-run'' then ParseArguments rest (s \<lparr> cs_sawDryRun := True \<rparr>)
      else if argument = wide ''--json''
      then ParseArguments rest (s \<lparr> cs_options := (cs_options s) \<lparr> cl_json := True \<rparr> \<rparr>)
      else if argument = wide ''--quiet''
      then ParseArguments rest (s \<lparr> cs_options := (cs_options s) \<lparr> cl_quiet := True \<rparr> \<rparr>)
      else if argument = wide ''--format''
      then (case rest of
              [] \<Rightarrow> Inl (wide ''--format requires a format name (raw, zdmp, dmp, e01).'')
            | fmt # rest' \<Rightarrow>
                (case ParseFormat fmt of
                   None \<Rightarrow> Inl (wide ''Unknown --format value: '' @ map towlower fmt @
                               wide ''. Supported formats: raw, zdmp, dmp, e01.'')
                 | Some f \<Rightarrow> ParseArguments rest' (s \<lparr> cs_options := (cs_options s) \<lparr> cl_format := f \<rparr> \<rparr>)))
      else if argument = wide ''--case-number''
      then (case rest of
              [] \<Rightarrow> Inl (wide ''--case-number requires a string argument.'')
            | v # rest' \<Rightarrow> ParseArguments rest' (set_metadata (em_caseNumber_update (\<lambda>_. v)) s))
      else if argument = wide ''--evidence-number''
      then (case rest of
              [] \<Rightarrow> Inl (wide ''--evidence-number requires a string argument.'')
            | v # rest' \<Rightarrow> ParseArguments rest' (set_metadata (em_evidenceNumber_update (\<lambda>_. v)) s))
      else if argument = wide ''--examiner''
      then (case rest of
              [] \<Rightarrow> Inl (wide ''--examiner requires a string argument.'')
            | v # rest' \<Rightarrow> ParseArguments rest' (set_metadata (em_examiner_update (\<lambda>_. v)) s))
      else if argument = wide ''--description''
      then (case rest of
              [] \<Rightarrow> Inl (wide ''--description requires a string argument.'')
            | v # rest' \<Rightarrow> ParseArguments rest' (set_metadata (em_description_update (\<lambda>_. v)) s))
      else if argument = wide ''--notes''
      then (case rest of
              [] \<Rightarrow> Inl (wide ''--notes requires a string argument.'')
            | v # rest' \<Rightarrow> ParseArguments rest' (set_metadata (em_notes_update (\<lambda>_. v)) s))
      else if argument = wide ''--rate-limit''
      then (case rest of
              [] \<Rightarrow> Inl (wide ''--rate-limit requires a non-negative integer MiB/s value.'')
            | v # rest' \<Rightarrow>
                (case ParseUint32 v of
                   None \<Rightarrow> Inl (wide ''Invalid --rate-limit value.'')
                 | Some n \<Rightarrow>
                     ParseArguments rest' (s \<lparr> cs_options := (cs_options s) \<lparr> cl_rateLimitMBps := n \<rparr> \<rparr>)))
      else if argument \<noteq> [] \<and> hd argument = 0x2D then Inl (wide ''Unknown option: '' @ argument)
      else if cl_outputPath (cs_options s) \<noteq> []
      then Inl (wide ''Only one evidence output path may be specified.'')
      else ParseArguments rest (s \<lparr> cs_options := (cs_options s) \<lparr> cl_outputPath := argument \<rparr> \<rparr>))"

text \<open>After the last argument: the mode, and which options it accepts.\<close>

definition ChooseCommand :: "cli_scan \<Rightarrow> wstring + CliOptions" where
  "ChooseCommand s =
     (let options = cs_options s;
          modeCount = of_bool (cs_sawGui s) + of_bool (cs_sawHelp s) + of_bool (cs_sawDryRun s) :: nat
      in if modeCount > 1 then Inl (wide ''--gui, --help, and --dry-run are mutually exclusive modes.'')
         else if cs_sawHelp s then Inr (options \<lparr> cl_command := Help \<rparr>)
         else if cs_sawGui s
         then (if cl_outputPath options \<noteq> [] \<or> cl_json options \<or> cl_rateLimitMBps options \<noteq> 0 \<or> cl_quiet options
               then Inl (wide ''--gui does not accept capture-mode options.'')
               else Inr (options \<lparr> cl_command := Gui \<rparr>))
         else if cs_sawDryRun s
         then (if cl_outputPath options \<noteq> [] \<or> cl_rateLimitMBps options \<noteq> 0
               then Inl (wide ''--dry-run does not accept an output path or rate limit.'')
               else Inr (options \<lparr> cl_command := DryRun \<rparr>))
         else if cl_json options then Inl (wide ''--json is supported only with --dry-run.'')
         else if cl_outputPath options = [] then Inl (wide ''An evidence output path is required.'')
         else if cl_outputPath options = wide ''-''
         then Inl (wide ''Raw stdout acquisition is not supported because unreadable-byte provenance requires a companion map.'')
         else Inr (options \<lparr> cl_command := Capture \<rparr>))"

text \<open>\<open>argv\<close> with the program name at its head; \<open>options\<close> is value-initialised by the only caller.\<close>

definition ParseCommandLine :: "wstring list \<Rightarrow> CliOptions \<Rightarrow> wstring + CliOptions" where
  "ParseCommandLine argv options =
     (case ParseArguments (tl argv)
             \<lparr> cs_options = options, cs_sawGui = False, cs_sawHelp = False, cs_sawDryRun = False \<rparr> of
        Inl e \<Rightarrow> Inl e
      | Inr s \<Rightarrow> ChooseCommand s)"

section \<open>Rendering\<close>

text \<open>A command line for the given options: the reference the parser is compared with.\<close>

definition format_name :: "OutputFormat \<Rightarrow> wstring" where
  "format_name f = (case f of Raw \<Rightarrow> wide ''raw'' | Zdmp \<Rightarrow> wide ''zdmp'' | E01 \<Rightarrow> wide ''e01'')"

definition command_line :: "CliOptions \<Rightarrow> wstring list" where
  "command_line opts =
     (case cl_command opts of Capture \<Rightarrow> [] | DryRun \<Rightarrow> [wide ''--dry-run''] | Gui \<Rightarrow> [wide ''--gui'']
        | Help \<Rightarrow> [wide ''--help'']) @
     (if cl_json opts then [wide ''--json''] else []) @
     (if cl_quiet opts then [wide ''--quiet''] else []) @
     [wide ''--format'', format_name (cl_format opts)] @
     [wide ''--case-number'', em_caseNumber (cl_metadata opts)] @
     [wide ''--evidence-number'', em_evidenceNumber (cl_metadata opts)] @
     [wide ''--examiner'', em_examiner (cl_metadata opts)] @
     [wide ''--description'', em_description (cl_metadata opts)] @
     [wide ''--notes'', em_notes (cl_metadata opts)] @
     [wide ''--rate-limit'', wide (dec (unat (cl_rateLimitMBps opts)))] @
     (if cl_outputPath opts = [] then [] else [cl_outputPath opts])"

text \<open>The options a mode accepts, and a path that is not taken for an option.\<close>

definition options_allowed :: "CliOptions \<Rightarrow> bool" where
  "options_allowed opts \<longleftrightarrow>
     (cl_outputPath opts \<noteq> [] \<longrightarrow> hd (cl_outputPath opts) \<noteq> 0x2D) \<and>
     (case cl_command opts of
        Capture \<Rightarrow> \<not> cl_json opts \<and> cl_outputPath opts \<noteq> []
      | DryRun \<Rightarrow> cl_outputPath opts = [] \<and> cl_rateLimitMBps opts = 0
      | Gui \<Rightarrow> cl_outputPath opts = [] \<and> \<not> cl_json opts \<and> \<not> cl_quiet opts \<and> cl_rateLimitMBps opts = 0
      | Help \<Rightarrow> True)"

end
