(* ===== verification/CommandLineTheorems.thy ===== *)
theory CommandLineTheorems
  imports CommandLine
begin

text \<open>
  The parser against its reference: one lemma per option, the number parser on decimal numerals, and
  the two properties of the command line.
\<close>

section \<open>Numerals\<close>

lemma wide_append [simp]: "wide (s @ t) = wide s @ wide t"
  by (simp add: wide_def)

lemma digit_cases: "d < 10 \<Longrightarrow> d \<in> {0, 1, 2, 3, 4, 5, 6, 7, 8, 9 :: nat}"
  by auto

lemma wide_single: "wide [c] = [of_nat (of_char c :: nat)]"
  by (simp add: wide_def of_nat_of_char)

lemma wide_digit: "d < 10 \<Longrightarrow> wide [digit_char upper d] = [0x30 + of_nat d]"
  by (drule digit_cases) (auto simp: wide_single digit_char_def)

lemma unat_digit: "d < 10 \<Longrightarrow> unat (of_nat d :: u16) = d"
  by (drule digit_cases) auto

lemma iswdigit_digit: "d < 10 \<Longrightarrow> iswdigit (0x30 + of_nat d)"
  by (drule digit_cases) (auto simp: iswdigit_def)

lemma wide_numeral: "list_all iswdigit (wide (dec n)) \<and> digits_value (wide (dec n)) = n"
proof (induction n rule: less_induct)
  case (less n)
  show ?case
  proof (cases "n < 10")
    case True
    then show ?thesis
      by (simp add: dec_def to_base.simps wide_digit iswdigit_digit digits_value_def unat_digit)
  next
    case False
    then have "wide (dec n) = wide (dec (n div 10)) @ [0x30 + of_nat (n mod 10)]"
      by (simp add: dec_def to_base.simps [of _ _ n] wide_digit)
    moreover have "n div 10 < n" using False by simp
    ultimately show ?thesis
      using less.IH [of "n div 10"] by (simp add: iswdigit_digit digits_value_def unat_digit)
  qed
qed

lemma ParseUint32_numeral: "ParseUint32 (wide (dec (unat (x :: u32)))) = Some x"
proof -
  let ?t = "wide (dec (unat x))"
  have d: "list_all iswdigit ?t" "digits_value ?t = unat x" using wide_numeral by simp_all
  have t: "takeWhile iswdigit ?t = ?t" "dropWhile iswdigit ?t = []"
    using d(1) by (simp_all add: list_all_iff)
  have "unat x < 2 ^ 64" "unat x \<le> 2 ^ 32 - 1"
    using unat_lt_u32 [of x] by (simp_all del: unat_lt_u32)
  moreover from this have "wcstoull ?t = (unat x, [], False)"
    unfolding wcstoull_def t d(2) Let_def by simp
  moreover have "?t \<noteq> []" by (simp add: wide_def dec_def)
  ultimately show ?thesis
    using d(1) by (simp add: ParseUint32_def not_less)
qed

section \<open>One option at a time\<close>

lemma parse_flags [simp]:
  "ParseArguments (wide ''--help'' # rest) s = ParseArguments rest (s \<lparr> cs_sawHelp := True \<rparr>)"
  "ParseArguments (wide ''--gui'' # rest) s = ParseArguments rest (s \<lparr> cs_sawGui := True \<rparr>)"
  "ParseArguments (wide ''--dry-run'' # rest) s = ParseArguments rest (s \<lparr> cs_sawDryRun := True \<rparr>)"
  "ParseArguments (wide ''--json'' # rest) s =
     ParseArguments rest (s \<lparr> cs_options := (cs_options s) \<lparr> cl_json := True \<rparr> \<rparr>)"
  "ParseArguments (wide ''--quiet'' # rest) s =
     ParseArguments rest (s \<lparr> cs_options := (cs_options s) \<lparr> cl_quiet := True \<rparr> \<rparr>)"
  by (simp_all add: wide_def)

lemma parse_format [simp]:
  "ParseArguments (wide ''--format'' # format_name f # rest) s =
     ParseArguments rest (s \<lparr> cs_options := (cs_options s) \<lparr> cl_format := f \<rparr> \<rparr>)"
proof -
  have "ParseFormat (format_name f) = Some f"
    by (cases f) (simp_all add: ParseFormat_def format_name_def wide_def towlower_def)
  then show ?thesis by (simp add: wide_def)
qed

lemma parse_metadata [simp]:
  "ParseArguments (wide ''--case-number'' # v # rest) s =
     ParseArguments rest (set_metadata (em_caseNumber_update (\<lambda>_. v)) s)"
  "ParseArguments (wide ''--evidence-number'' # v # rest) s =
     ParseArguments rest (set_metadata (em_evidenceNumber_update (\<lambda>_. v)) s)"
  "ParseArguments (wide ''--examiner'' # v # rest) s =
     ParseArguments rest (set_metadata (em_examiner_update (\<lambda>_. v)) s)"
  "ParseArguments (wide ''--description'' # v # rest) s =
     ParseArguments rest (set_metadata (em_description_update (\<lambda>_. v)) s)"
  "ParseArguments (wide ''--notes'' # v # rest) s =
     ParseArguments rest (set_metadata (em_notes_update (\<lambda>_. v)) s)"
  by (simp_all add: wide_def)

lemma parse_rate [simp]:
  "ParseArguments (wide ''--rate-limit'' # wide (dec (unat n)) # rest) s =
     ParseArguments rest (s \<lparr> cs_options := (cs_options s) \<lparr> cl_rateLimitMBps := n \<rparr> \<rparr>)"
proof -
  have "ParseArguments (wide ''--rate-limit'' # v # rest) s =
      (case ParseUint32 v of None \<Rightarrow> Inl (wide ''Invalid --rate-limit value.'')
       | Some n \<Rightarrow> ParseArguments rest (s \<lparr> cs_options := (cs_options s) \<lparr> cl_rateLimitMBps := n \<rparr> \<rparr>))" for v
    by (simp add: wide_def)
  then show ?thesis by (simp add: ParseUint32_numeral)
qed

lemma parse_path:
  assumes "p \<noteq> []" and "hd p \<noteq> 0x2D" and "cl_outputPath (cs_options s) = []"
  shows "ParseArguments (p # rest) s = ParseArguments rest (s \<lparr> cs_options := (cs_options s) \<lparr> cl_outputPath := p \<rparr> \<rparr>)"
  using assms by (cases p) (auto simp: wide_def)

section \<open>The output path\<close>

definition path_plain :: "wstring \<Rightarrow> bool" where
  "path_plain p \<longleftrightarrow> p = [] \<or> hd p \<noteq> 0x2D"

lemma set_metadata_path [simp]: "cl_outputPath (cs_options (set_metadata f s)) = cl_outputPath (cs_options s)"
  by (simp add: set_metadata_def)

lemma ParseArguments_path:
  "ParseArguments args s = Inr s' \<Longrightarrow> path_plain (cl_outputPath (cs_options s)) \<Longrightarrow>
   path_plain (cl_outputPath (cs_options s'))"
proof (induction "length args" arbitrary: args s rule: less_induct)
  case less
  show ?case
  proof (cases args)
    case Nil
    then show ?thesis using less.prems by simp
  next
    case (Cons argument rest)
    have IH: "path_plain (cl_outputPath (cs_options s'))"
      if "ParseArguments r t = Inr s'" "length r \<le> length rest" "path_plain (cl_outputPath (cs_options t))" for r t
      using less.hyps [of r t] that Cons by simp
    have plain: "path_plain argument" if "\<not> (argument \<noteq> [] \<and> hd argument = 0x2D)"
      using that by (auto simp: path_plain_def)
    show ?thesis
      using less.prems unfolding Cons
      apply (simp only: ParseArguments.simps split: if_splits list.splits option.splits)
      apply ((erule IH, simp, simp add: plain del: not_less) | simp)+
      done
  qed
qed

section \<open>The properties\<close>

text \<open>
  C33: The parser reads what was meant. Rendered as a command line, any options the program accepts,
  with any metadata, format and rate limit, are parsed back to exactly the same options.
\<close>

theorem command_line_round_trip:
  assumes "options_allowed opts"
  shows "ParseCommandLine (prog # command_line opts) CliOptions_default = Inr opts"
proof -
  let ?s = "\<lparr> cs_options = opts \<lparr> cl_command := Capture, cl_outputPath := [] \<rparr>, cs_sawGui = (cl_command opts = Gui),
      cs_sawHelp = (cl_command opts = Help), cs_sawDryRun = (cl_command opts = DryRun) \<rparr>"
  obtain c p q j r f md where o: "opts = \<lparr> cl_command = c, cl_outputPath = p, cl_quiet = q, cl_json = j,
      cl_rateLimitMBps = r, cl_format = f, cl_metadata = md \<rparr>" by (cases opts)
  obtain m1 m2 m3 m4 m5 where m: "md = \<lparr> em_caseNumber = m1, em_evidenceNumber = m2, em_examiner = m3,
      em_description = m4, em_notes = m5 \<rparr>" by (cases md)
  have "ParseArguments (command_line opts) \<lparr> cs_options = CliOptions_default, cs_sawGui = False, cs_sawHelp = False,
      cs_sawDryRun = False \<rparr> = ParseArguments (if p = [] then [] else [p]) ?s"
    unfolding o m command_line_def CliOptions_default_def
    by (cases c; cases j; cases q) (simp_all add: set_metadata_def EvidenceMetadata_default_def del: ParseArguments.simps(2))
  also have "\<dots> = Inr (?s \<lparr> cs_options := opts \<lparr> cl_command := Capture \<rparr> \<rparr>)"
    using assms parse_path [of p ?s "[]"] by (auto simp: o options_allowed_def)
  finally show ?thesis
    using assms by (cases c) (auto simp: ParseCommandLine_def ChooseCommand_def o options_allowed_def wide_def Let_def)
qed

text \<open>
  C34: What is run is well formed. Accepted options carry only what their mode accepts: a capture has
  a non-empty output path that does not start with a dash, so that neither standard output nor a
  misspelt option is ever taken for a path, and no JSON flag; a dry run has neither path nor rate
  limit; the graphical interface has no path, JSON flag, rate limit or quiet flag.
\<close>

theorem accepted_options_consistent:
  assumes "ParseCommandLine argv CliOptions_default = Inr opts"
  shows "case cl_command opts of
      Capture \<Rightarrow> cl_outputPath opts \<noteq> [] \<and> hd (cl_outputPath opts) \<noteq> 0x2D \<and> \<not> cl_json opts
    | DryRun \<Rightarrow> cl_outputPath opts = [] \<and> cl_rateLimitMBps opts = 0
    | Gui \<Rightarrow> cl_outputPath opts = [] \<and> \<not> cl_json opts \<and> cl_rateLimitMBps opts = 0 \<and> \<not> cl_quiet opts
    | Help \<Rightarrow> True"
proof -
  obtain s where s: "ParseArguments (tl argv) \<lparr> cs_options = CliOptions_default, cs_sawGui = False,
      cs_sawHelp = False, cs_sawDryRun = False \<rparr> = Inr s" "ChooseCommand s = Inr opts"
    using assms by (auto simp: ParseCommandLine_def split: sum.splits)
  have "path_plain (cl_outputPath (cs_options s))"
    using ParseArguments_path [OF s(1)] by (simp add: path_plain_def CliOptions_default_def)
  then show ?thesis
    using s(2) by (auto simp: ChooseCommand_def path_plain_def Let_def split: if_splits)
qed

theorem accepted_options_consistent_witness:
  "\<exists>opts. ParseCommandLine [wide ''phylaram'', wide ''--quiet'', wide ''ram.raw''] CliOptions_default = Inr opts \<and>
     cl_outputPath opts = wide ''ram.raw'' \<and> hd (cl_outputPath opts) \<noteq> 0x2D \<and> cl_quiet opts"
proof -
  have p: "ParseCommandLine [wide ''phylaram'', wide ''--quiet'', wide ''ram.raw''] CliOptions_default =
      Inr (CliOptions_default \<lparr> cl_quiet := True, cl_outputPath := wide ''ram.raw'' \<rparr>)"
    by (simp add: ParseCommandLine_def ChooseCommand_def CliOptions_default_def wide_def Let_def)
  show ?thesis
    using accepted_options_consistent [OF p] p by (simp add: CliOptions_default_def)
qed

theorem command_line_round_trip_witness:
  "ParseCommandLine (wide ''phylaram'' # command_line (CliOptions_default \<lparr> cl_outputPath := wide ''C:ram.e01'',
       cl_rateLimitMBps := 250, cl_format := E01 \<rparr>)) CliOptions_default =
     Inr (CliOptions_default \<lparr> cl_outputPath := wide ''C:ram.e01'', cl_rateLimitMBps := 250, cl_format := E01 \<rparr>)"
  by (rule command_line_round_trip) (simp add: options_allowed_def CliOptions_default_def wide_def)

end
