(* ===== verification/DriverResource.thy ===== *)
theory DriverResource
  imports RawWriter Format
begin

text \<open>
  Extraction of the embedded driver (\<open>cli/driver_resource.cpp\<close>): the staging directory with its
  protected access list, the unpredictable file name, and the durable copy of the resource. The
  resource, security, environment and random-number calls are a parameter (\<open>staging\<close>) beside the
  file API.
\<close>

section \<open>The calls\<close>

record 's staging =
  sg_FindResourceW :: "'s \<Rightarrow> u64"
  sg_LoadResource :: "u64 \<Rightarrow> 's \<Rightarrow> u64"
  sg_SizeofResource :: "u64 \<Rightarrow> 's \<Rightarrow> u32"
  sg_LockResource :: "u64 \<Rightarrow> 's \<Rightarrow> bytes option"
  sg_ConvertStringSecurityDescriptor :: "wstring \<Rightarrow> 's \<Rightarrow> bool \<times> u64 \<times> 's"
  sg_GetSecurityDescriptorDacl :: "u64 \<Rightarrow> 's \<Rightarrow> bool \<times> bool \<times> u64"
  sg_SetNamedSecurityInfoW :: "wstring \<Rightarrow> u64 \<Rightarrow> 's \<Rightarrow> u32 \<times> 's"
  sg_LocalFree :: "u64 \<Rightarrow> 's \<Rightarrow> 's"
  sg_CreateDirectoryW :: "wstring \<Rightarrow> u64 \<Rightarrow> 's \<Rightarrow> bool \<times> 's"
  sg_GetEnvironmentVariableW :: "wstring \<Rightarrow> 's \<Rightarrow> u32 \<times> wstring"
  sg_BCryptGenRandom :: "nat \<Rightarrow> 's \<Rightarrow> u32 \<times> bytes \<times> 's"

definition ERROR_ALREADY_EXISTS :: u32 where "ERROR_ALREADY_EXISTS = 183"
definition ERROR_INVALID_SECURITY_DESCR :: u32 where "ERROR_INVALID_SECURITY_DESCR = 1338"
definition FILE_ATTRIBUTE_DIRECTORY :: u32 where "FILE_ATTRIBUTE_DIRECTORY = 0x10"

definition kProtectedAdminDacl :: wstring where
  "kProtectedAdminDacl = wide ''D:P(A;;GA;;;SY)(A;;GA;;;BA)''"

section \<open>The staging directory\<close>

definition ApplyProtectedAdminDacl :: "'s staging \<Rightarrow> wstring \<Rightarrow> 's \<Rightarrow> bool \<times> 's" where
  "ApplyProtectedAdminDacl G path s =
     (case sg_ConvertStringSecurityDescriptor G kProtectedAdminDacl s of (ok, descriptor, s) \<Rightarrow>
        if \<not> ok then (False, s)
        else
          (case sg_GetSecurityDescriptorDacl G descriptor s of (gotDacl, daclPresent, dacl) \<Rightarrow>
             case (if gotDacl \<and> daclPresent \<and> dacl \<noteq> 0 then sg_SetNamedSecurityInfoW G path dacl s
                   else (ERROR_INVALID_SECURITY_DESCR, s)) of
               (result, s) \<Rightarrow> (result = ERROR_SUCCESS, sg_LocalFree G descriptor s)))"

definition CreateSecureDirectory :: "'s win32 \<Rightarrow> 's staging \<Rightarrow> wstring \<Rightarrow> 's \<Rightarrow> bool \<times> 's" where
  "CreateSecureDirectory api G directoryPath s =
     (case sg_ConvertStringSecurityDescriptor G kProtectedAdminDacl s of (ok, descriptor, s) \<Rightarrow>
        if \<not> ok then (False, s)
        else
          (case sg_CreateDirectoryW G directoryPath descriptor s of (created, s) \<Rightarrow>
             let createError = w_GetLastError api s; s = sg_LocalFree G descriptor s
             in if \<not> created \<and> createError \<noteq> ERROR_ALREADY_EXISTS then (False, s)
                else
                  (case w_GetFileAttributesW api directoryPath s of (fileAttributes, s) \<Rightarrow>
                     if fileAttributes = INVALID_FILE_ATTRIBUTES \<or> fileAttributes AND FILE_ATTRIBUTE_DIRECTORY = 0
                     then (False, s)
                     else ApplyProtectedAdminDacl G directoryPath s)))"

text \<open>The base directory: below \<open>%ProgramData%\<close>, or below \<open>%SystemRoot%\<close> when that is not set.\<close>

definition ExtractionBase :: "'s staging \<Rightarrow> 's \<Rightarrow> wstring" where
  "ExtractionBase G s =
     (case sg_GetEnvironmentVariableW G (wide ''ProgramData'') s of (programDataLength, programData) \<Rightarrow>
        if programDataLength > 0 \<and> unat programDataLength \<le> MAX_PATH
        then programData @ wide (CHR 0x5C # ''PhylaRAM'')
        else
          (case sg_GetEnvironmentVariableW G (wide ''SystemRoot'') s of (systemRootLength, systemRoot) \<Rightarrow>
             if systemRootLength = 0 \<or> unat systemRootLength > MAX_PATH then []
             else systemRoot @ wide (CHR 0x5C # ''Temp'') @ wide (CHR 0x5C # ''PhylaRAM'')))"

definition ResolveExtractionDirectory :: "'s win32 \<Rightarrow> 's staging \<Rightarrow> 's \<Rightarrow> wstring \<times> 's" where
  "ResolveExtractionDirectory api G s =
     (let baseDirectory = ExtractionBase G s
      in if baseDirectory = [] then ([], s)
         else
           (case CreateSecureDirectory api G baseDirectory s of
              (False, s) \<Rightarrow> ([], s)
            | (True, s) \<Rightarrow>
                let tempDirectory = baseDirectory @ wide (CHR 0x5C # ''Temp'')
                in case CreateSecureDirectory api G tempDirectory s of
                     (False, s) \<Rightarrow> ([], s)
                   | (True, s) \<Rightarrow> (tempDirectory, s)))"

definition driver_file_name :: "bytes \<Rightarrow> wstring" where
  "driver_file_name randomBytes =
     wide (CHR 0x5C # ''phylaram_drv_'') @ concat (map (\<lambda>b. wide (hex2 b)) randomBytes) @ wide ''.sys''"

definition GenerateUnpredictableDriverPath :: "'s win32 \<Rightarrow> 's staging \<Rightarrow> 's \<Rightarrow> wstring \<times> 's" where
  "GenerateUnpredictableDriverPath api G s =
     (case ResolveExtractionDirectory api G s of (directory, s) \<Rightarrow>
        if directory = [] then ([], s)
        else
          (case sg_BCryptGenRandom G 16 s of (randomStatus, randomBytes, s) \<Rightarrow>
             if randomStatus \<ge> 0x80000000 then ([], s)
             else (directory @ driver_file_name randomBytes, s)))"

section \<open>The extraction\<close>

text \<open>
  The write loop: \<open>cursor\<close> are the \<open>remaining\<close> bytes behind the pointer. Each call is given all of them
  and moves the pointer by what it reports, which is never more than it was given.
\<close>

function ExtractLoop :: "'s win32 \<Rightarrow> u64 \<Rightarrow> bytes \<Rightarrow> 's \<Rightarrow> bool \<times> 's" where
  "ExtractLoop api h cursor s =
     (if cursor = [] then (True, s)
      else
        (case w_WriteFile api h cursor s of (ok, written, s') \<Rightarrow>
           if \<not> ok \<or> written = 0 then (False, s')
           else ExtractLoop api h (drop (unat written) cursor) s'))"
  by pat_completeness auto

termination
  by (relation "measure (\<lambda>(api, h, cursor, s). length cursor)") (auto simp: unat_gt_0)

declare ExtractLoop.simps [simp del]

text \<open>On a resource, which is shorter than 4 GiB, it is the loop of the other writers in one chunk.\<close>

lemma ExtractLoop_WriteAll:
  assumes "length xs < 2 ^ 32"
  shows "ExtractLoop api h (drop k xs) s = WriteAll api 0xFFFFFFFF h xs k s"
proof (induction "length xs - k" arbitrary: k s rule: less_induct)
  case less
  show ?case
  proof (cases "k < length xs")
    case True
    obtain ok m t where w: "w_WriteFile api h (drop k xs) s = (ok, m, t)" by (metis prod_cases3)
    have "min (length xs - k) 0xFFFFFFFF = length xs - k" using assms by simp
    moreover have "ExtractLoop api h (drop (unat m) (drop k xs)) t = WriteAll api 0xFFFFFFFF h xs (k + unat m) t"
      if "m \<noteq> 0"
    proof -
      have "0 < unat m" using that by (simp add: unat_gt_0)
      then have "length xs - (k + unat m) < length xs - k" using True by simp
      from less.hyps [OF this] show ?thesis by (simp add: add.commute)
    qed
    ultimately show ?thesis
      using True w by (simp add: ExtractLoop.simps [of api h "drop k xs" s] WriteAll.simps [of api _ h xs k s] Let_def)
  qed (simp add: ExtractLoop.simps [of api h "[]" s] WriteAll.simps [of api _ h xs k s])
qed

lemma ExtractLoop_resource:
  "ExtractLoop api h (take (unat (n :: u32)) xs) s = WriteAll api 0xFFFFFFFF h (take (unat n) xs) 0 s"
proof -
  have "length (take (unat n) xs) < 2 ^ 32" using unat_lt_u32 [of n] by (simp only: length_take min_less_iff_disj) simp
  from ExtractLoop_WriteAll [OF this, where k = 0] show ?thesis by simp
qed

definition ExtractEmbeddedDriver :: "'s win32 \<Rightarrow> 's staging \<Rightarrow> 's \<Rightarrow> bool \<times> wstring \<times> 's" where
  "ExtractEmbeddedDriver api G s =
     (let resource = sg_FindResourceW G s
      in if resource = 0 then (False, [], s)
         else
           (let loadedResource = sg_LoadResource G resource s
            in if loadedResource = 0 then (False, [], s)
               else
                 (let resourceSize = sg_SizeofResource G resource s
                  in case sg_LockResource G loadedResource s of
                       None \<Rightarrow> (False, [], s)
                     | Some resourceBytes \<Rightarrow>
                         if resourceSize = 0 then (False, [], s)
                         else
                           (case GenerateUnpredictableDriverPath api G s of (driverPath, s) \<Rightarrow>
                              if driverPath = [] then (False, [], s)
                              else
                                (case sg_ConvertStringSecurityDescriptor G kProtectedAdminDacl s of (ok, descriptor, s) \<Rightarrow>
                                   if \<not> ok then (False, [], s)
                                   else
                                     (case w_CreateFileW api driverPath GENERIC_WRITE CREATE_NEW s of (h, s) \<Rightarrow>
                                        let s = sg_LocalFree G descriptor s
                                        in if h = INVALID_HANDLE_VALUE then (False, [], s)
                                           else
                                             (case ExtractLoop api h (take (unat resourceSize) resourceBytes) s of
                                                (False, s) \<Rightarrow>
                                                  (False, [], snd (w_DeleteFileW api driverPath (handle_reset api h s)))
                                              | (True, s) \<Rightarrow>
                                                  (case w_FlushFileBuffers api h s of
                                                     (False, s) \<Rightarrow>
                                                       (False, [], snd (w_DeleteFileW api driverPath (handle_reset api h s)))
                                                   | (True, s) \<Rightarrow> (True, driverPath, handle_reset api h s)))))))))"

end
