(* ===== verification/ServiceControl.thy ===== *)
theory ServiceControl
  imports DriverResource Host
begin

text \<open>
  The life of the driver service (\<open>cli/driver_service.cpp\<close>): removing a stale service, installing,
  starting, stopping and deleting it with bounded waits, and \<open>DriverRuntime\<close>, which owns the service
  and the extracted driver file. The service control manager is a parameter (\<open>scm\<close>); the state is
  the system together with the host's clock.
\<close>

section \<open>The service control manager\<close>

record 's scm =
  sc_OpenSCManagerW :: "u32 \<Rightarrow> 's \<Rightarrow> u64 \<times> 's"
  sc_OpenServiceW :: "u64 \<Rightarrow> u32 \<Rightarrow> 's \<Rightarrow> u64 \<times> 's"
  sc_CreateServiceW :: "u64 \<Rightarrow> wstring \<Rightarrow> 's \<Rightarrow> u64 \<times> 's"
  sc_StartServiceW :: "u64 \<Rightarrow> 's \<Rightarrow> bool \<times> 's"
  sc_ControlServiceStop :: "u64 \<Rightarrow> 's \<Rightarrow> bool \<times> 's"
  sc_QueryServiceStatusEx :: "u64 \<Rightarrow> 's \<Rightarrow> bool \<times> u32 \<times> 's"
  sc_DeleteService :: "u64 \<Rightarrow> 's \<Rightarrow> bool \<times> 's"
  sc_CloseServiceHandle :: "u64 \<Rightarrow> 's \<Rightarrow> 's"
  sc_FormatMessageW :: "u32 \<Rightarrow> 's \<Rightarrow> wstring option"

definition SERVICE_STOPPED :: u32 where "SERVICE_STOPPED = 1"
definition SERVICE_RUNNING :: u32 where "SERVICE_RUNNING = 4"
definition SC_MANAGER_CONNECT :: u32 where "SC_MANAGER_CONNECT = 1"
definition SC_MANAGER_CREATE_SERVICE :: u32 where "SC_MANAGER_CREATE_SERVICE = 2"
definition SERVICE_QUERY_STATUS :: u32 where "SERVICE_QUERY_STATUS = 4"
definition SERVICE_STOP :: u32 where "SERVICE_STOP = 0x20"
definition DELETE :: u32 where "DELETE = 0x10000"

definition ERROR_FILE_NOT_FOUND :: u32 where "ERROR_FILE_NOT_FOUND = 2"
definition ERROR_PATH_NOT_FOUND :: u32 where "ERROR_PATH_NOT_FOUND = 3"
definition ERROR_ACCESS_DENIED :: u32 where "ERROR_ACCESS_DENIED = 5"
definition ERROR_SHARING_VIOLATION :: u32 where "ERROR_SHARING_VIOLATION = 32"
definition ERROR_INVALID_IMAGE_HASH :: u32 where "ERROR_INVALID_IMAGE_HASH = 577"
definition ERROR_SERVICE_ALREADY_RUNNING :: u32 where "ERROR_SERVICE_ALREADY_RUNNING = 1056"
definition ERROR_SERVICE_DOES_NOT_EXIST :: u32 where "ERROR_SERVICE_DOES_NOT_EXIST = 1060"
definition ERROR_SERVICE_NOT_ACTIVE :: u32 where "ERROR_SERVICE_NOT_ACTIVE = 1062"
definition ERROR_SERVICE_MARKED_FOR_DELETE :: u32 where "ERROR_SERVICE_MARKED_FOR_DELETE = 1072"
definition ERROR_DRIVER_BLOCKED :: u32 where "ERROR_DRIVER_BLOCKED = 1275"

definition kServiceTransitionTimeoutMs :: nat where "kServiceTransitionTimeoutMs = 5000"
definition kServicePollInterval :: int where "kServicePollInterval = 50 * 1000000"
definition kDeleteFileAttempts :: nat where "kDeleteFileAttempts = 50"
definition kDeleteFileRetryInterval :: int where "kDeleteFileRetryInterval = 100 * 1000000"

type_synonym 's timed = "'s \<times> host"

text \<open>\<open>~ScopedServiceHandle\<close> / \<open>Reset()\<close> with \<open>ServiceHandleDeleter\<close>.\<close>

definition service_reset :: "'s scm \<Rightarrow> u64 \<Rightarrow> 's timed \<Rightarrow> 's timed" where
  "service_reset M h st = (if h \<noteq> 0 then (sc_CloseServiceHandle M h (fst st), snd st) else st)"

section \<open>Error texts\<close>

definition FormatDriverStartError :: "'s scm \<Rightarrow> u32 \<Rightarrow> 's \<Rightarrow> wstring" where
  "FormatDriverStartError M error s =
     wide (''Error '' @ dec (unat error) @ '' (0x'' @ to_base False 16 (unat error) @ ''): '') @
     (if error = ERROR_INVALID_IMAGE_HASH
      then wide (''Windows rejected the kernel-driver signature. '' @
        ''The alpha build is test-signed and belongs only in a dedicated test environment configured for test signing. '' @
        ''Do not weaken Secure Boot or code-integrity policy on an evidence system.'')
      else if error = ERROR_DRIVER_BLOCKED
      then wide (''Windows blocked the driver under the active code-integrity policy. '' @
        ''Use a production Microsoft-signed driver when testing with HVCI/Memory Integrity enabled.'')
      else if error = ERROR_ACCESS_DENIED
      then wide ''Administrator privileges are required, or endpoint policy denied driver loading.''
      else if error = ERROR_FILE_NOT_FOUND \<or> error = ERROR_PATH_NOT_FOUND
      then wide ''The Service Control Manager could not open the extracted driver path.''
      else (case sc_FormatMessageW M error s of
              Some text \<Rightarrow> text
            | None \<Rightarrow> wide ''Service Control Manager error.''))"

section \<open>Waiting\<close>

text \<open>Every poll sleeps at least the interval, so the deadline comes nearer.\<close>

lemma wait_step_decreases:
  assumes "clock_now h = (t, h1)" and "t < deadline"
  shows "h_now h < deadline \<and> h_now h < h_now (sleep_for kServicePollInterval h1)"
proof -
  have "t = h_now h1" "h_now h \<le> t" using clock_nowD [OF assms(1)] by auto
  moreover have "h_now h1 + 50000000 \<le> h_now (sleep_for kServicePollInterval h1)"
    using sleep_for_now [of h1 kServicePollInterval] by (simp add: kServicePollInterval_def)
  ultimately show ?thesis using assms(2) by linarith
qed

function WaitLoop :: "'s scm \<Rightarrow> u64 \<Rightarrow> u32 \<Rightarrow> int \<Rightarrow> 's \<Rightarrow> host \<Rightarrow> bool \<times> 's timed" where
  "WaitLoop M service desiredState deadline s h =
     (case clock_now h of (t, h1) \<Rightarrow>
        if t < deadline
        then (case sc_QueryServiceStatusEx M service s of (ok, state, s1) \<Rightarrow>
                if \<not> ok then (False, s1, h1)
                else if state = desiredState then (True, s1, h1)
                else WaitLoop M service desiredState deadline s1 (sleep_for kServicePollInterval h1))
        else (False, s, h1))"
  by pat_completeness auto

termination
  by (relation "measure (\<lambda>(M, service, desiredState, deadline, s, h). nat (deadline - h_now h))")
    (auto dest: wait_step_decreases [OF sym])

declare WaitLoop.simps [simp del]

definition WaitForServiceState :: "'s scm \<Rightarrow> u64 \<Rightarrow> u32 \<Rightarrow> nat \<Rightarrow> 's timed \<Rightarrow> bool \<times> 's timed" where
  "WaitForServiceState M service desiredState timeoutMilliseconds st =
     (case clock_now (snd st) of (t, h) \<Rightarrow>
        WaitLoop M service desiredState (t + int timeoutMilliseconds * 1000000) (fst st) h)"

definition StopServiceIfRunning :: "'s win32 \<Rightarrow> 's scm \<Rightarrow> u64 \<Rightarrow> 's timed \<Rightarrow> bool \<times> 's timed" where
  "StopServiceIfRunning api M service st =
     (case sc_QueryServiceStatusEx M service (fst st) of (ok, state, s) \<Rightarrow>
        if \<not> ok then (False, s, snd st)
        else if state = SERVICE_STOPPED then (True, s, snd st)
        else
          (case sc_ControlServiceStop M service s of (stopped, s) \<Rightarrow>
             if \<not> stopped \<and> w_GetLastError api s \<noteq> ERROR_SERVICE_NOT_ACTIVE then (False, s, snd st)
             else WaitForServiceState M service SERVICE_STOPPED kServiceTransitionTimeoutMs (s, snd st)))"

fun DeletedLoop :: "'s win32 \<Rightarrow> 's scm \<Rightarrow> u64 \<Rightarrow> nat \<Rightarrow> 's timed \<Rightarrow> bool \<times> 's timed" where
  "DeletedLoop api M scm 0 st = (False, st)"
| "DeletedLoop api M scm (Suc attempts) st =
     (case sc_OpenServiceW M scm SERVICE_QUERY_STATUS (fst st) of (probe, s) \<Rightarrow>
        if probe = 0 then (w_GetLastError api s = ERROR_SERVICE_DOES_NOT_EXIST, s, snd st)
        else DeletedLoop api M scm attempts
               (service_reset M probe (s, sleep_for kDeleteFileRetryInterval (snd st))))"

definition WaitUntilServiceIsDeleted :: "'s win32 \<Rightarrow> 's scm \<Rightarrow> u64 \<Rightarrow> 's timed \<Rightarrow> bool \<times> 's timed" where
  "WaitUntilServiceIsDeleted api M scm st = DeletedLoop api M scm 50 st"

section \<open>Services\<close>

definition RemoveExistingService :: "'s win32 \<Rightarrow> 's scm \<Rightarrow> u64 \<Rightarrow> 's timed \<Rightarrow> bool \<times> 's timed" where
  "RemoveExistingService api M scm st =
     (case sc_OpenServiceW M scm (SERVICE_STOP OR DELETE OR SERVICE_QUERY_STATUS) (fst st) of (service, s) \<Rightarrow>
        if service = 0 then (w_GetLastError api s = ERROR_SERVICE_DOES_NOT_EXIST, s, snd st)
        else
          (case StopServiceIfRunning api M service (s, snd st) of
             (False, st) \<Rightarrow> (False, service_reset M service st)
           | (True, st) \<Rightarrow>
               (case sc_DeleteService M service (fst st) of (deleted, s) \<Rightarrow>
                  if \<not> deleted \<and> w_GetLastError api s \<noteq> ERROR_SERVICE_MARKED_FOR_DELETE
                  then (False, service_reset M service (s, snd st))
                  else WaitUntilServiceIsDeleted api M scm (service_reset M service (s, snd st)))))"

definition BestEffortDeleteService :: "'s win32 \<Rightarrow> 's scm \<Rightarrow> u64 \<Rightarrow> 's timed \<Rightarrow> 's timed" where
  "BestEffortDeleteService api M service st =
     (case StopServiceIfRunning api M service st of (_, st) \<Rightarrow>
        (snd (sc_DeleteService M service (fst st)), snd st))"

fun DeleteFileLoop :: "'s win32 \<Rightarrow> wstring \<Rightarrow> nat \<Rightarrow> 's timed \<Rightarrow> u32 \<times> 's timed" where
  "DeleteFileLoop api path 0 st = (w_GetLastError api (fst st), st)"
| "DeleteFileLoop api path (Suc attempts) st =
     (case w_DeleteFileW api path (fst st) of (ok, s) \<Rightarrow>
        if ok then (ERROR_SUCCESS, s, snd st)
        else
          (let error = w_GetLastError api s
           in if error = ERROR_FILE_NOT_FOUND then (ERROR_SUCCESS, s, snd st)
              else if error \<noteq> ERROR_SHARING_VIOLATION \<and> error \<noteq> ERROR_ACCESS_DENIED then (error, s, snd st)
              else DeleteFileLoop api path attempts (s, sleep_for kDeleteFileRetryInterval (snd st))))"

definition DeleteExtractedDriver :: "'s win32 \<Rightarrow> wstring \<Rightarrow> 's timed \<Rightarrow> u32 \<times> 's timed" where
  "DeleteExtractedDriver api path st =
     (if path = [] then (ERROR_SUCCESS, st) else DeleteFileLoop api path kDeleteFileAttempts st)"

text \<open>After the service exists: start it and wait for it, or take it away again.\<close>

definition StartInstalled :: "'s win32 \<Rightarrow> 's scm \<Rightarrow> u64 \<Rightarrow> 's timed \<Rightarrow> bool \<times> wstring \<times> 's timed" where
  "StartInstalled api M service st =
     (case sc_StartServiceW M service (fst st) of (started, s) \<Rightarrow>
        let error = w_GetLastError api s
        in if \<not> started \<and> error \<noteq> ERROR_SERVICE_ALREADY_RUNNING
           then (let st = BestEffortDeleteService api M service (s, snd st)
                 in (False, wide ''StartServiceW failed: '' @ FormatDriverStartError M error (fst st), st))
           else
             (case WaitForServiceState M service SERVICE_RUNNING kServiceTransitionTimeoutMs (s, snd st) of
                (False, st) \<Rightarrow>
                  (False, wide ''The driver service did not reach SERVICE_RUNNING before the timeout.'',
                   BestEffortDeleteService api M service st)
              | (True, st) \<Rightarrow> (True, [], st)))"

definition InstallAndStartDriver :: "'s win32 \<Rightarrow> 's scm \<Rightarrow> wstring \<Rightarrow> 's timed \<Rightarrow> bool \<times> wstring \<times> 's timed" where
  "InstallAndStartDriver api M sysPath st =
     (case sc_OpenSCManagerW M (SC_MANAGER_CONNECT OR SC_MANAGER_CREATE_SERVICE) (fst st) of (scm, s) \<Rightarrow>
        if scm = 0
        then (False, wide ''OpenSCManagerW failed: '' @ FormatDriverStartError M (w_GetLastError api s) s, s, snd st)
        else
          (case RemoveExistingService api M scm (s, snd st) of
             (False, st) \<Rightarrow>
               (False, wide ''A previous PhylaRAM service instance could not be stopped and deleted safely.'',
                service_reset M scm st)
           | (True, st) \<Rightarrow>
               (case sc_CreateServiceW M scm sysPath (fst st) of (service, s) \<Rightarrow>
                  if service = 0
                  then (False, wide ''CreateServiceW failed: '' @ FormatDriverStartError M (w_GetLastError api s) s,
                        service_reset M scm (s, snd st))
                  else
                    (case StartInstalled api M service (s, snd st) of (ok, errorText, st) \<Rightarrow>
                       (ok, errorText, service_reset M scm (service_reset M service st))))))"

definition StopAndDeleteDriver :: "'s win32 \<Rightarrow> 's scm \<Rightarrow> 's timed \<Rightarrow> u32 \<times> 's timed" where
  "StopAndDeleteDriver api M st =
     (case sc_OpenSCManagerW M SC_MANAGER_CONNECT (fst st) of (scm, s) \<Rightarrow>
        if scm = 0 then (w_GetLastError api s, s, snd st)
        else
          (case sc_OpenServiceW M scm (SERVICE_STOP OR DELETE OR SERVICE_QUERY_STATUS) s of (service, s) \<Rightarrow>
             if service = 0
             then (let error = w_GetLastError api s
                   in (if error = ERROR_SERVICE_DOES_NOT_EXIST then ERROR_SUCCESS else error,
                       service_reset M scm (s, snd st)))
             else
               (case StopServiceIfRunning api M service (s, snd st) of
                  (False, st) \<Rightarrow>
                    (w_GetLastError api (fst st), service_reset M scm (service_reset M service st))
                | (True, st) \<Rightarrow>
                    (case sc_DeleteService M service (fst st) of (deleted, s) \<Rightarrow>
                       let error = w_GetLastError api s
                       in (if \<not> deleted \<and> error \<noteq> ERROR_SERVICE_MARKED_FOR_DELETE then error else ERROR_SUCCESS,
                           service_reset M scm (service_reset M service (s, snd st)))))))"

section \<open>The runtime\<close>

record 's DriverRuntime =
  dr_st :: "'s timed"
  dr_extractedDriverPath :: wstring
  dr_serviceStarted :: bool

definition DriverRuntime_init :: "'s timed \<Rightarrow> 's DriverRuntime" where
  "DriverRuntime_init st = \<lparr> dr_st = st, dr_extractedDriverPath = [], dr_serviceStarted = False \<rparr>"

definition DriverRuntime_Start ::
  "'s win32 \<Rightarrow> 's staging \<Rightarrow> 's scm \<Rightarrow> 's DriverRuntime \<Rightarrow> bool \<times> wstring \<times> 's DriverRuntime" where
  "DriverRuntime_Start api G M r =
     (if dr_serviceStarted r \<or> dr_extractedDriverPath r \<noteq> []
      then (False, wide ''Driver runtime is already active.'', r)
      else
        (case ExtractEmbeddedDriver api G (fst (dr_st r)) of (extracted, extractedPath, s) \<Rightarrow>
           let st = (s, snd (dr_st r))
           in if \<not> extracted
              then (False, wide ''Failed to extract the embedded PhylaRAM driver into the protected staging directory.'',
                    r \<lparr> dr_st := st \<rparr>)
              else
                (case InstallAndStartDriver api M extractedPath st of
                   (False, errorText, st) \<Rightarrow>
                     (False, errorText, r \<lparr> dr_st := snd (DeleteExtractedDriver api extractedPath st) \<rparr>)
                 | (True, errorText, st) \<Rightarrow>
                     (True, errorText, r \<lparr> dr_st := st, dr_extractedDriverPath := extractedPath,
                                           dr_serviceStarted := True \<rparr>))))"

definition DriverRuntime_Stop :: "'s win32 \<Rightarrow> 's scm \<Rightarrow> 's DriverRuntime \<Rightarrow> u32 \<times> 's DriverRuntime" where
  "DriverRuntime_Stop api M r =
     (case (if dr_serviceStarted r then StopAndDeleteDriver api M (dr_st r) else (ERROR_SUCCESS, dr_st r)) of
        (firstError, st) \<Rightarrow>
          (case DeleteExtractedDriver api (dr_extractedDriverPath r) st of (fileError, st) \<Rightarrow>
             (if firstError \<noteq> ERROR_SUCCESS then firstError else fileError,
              r \<lparr> dr_st := st, dr_extractedDriverPath := [], dr_serviceStarted := False \<rparr>)))"

end
