(* ===== verification/StagingContract.thy ===== *)
theory StagingContract
  imports DriverResource
begin

text \<open>
  What the extraction relies on of the calls beside the file API, and what it does to the files: on
  success one new file with the resource, on failure nothing.
\<close>

locale staging_system = win32_files api files opened
  for api :: "'s win32" and files :: "'s \<Rightarrow> wstring \<Rightarrow> bytes option"
    and opened :: "'s \<Rightarrow> u64 \<Rightarrow> (wstring \<times> nat) option" +
  fixes G :: "'s staging"
  assumes convert_frame:
      "sg_ConvertStringSecurityDescriptor G d s = (ok, x, s') \<Longrightarrow> files s' = files s \<and> opened s' = opened s"
    and security_frame:
      "sg_SetNamedSecurityInfoW G p x s = (r, s') \<Longrightarrow> files s' = files s \<and> opened s' = opened s"
    and free_frame: "files (sg_LocalFree G x s) = files s \<and> opened (sg_LocalFree G x s) = opened s"
    and directory_frame:
      "sg_CreateDirectoryW G p x s = (ok, s') \<Longrightarrow> files s' = files s \<and> opened s' = opened s"
    and random_frame:
      "sg_BCryptGenRandom G n s = (r, bs, s') \<Longrightarrow> files s' = files s \<and> opened s' = opened s"
begin

definition same_files :: "'s \<Rightarrow> 's \<Rightarrow> bool" where
  "same_files s s' \<longleftrightarrow> files s' = files s \<and> opened s' = opened s"

lemma same_files_refl [simp]: "same_files s s"
  by (simp add: same_files_def)

lemma same_files_trans: "same_files s t \<Longrightarrow> same_files t u \<Longrightarrow> same_files s u"
  by (simp add: same_files_def)

lemma acl_same: "ApplyProtectedAdminDacl G p s = (ok, s') \<Longrightarrow> same_files s s'"
  using convert_frame security_frame free_frame
  by (fastforce simp: ApplyProtectedAdminDacl_def same_files_def split: prod.splits if_splits)

lemma directory_same:
  assumes "CreateSecureDirectory api G p s = (ok, s')"
  shows "same_files s s'"
proof -
  obtain b x s1 where c: "sg_ConvertStringSecurityDescriptor G kProtectedAdminDacl s = (b, x, s1)"
    by (metis prod_cases3)
  obtain created s2 where d: "sg_CreateDirectoryW G p x s1 = (created, s2)" by fastforce
  let ?s3 = "sg_LocalFree G x s2"
  obtain a s4 where f: "w_GetFileAttributesW api p ?s3 = (a, s4)" by fastforce
  have "same_files s s1" "same_files s s2" "same_files s ?s3" "same_files s s4"
    using convert_frame [OF c] directory_frame [OF d] free_frame [of x s2] attributes_frame [OF f]
    by (simp_all add: same_files_def)
  moreover have "s' = s1 \<or> s' = ?s3 \<or> s' = s4 \<or> ApplyProtectedAdminDacl G p s4 = (ok, s')"
    using assms c d f by (auto simp: CreateSecureDirectory_def Let_def split: if_splits)
  ultimately show ?thesis using acl_same same_files_trans by blast
qed

lemma path_same:
  assumes "GenerateUnpredictableDriverPath api G s = (path, s')"
  shows "same_files s s'"
proof -
  obtain dir t where d: "ResolveExtractionDirectory api G s = (dir, t)" by fastforce
  have "same_files s t"
    using d directory_same same_files_trans
    by (auto simp: ResolveExtractionDirectory_def Let_def split: if_splits prod.splits bool.splits) blast+
  then show ?thesis
    using assms d random_frame
    by (fastforce simp: GenerateUnpredictableDriverPath_def same_files_def split: if_splits prod.splits)
qed

lemma delete_restores:
  assumes "deletes_work api files" and "only_file files p s t" and "files s p = None"
  shows "files (snd (w_DeleteFileW api p t)) = files s"
proof -
  obtain b u where d: "w_DeleteFileW api p t = (b, u)" by fastforce
  show ?thesis
  proof (cases "files t p = None")
    case True
    then have "files t = files s" using assms(2,3) unfolding only_file_def fun_eq_iff by metis
    then show ?thesis
      using d delete_ok [of p t u] delete_failed [of p t u] True by (cases b) auto
  next
    case False
    then have "b" using assms(1) d by (auto simp: deletes_work_def dest!: spec [of _ p])
    then show ?thesis using d delete_ok [of p t u] assms(2,3) by (auto simp: only_file_def fun_eq_iff)
  qed
qed

text \<open>The outcome of an extraction over the files.\<close>

definition extracted :: "bool \<Rightarrow> wstring \<Rightarrow> 's \<Rightarrow> 's \<Rightarrow> bool" where
  "extracted ok path s s' \<longleftrightarrow>
     (if ok
      then path \<noteq> [] \<and> files s path = None \<and> opened s' = opened s \<and>
        (\<exists>bs. sg_LockResource G (sg_LoadResource G (sg_FindResourceW G s) s) s = Some bs \<and>
           files s' = (files s)(path \<mapsto> take (unat (sg_SizeofResource G (sg_FindResourceW G s) s)) bs))
      else path = [] \<and> (deletes_work api files \<longrightarrow> files s' = files s))"

lemma extract_files:
  assumes "ExtractEmbeddedDriver api G s = (ok, path, s')"
  shows "extracted ok path s s'"
proof -
  let ?res = "sg_FindResourceW G s"
  let ?n = "unat (sg_SizeofResource G ?res s)"
  obtain p s1 where p: "GenerateUnpredictableDriverPath api G s = (p, s1)" by fastforce
  obtain conv x s2 where c: "sg_ConvertStringSecurityDescriptor G kProtectedAdminDacl s1 = (conv, x, s2)"
    by (metis prod_cases3)
  obtain h s3 where h: "w_CreateFileW api p GENERIC_WRITE CREATE_NEW s2 = (h, s3)" by fastforce
  let ?s4 = "sg_LocalFree G x s3"
  have same: "same_files s s1" "same_files s s2"
    using path_same [OF p] convert_frame [OF c] by (simp_all add: same_files_def)
  have free: "same_files s3 ?s4" using free_frame by (simp add: same_files_def)
  consider (none) "s' = s" "\<not> ok" "path = []" | (nopath) "s' = s1" "\<not> ok" "path = []"
    | (noconv) "s' = s2" "\<not> ok" "path = []"
    | (nofile) "h = INVALID_HANDLE_VALUE" "s' = ?s4" "\<not> ok" "path = []"
    | (written) bs where "h \<noteq> INVALID_HANDLE_VALUE" "p \<noteq> []"
        "sg_LockResource G (sg_LoadResource G ?res s) s = Some bs"
        "(case WriteAll api 0xFFFFFFFF h (take ?n bs) 0 ?s4 of
            (False, s) \<Rightarrow> (False, [], snd (w_DeleteFileW api p (handle_reset api h s)))
          | (True, s) \<Rightarrow> (case w_FlushFileBuffers api h s of
               (False, s) \<Rightarrow> (False, [], snd (w_DeleteFileW api p (handle_reset api h s)))
             | (True, s) \<Rightarrow> (True, p, handle_reset api h s))) = (ok, path, s')"
    using assms p c h
    by (auto simp: ExtractEmbeddedDriver_def ExtractLoop_resource Let_def split: if_splits option.splits)
  then show ?thesis
  proof cases
    case none
    then show ?thesis by (simp add: extracted_def)
  next
    case nopath
    then show ?thesis using same by (simp add: extracted_def same_files_def)
  next
    case noconv
    then show ?thesis using same by (simp add: extracted_def same_files_def)
  next
    case nofile
    then have "files s3 = files s2" using create_failed [of p GENERIC_WRITE CREATE_NEW s2 s3] h by simp
    then show ?thesis using nofile same free by (simp add: extracted_def same_files_def)
  next
    case written
    have new: "h \<noteq> 0" "files s p = None" "files ?s4 = (files s)(p \<mapsto> [])" "opened s h = None"
        "opened ?s4 = (opened s)(h \<mapsto> (p, 0))"
      using create_new [OF h written(1)] same(2) free by (simp_all add: same_files_def)
    obtain w s5 where w: "WriteAll api 0xFFFFFFFF h (take ?n bs) 0 ?s4 = (w, s5)" by fastforce
    obtain f s6 where f: "w_FlushFileBuffers api h s5 = (f, s6)" by fastforce
    have one: "only_file files p s s5" "\<exists>pos. opened s5 = (opened s)(h \<mapsto> (p, pos))"
      using WriteAll_frame [OF w, of p 0 "[]"] new by (auto simp: only_file_def)
    have s6: "files s6 = files s5" "opened s6 = opened s5" using flush_frame [OF f] by simp_all
    have undo: "deletes_work api files \<Longrightarrow> files (snd (w_DeleteFileW api p (handle_reset api h t))) = files s"
      if "files t = files s5" for t
      using delete_restores [of p s "handle_reset api h t"] one(1) new(2) that
      by (simp add: only_file_def handle_reset_view)
    show ?thesis
    proof (cases "w \<and> f")
      case True
      then have "files s5 = (files s)(p \<mapsto> take ?n bs)"
        using WriteAll_ok [of "0xFFFFFFFF" h "take ?n bs" 0 ?s4 s5 p 0 "[]"] w new
        by (simp add: file_write_def overlay_def)
      moreover have "opened (handle_reset api h s6) = opened s"
        using one(2) s6(2) new(1,4) written(1) by (auto simp: handle_reset_view fun_upd_idem)
      ultimately show ?thesis
        using True written w f new(2) s6(1) by (auto simp: extracted_def handle_reset_view)
    next
      case False
      then show ?thesis
        using written(4) w f undo [of s5] undo [of s6] s6(1)
        by (cases w; cases f) (auto simp: extracted_def)
    qed
  qed
qed

end

end
