(* ===== verification/RuntimeTheorems.thy ===== *)
theory RuntimeTheorems
  imports ServiceControl StagingContract Volume
begin

text \<open>
  The driver runtime: bounded waits, and no driver file left behind. The service control manager and
  the other system calls leave the files of the volume alone (\<open>service_system\<close>); an instance on the
  deterministic volume serves the witnesses.
\<close>

section \<open>Waiting\<close>

lemma WaitLoop_steps:
  "deadline - h_now h \<le> 50000000 * int n \<Longrightarrow>
   h_step (snd (snd (WaitLoop M service desiredState deadline s h))) \<le> h_step h + 2 * n + 1"
proof (induction n arbitrary: s h)
  case 0
  obtain t h1 where c: "clock_now h = (t, h1)" by fastforce
  then show ?case
    using 0 clock_nowD [OF c] by (subst WaitLoop.simps) auto
next
  case (Suc n)
  obtain t h1 where c: "clock_now h = (t, h1)" by fastforce
  then have h1: "h1 = host_tick h" "t = h_now h1" "h_now h \<le> t" using clock_nowD [OF c] by auto
  obtain ok state s1 where q: "sc_QueryServiceStatusEx M service s = (ok, state, s1)" by (metis prod_cases3)
  let ?h2 = "sleep_for kServicePollInterval h1"
  have "h_now h1 + 50000000 \<le> h_now ?h2"
    using sleep_for_now [of h1 kServicePollInterval] by (simp add: kServicePollInterval_def)
  moreover have "h_now h \<le> h_now h1" using h1 by simp
  moreover have "50000000 * int (Suc n) = 50000000 + 50000000 * int n" by simp
  ultimately have "deadline - h_now ?h2 \<le> 50000000 * int n" using Suc.prems by linarith
  moreover have "h_step ?h2 = h_step h + 2" using h1 by (simp add: sleep_for_def)
  ultimately have "h_step (snd (snd (WaitLoop M service desiredState deadline s1 ?h2))) \<le> h_step h + 2 + 2 * n + 1"
    using Suc.IH [of ?h2 s1] by simp
  then show ?case
    using c q h1 by (subst WaitLoop.simps) auto
qed

section \<open>The files\<close>

locale service_system = staging_system api files opened G
  for api :: "'s win32" and files :: "'s \<Rightarrow> wstring \<Rightarrow> bytes option"
    and opened :: "'s \<Rightarrow> u64 \<Rightarrow> (wstring \<times> nat) option" and G :: "'s staging" +
  fixes M :: "'s scm"
  assumes open_manager: "sc_OpenSCManagerW M a s = (x, s') \<Longrightarrow> files s' = files s"
    and open_service: "sc_OpenServiceW M c a s = (x, s') \<Longrightarrow> files s' = files s"
    and create_service: "sc_CreateServiceW M c p s = (x, s') \<Longrightarrow> files s' = files s"
    and start_service: "sc_StartServiceW M c s = (ok, s') \<Longrightarrow> files s' = files s"
    and control_service: "sc_ControlServiceStop M c s = (ok, s') \<Longrightarrow> files s' = files s"
    and query_service: "sc_QueryServiceStatusEx M c s = (ok, state, s') \<Longrightarrow> files s' = files s"
    and delete_service: "sc_DeleteService M c s = (ok, s') \<Longrightarrow> files s' = files s"
    and close_service: "files (sc_CloseServiceHandle M c s) = files s"
begin

lemma reset_files [simp]: "files (fst (service_reset M h st)) = files (fst st)"
  by (simp add: service_reset_def close_service)

lemma WaitLoop_files: "files (fst (snd (WaitLoop M service desired deadline s h))) = files s"
proof (induction "nat (deadline - h_now h)" arbitrary: s h rule: less_induct)
  case less
  obtain t h1 where c: "clock_now h = (t, h1)" by fastforce
  obtain ok state s1 where q: "sc_QueryServiceStatusEx M service s = (ok, state, s1)" by (metis prod_cases3)
  have rest: "t < deadline \<Longrightarrow>
      files (fst (snd (WaitLoop M service desired deadline s1 (sleep_for kServicePollInterval h1)))) = files s1"
    using less wait_step_decreases [OF c] by simp
  show ?case
    using c q rest query_service [OF q] by (subst WaitLoop.simps) simp
qed

lemma Wait_files: "WaitForServiceState M service desired n st = (ok, st') \<Longrightarrow> files (fst st') = files (fst st)"
  using WaitLoop_files by (auto simp: WaitForServiceState_def split: prod.splits) (metis fst_conv snd_conv)

lemma Stop_files:
  assumes "StopServiceIfRunning api M service st = (ok, st')"
  shows "files (fst st') = files (fst st)"
proof -
  obtain q state s1 where q: "sc_QueryServiceStatusEx M service (fst st) = (q, state, s1)" by (metis prod_cases3)
  obtain c s2 where c: "sc_ControlServiceStop M service s1 = (c, s2)" by fastforce
  have "st' = (s1, snd st) \<or> st' = (s2, snd st) \<or>
      WaitForServiceState M service SERVICE_STOPPED kServiceTransitionTimeoutMs (s2, snd st) = (ok, st')"
    using assms q c by (auto simp: StopServiceIfRunning_def split: if_splits)
  then show ?thesis
    using query_service [OF q] control_service [OF c] Wait_files [of service SERVICE_STOPPED kServiceTransitionTimeoutMs "(s2, snd st)" ok st'] by auto
qed

lemma Deleted_files: "DeletedLoop api M scm n st = (ok, st') \<Longrightarrow> files (fst st') = files (fst st)"
proof (induction n arbitrary: st)
  case 0
  then show ?case by simp
next
  case (Suc n)
  obtain p s where o: "sc_OpenServiceW M scm SERVICE_QUERY_STATUS (fst st) = (p, s)" by fastforce
  show ?case
    using Suc.prems o open_service [OF o] Suc.IH [of "service_reset M p (s, sleep_for kDeleteFileRetryInterval (snd st))"]
    by (auto split: if_splits)
qed

lemma Remove_files:
  assumes "RemoveExistingService api M scm st = (ok, st')"
  shows "files (fst st') = files (fst st)"
proof -
  obtain service s where o: "sc_OpenServiceW M scm (SERVICE_STOP OR DELETE OR SERVICE_QUERY_STATUS) (fst st) = (service, s)"
    by fastforce
  obtain b st1 where b: "StopServiceIfRunning api M service (s, snd st) = (b, st1)" by (metis surj_pair)
  obtain d s2 where d: "sc_DeleteService M service (fst st1) = (d, s2)" by fastforce
  have "files s = files (fst st)" "files (fst st1) = files s" "files s2 = files (fst st1)"
    using open_service [OF o] Stop_files [OF b] delete_service [OF d] by simp_all
  moreover have "st' = (s, snd st) \<or> st' = service_reset M service st1 \<or> st' = service_reset M service (s2, snd st1) \<or>
      DeletedLoop api M scm 50 (service_reset M service (s2, snd st1)) = (ok, st')"
    using assms o b d by (auto simp: RemoveExistingService_def WaitUntilServiceIsDeleted_def split: if_splits bool.splits)
  ultimately show ?thesis using Deleted_files by fastforce
qed

lemma BestEffort_files: "files (fst (BestEffortDeleteService api M service st)) = files (fst st)"
proof -
  obtain b st1 where b: "StopServiceIfRunning api M service st = (b, st1)" by (metis surj_pair)
  obtain d s2 where d: "sc_DeleteService M service (fst st1) = (d, s2)" by fastforce
  show ?thesis
    using b d Stop_files [OF b] delete_service [OF d] by (simp add: BestEffortDeleteService_def)
qed

lemma StartInstalled_files:
  assumes "StartInstalled api M service st = (ok, e, st')"
  shows "files (fst st') = files (fst st)"
proof -
  obtain b s where s: "sc_StartServiceW M service (fst st) = (b, s)" by fastforce
  obtain w st1 where w: "WaitForServiceState M service SERVICE_RUNNING kServiceTransitionTimeoutMs (s, snd st) = (w, st1)"
    by (metis surj_pair)
  have "files s = files (fst st)" "files (fst st1) = files s"
    using start_service [OF s] Wait_files [OF w] by simp_all
  moreover have "st' = BestEffortDeleteService api M service (s, snd st) \<or> st' = st1 \<or>
      st' = BestEffortDeleteService api M service st1"
    using assms s w by (auto simp: StartInstalled_def Let_def split: if_splits bool.splits)
  ultimately show ?thesis
    using BestEffort_files [of service st1] BestEffort_files [of service "(s, snd st)"] by auto
qed

lemma Install_files:
  assumes "InstallAndStartDriver api M path st = (ok, e, st')"
  shows "files (fst st') = files (fst st)"
proof -
  obtain scm s where m: "sc_OpenSCManagerW M (SC_MANAGER_CONNECT OR SC_MANAGER_CREATE_SERVICE) (fst st) = (scm, s)"
    by fastforce
  obtain r st1 where r: "RemoveExistingService api M scm (s, snd st) = (r, st1)" by (metis surj_pair)
  obtain service s2 where c: "sc_CreateServiceW M scm path (fst st1) = (service, s2)" by fastforce
  obtain ok3 e3 st3 where i: "StartInstalled api M service (s2, snd st1) = (ok3, e3, st3)" by (metis prod_cases3)
  have "files s = files (fst st)" "files (fst st1) = files s" "files s2 = files (fst st1)" "files (fst st3) = files s2"
    using open_manager [OF m] Remove_files [OF r] create_service [OF c] StartInstalled_files [OF i] by simp_all
  moreover have "st' = (s, snd st) \<or> st' = service_reset M scm st1 \<or> st' = service_reset M scm (s2, snd st1) \<or>
      st' = service_reset M scm (service_reset M service st3)"
    using assms m r c i by (auto simp: InstallAndStartDriver_def split: if_splits bool.splits)
  ultimately show ?thesis by auto
qed

lemma StopAndDelete_files:
  assumes "StopAndDeleteDriver api M st = (e, st')"
  shows "files (fst st') = files (fst st)"
proof -
  obtain scm s where m: "sc_OpenSCManagerW M SC_MANAGER_CONNECT (fst st) = (scm, s)" by fastforce
  obtain service s1 where o: "sc_OpenServiceW M scm (SERVICE_STOP OR DELETE OR SERVICE_QUERY_STATUS) s = (service, s1)"
    by fastforce
  obtain b st2 where b: "StopServiceIfRunning api M service (s1, snd st) = (b, st2)" by (metis surj_pair)
  obtain d s3 where d: "sc_DeleteService M service (fst st2) = (d, s3)" by fastforce
  have "files s = files (fst st)" "files s1 = files s" "files (fst st2) = files s1" "files s3 = files (fst st2)"
    using open_manager [OF m] open_service [OF o] Stop_files [OF b] delete_service [OF d] by simp_all
  moreover have "st' = (s, snd st) \<or> st' = service_reset M scm (s1, snd st) \<or>
      st' = service_reset M scm (service_reset M service st2) \<or>
      st' = service_reset M scm (service_reset M service (s3, snd st2))"
    using assms m o b d by (auto simp: StopAndDeleteDriver_def Let_def split: if_splits bool.splits)
  ultimately show ?thesis by auto
qed

lemma DeleteExtracted_files:
  assumes "deletes_work api files" and "DeleteExtractedDriver api path st = (e, st')" and "files (fst st) path \<noteq> None"
    and "path \<noteq> []"
  shows "e = ERROR_SUCCESS \<and> files (fst st') = (files (fst st))(path := None)"
proof -
  obtain b s where d: "w_DeleteFileW api path (fst st) = (b, s)" by fastforce
  then have "b" using assms(1,3) by (auto simp: deletes_work_def dest!: spec [of _ path])
  then show ?thesis
    using assms(2,4) d delete_ok [of path "fst st" s]
    by (auto simp: DeleteExtractedDriver_def kDeleteFileAttempts_def numeral_eq_Suc)
qed

text \<open>What \<open>Start\<close> and \<open>Stop\<close> do to the files and the runtime.\<close>

lemma Start_files:
  assumes "deletes_work api files" and "\<not> dr_serviceStarted r" and "dr_extractedDriverPath r = []"
    and "DriverRuntime_Start api G M r = (ok, e, r')"
  shows "if ok
    then dr_serviceStarted r' \<and> dr_extractedDriverPath r' \<noteq> [] \<and>
      files (fst (dr_st r)) (dr_extractedDriverPath r') = None \<and>
      (\<exists>driver. files (fst (dr_st r')) = (files (fst (dr_st r)))(dr_extractedDriverPath r' \<mapsto> driver))
    else \<not> dr_serviceStarted r' \<and> dr_extractedDriverPath r' = [] \<and> files (fst (dr_st r')) = files (fst (dr_st r))"
proof -
  obtain x p s where x: "ExtractEmbeddedDriver api G (fst (dr_st r)) = (x, p, s)" by (metis prod_cases3)
  note ex = extract_files [OF x]
  obtain i e1 st1 where i: "InstallAndStartDriver api M p (s, snd (dr_st r)) = (i, e1, st1)" by (metis prod_cases3)
  have f1: "files (fst st1) = files s" using Install_files [OF i] by simp
  show ?thesis
  proof (cases x)
    case False
    then show ?thesis
      using assms ex x by (auto simp: DriverRuntime_Start_def extracted_def)
  next
    case True
    then obtain bs where f: "p \<noteq> []" "files (fst (dr_st r)) p = None" "files s = (files (fst (dr_st r)))(p \<mapsto> bs)"
      using ex by (auto simp: extracted_def)
    obtain err st2 where d: "DeleteExtractedDriver api p st1 = (err, st2)" by (metis surj_pair)
    have "files (fst st2) = files (fst (dr_st r))"
      using DeleteExtracted_files [OF assms(1) d _ f(1)] f f1 by (simp add: fun_upd_idem)
    then show ?thesis
      using assms True x i d f f1 by (cases i) (auto simp: DriverRuntime_Start_def)
  qed
qed

lemma Stop_runtime_files:
  assumes "deletes_work api files" and "DriverRuntime_Stop api M r = (e, r')"
    and "dr_extractedDriverPath r \<noteq> [] \<Longrightarrow> files (fst (dr_st r)) (dr_extractedDriverPath r) \<noteq> None"
  shows "\<not> dr_serviceStarted r' \<and> dr_extractedDriverPath r' = [] \<and>
    files (fst (dr_st r')) = (if dr_extractedDriverPath r = [] then files (fst (dr_st r))
      else (files (fst (dr_st r)))(dr_extractedDriverPath r := None))"
proof -
  obtain e1 st1 where 1: "(if dr_serviceStarted r then StopAndDeleteDriver api M (dr_st r) else (ERROR_SUCCESS, dr_st r)) =
      (e1, st1)" by (metis surj_pair)
  have f1: "files (fst st1) = files (fst (dr_st r))"
    using 1 StopAndDelete_files [of "dr_st r" e1 st1] by (auto split: if_splits)
  obtain e2 st2 where 2: "DeleteExtractedDriver api (dr_extractedDriverPath r) st1 = (e2, st2)" by (metis surj_pair)
  have r': "r' = r \<lparr> dr_st := st2, dr_extractedDriverPath := [], dr_serviceStarted := False \<rparr>"
    using assms(2) 1 2 by (simp add: DriverRuntime_Stop_def)
  show ?thesis
  proof (cases "dr_extractedDriverPath r = []")
    case True
    then show ?thesis using 2 f1 r' by (simp add: DeleteExtractedDriver_def)
  next
    case False
    then show ?thesis
      using DeleteExtracted_files [OF assms(1) 2 _ False] assms(3) f1 r' by simp
  qed
qed

end

section \<open>An instance\<close>

definition staged_disk_api :: "disk win32" where
  "staged_disk_api = steady_api \<lparr> w_GetFileAttributesW := (\<lambda>p s. (FILE_ATTRIBUTE_DIRECTORY, s)),
     w_GetLastError := (\<lambda>s. ERROR_SERVICE_DOES_NOT_EXIST) \<rparr>"

definition quiet_staging :: "disk staging" where
  "quiet_staging = \<lparr> sg_FindResourceW = (\<lambda>s. 1), sg_LoadResource = (\<lambda>r s. 2), sg_SizeofResource = (\<lambda>r s. 3),
     sg_LockResource = (\<lambda>r s. Some [0x4D, 0x5A, 0x90]),
     sg_ConvertStringSecurityDescriptor = (\<lambda>d s. (True, 1, s)),
     sg_GetSecurityDescriptorDacl = (\<lambda>d s. (True, True, 1)),
     sg_SetNamedSecurityInfoW = (\<lambda>p x s. (ERROR_SUCCESS, s)),
     sg_LocalFree = (\<lambda>x s. s), sg_CreateDirectoryW = (\<lambda>p d s. (True, s)),
     sg_GetEnvironmentVariableW = (\<lambda>n s. (5, wide ''C:-PD'')),
     sg_BCryptGenRandom = (\<lambda>n s. (0, replicate n 0xAB, s)) \<rparr>"

text \<open>A manager without a service until it is created; \<open>stuck\<close> is a service that never stops.\<close>

definition quiet_scm :: "disk scm" where
  "quiet_scm = \<lparr> sc_OpenSCManagerW = (\<lambda>a s. (1, s)), sc_OpenServiceW = (\<lambda>c a s. (0, s)),
     sc_CreateServiceW = (\<lambda>c p s. (2, s)), sc_StartServiceW = (\<lambda>c s. (True, s)),
     sc_ControlServiceStop = (\<lambda>c s. (True, s)),
     sc_QueryServiceStatusEx = (\<lambda>c s. (True, SERVICE_RUNNING, s)),
     sc_DeleteService = (\<lambda>c s. (True, s)), sc_CloseServiceHandle = (\<lambda>c s. s),
     sc_FormatMessageW = (\<lambda>e s. None) \<rparr>"

lemma staged_disk_files: "win32_files staged_disk_api disk_files disk_open"
  using steady.win32_files_axioms by (simp add: win32_files_def staged_disk_api_def)

interpretation staged_disk: win32_files staged_disk_api disk_files disk_open
  by (rule staged_disk_files)

interpretation quiet: service_system staged_disk_api disk_files disk_open quiet_staging quiet_scm
  by unfold_locales (auto simp: quiet_staging_def quiet_scm_def)

end
