(* ===== verification/ServiceTheorems.thy ===== *)
theory ServiceTheorems
  imports RuntimeTheorems
begin

text \<open>
  The properties of the driver runtime (\<open>cli/driver_resource.cpp\<close>, \<open>cli/driver_service.cpp\<close>): what an
  extraction leaves on the volume, that waiting for the service ends, and that a start followed by a
  stop leaves the volume as it was. The last section records where a stop that timed out is reported
  as a success.
\<close>

section \<open>Extraction\<close>

text \<open>
  C37: On a system whose deletions work, \<open>ExtractEmbeddedDriver\<close> either succeeds, and then the volume
  differs by exactly one file, one that was not there before, holding the whole driver resource, with
  every handle closed; or it fails, and the volume is as it was.
\<close>

theorem extraction_is_atomic:
  assumes "staging_system api files opened G" and "deletes_work api files"
    and "ExtractEmbeddedDriver api G s = (ok, path, s')"
  shows "if ok
    then files s path = None \<and> opened s' = opened s \<and>
      (\<exists>bs. sg_LockResource G (sg_LoadResource G (sg_FindResourceW G s) s) s = Some bs \<and>
        files s' = (files s)(path \<mapsto> take (unat (sg_SizeofResource G (sg_FindResourceW G s) s)) bs))
    else path = [] \<and> files s' = files s"
  using staging_system.extract_files [OF assms(1,3)] assms(2)
  by (auto simp: staging_system.extracted_def [OF assms(1)] split: if_splits)

text \<open>A volume that already holds a file.\<close>

lemma staged_disk_deletes: "deletes_work staged_disk_api disk_files"
  by (auto simp: deletes_work_def staged_disk_api_def steady_api_def)

definition used_disk :: disk where
  "used_disk = blank_disk \<lparr> k_files := [(wide ''notes.txt'', [1, 2])] \<rparr>"

lemmas staged_sels = staged_disk_api_def steady_api_def disk_api_def

lemma quiet_sels:
  "sg_FindResourceW quiet_staging s = 1" "sg_LoadResource quiet_staging r s = 2" "sg_SizeofResource quiet_staging r s = 3"
  "sg_LockResource quiet_staging r s = Some [0x4D, 0x5A, 0x90]" "sg_LocalFree quiet_staging x s = s"
  "sg_ConvertStringSecurityDescriptor quiet_staging d s = (True, 1, s)"
  by (simp_all add: quiet_staging_def)

lemma staged_write: "w_WriteFile staged_disk_api = steady_write"
  by (simp add: staged_disk_api_def steady_api_def)

lemma staged_path:
  "\<exists>p. GenerateUnpredictableDriverPath staged_disk_api quiet_staging used_disk = (p, used_disk) \<and> 9 < length p"
  by (simp add: GenerateUnpredictableDriverPath_def ResolveExtractionDirectory_def ExtractionBase_def
      CreateSecureDirectory_def ApplyProtectedAdminDacl_def quiet_staging_def staged_disk_api_def MAX_PATH_def
      FILE_ATTRIBUTE_DIRECTORY_def INVALID_FILE_ATTRIBUTES_def ERROR_SUCCESS_def driver_file_name_def wide_def Let_def)

lemma used_disk_extracts:
  "\<exists>path s'. ExtractEmbeddedDriver staged_disk_api quiet_staging used_disk = (True, path, s')"
proof -
  obtain p where p: "GenerateUnpredictableDriverPath staged_disk_api quiet_staging used_disk = (p, used_disk)"
      "9 < length p" using staged_path by blast
  have fresh: "p \<noteq> wide ''notes.txt''" using p(2) by (auto simp: wide_def)
  define u where "u = used_disk \<lparr> k_calls := 2, k_files := AList.update p [] (k_files used_disk),
    k_open := [(2, p, 0)] \<rparr>"
  have c: "w_CreateFileW staged_disk_api p GENERIC_WRITE CREATE_NEW used_disk = (2, u)"
    using fresh by (simp add: u_def staged_sels disk_create_def disk_call_def used_disk_def blank_disk_def
        CREATE_NEW_def CREATE_ALWAYS_def INVALID_HANDLE_VALUE_def disk_files_def disk_open_def
        del: disk_call_simps)
  have "disk_open u 2 = Some (p, 0)" by (simp add: u_def)
  then have "steady_write 2 [0x4D, 0x5A, 0x90] u = (True, 3, snd (snd (steady_write 2 [0x4D, 0x5A, 0x90] u)))"
    by (simp add: steady_write_def)
  then obtain v where v: "w_WriteFile staged_disk_api 2 [0x4D, 0x5A, 0x90] u = (True, 3, v)"
    by (metis staged_write)
  have "ExtractLoop staged_disk_api 2 [] v = (True, v)"
    by (subst ExtractLoop.simps) simp
  then have "ExtractLoop staged_disk_api 2 [0x4D, 0x5A, 0x90] u = (True, v)"
    using v by (subst ExtractLoop.simps) simp
  then show ?thesis
    using p c by (auto simp: ExtractEmbeddedDriver_def Let_def quiet_sels staged_sels INVALID_HANDLE_VALUE_def)
qed

theorem extraction_is_atomic_witness:
  "\<exists>path s'. ExtractEmbeddedDriver staged_disk_api quiet_staging used_disk = (True, path, s') \<and>
    disk_files s' = (disk_files used_disk)(path \<mapsto> [0x4D, 0x5A, 0x90])"
proof -
  obtain path s' where x: "ExtractEmbeddedDriver staged_disk_api quiet_staging used_disk = (True, path, s')"
    using used_disk_extracts by blast
  show ?thesis
    using x extraction_is_atomic [OF quiet.staging_system_axioms staged_disk_deletes x]
    by (simp add: quiet_staging_def)
qed

section \<open>Waiting\<close>

text \<open>A successful wait ends with the manager's answer that the service is in the wanted state.\<close>

lemma WaitLoop_state:
  "WaitLoop M service desired deadline s h = (ok, st') \<Longrightarrow> ok \<Longrightarrow>
   \<exists>s0. sc_QueryServiceStatusEx M service s0 = (True, desired, fst st')"
proof (induction "nat (deadline - h_now h)" arbitrary: s h rule: less_induct)
  case less
  obtain t h1 where c: "clock_now h = (t, h1)" by fastforce
  obtain q state s1 where q: "sc_QueryServiceStatusEx M service s = (q, state, s1)" by (metis prod_cases3)
  have run: "WaitLoop M service desired deadline s h =
      (if t < deadline
       then if \<not> q then (False, s1, h1) else if state = desired then (True, s1, h1)
         else WaitLoop M service desired deadline s1 (sleep_for kServicePollInterval h1)
       else (False, s, h1))"
    using c q by (subst WaitLoop.simps) simp
  show ?case
  proof (cases "t < deadline \<and> q \<and> state \<noteq> desired")
    case True
    then show ?thesis
      using less.prems run less.hyps [of "sleep_for kServicePollInterval h1" s1] wait_step_decreases [OF c, of deadline]
      by simp
  next
    case False
    then show ?thesis using less.prems run q by (auto split: if_splits)
  qed
qed

text \<open>
  C36: \<open>WaitForServiceState\<close> returns: it reads the clock and sleeps at most \<open>2 (ms + 49) div 50 + 2\<close>
  times, 202 times for the five seconds the program waits, whatever the service manager answers; and
  it reports success only when the last answer of the manager was the wanted state.
\<close>

theorem wait_is_bounded:
  assumes "WaitForServiceState M service desiredState ms st = (ok, st')"
  shows "h_step (snd st') \<le> h_step (snd st) + 2 * ((ms + 49) div 50) + 2 \<and>
    (ok \<longrightarrow> (\<exists>s. sc_QueryServiceStatusEx M service s = (True, desiredState, fst st')))"
proof -
  obtain t h where c: "clock_now (snd st) = (t, h)" by fastforce
  then have h: "t = h_now h" "h_step h = Suc (h_step (snd st))" using clock_nowD [OF c] by auto
  have r: "WaitLoop M service desiredState (t + int ms * 1000000) (fst st) h = (ok, st')"
    using assms c by (simp add: WaitForServiceState_def)
  have "int ms * 1000000 \<le> 50000000 * int ((ms + 49) div 50)" by linarith
  then have "h_step (snd st') \<le> h_step h + 2 * ((ms + 49) div 50) + 1"
    using WaitLoop_steps [of "t + int ms * 1000000" h "(ms + 49) div 50" M service desiredState "fst st"] r h by simp
  then show ?thesis using h WaitLoop_state [OF r] by auto
qed

section \<open>Start and stop\<close>

text \<open>
  C35: The driver's file never outlives the runtime. A \<open>Start\<close> that fails leaves the volume as it was.
  After a \<open>Start\<close> that succeeds, whatever the program then does to other files, \<open>Stop\<close> takes away
  exactly the file the start created, whether or not the service could be stopped, and the runtime is
  idle again.
\<close>

theorem runtime_restores_files:
  assumes "service_system api files opened G M" and "deletes_work api files"
    and "\<not> dr_serviceStarted r" and "dr_extractedDriverPath r = []"
    and "DriverRuntime_Start api G M r = (ok, e, r1)"
    and "files (fst st) (dr_extractedDriverPath r1) = files (fst (dr_st r1)) (dr_extractedDriverPath r1)"
    and "DriverRuntime_Stop api M (r1 \<lparr> dr_st := st \<rparr>) = (err, r2)"
  shows "(\<not> ok \<longrightarrow> files (fst (dr_st r1)) = files (fst (dr_st r))) \<and>
    (\<forall>p. files (fst (dr_st r2)) p =
      (if ok \<and> p = dr_extractedDriverPath r1 then files (fst (dr_st r)) p else files (fst st) p)) \<and>
    \<not> dr_serviceStarted r2 \<and> dr_extractedDriverPath r2 = []"
proof -
  note start = service_system.Start_files [OF assms(1-5)]
  have "dr_extractedDriverPath r1 \<noteq> [] \<Longrightarrow> files (fst st) (dr_extractedDriverPath r1) \<noteq> None"
    using start assms(6) by (auto split: if_splits)
  then show ?thesis
    using service_system.Stop_runtime_files [OF assms(1,2,7)] start by (auto split: if_splits)
qed

definition idle_host :: host where
  "idle_host = \<lparr> h_ns = 0, h_step = 0, h_delay = (\<lambda>_. 1000), h_cancel = (\<lambda>_. False), h_round = (\<lambda>x. x) \<rparr>"

lemma quiet_installs: "InstallAndStartDriver staged_disk_api quiet_scm path (s, idle_host) =
    (True, [], s, host_tick (host_tick idle_host))"
proof -
  have w: "WaitForServiceState quiet_scm 2 SERVICE_RUNNING kServiceTransitionTimeoutMs (s, idle_host) =
      (True, s, host_tick (host_tick idle_host))"
    by (subst WaitForServiceState_def)
      (simp add: WaitLoop.simps clock_now_def host_tick_def idle_host_def quiet_scm_def kServiceTransitionTimeoutMs_def)
  show ?thesis
    using w by (simp add: InstallAndStartDriver_def RemoveExistingService_def StartInstalled_def quiet_scm_def
        staged_disk_api_def Let_def service_reset_def)
qed

definition quiet_start :: "bool \<times> wstring \<times> disk DriverRuntime" where
  "quiet_start = DriverRuntime_Start staged_disk_api quiet_staging quiet_scm (DriverRuntime_init (used_disk, idle_host))"

lemma quiet_starts: "fst quiet_start"
proof -
  obtain path s' where x: "ExtractEmbeddedDriver staged_disk_api quiet_staging used_disk = (True, path, s')"
    using used_disk_extracts by blast
  show ?thesis
    by (simp add: quiet_start_def DriverRuntime_Start_def DriverRuntime_init_def x quiet_installs)
qed

theorem runtime_restores_files_witness:
  "\<exists>e r1 err r2. DriverRuntime_Start staged_disk_api quiet_staging quiet_scm
      (DriverRuntime_init (used_disk, idle_host)) = (True, e, r1) \<and>
    DriverRuntime_Stop staged_disk_api quiet_scm r1 = (err, r2) \<and>
    disk_files (fst (dr_st r1)) \<noteq> disk_files used_disk \<and>
    disk_files (fst (dr_st r2)) = disk_files used_disk"
proof -
  obtain ok e r1 where a: "DriverRuntime_Start staged_disk_api quiet_staging quiet_scm
      (DriverRuntime_init (used_disk, idle_host)) = (ok, e, r1)" by (metis prod_cases3)
  then have "ok" using quiet_starts by (simp add: quiet_start_def)
  obtain err r2 where b: "DriverRuntime_Stop staged_disk_api quiet_scm r1 = (err, r2)" by (metis surj_pair)
  have r1: "disk_files (fst (dr_st r1)) = (disk_files used_disk)(dr_extractedDriverPath r1 \<mapsto> d) \<Longrightarrow>
      disk_files used_disk (dr_extractedDriverPath r1) = None \<Longrightarrow>
      disk_files (fst (dr_st r1)) \<noteq> disk_files used_disk" for d
    by (metis fun_upd_same option.distinct(1))
  have "dr_st r1 = (fst (dr_st r1), snd (dr_st r1))" by simp
  then show ?thesis
    using a b \<open>ok\<close> r1 quiet.Start_files [OF staged_disk_deletes _ _ a]
      runtime_restores_files [OF quiet.service_system_axioms staged_disk_deletes _ _ a, of "dr_st r1" err r2]
    by (auto simp: DriverRuntime_init_def fun_eq_iff)
qed

theorem wait_is_bounded_witness:
  "\<exists>st'. WaitForServiceState quiet_scm 2 SERVICE_RUNNING kServiceTransitionTimeoutMs (used_disk, idle_host) = (True, st') \<and>
    h_step (snd st') \<le> 202"
proof -
  obtain ok st' where w: "WaitForServiceState quiet_scm 2 SERVICE_RUNNING kServiceTransitionTimeoutMs
      (used_disk, idle_host) = (ok, st')" by (metis surj_pair)
  have "fst (WaitForServiceState quiet_scm 2 SERVICE_RUNNING kServiceTransitionTimeoutMs (used_disk, idle_host))"
    by code_simp
  then show ?thesis
    using w wait_is_bounded [OF w] by (simp add: kServiceTransitionTimeoutMs_def idle_host_def)
qed

section \<open>A stop that timed out\<close>

text \<open>
  A service that accepts the stop control and keeps running: \<open>WaitForServiceState\<close> gives up without
  a failing system call, so \<open>StopAndDeleteDriver\<close> returns whatever the last error happens to be. When
  it is 0 the caller is told the driver is gone, and the service was never deleted (the deletion of
  this manager would have left a file).
\<close>

definition stuck_scm :: "disk scm" where
  "stuck_scm = quiet_scm \<lparr> sc_OpenServiceW := (\<lambda>c a s. (3, s)),
     sc_DeleteService := (\<lambda>c s. (True, s \<lparr> k_files := [(wide ''deleted'', [])] \<rparr>)) \<rparr>"

definition slow_host :: host where
  "slow_host = idle_host \<lparr> h_delay := (\<lambda>_. 2000000000) \<rparr>"

lemma stuck_wait:
  "WaitForServiceState stuck_scm 3 SERVICE_STOPPED kServiceTransitionTimeoutMs (s, slow_host) =
    (False, s, snd (snd (WaitForServiceState stuck_scm 3 SERVICE_STOPPED kServiceTransitionTimeoutMs (s, slow_host))))"
proof -
  have q: "sc_QueryServiceStatusEx stuck_scm 3 t = (True, SERVICE_RUNNING, t)" for t
    by (simp add: stuck_scm_def quiet_scm_def)
  have "WaitLoop stuck_scm 3 SERVICE_STOPPED deadline t h = (False, t, snd (snd (WaitLoop stuck_scm 3 SERVICE_STOPPED deadline t h)))" for deadline t h
  proof (induction "nat (deadline - h_now h)" arbitrary: h rule: less_induct)
    case less
    obtain c h1 where c: "clock_now h = (c, h1)" by fastforce
    show ?case
      using less [of "sleep_for kServicePollInterval h1"] wait_step_decreases [OF c, of deadline] c q
      by (subst (1 2) WaitLoop.simps) (auto simp: SERVICE_STOPPED_def SERVICE_RUNNING_def)
  qed
  then show ?thesis by (auto simp: WaitForServiceState_def split: prod.splits)
qed

lemma blank_error: "w_GetLastError steady_api blank_disk = ERROR_SUCCESS"
  by (simp add: steady_api_def disk_api_def blank_disk_def ERROR_SUCCESS_def)

lemma blank_files: "disk_files blank_disk p = None"
  by (simp add: disk_files_def blank_disk_def del: disk_call_simps)

lemma stop_timeout_reported_as_success:
  "\<exists>st. StopAndDeleteDriver steady_api stuck_scm (blank_disk, slow_host) = (ERROR_SUCCESS, st) \<and>
    disk_files (fst st) (wide ''deleted'') = None"
proof -
  have q: "sc_QueryServiceStatusEx stuck_scm 3 s = (True, SERVICE_RUNNING, s)"
    "sc_ControlServiceStop stuck_scm 3 s = (True, s)" "sc_OpenSCManagerW stuck_scm a s = (1, s)"
    "sc_OpenServiceW stuck_scm 1 a s = (3, s)" "sc_CloseServiceHandle stuck_scm x s = s" for s a x
    by (simp_all add: stuck_scm_def quiet_scm_def)
  obtain h where w: "WaitForServiceState stuck_scm 3 SERVICE_STOPPED kServiceTransitionTimeoutMs (blank_disk, slow_host) =
      (False, blank_disk, h)" using stuck_wait by blast
  have "StopServiceIfRunning steady_api stuck_scm 3 (blank_disk, slow_host) = (False, blank_disk, h)"
    using w q by (simp add: StopServiceIfRunning_def SERVICE_RUNNING_def SERVICE_STOPPED_def)
  then show ?thesis
    using q by (simp add: StopAndDeleteDriver_def service_reset_def blank_error blank_files)
qed

end
