(* ===== verification/MainProgram.thy ===== *)
theory MainProgram
  imports CommandLine ServiceControl Evidence DeviceSession
begin

text \<open>
  The program (\<open>cli/main.cpp\<close>): the usage text, the dry run, the capture, the two platform checks and
  \<open>wmain\<close>. The world that is passed through holds the system with its files, the device name space
  the driver serves, the hash provider, the host and the two console streams; every exit runs the
  destructors of \<open>DeviceSession\<close> and \<open>DriverRuntime\<close>.
\<close>

section \<open>The world\<close>

record ('s, 'k, 'c) world =
  wd_sys :: 's
  wd_dev :: 'k
  wd_hash :: 'c
  wd_host :: host
  wd_out :: wstring
  wd_err :: wstring

text \<open>The platform calls of the two checks and of \<open>wmain\<close>.\<close>

record 's platform =
  pf_AllocateAndInitializeSid :: "'s \<Rightarrow> bool \<times> u64 \<times> 's"
  pf_CheckTokenMembership :: "u64 \<Rightarrow> 's \<Rightarrow> bool \<times> bool \<times> 's"
  pf_FreeSid :: "u64 \<Rightarrow> 's \<Rightarrow> 's"
  pf_GetModuleHandleW :: "wstring \<Rightarrow> 's \<Rightarrow> u64"
  pf_GetProcAddress :: "u64 \<Rightarrow> string \<Rightarrow> 's \<Rightarrow> u64"
  pf_RtlGetVersion :: "u64 \<Rightarrow> 's \<Rightarrow> u32 \<times> u32 \<times> u32"
  pf_SetConsoleCtrlHandler :: "'s \<Rightarrow> bool \<times> 's"

text \<open>
  Everything the program calls. \<open>at_attach\<close> is the device name space as it is with the services
  that run in a system: the driver is reached through it once its service has been started.
\<close>

record ('s, 'k, 'c) calls =
  ca_api :: "'s win32"
  ca_staging :: "'s staging"
  ca_scm :: "'s scm"
  ca_platform :: "'s platform"
  ca_attach :: "'s \<Rightarrow> 'k \<Rightarrow> 'k"
  ca_dev :: "'k win32"
  ca_io :: "'k device_io_control"
  ca_cng :: "'c cng_api"
  ca_utf8 :: utf8_api
  ca_gui :: "('s, 'k, 'c) world \<Rightarrow> int \<times> ('s, 'k, 'c) world"

definition put_out :: "wstring \<Rightarrow> ('s, 'k, 'c) world \<Rightarrow> ('s, 'k, 'c) world" where
  "put_out text w = w \<lparr> wd_out := wd_out w @ text \<rparr>"

definition put_err :: "wstring \<Rightarrow> ('s, 'k, 'c) world \<Rightarrow> ('s, 'k, 'c) world" where
  "put_err text w = w \<lparr> wd_err := wd_err w @ text \<rparr>"

definition num :: "'a::len word \<Rightarrow> wstring" where "num x = wide (dec (unat x))"
definition hexu :: "'a::len word \<Rightarrow> wstring" where "hexu x = wide (to_base True 16 (unat x))"

section \<open>Console\<close>

text \<open>\<open>ConsoleHandler\<close>: whether the event is handled, which is when it raises the cancellation flag.\<close>

definition ConsoleHandler :: "u32 \<Rightarrow> bool \<Rightarrow> bool \<times> bool" where
  "ConsoleHandler eventType cancelled =
     (if eventType = 0 \<or> eventType = 1 \<or> eventType = 2 then (True, True) else (False, cancelled))"

definition usage_text :: string where
  "usage_text =
     ''PhylaRAM 0.1.0-alpha - Live physical-memory acquisition for Windows'' @ nl @ nl @
     ''Usage:'' @ nl @
     ''  phylaram.exe <output_path> [options]'' @ nl @
     ''  phylaram.exe --dry-run [--json]'' @ nl @
     ''  phylaram.exe --gui'' @ nl @ nl @
     ''Supported Output Formats (auto-detected by extension or set via --format):'' @ nl @
     ''  .raw                  Flat physical-address-preserving sparse raw image'' @ nl @
     ''  .zdmp, .dmp           Microsoft 64-bit Complete Memory Crash Dump'' @ nl @
     ''  .e01                  Expert Witness Compression Format (EnCase EWF)'' @ nl @ nl @
     ''Options:'' @ nl @
     ''  --format <fmt>        Explicit format: raw, zdmp, dmp, e01.'' @ nl @
     ''  --case-number <str>   Case identifier (for E01 metadata).'' @ nl @
     ''  --evidence-number <s> Evidence identifier (for E01 metadata).'' @ nl @
     ''  --examiner <str>      Examiner name (for E01 metadata).'' @ nl @
     ''  --description <str>   Evidence description.'' @ nl @
     ''  --notes <str>         Acquisition notes.'' @ nl @
     ''  --rate-limit <MiB/s>  Limit acquisition throughput; 0 means unlimited.'' @ nl @
     ''  --quiet               Suppress interactive acquisition progress.'' @ nl @
     ''  --dry-run             Inspect topology and kernel hints without creating evidence.'' @ nl @
     ''  --json                Emit dry-run output as JSON.'' @ nl @
     ''  --gui                 Launch the native graphical interface.'' @ nl @
     ''  --help, -h            Display this help.'' @ nl @ nl @
     ''A successful capture always creates evidence, map.json, and SHA-256 sidecars.'' @ nl"

definition PrintUsage :: "('s, 'k, 'c) world \<Rightarrow> ('s, 'k, 'c) world" where
  "PrintUsage w = put_out (wide usage_text) w"

definition hex_text :: "'a::len word \<Rightarrow> string" where
  "hex_text x = quoted (''0x'' @ to_base True 16 (unat x))"

definition dry_run_hints_json :: "KernelHints \<Rightarrow> string" where
  "dry_run_hints_json h =
     '','' @ nl @ ''  '' @ quoted ''kernel_hints'' @ '': {'' @ nl @
     ''    '' @ quoted ''hypervisor_present'' @ '': '' @ (if kh_hypervisorPresent h then ''true'' else ''false'') @ '','' @ nl @
     ''    '' @ quoted ''directory_table_base'' @ '': '' @ hex_text (kh_directoryTableBase h) @ '','' @ nl @
     ''    '' @ quoted ''kpcr_address'' @ '': '' @ hex_text (kh_kpcrAddress h) @ '','' @ nl @
     ''    '' @ quoted ''kernel_base'' @ '': '' @ hex_text (kh_kernelBase h) @ '','' @ nl @
     ''    '' @ quoted ''kernel_size'' @ '': '' @ dec (unat (kh_kernelSize h)) @ '','' @ nl @
     ''    '' @ quoted ''build_number'' @ '': '' @ dec (unat (kh_buildNumber h)) @ nl @
     ''  }''"

definition dry_run_json :: "u64 \<Rightarrow> u64 \<Rightarrow> MemoryRun list \<Rightarrow> KernelHints \<Rightarrow> bool \<Rightarrow> string" where
  "dry_run_json highestPhysicalEnd totalPhysicalBytes runs hints topologyChanged =
     ''{'' @ nl @
     ''  '' @ quoted ''dry_run'' @ '': true,'' @ nl @
     ''  '' @ quoted ''logical_size'' @ '': '' @ dec (unat highestPhysicalEnd) @ '','' @ nl @
     ''  '' @ quoted ''physical_bytes'' @ '': '' @ dec (unat totalPhysicalBytes) @ '','' @ nl @
     ''  '' @ quoted ''range_count'' @ '': '' @ dec (length runs) @ '','' @ nl @
     ''  '' @ quoted ''topology_changed'' @ '': '' @ (if topologyChanged then ''true'' else ''false'') @ '','' @ nl @
     ''  '' @ quoted ''kernel_hints_available'' @ '': '' @ (if kh_available hints then ''true'' else ''false'') @
     (if kh_available hints then dry_run_hints_json hints else []) @ nl @ ''}'' @ nl"

definition PrintDryRunJson ::
  "u64 \<Rightarrow> u64 \<Rightarrow> MemoryRun list \<Rightarrow> KernelHints \<Rightarrow> bool \<Rightarrow> ('s, 'k, 'c) world \<Rightarrow> ('s, 'k, 'c) world" where
  "PrintDryRunJson highestPhysicalEnd totalPhysicalBytes runs hints topologyChanged =
     put_out (wide (dry_run_json highestPhysicalEnd totalPhysicalBytes runs hints topologyChanged))"

definition PrintDryRunText ::
  "u64 \<Rightarrow> u64 \<Rightarrow> MemoryRun list \<Rightarrow> KernelHints \<Rightarrow> bool \<Rightarrow> ('s, 'k, 'c) world \<Rightarrow> ('s, 'k, 'c) world" where
  "PrintDryRunText highestPhysicalEnd totalPhysicalBytes runs hints topologyChanged w =
     put_out
       (wide (''PhylaRAM 0.1.0-alpha - Dry-run topology inspection'' @ nl @ nl @ ''Physical RAM    : '') @
        num (totalPhysicalBytes div (1024 * 1024)) @ wide '' MiB ('' @ num totalPhysicalBytes @ wide ('' bytes)'' @ nl) @
        wide ''Highest address : 0x'' @ hexu highestPhysicalEnd @ wide nl @
        wide ''Memory ranges   : '' @ wide (dec (length runs)) @ wide nl @
        wide ''Topology changed: '' @ wide (if topologyChanged then ''Yes'' else ''No'') @ wide nl @
        (if kh_available hints
         then wide ''System DTB      : 0x'' @ hexu (kh_directoryTableBase hints) @ wide nl @
              wide ''Executing KPCR  : 0x'' @ hexu (kh_kpcrAddress hints) @ wide nl @
              wide ''Kernel base     : 0x'' @ hexu (kh_kernelBase hints) @ wide nl @
              wide ''Windows build   : '' @ num (kh_buildNumber hints) @ wide nl
         else [])) w"

section \<open>The dry run\<close>

text \<open>The end of a scope: \<open>~DeviceSession\<close>, then \<open>~DriverRuntime\<close>.\<close>

definition close_device ::
  "('s, 'k, 'c) calls \<Rightarrow> 'k DeviceSession \<Rightarrow> ('s, 'k, 'c) world \<Rightarrow> ('s, 'k, 'c) world" where
  "close_device P d w = w \<lparr> wd_dev := ds_sys (DeviceSession_Close (ca_dev P) d) \<rparr>"

definition stop_runtime ::
  "('s, 'k, 'c) calls \<Rightarrow> 's DriverRuntime \<Rightarrow> ('s, 'k, 'c) world \<Rightarrow> ('s, 'k, 'c) world" where
  "stop_runtime P r w =
     (case dr_st (snd (DriverRuntime_Stop (ca_api P) (ca_scm P) r)) of (s, h) \<Rightarrow> w \<lparr> wd_sys := s, wd_host := h \<rparr>)"

definition start_runtime ::
  "('s, 'k, 'c) calls \<Rightarrow> ('s, 'k, 'c) world \<Rightarrow> bool \<times> wstring \<times> 's DriverRuntime" where
  "start_runtime P w =
     DriverRuntime_Start (ca_api P) (ca_staging P) (ca_scm P) (DriverRuntime_init (wd_sys w, wd_host w))"

definition open_device ::
  "('s, 'k, 'c) calls \<Rightarrow> 's DriverRuntime \<Rightarrow> ('s, 'k, 'c) world \<Rightarrow> bool \<times> 'k DeviceSession" where
  "open_device P r w = DeviceSession_Open (ca_dev P) (DeviceSession_init (ca_attach P (fst (dr_st r)) (wd_dev w)))"

definition cannot_open :: "'k DeviceSession \<Rightarrow> wstring" where
  "cannot_open d = wide ''Unable to open '' @ PHYLA_USER_DEVICE_NAME @ wide ''. Error '' @ num (ds_lastError d) @ wide nl"

definition RunDryRun ::
  "('s, 'k, 'c) calls \<Rightarrow> bool \<Rightarrow> ('s, 'k, 'c) world \<Rightarrow> int \<times> ('s, 'k, 'c) world" where
  "RunDryRun P json w =
     (case start_runtime P w of
        (False, runtimeError, r) \<Rightarrow> (1, stop_runtime P r (put_err (runtimeError @ wide nl) w))
      | (True, runtimeError, r) \<Rightarrow>
          (case open_device P r w of
             (False, d) \<Rightarrow>
               (let r = snd (DriverRuntime_Stop (ca_api P) (ca_scm P) r)
                in (1, stop_runtime P r (close_device P d (put_err (cannot_open d) w))))
           | (True, d) \<Rightarrow>
               (case DeviceSession_Query (ca_dev P) (ca_io P) d of (queryOk, (highestPhysicalEnd, totalPhysicalBytes, runs), d) \<Rightarrow>
                case DeviceSession_QueryHints (ca_dev P) (ca_io P) d of (hintsOk, hints, d) \<Rightarrow>
                case DeviceSession_End (ca_dev P) (ca_io P) d of (endOk, topologyChanged, d) \<Rightarrow>
                  (let d = DeviceSession_Close (ca_dev P) d
                   in case DriverRuntime_Stop (ca_api P) (ca_scm P) r of (cleanupError, r) \<Rightarrow>
                     (let hints = (if \<not> hintsOk then KernelHints_default else hints);
                          (code, w) =
                            (if \<not> queryOk \<or> \<not> endOk
                             then (1, put_err (wide (''Dry-run topology inspection failed.'' @ nl)) w)
                             else if cleanupError \<noteq> ERROR_SUCCESS
                             then (1, put_err (wide ''Dry-run completed, but driver cleanup failed with error '' @
                                     num cleanupError @ wide (''.'' @ nl)) w)
                             else (if topologyChanged then 2 else 0,
                                   (if json then PrintDryRunJson else PrintDryRunText)
                                     highestPhysicalEnd totalPhysicalBytes runs hints topologyChanged w))
                      in (code, stop_runtime P r (close_device P d w)))))))"

section \<open>The capture\<close>

definition capture_config :: "CliOptions \<Rightarrow> AcquisitionConfig" where
  "capture_config options = \<lparr> cfg_quiet = cl_quiet options, cfg_rateLimitMBps = cl_rateLimitMBps options,
     cfg_format = cl_format options, cfg_metadata = cl_metadata options, cfg_onProgress = False \<rparr>"

text \<open>The exit code and the text for a capture and its clean-up.\<close>

definition ReportCapture ::
  "bool \<Rightarrow> EvidenceCaptureResult \<Rightarrow> u32 \<Rightarrow> ('s, 'k, 'c) world \<Rightarrow> int \<times> ('s, 'k, 'c) world" where
  "ReportCapture quiet result cleanupError w =
     (if HasFinalizedBundle result
      then
        (let summary = ec_summary result;
             w = (if \<not> quiet
                  then put_out
                    (wide ''Acquired bytes  : '' @ num (as_acquiredBytes summary) @ wide nl @
                     wide ''Unreadable bytes: '' @ num (as_unreadableBytes summary) @ wide nl @
                     wide ''Topology changed: '' @ wide (if as_topologyChanged summary then ''Yes'' else ''No'') @ wide nl @
                     wide ''SHA-256         : '' @ wide (as_sha256 summary) @ wide nl) w
                  else w)
         in if cleanupError \<noteq> ERROR_SUCCESS
            then (1, put_err (wide ''Evidence bundle was finalized, but driver cleanup failed with error '' @
                    num cleanupError @ wide (''.'' @ nl)) w)
            else if ec_status result = Incomplete
            then (2, put_out (wide (''INCOMPLETE: the evidence bundle is finalized, but unreadable memory or a topology change was recorded.'' @ nl)) w)
            else (0, put_out (wide (''Complete. Run phylaram-verify for independent offline verification.'' @ nl)) w))
      else
        (let w = (if ec_error result \<noteq> []
                  then put_err (ec_error result @
                         (if ec_systemError result \<noteq> ERROR_SUCCESS
                          then wide '' Error '' @ num (ec_systemError result) @ wide ''.'' else []) @ wide nl) w
                  else w);
             w = (if cleanupError \<noteq> ERROR_SUCCESS
                  then put_err (wide ''Driver cleanup also failed with error '' @ num cleanupError @ wide (''.'' @ nl)) w
                  else w)
         in (1, w)))"

text \<open>
  The flag is lowered before the capture; what the capture then reads of it is the host's.
\<close>

definition RunCapture ::
  "('s, 'k, 'c) calls \<Rightarrow> CliOptions \<Rightarrow> ('s, 'k, 'c) world \<Rightarrow> int \<times> ('s, 'k, 'c) world" where
  "RunCapture P options w =
     (case start_runtime P w of
        (False, runtimeError, r) \<Rightarrow> (1, stop_runtime P r (put_err (runtimeError @ wide nl) w))
      | (True, runtimeError, r) \<Rightarrow>
          (case open_device P r w of
             (False, d) \<Rightarrow>
               (let r = snd (DriverRuntime_Stop (ca_api P) (ca_scm P) r)
                in (1, stop_runtime P r (close_device P d (put_err (cannot_open d) w))))
           | (True, d) \<Rightarrow>
               (case CaptureEvidenceToFile (DeviceSession_class (ca_dev P) (ca_io P)) (ca_api P) (ca_cng P) (ca_utf8 P)
                       (cl_outputPath options) (capture_config options) d (fst (dr_st r)) (wd_hash w) (snd (dr_st r)) of
                  (result, d, s, k, host) \<Rightarrow>
                    (let d = DeviceSession_Close (ca_dev P) d
                     in case DriverRuntime_Stop (ca_api P) (ca_scm P) (r \<lparr> dr_st := (s, host) \<rparr>) of (cleanupError, r) \<Rightarrow>
                       (case ReportCapture (cl_quiet options) result cleanupError (w \<lparr> wd_hash := k \<rparr>) of
                          (code, w) \<Rightarrow> (code, stop_runtime P r (close_device P d w)))))))"

section \<open>The checks and \<open>wmain\<close>\<close>

definition IsAdministrator :: "'s platform \<Rightarrow> 's \<Rightarrow> bool \<times> 's" where
  "IsAdministrator F s =
     (case pf_AllocateAndInitializeSid F s of (allocated, rawSid, s) \<Rightarrow>
        if \<not> allocated then (False, s)
        else
          (case pf_CheckTokenMembership F rawSid s of (checked, isMember, s) \<Rightarrow>
             (checked \<and> isMember, if rawSid \<noteq> 0 then pf_FreeSid F rawSid s else s)))"

text \<open>The reason why the system is not supported, or none.\<close>

definition IsSupportedWindows :: "'s platform \<Rightarrow> 's \<Rightarrow> wstring option" where
  "IsSupportedWindows F s =
     (let ntdll = pf_GetModuleHandleW F (wide ''ntdll.dll'') s
      in if ntdll = 0 then Some (wide ''Unable to locate ntdll.dll.'')
         else
           (let rtlGetVersion = pf_GetProcAddress F ntdll ''RtlGetVersion'' s
            in if rtlGetVersion = 0 then Some (wide ''Unable to resolve RtlGetVersion.'')
               else
                 (case pf_RtlGetVersion F rtlGetVersion s of (status, majorVersion, buildNumber) \<Rightarrow>
                    if status \<noteq> 0 then Some (wide ''Unable to determine the Windows version.'')
                    else if majorVersion < 10 \<or> majorVersion = 10 \<and> buildNumber < 19041
                    then Some (wide ''PhylaRAM requires Windows 10 version 2004 (build 19041) or later, or Windows 11.'')
                    else None)))"

definition wmain ::
  "('s, 'k, 'c) calls \<Rightarrow> wstring list \<Rightarrow> ('s, 'k, 'c) world \<Rightarrow> int \<times> ('s, 'k, 'c) world" where
  "wmain P argv w =
     (if length argv = 1 then ca_gui P w
      else
        (case ParseCommandLine argv CliOptions_default of
           Inl parseError \<Rightarrow> (1, PrintUsage (put_err (parseError @ wide (nl @ nl)) w))
         | Inr options \<Rightarrow>
             if cl_command options = Help then (0, PrintUsage w)
             else if cl_command options = Gui then ca_gui P w
             else
               (case IsAdministrator (ca_platform P) (wd_sys w) of (admin, s) \<Rightarrow>
                  (let w = w \<lparr> wd_sys := s \<rparr>
                   in if \<not> admin then (1, put_err (wide (''PhylaRAM must run elevated as Administrator.'' @ nl)) w)
                      else
                        (case IsSupportedWindows (ca_platform P) (wd_sys w) of
                           Some unsupportedReason \<Rightarrow> (1, put_err (unsupportedReason @ wide nl) w)
                         | None \<Rightarrow>
                             (case pf_SetConsoleCtrlHandler (ca_platform P) (wd_sys w) of (installed, s) \<Rightarrow>
                                (let w = w \<lparr> wd_sys := s \<rparr>
                                 in if \<not> installed
                                    then (1, put_err (wide (''Unable to install the cancellation handler.'' @ nl)) w)
                                    else if cl_command options = DryRun then RunDryRun P (cl_json options) w
                                    else RunCapture P options w)))))))"

end
