(* ===== verification/ProgramContract.thy ===== *)
theory ProgramContract
  imports MainProgram RuntimeTheorems EvidenceTheorems SessionTheorems
begin

text \<open>
  A run of the capture program over its parts. \<open>capture_program\<close> extends the contract of the driver
  runtime to the record of calls the program makes; its lemmas follow the files through start,
  capture and stop.
\<close>

section \<open>Exit codes\<close>

definition exit_code :: "EvidenceCaptureResult \<Rightarrow> u32 \<Rightarrow> int" where
  "exit_code result cleanupError =
     (if \<not> HasFinalizedBundle result \<or> cleanupError \<noteq> ERROR_SUCCESS then 1
      else if ec_status result = Incomplete then 2 else 0)"

lemma ReportCapture_code: "fst (ReportCapture quiet result cleanupError w) = exit_code result cleanupError"
  by (auto simp: ReportCapture_def exit_code_def Let_def)

lemma stop_runtime_sys:
  "wd_sys (stop_runtime P r w) = fst (dr_st (snd (DriverRuntime_Stop (ca_api P) (ca_scm P) r)))"
  by (simp add: stop_runtime_def split: prod.splits)

section \<open>The platform\<close>

text \<open>The calls of the platform checks do not touch the files.\<close>

definition quiet_platform :: "'s platform \<Rightarrow> ('s \<Rightarrow> wstring \<Rightarrow> bytes option) \<Rightarrow> bool" where
  "quiet_platform F files \<longleftrightarrow>
     (\<forall>s. files (snd (snd (pf_AllocateAndInitializeSid F s))) = files s) \<and>
     (\<forall>x s. files (snd (snd (pf_CheckTokenMembership F x s))) = files s) \<and>
     (\<forall>x s. files (pf_FreeSid F x s) = files s) \<and>
     (\<forall>s. files (snd (pf_SetConsoleCtrlHandler F s)) = files s)"

lemma IsAdministrator_files:
  assumes "quiet_platform F files" and "IsAdministrator F s = (admin, s')"
  shows "files s' = files s"
  using assms unfolding quiet_platform_def IsAdministrator_def
  by (auto split: prod.splits if_splits) (metis snd_conv)+

section \<open>The files\<close>

locale capture_program = service_system "ca_api P" files opened "ca_staging P" "ca_scm P"
  for P :: "('s, 'k, 'c) calls" and files :: "'s \<Rightarrow> wstring \<Rightarrow> bytes option"
    and opened :: "'s \<Rightarrow> u64 \<Rightarrow> (wstring \<times> nat) option" +
  assumes deletes: "deletes_work (ca_api P) files" and sees: "sees_files (ca_api P) files"
begin

definition device :: "'k DeviceSession IDeviceSession" where
  "device = DeviceSession_class (ca_dev P) (ca_io P)"

lemma idle_stop_files:
  assumes "dr_extractedDriverPath r = []"
  shows "files (wd_sys (stop_runtime P r w)) = files (fst (dr_st r))"
proof -
  obtain e r' where s: "DriverRuntime_Stop (ca_api P) (ca_scm P) r = (e, r')" by fastforce
  show ?thesis
    using Stop_runtime_files [OF deletes s] assms s by (simp add: stop_runtime_sys)
qed

text \<open>The two stops of a scope that is left normally: the file of the driver is gone.\<close>

lemma stop_twice_files:
  assumes "DriverRuntime_Stop (ca_api P) (ca_scm P) r = (e, r')"
    and "dr_extractedDriverPath r \<noteq> []" and "files (fst (dr_st r)) (dr_extractedDriverPath r) \<noteq> None"
  shows "files (wd_sys (stop_runtime P r' w)) = (files (fst (dr_st r)))(dr_extractedDriverPath r := None)"
  using Stop_runtime_files [OF deletes assms(1)] assms(2,3) idle_stop_files [of r' w] by simp

lemma start_runtime_files:
  assumes "start_runtime P w = (ok, e, r)"
  shows "if ok
    then dr_extractedDriverPath r \<noteq> [] \<and> files (wd_sys w) (dr_extractedDriverPath r) = None \<and>
      (\<exists>driver. files (fst (dr_st r)) = (files (wd_sys w))(dr_extractedDriverPath r \<mapsto> driver))
    else dr_extractedDriverPath r = [] \<and> files (fst (dr_st r)) = files (wd_sys w)"
  using Start_files [OF deletes _ _ assms [unfolded start_runtime_def]]
  by (simp add: DriverRuntime_init_def split: if_splits)

text \<open>How a capture run ends: without a capture, or with one between start and stop.\<close>

lemma RunCapture_cases:
  assumes "RunCapture P options w = (code, w')"
  obtains (refused) "code = 1" "files (wd_sys w') = files (wd_sys w)"
  | (captured) e r d result d' s k host cleanupError where
      "start_runtime P w = (True, e, r)" "open_device P r w = (True, d)"
      "CaptureEvidenceToFile device (ca_api P) (ca_cng P) (ca_utf8 P) (cl_outputPath options)
         (capture_config options) d (fst (dr_st r)) (wd_hash w) (snd (dr_st r)) = (result, d', s, k, host)"
      "code = exit_code result cleanupError"
      "files s (dr_extractedDriverPath r) \<noteq> None \<Longrightarrow>
         files (wd_sys w') = (files s)(dr_extractedDriverPath r := None)"
proof -
  obtain ok e r where st: "start_runtime P w = (ok, e, r)" by (metis prod_cases3)
  obtain opn d where op: "open_device P r w = (opn, d)" by fastforce
  note start = start_runtime_files [OF st]
  show thesis
  proof (cases "ok \<and> opn")
    case False
    obtain e1 r1 where s1: "DriverRuntime_Stop (ca_api P) (ca_scm P) r = (e1, r1)" by fastforce
    have "code = 1 \<and> files (wd_sys w') = files (wd_sys w)"
    proof (cases ok)
      case True
      then show ?thesis
        using False assms st op s1 start stop_twice_files [OF s1]
        by (auto simp: RunCapture_def Let_def fun_upd_idem)
    next
      case False
      then show ?thesis
        using assms st start idle_stop_files by (auto simp: RunCapture_def)
    qed
    then show thesis using refused by blast
  next
    case True
    obtain result d' s k host where cap: "CaptureEvidenceToFile device (ca_api P) (ca_cng P) (ca_utf8 P)
        (cl_outputPath options) (capture_config options) d (fst (dr_st r)) (wd_hash w) (snd (dr_st r)) =
        (result, d', s, k, host)" by (metis prod_cases5)
    obtain cleanupError r1 where s1: "DriverRuntime_Stop (ca_api P) (ca_scm P) (r \<lparr> dr_st := (s, host) \<rparr>) =
        (cleanupError, r1)" by fastforce
    obtain c v where rep: "ReportCapture (cl_quiet options) result cleanupError (w \<lparr> wd_hash := k \<rparr>) = (c, v)" by fastforce
    have c: "c = exit_code result cleanupError"
      using ReportCapture_code [of "cl_quiet options" result cleanupError "w \<lparr> wd_hash := k \<rparr>"] rep by simp
    have w': "code = c \<and> w' = stop_runtime P r1 (close_device P (DeviceSession_Close (ca_dev P) d') v)"
      using assms st op cap s1 rep True by (simp add: RunCapture_def device_def Let_def)
    have "files (wd_sys w') = (files s)(dr_extractedDriverPath r := None)"
      if "files s (dr_extractedDriverPath r) \<noteq> None"
      using stop_twice_files [OF s1] w' start True that by simp
    then show thesis
      using captured [OF _ _ cap] st op True c w' by simp
  qed
qed

text \<open>The capture between them leaves the driver's file alone.\<close>

lemma capture_between:
  assumes "start_runtime P w = (True, e, r)"
    and "CaptureEvidenceToFile device (ca_api P) (ca_cng P) (ca_utf8 P) out config d (fst (dr_st r)) k host =
      (result, d', s, k', host')"
  shows "files s (dr_extractedDriverPath r) \<noteq> None"
    and "HasFinalizedBundle result \<Longrightarrow>
      (\<forall>q \<in> set (path_list (BuildEvidencePaths out)). files (wd_sys w) q = None) \<and>
      (\<exists>img map hash. (files s)(dr_extractedDriverPath r := None) =
         (files (wd_sys w))(ep_mapFinal (BuildEvidencePaths out) \<mapsto> map,
           ep_hashFinal (BuildEvidencePaths out) \<mapsto> hash, ep_rawFinal (BuildEvidencePaths out) \<mapsto> img))"
    and "\<not> HasFinalizedBundle result \<Longrightarrow> files (wd_sys w) q \<noteq> None \<Longrightarrow>
      ((files s)(dr_extractedDriverPath r := None)) q = files (wd_sys w) q"
proof -
  let ?p = "dr_extractedDriverPath r" and ?ps = "BuildEvidencePaths out"
  obtain driver where p: "?p \<noteq> []" "files (wd_sys w) ?p = None"
      "files (fst (dr_st r)) = (files (wd_sys w))(?p \<mapsto> driver)"
    using start_runtime_files [OF assms(1)] by auto
  note atomic = capture_atomic [OF win32_files_axioms deletes sees assms(2)]
  have finals: "{ep_mapFinal ?ps, ep_hashFinal ?ps, ep_rawFinal ?ps} \<subseteq> set (path_list ?ps)"
    by (simp add: path_list_def)
  have apart: "?p \<notin> set (path_list ?ps)" if "HasFinalizedBundle result"
    using atomic that p(3) by (metis fun_upd_same option.distinct(1))
  show "files s ?p \<noteq> None"
  proof (cases "HasFinalizedBundle result")
    case True
    then show ?thesis using atomic apart [OF True] finals p(3) by fastforce
  next
    case False
    then show ?thesis using atomic p(3) by (metis fun_upd_same option.distinct(1))
  qed
  show "(\<forall>q \<in> set (path_list ?ps). files (wd_sys w) q = None) \<and>
      (\<exists>img map hash. (files s)(?p := None) = (files (wd_sys w))(ep_mapFinal ?ps \<mapsto> map,
         ep_hashFinal ?ps \<mapsto> hash, ep_rawFinal ?ps \<mapsto> img))" if fin: "HasFinalizedBundle result"
  proof -
    obtain img map hash where s: "files s = (files (fst (dr_st r)))(ep_mapFinal ?ps \<mapsto> map,
        ep_hashFinal ?ps \<mapsto> hash, ep_rawFinal ?ps \<mapsto> img)" using atomic fin by blast
    have "(files s)(?p := None) = (files (wd_sys w))(ep_mapFinal ?ps \<mapsto> map,
        ep_hashFinal ?ps \<mapsto> hash, ep_rawFinal ?ps \<mapsto> img)"
      using apart [OF fin] finals p(2) unfolding s p(3) by (auto simp: fun_eq_iff)
    moreover have "files (wd_sys w) q = None" if "q \<in> set (path_list ?ps)" for q
      using atomic fin that apart [OF fin] p(3) by (metis fun_upd_other)
    ultimately show ?thesis by blast
  qed
  show "((files s)(?p := None)) q = files (wd_sys w) q"
    if "\<not> HasFinalizedBundle result" and "files (wd_sys w) q \<noteq> None"
    using atomic that p(2,3) by (auto split: if_splits)
qed

text \<open>A bundle that was finalized, after the clean-up.\<close>

lemma finalized_bundle:
  fixes runs config out summary
  defines "fmt \<equiv> chosen_format (cfg_format config) out" and "ps \<equiv> BuildEvidencePaths out"
    and "A \<equiv> ranges_addresses runs - spans_addresses (as_unreadable summary)"
  assumes "cng (ca_cng P) absorbed sha256_digest" and "device_contract device dinv"
    and "frozen_memory device dinv mem hi tot runs" and "dinv d"
    and "format_fits (ca_api P) opened fmt (cfg_metadata config) runs"
    and "start_runtime P w = (True, e, r)"
    and "CaptureEvidenceToFile device (ca_api P) (ca_cng P) (ca_utf8 P) out config d (fst (dr_st r)) k host = (result, d', s, k', host')"
    and "HasFinalizedBundle result" and "ec_summary result = summary"
  shows "\<exists>img hints doc.
    (files s)(dr_extractedDriverPath r := None) = (files (wd_sys w))(ep_mapFinal ps \<mapsto> ascii doc,
      ep_hashFinal ps \<mapsto> ascii (sidecar_text (as_sha256 summary) (NarrowUtf8 (ca_utf8 P) (path_filename out))),
      ep_rawFinal ps \<mapsto> img) \<and>
    image_content fmt mem hi tot runs hints (cfg_metadata config) A img \<and>
    unhex (as_sha256 summary) = Some (sha256_digest (image_of mem A (unat hi))) \<and>
    read_map doc = Some (reported summary) \<and> as_ranges summary = runs \<and>
    unat (as_acquiredBytes summary) + unat (as_unreadableBytes summary) = unat tot \<and>
    (ec_status result = Complete \<longleftrightarrow> \<not> as_topologyChanged summary \<and> as_unreadableBytes summary = 0)"
proof -
  obtain img hints doc where ev: "files s (ep_rawFinal ps) = Some img"
      "image_content fmt mem hi tot runs hints (cfg_metadata config) A img"
      "unhex (as_sha256 summary) = Some (sha256_digest (image_of mem A (unat hi)))"
      "files s (ep_hashFinal ps) =
        Some (ascii (sidecar_text (as_sha256 summary) (NarrowUtf8 (ca_utf8 P) (path_filename out))))"
      "files s (ep_mapFinal ps) = Some (ascii doc)"
      "read_map doc = Some (reported summary)" "as_ranges summary = runs"
      "unat (as_acquiredBytes summary) + unat (as_unreadableBytes summary) = unat tot"
      "ec_status result = Complete \<longleftrightarrow> \<not> as_topologyChanged summary \<and> as_unreadableBytes summary = 0"
    using bundle_evidence [OF win32_files_axioms deletes sees assms(4-7) _ assms(10,11)] assms(8,12)
    unfolding fmt_def ps_def A_def by metis
  let ?p = "dr_extractedDriverPath r"
  obtain img' map hash where after: "(files s)(?p := None) = (files (wd_sys w))(ep_mapFinal ps \<mapsto> map,
      ep_hashFinal ps \<mapsto> hash, ep_rawFinal ps \<mapsto> img')"
    using capture_between(2) [OF assms(9,10,11)] unfolding ps_def by blast
  have distinct: "ep_mapFinal ps \<noteq> ep_hashFinal ps" "ep_mapFinal ps \<noteq> ep_rawFinal ps" "ep_hashFinal ps \<noteq> ep_rawFinal ps"
    by (simp_all add: ps_def BuildEvidencePaths_def wide_def)
  have at: "files s q = Some x" if "((files s)(?p := None)) q = Some x" for q x
    using that by (simp split: if_splits)
  have "img' = img" "map = ascii doc"
    "hash = ascii (sidecar_text (as_sha256 summary) (NarrowUtf8 (ca_utf8 P) (path_filename out)))"
    using at [of "ep_rawFinal ps" img'] at [of "ep_mapFinal ps" map] at [of "ep_hashFinal ps" hash] ev(1,4,5) distinct
    unfolding after by simp_all
  then show ?thesis using after ev by blast
qed

text \<open>The whole run.\<close>

lemma run_capture:
  fixes c :: PHYLA_FILE_CONTEXT and arr :: "PHYSICAL_MEMORY_RANGE list" and options
  defines "fmt \<equiv> chosen_format (cl_format options) (cl_outputPath options)" and "ps \<equiv> BuildEvidencePaths (cl_outputPath options)"
    and "runs \<equiv> driver_runs (range_entries arr)"
  assumes "cng (ca_cng P) absorbed sha256_digest"
    and "driver_connection K (ca_io P) mach fobj mem" and "session_over arr c"
    and "\<forall>r d. open_device P r w = (True, d) \<longrightarrow> connected K mach fobj c arr d"
    and "format_fits (ca_api P) opened fmt (cl_metadata options) runs"
    and "RunCapture P options w = (code, w')"
  shows "code \<in> {0, 1, 2} \<and> (\<forall>q. files (wd_sys w) q \<noteq> None \<longrightarrow> files (wd_sys w') q = files (wd_sys w) q) \<and>
    (code \<noteq> 1 \<longrightarrow> (\<exists>summary img hints doc.
      (let A = ranges_addresses runs - spans_addresses (as_unreadable summary) in
       files (wd_sys w') = (files (wd_sys w))(ep_mapFinal ps \<mapsto> ascii doc,
         ep_hashFinal ps \<mapsto> ascii (sidecar_text (as_sha256 summary) (NarrowUtf8 (ca_utf8 P) (path_filename (cl_outputPath options)))),
         ep_rawFinal ps \<mapsto> img) \<and>
       image_content fmt mem (fc_HighestPhysicalEnd c) (fc_TotalBytes c) runs hints (cl_metadata options) A img \<and>
       unhex (as_sha256 summary) = Some (sha256_digest (image_of mem A (unat (fc_HighestPhysicalEnd c)))) \<and>
       read_map doc = Some (reported summary) \<and> as_ranges summary = runs \<and>
       unat (as_acquiredBytes summary) + unat (as_unreadableBytes summary) = unat (fc_TotalBytes c) \<and>
       (code = 0 \<longleftrightarrow> \<not> as_topologyChanged summary \<and> as_unreadableBytes summary = 0))))"
  using assms(9)
proof (cases rule: RunCapture_cases)
  case refused
  then show ?thesis by simp
next
  case (captured e r d result d' s k host cleanupError)
  have codes: "code \<in> {0, 1, 2}" "code \<noteq> 1 \<Longrightarrow> HasFinalizedBundle result"
      "code \<noteq> 1 \<Longrightarrow> (code = 0 \<longleftrightarrow> ec_status result = Complete)"
    using captured(4) by (auto simp: exit_code_def HasFinalizedBundle_def split: if_splits)
  note between = capture_between [OF captured(1,3)]
  have after: "files (wd_sys w') = (files s)(dr_extractedDriverPath r := None)"
    using captured(5) between(1) by blast
  have kept: "files (wd_sys w') q = files (wd_sys w) q" if "files (wd_sys w) q \<noteq> None" for q
  proof (cases "HasFinalizedBundle result")
    case True
    obtain img map hash where "files (wd_sys w') = (files (wd_sys w))(ep_mapFinal ps \<mapsto> map,
        ep_hashFinal ps \<mapsto> hash, ep_rawFinal ps \<mapsto> img)" "\<forall>q \<in> set (path_list ps). files (wd_sys w) q = None"
      using between(2) [OF True] unfolding after ps_def by blast
    then show ?thesis using that by (auto simp: path_list_def)
  next
    case False
    then show ?thesis using between(3) that after by simp
  qed
  have conn: "connected K mach fobj c arr d" using assms(7) captured(2) by blast
  show ?thesis
  proof (cases "code = 1")
    case True
    then show ?thesis using kept by simp
  next
    case False
    have contract: "device_contract device (connected K mach fobj c arr)"
      and frozen: "frozen_memory device (connected K mach fobj c arr) mem (fc_HighestPhysicalEnd c) (fc_TotalBytes c) runs"
      using connected_contract [OF assms(5)] connected_frozen [OF assms(5,6)] unfolding device_def runs_def by blast+
    have cfg: "cfg_format (capture_config options) = cl_format options" "cfg_metadata (capture_config options) = cl_metadata options"
      by (simp_all add: capture_config_def)
    note done_bundle = finalized_bundle [OF assms(4) contract frozen conn _ captured(1,3) codes(2) [OF False] refl,
        unfolded cfg, OF assms(8) [unfolded fmt_def]]
    have "code = 0 \<longleftrightarrow> ec_status result = Complete" by (rule codes(3) [OF False])
    then show ?thesis
      unfolding Let_def using done_bundle kept codes(1) unfolding after fmt_def ps_def
      by (intro conjI impI exI [of _ "ec_summary result"]) simp_all
  qed
qed

section \<open>The dry run\<close>

text \<open>A dry run leaves the files alone; what it prints is what the session reported.\<close>

lemma dry_run_files:
  assumes "RunDryRun P json w = (code, w')"
  shows "files (wd_sys w') = files (wd_sys w)"
proof -
  obtain ok e r where st: "start_runtime P w = (ok, e, r)" by (metis prod_cases3)
  obtain opn d where op: "open_device P r w = (opn, d)" by fastforce
  obtain e1 r1 where s1: "DriverRuntime_Stop (ca_api P) (ca_scm P) r = (e1, r1)" by fastforce
  have "\<exists>u. w' = stop_runtime P (if ok then r1 else r) u"
  proof (cases "ok \<and> opn")
    case True
    then show ?thesis
      using assms st op s1 by (simp add: RunDryRun_def Let_def case_prod_unfold) blast
  next
    case False
    then show ?thesis using assms st op s1 by (cases ok) (auto simp: RunDryRun_def Let_def)
  qed
  then show ?thesis
    using start_runtime_files [OF st] stop_twice_files [OF s1] idle_stop_files by (auto simp: fun_upd_idem split: if_splits)
qed

lemma dry_run_report:
  assumes "RunDryRun P json w = (code, w')"
  obtains (failed) "code = 1"
  | (reported) r d hi tot runs d1 hints topologyChanged where
      "open_device P r w = (True, d)" "DeviceSession_Query (ca_dev P) (ca_io P) d = (True, (hi, tot, runs), d1)"
      "code = (if topologyChanged then 2 else 0)" "wd_err w' = wd_err w"
      "wd_out w' = wd_out ((if json then PrintDryRunJson else PrintDryRunText) hi tot runs hints topologyChanged w)"
proof -
  obtain ok e r where st: "start_runtime P w = (ok, e, r)" by (metis prod_cases3)
  obtain opn d where op: "open_device P r w = (opn, d)" by fastforce
  obtain queryOk hi tot runs d1 where q: "DeviceSession_Query (ca_dev P) (ca_io P) d = (queryOk, (hi, tot, runs), d1)"
    by (metis prod.exhaust)
  obtain hintsOk hints d2 where h: "DeviceSession_QueryHints (ca_dev P) (ca_io P) d1 = (hintsOk, hints, d2)"
    by (metis prod_cases3)
  obtain endOk changed d3 where n: "DeviceSession_End (ca_dev P) (ca_io P) d2 = (endOk, changed, d3)" by (metis prod_cases3)
  obtain cleanupError r1 where s1: "DriverRuntime_Stop (ca_api P) (ca_scm P) r = (cleanupError, r1)" by fastforce
  have out: "wd_out (stop_runtime P r w) = wd_out w" "wd_err (stop_runtime P r w) = wd_err w"
    "wd_out (close_device P d w) = wd_out w" "wd_err (close_device P d w) = wd_err w" for r d w
    by (simp_all add: stop_runtime_def close_device_def split: prod.splits)
  have err: "wd_err ((if json then PrintDryRunJson else PrintDryRunText) hi tot runs x changed w) = wd_err w" for x
    by (simp add: PrintDryRunJson_def PrintDryRunText_def put_out_def)
  show thesis
  proof (cases "ok \<and> opn \<and> queryOk \<and> endOk \<and> cleanupError = ERROR_SUCCESS")
    case False
    then have "code = 1"
      using assms st op q h n s1 by (auto simp: RunDryRun_def Let_def split: bool.splits if_splits prod.splits)
    then show thesis by (rule failed)
  next
    case True
    then show thesis
      using reported [of r d hi tot runs d1 changed "if \<not> hintsOk then KernelHints_default else hints"]
        assms st op q h n s1 out err by (auto simp: RunDryRun_def Let_def)
  qed
qed

lemma run_dry_run:
  fixes c :: PHYLA_FILE_CONTEXT and arr :: "PHYSICAL_MEMORY_RANGE list"
  assumes "driver_connection K (ca_io P) mach fobj mem" and "session_over arr c"
    and "\<forall>r d. open_device P r w = (True, d) \<longrightarrow> connected K mach fobj c arr d"
    and "RunDryRun P json w = (code, w')"
  shows "files (wd_sys w') = files (wd_sys w) \<and> code \<in> {0, 1, 2} \<and>
    (code \<noteq> 1 \<longrightarrow> wd_err w' = wd_err w \<and> (\<exists>hints. wd_out w' = wd_out
       ((if json then PrintDryRunJson else PrintDryRunText) (fc_HighestPhysicalEnd c) (fc_TotalBytes c)
          (driver_runs (range_entries arr)) hints (code = 2) w)))"
  using assms(4)
proof (cases rule: dry_run_report)
  case failed
  then show ?thesis using dry_run_files [OF assms(4)] by simp
next
  case (reported r d hi tot runs d1 hints changed)
  have "hi = fc_HighestPhysicalEnd c \<and> tot = fc_TotalBytes c \<and> runs = driver_runs (range_entries arr)"
    by (rule driver_connection.query_reports_snapshot [OF assms(1) reported(2) assms(3) [rule_format, OF reported(1)] assms(2)])
  then show ?thesis using dry_run_files [OF assms(4)] reported by (cases changed) auto
qed

lemma capture_codes:
  assumes "RunCapture P options w = (code, w')"
  shows "code \<in> {0, 1, 2}"
  using assms by (cases rule: RunCapture_cases) (auto simp: exit_code_def)

lemma dry_run_code:
  assumes "RunDryRun P json w = (code, w')"
  shows "code \<in> {0, 1, 2}"
  using assms
proof (cases rule: dry_run_report)
  case (reported r d hi tot runs d1 hints changed)
  then show ?thesis by (cases changed) simp_all
qed simp

section \<open>The program\<close>

text \<open>Without authority, or without options that ask for a capture, the files stay as they are.\<close>

lemma wmain_writes:
  assumes "quiet_platform (ca_platform P) files" and "length argv \<noteq> 1"
    and "\<And>options. ParseCommandLine argv CliOptions_default = Inr options \<Longrightarrow> cl_command options \<noteq> Gui"
    and "wmain P argv w = (code, w')"
  shows "code \<in> {0, 1, 2} \<and> (files (wd_sys w') \<noteq> files (wd_sys w) \<longrightarrow>
    (\<exists>options s. ParseCommandLine argv CliOptions_default = Inr options \<and> cl_command options = Capture \<and>
       IsAdministrator (ca_platform P) (wd_sys w) = (True, s) \<and> IsSupportedWindows (ca_platform P) s = None))"
proof (cases "ParseCommandLine argv CliOptions_default")
  case (Inl e)
  then show ?thesis using assms(2,4) by (auto simp: wmain_def PrintUsage_def put_out_def put_err_def)
next
  case (Inr options)
  obtain admin s where a: "IsAdministrator (ca_platform P) (wd_sys w) = (admin, s)" by fastforce
  obtain installed t where i: "pf_SetConsoleCtrlHandler (ca_platform P) s = (installed, t)" by fastforce
  have same: "files s = files (wd_sys w)" "files t = files s"
    using IsAdministrator_files [OF assms(1) a] assms(1) i unfolding quiet_platform_def by (simp_all add: prod_eq_iff) metis
  let ?w = "w \<lparr> wd_sys := t \<rparr>"
  consider (stopped) "code \<in> {0, 1}" "files (wd_sys w') = files (wd_sys w)"
    | (dry) "RunDryRun P (cl_json options) ?w = (code, w')"
    | (capture) "RunCapture P options ?w = (code, w')" "cl_command options = Capture" "admin"
        "IsSupportedWindows (ca_platform P) s = None"
    using assms(2,4) assms(3) [OF Inr] Inr a i same
    by (cases "cl_command options")
      (auto simp: wmain_def PrintUsage_def put_out_def put_err_def Let_def split: if_splits option.splits)
  then show ?thesis
  proof cases
    case stopped
    then show ?thesis by auto
  next
    case dry
    then show ?thesis using dry_run_files [OF dry] dry_run_code [OF dry] same by simp
  next
    case capture
    then show ?thesis using capture_codes [OF capture(1)] Inr a by auto
  qed
qed

end

end
