(* ===== verification/ProgramBench.thy ===== *)
theory ProgramBench
  imports ProgramContract
begin

text \<open>
  A capture that runs to its end over every part of the program: the small kernel with the driver
  loaded, the device session over it, and the volume, the service manager and the hash provider on
  which nothing fails. The theorems about the program are applied to it.
\<close>

section \<open>The driver answers\<close>

definition attached :: "small_kernel machine DeviceSession \<Rightarrow> bool" where
  "attached d \<longleftrightarrow> ds_handle d = 1 \<and> ds_sys d = small_opened"

lemma small_copies:
  assumes "run \<in> set bench_runs" and "request_ok run off n"
  shows "PhylaCopyRun small_api (Some small_context)
      (Some \<lparr> rd_RunIndex = mr_driverIndex run, rd_Length = n, rd_OffsetWithinRun = off \<rparr>) 0x40020 n 0x40000
      (mc_kernel small_opened) =
    Some (STATUS_SUCCESS, Some (read_header (mr_base run + off) n n 0,
      map (\<lambda>i. small_mem (unat (mr_base run + off) + i)) [0..<unat n]), mc_kernel small_opened)"
proof -
  let ?q = "\<lparr> rd_RunIndex = mr_driverIndex run, rd_Length = n, rd_OffsetWithinRun = off \<rparr>"
  have irql: "\<not> k_KeGetCurrentIrql small_api (mc_kernel small_opened) > APC_LEVEL"
    by (simp add: small_api_def)
  have n: "unat n \<le> 8" "n \<noteq> 0" "unat off + unat n \<le> unat (mr_length run)" "n \<le> PHYLA_MAX_TRANSFER"
    using assms by (auto simp: request_ok_def bench_runs_def)
  have fits: "request_fits (range_entries small_block) ?q \<and>
      pr_BaseAddress (range_entries small_block ! unat (mr_driverIndex run)) = mr_base run"
    using assms(1) n unfolding small_block_def small_entries
    by (auto simp: request_fits_def bench_runs_def)
  have pool: "k_pool small_api (mc_kernel small_opened) (fc_Ranges small_context) = Some small_block"
    using small_opened_context by (simp add: small_context_def small_block_def)
  have m: "k_MmCopyMemory small_api a (ucast n) k = (map (\<lambda>i. small_mem (unat a + i)) [0..<unat n], ucast n, 0, k)" for a k
    by (simp add: small_api_def)
  show ?thesis
    using small.copy_run [OF pool small_block_session _ _ _ _ irql, of "0x40020" "0x40000" ?q n] fits
    by (simp add: m small_context_def Let_def)
qed

abbreviation small_data :: "u64 \<Rightarrow> u32 \<Rightarrow> bytes" where
  "small_data p n \<equiv> map (\<lambda>i. small_mem (unat p + i)) [0..<unat n]"

lemma small_output_length:
  assumes "n \<le> 8"
  shows "(of_nat (32 + unat (n :: u32)) :: u64) = 32 + ucast n" and "ucast (32 + ucast n :: u64) = 32 + n"
    and "\<not> (32 + ucast n :: u64) < ucast (32 + n)" and "\<not> 32 + n < 32"
proof -
  have "unat n \<le> 8" using assms by (simp add: word_le_nat_alt)
  then have u: "unat (32 + n) = 32 + unat n" "unat (32 + ucast n :: u64) = 32 + unat n"
    by (simp_all add: unat_word_ariths unsigned_ucast_eq take_bit_eq_mod)
  show "(of_nat (32 + unat n) :: u64) = 32 + ucast n" by simp
  show "ucast (32 + ucast n :: u64) = 32 + n" 
    using u \<open>unat n \<le> 8\<close> by (simp add: word_unat_eq_iff unsigned_ucast_eq take_bit_nat_eq_self)
  show "\<not> (32 + ucast n :: u64) < ucast (32 + n)" using u by (simp add: word_less_nat_alt unsigned_ucast_eq)
  show "\<not> 32 + n < 32" using u by (simp add: word_less_nat_alt)
qed

lemma small_loop_read:
  assumes "run \<in> set bench_runs" and "request_ok run off n" and "length buffer = 32 + unat n"
  shows "loop_io 1 IOCTL_PHYLA_READ_RUN
      (read_request_bytes \<lparr> rd_RunIndex = mr_driverIndex run, rd_Length = n, rd_OffsetWithinRun = off \<rparr>) buffer small_opened =
    (True, 32 + n, read_result_bytes (read_header (mr_base run + off) n n 0) @ small_data (mr_base run + off) n, small_opened)"
proof -
  let ?q = "\<lparr> rd_RunIndex = mr_driverIndex run, rd_Length = n, rd_OffsetWithinRun = off \<rparr>"
  have q: "read_request_of (read_request_bytes q) = q" for q
    using read_request_of_bytes [of q "[]"] by simp
  have "unat n \<le> 8"
    using assms(1,2) by (auto simp: request_ok_def bench_runs_def)
  then have n: "n \<le> 8" by (simp add: word_le_nat_alt)
  note len = small_output_length [OF n]
  have ctx: "mc_files small_opened 1 = Some small_context" "\<not> no_session (Some small_context)"
    using small_opened_context by (simp_all add: small_context_def no_session_def)
  let ?req = "loop_request 1 (read_request_bytes ?q) (of_nat (length buffer))"
  have "PhylaHandleReadRun small_api ?req (of_nat (length buffer)) small_opened =
      Some (STATUS_SUCCESS, 32 + ucast n,
        read_result_bytes (read_header (mr_base run + off) n n 0) @ small_data (mr_base run + off) n, small_opened)"
    using small_copies [OF assms(1,2)] ctx len assms(3)
    by (simp add: PhylaHandleReadRun_def PhylaRequestFileContext_def loop_request_def q Let_def read_header_def)
  then show ?thesis
    using assms(3) len by (simp add: loop_io_def PhylaEvtIoDeviceControl_def overlay_front)
qed

lemma attached_read:
  assumes "attached d" and "run \<in> set bench_runs" and "request_ok run off n"
  shows "\<exists>r d'. DeviceSession_Read api loop_io (mr_driverIndex run) off n d = (True, r, d') \<and>
    ValidateReadResult r (mr_base run + off) n \<and> attached d'"
proof -
  let ?q = "\<lparr> rd_RunIndex = mr_driverIndex run, rd_Length = n, rd_OffsetWithinRun = off \<rparr>"
  let ?cap = "32 + unat n"
  let ?io = "if length (ds_ioBuffer d) < ?cap then resize (ds_ioBuffer d) ?cap else ds_ioBuffer d"
  let ?h = "read_header (mr_base run + off) n n 0" and ?data = "small_data (mr_base run + off) n"
  have d: "ds_handle d = 1" "ds_sys d = small_opened" using assms(1) by (simp_all add: attached_def)
  have n: "n \<noteq> 0" "\<not> n > PHYLA_MAX_TRANSFER" "unat n \<le> 8"
    using assms(2,3) by (auto simp: request_ok_def bench_runs_def)
  have io: "length (take ?cap ?io) = ?cap" by (simp add: resize_def)
  from small_loop_read [OF assms(2,3) io] have c:
    "DeviceSession_control api loop_io IOCTL_PHYLA_READ_RUN (read_request_bytes ?q) (take ?cap ?io) (d \<lparr> ds_ioBuffer := ?io \<rparr>) =
      (True, 32 + n, read_result_bytes ?h @ ?data, d \<lparr> ds_ioBuffer := ?io, ds_sys := small_opened \<rparr>)"
    using d by (simp add: DeviceSession_control_def)
  have n8: "n \<le> 8" using n(3) by (simp add: word_le_nat_alt)
  have cnt: "(ucast (32 + n) :: u64) = 32 + ucast n" "\<not> 32 + n < 32"
    using small_output_length [OF n8] n(3) by (simp_all add: word_unat_eq_iff unsigned_ucast_eq unat_word_ariths)
  have "DeviceSession_Read api loop_io (mr_driverIndex run) off n d =
      (True, \<lparr> rr_physicalAddress = mr_base run + off, rr_requested = n, rr_copied = n, rr_copyStatus = 0, rr_data = ?data \<rparr>,
       d \<lparr> ds_ioBuffer := overlay ?io 0 (read_result_bytes ?h @ ?data), ds_sys := small_opened \<rparr>)"
    using c d n(1,2) cnt
    by (simp add: DeviceSession_Read_def Let_def INVALID_HANDLE_VALUE_def overlay_front read_header_def field_skip)
  then show ?thesis
    using d by (auto simp: ValidateReadResult_def attached_def)
qed

lemma attached_query: "attached d \<Longrightarrow> DeviceSession_Query api loop_io d = (True, (24, 12, bench_runs), d)"
  by (simp add: attached_def small_session_query bench_runs_def)

lemma small_hints:
  "\<exists>hints. PhylaHandleQueryHints small_api (loop_request 1 [] 64) 64 small_opened = Some (STATUS_SUCCESS, 64, hints, small_opened)"
  using small_opened_context
  by (simp add: PhylaHandleQueryHints_def PhylaQueryKernelHints_def PhylaRequestFileContext_def loop_request_def
      no_session_def small_api_def Let_def)

lemma attached_hints:
  assumes "attached d"
  shows "attached (snd (snd (DeviceSession_QueryHints api loop_io d)))"
proof -
  obtain hints where "PhylaHandleQueryHints small_api (loop_request 1 [] 64) 64 small_opened =
      Some (STATUS_SUCCESS, 64, hints, small_opened)" using small_hints by blast
  then have "loop_io 1 IOCTL_PHYLA_QUERY_HINTS [] (replicate 64 0) small_opened =
      (True, 64, overlay (replicate 64 0) 0 hints, small_opened)"
    by (simp add: loop_io_def PhylaEvtIoDeviceControl_def)
  then show ?thesis
    using assms by (simp add: DeviceSession_QueryHints_def DeviceSession_control_def DeviceSession_fail_def
        attached_def Let_def INVALID_HANDLE_VALUE_def)
qed

lemma attached_reliable:
  assumes "\<And>w run xs p. winv w \<Longrightarrow> run \<in> set bench_runs \<Longrightarrow> xs \<noteq> [] \<Longrightarrow>
       {unat p ..< unat p + length xs} \<subseteq> run_addresses run \<Longrightarrow> \<exists>w'. wr_WriteAt W p xs w = (True, w') \<and> winv w'"
  shows "reliable_acquisition (DeviceSession_class api loop_io) W bench_hasher attached winv (\<lambda>h. h \<noteq> None) 24 12 bench_runs"
proof
  fix d run off n
  assume "attached d" "run \<in> set bench_runs" "request_ok run off n"
  then show "\<exists>r d'. dev_Read (DeviceSession_class api loop_io) (mr_driverIndex run) off n d = (True, r, d') \<and>
      ValidateReadResult r (mr_base run + off) n \<and> attached d'"
    using attached_read by (simp add: DeviceSession_class_def)
next
  fix d assume "attached d"
  then show "\<exists>c d'. dev_End (DeviceSession_class api loop_io) d = (True, c, d')"
    using small_device_end [of d api] by (auto simp: DeviceSession_class_def attached_def)
next
  fix d ok x d' assume "attached d" "dev_QueryHints (DeviceSession_class api loop_io) d = (ok, x, d')"
  then show "attached d'"
    using attached_hints [of d api] by (simp add: DeviceSession_class_def)
next
  show "\<forall>r \<in> set bench_runs. run_end r \<le> unat (24 :: u64)"
    by (auto simp: bench_runs_def run_end_def)
qed (use assms in \<open>auto simp: DeviceSession_class_def attached_query bench_hasher_def bench_runs_wf\<close>, simp_all add: bench_runs_def)

section \<open>The machine the program runs on\<close>

text \<open>
  The device name space of the small kernel: opening the device creates its file object. The service
  manager knows no service before one is created and reports it running.
\<close>

definition device_names :: "small_kernel machine win32" where
  "device_names = \<lparr>
     w_CreateFileW = (\<lambda>p a c m. case PhylaEvtFileCreate small_api 1 m of
        Some (st, m') \<Rightarrow> if NT_SUCCESS st then (1, m') else (INVALID_HANDLE_VALUE, m')
      | None \<Rightarrow> (INVALID_HANDLE_VALUE, m)),
     w_WriteFile = (\<lambda>h xs m. (False, 0, m)), w_SetFilePointerEx = (\<lambda>h off m. (False, m)),
     w_SetEndOfFile = (\<lambda>h m. (False, m)), w_SetSparse = (\<lambda>h m. (False, m)),
     w_FlushFileBuffers = (\<lambda>h m. (False, m)),
     w_CloseHandle = (\<lambda>h m. case PhylaEvtFileCleanup small_api h m of Some m' \<Rightarrow> m' | None \<Rightarrow> m),
     w_DeleteFileW = (\<lambda>p m. (False, m)), w_MoveFileExW = (\<lambda>p q f m. (False, m)),
     w_GetFileAttributesW = (\<lambda>p m. (INVALID_FILE_ATTRIBUTES, m)),
     w_GetVolumePathNameW = (\<lambda>p m. (False, [], m)), w_GetVolumeInformationW = (\<lambda>p m. (False, (0, []), m)),
     w_GetDiskFreeSpaceExW = (\<lambda>p m. (False, 0, m)), w_GetLastError = (\<lambda>m. 2) \<rparr>"

definition house_scm :: "disk scm" where
  "house_scm = quiet_scm \<lparr> sc_OpenServiceW := (\<lambda>c a s. (0, s \<lparr> k_error := ERROR_SERVICE_DOES_NOT_EXIST \<rparr>)) \<rparr>"

definition small_program :: "(disk, small_kernel machine, hash_system) calls" where
  "small_program = \<lparr> ca_api = steady_api, ca_staging = quiet_staging, ca_scm = house_scm,
     ca_platform = \<lparr> pf_AllocateAndInitializeSid = (\<lambda>s. (True, 7, s)), pf_CheckTokenMembership = (\<lambda>x s. (True, True, s)),
       pf_FreeSid = (\<lambda>x s. s), pf_GetModuleHandleW = (\<lambda>n s. 8), pf_GetProcAddress = (\<lambda>m n s. 9),
       pf_RtlGetVersion = (\<lambda>f s. (0, 10, 19045)), pf_SetConsoleCtrlHandler = (\<lambda>s. (True, s)) \<rparr>,
     ca_attach = (\<lambda>s m. m), ca_dev = device_names, ca_io = loop_io, ca_cng = hash_api, ca_utf8 = bench_conv,
     ca_gui = (\<lambda>w. (0, w)) \<rparr>"

lemma small_program_sels [simp]:
  "ca_api small_program = steady_api" "ca_staging small_program = quiet_staging" "ca_scm small_program = house_scm"
  "ca_attach small_program s m = m" "ca_dev small_program = device_names" "ca_io small_program = loop_io"
  "ca_cng small_program = hash_api" "ca_utf8 small_program = bench_conv"
  by (simp_all add: small_program_def)

definition small_world :: "(disk, small_kernel machine, hash_system) world" where
  "small_world = \<lparr> wd_sys = blank_disk, wd_dev = small_machine_0, wd_hash = bench_cng, wd_host = bench_host,
     wd_out = [], wd_err = [] \<rparr>"

definition small_options :: CliOptions where
  "small_options = CliOptions_default \<lparr> cl_outputPath := bench_out, cl_quiet := True \<rparr>"

lemma small_options_config [simp]: "capture_config small_options = bench_config"
  by (simp add: capture_config_def small_options_def CliOptions_default_def bench_config_def)

lemma house_service: "service_system steady_api disk_files disk_open quiet_staging house_scm"
  by unfold_locales (auto simp: quiet_staging_def quiet_scm_def house_scm_def)

interpretation house: capture_program small_program disk_files disk_open
  using house_service by (simp add: capture_program_def capture_program_axioms_def steady_deletes steady_sees)

section \<open>Start and stop\<close>

lemma house_path:
  "\<exists>p. GenerateUnpredictableDriverPath steady_api quiet_staging blank_disk = (p, blank_disk) \<and> 30 < length p"
  by (simp add: GenerateUnpredictableDriverPath_def ResolveExtractionDirectory_def ExtractionBase_def steady_sels
      CreateSecureDirectory_def ApplyProtectedAdminDacl_def quiet_staging_def MAX_PATH_def disk_directories_def
      FILE_ATTRIBUTE_DIRECTORY_def INVALID_FILE_ATTRIBUTES_def ERROR_SUCCESS_def driver_file_name_def wide_def Let_def)

lemma bench_names_short: "\<forall>q \<in> set (path_list (BuildEvidencePaths bench_out)). length q \<le> 30"
  by (simp add: path_list_def BuildEvidencePaths_def bench_out_def wide_def)

lemma house_extracts:
  "\<exists>path s. ExtractEmbeddedDriver steady_api quiet_staging blank_disk = (True, path, s) \<and> roomy 2 s"
proof -
  obtain p where p: "GenerateUnpredictableDriverPath steady_api quiet_staging blank_disk = (p, blank_disk)" "30 < length p"
    using house_path by blast
  have new: "p \<notin> set (path_list (BuildEvidencePaths bench_out))" using bench_names_short p(2) by fastforce
  have ne: "p \<noteq> []" using p(2) by auto
  define u where "u = blank_disk \<lparr> k_calls := 2, k_files := AList.update p [] [], k_open := [(2, p, 0)] \<rparr>"
  have c: "w_CreateFileW steady_api p GENERIC_WRITE CREATE_NEW blank_disk = (2, u)"
    by (simp add: u_def steady_sels disk_create_def disk_call_def blank_disk_def CREATE_NEW_def CREATE_ALWAYS_def
        INVALID_HANDLE_VALUE_def disk_files_def disk_open_def del: disk_call_simps)
  define v where "v = u \<lparr> k_files := AList.update p [0x4D, 0x5A, 0x90] [], k_open := [(2, p, 3)] \<rparr>"
  have w: "steady_write 2 [0x4D, 0x5A, 0x90] u = (True, 3, v)"
    by (simp add: steady_write_def u_def v_def file_write_def overlay_def disk_files_def disk_open_def del: disk_call_simps)
  have "idle 2 (handle_reset steady_api 2 v)"
    by (simp add: v_def u_def idle_def handle_reset_def steady_sels INVALID_HANDLE_VALUE_def disk_open_def blank_disk_def
        del: disk_call_simps)
  moreover have "disk_files (handle_reset steady_api 2 v) = [p \<mapsto> [0x4D, 0x5A, 0x90]]"
    by (simp add: v_def u_def handle_reset_def steady_sels INVALID_HANDLE_VALUE_def disk_files_def del: disk_call_simps)
  ultimately have v: "roomy 2 (handle_reset steady_api 2 v)"
    using new by (auto simp: roomy_def v_def u_def handle_reset_def steady_sels INVALID_HANDLE_VALUE_def blank_disk_def)
  have "ExtractLoop steady_api 2 [] v = (True, v)"
    by (subst ExtractLoop.simps) simp
  then have "ExtractLoop steady_api 2 [0x4D, 0x5A, 0x90] u = (True, v)"
    using w by (subst ExtractLoop.simps) (simp add: steady_sels)
  then show ?thesis
    using p ne c v by (auto simp: ExtractEmbeddedDriver_def Let_def quiet_staging_def steady_sels INVALID_HANDLE_VALUE_def)
qed


lemma roomy_error: "roomy n (s \<lparr> k_error := e \<rparr>) = roomy n s"
  by (simp add: roomy_def idle_def)

lemma house_installs:
  "InstallAndStartDriver steady_api house_scm path (s, bench_host) =
    (True, [], s \<lparr> k_error := ERROR_SERVICE_DOES_NOT_EXIST \<rparr>, host_tick (host_tick bench_host))"
proof -
  have "WaitForServiceState house_scm 2 SERVICE_RUNNING kServiceTransitionTimeoutMs (t, bench_host) =
      (True, t, host_tick (host_tick bench_host))" for t
    by (subst WaitForServiceState_def)
      (simp add: WaitLoop.simps clock_now_def host_tick_def bench_host_def house_scm_def quiet_scm_def
        kServiceTransitionTimeoutMs_def)
  moreover have "w_GetLastError steady_api = k_error" by (simp add: steady_api_def disk_api_def)
  ultimately show ?thesis
    by (simp add: InstallAndStartDriver_def RemoveExistingService_def StartInstalled_def house_scm_def quiet_scm_def
        Let_def service_reset_def)
qed

lemma house_starts:
  "\<exists>e r. start_runtime small_program small_world = (True, e, r) \<and> roomy 2 (fst (dr_st r)) \<and>
     (\<forall>n. \<not> h_cancel (snd (dr_st r)) n) \<and> dr_serviceStarted r"
proof -
  obtain path s where "ExtractEmbeddedDriver steady_api quiet_staging blank_disk = (True, path, s)" "roomy 2 s"
    using house_extracts by blast
  then show ?thesis
    by (simp add: start_runtime_def DriverRuntime_Start_def DriverRuntime_init_def small_world_def house_installs
        roomy_error host_tick_def) (simp add: bench_host_def)
qed

lemma house_stops:
  assumes "dr_serviceStarted r" and "disk_files (fst (dr_st r)) (dr_extractedDriverPath r) \<noteq> None"
  shows "\<exists>r'. DriverRuntime_Stop steady_api house_scm r = (ERROR_SUCCESS, r')"
proof -
  have "w_GetLastError steady_api = k_error" by (simp add: steady_api_def disk_api_def)
  then have stop: "StopAndDeleteDriver steady_api house_scm st =
      (ERROR_SUCCESS, (fst st) \<lparr> k_error := ERROR_SERVICE_DOES_NOT_EXIST \<rparr>, snd st)" for st
    by (simp add: StopAndDeleteDriver_def house_scm_def quiet_scm_def Let_def service_reset_def)
  have delete: "\<exists>st'. DeleteExtractedDriver steady_api p (s, h) = (ERROR_SUCCESS, st')"
    if "disk_files s p \<noteq> None" for p s h
  proof -
    have "w_DeleteFileW steady_api p s = (True, s \<lparr> k_files := AList.delete p (k_files s) \<rparr>)"
      using that by (simp add: steady_api_def)
    then show ?thesis by (simp add: DeleteExtractedDriver_def kDeleteFileAttempts_def numeral_eq_Suc)
  qed
  obtain st' where "DeleteExtractedDriver steady_api (dr_extractedDriverPath r)
      ((fst (dr_st r)) \<lparr> k_error := ERROR_SERVICE_DOES_NOT_EXIST \<rparr>, snd (dr_st r)) = (ERROR_SUCCESS, st')"
    using delete [of "(fst (dr_st r)) \<lparr> k_error := ERROR_SERVICE_DOES_NOT_EXIST \<rparr>" "dr_extractedDriverPath r"] assms(2)
    unfolding disk_call_simps by blast
  then show ?thesis using assms(1) stop by (simp add: DriverRuntime_Stop_def)
qed

section \<open>The device\<close>

lemma house_open:
  "open_device small_program r small_world = (True, (DeviceSession_init small_machine_0) \<lparr> ds_handle := 1, ds_sys := small_opened \<rparr>)"
  using small_opened_context
  by (simp add: open_device_def DeviceSession_Open_def DeviceSession_init_def device_names_def small_world_def
      handle_reset_def INVALID_HANDLE_VALUE_def)

lemma house_connected:
  "\<forall>r d. open_device small_program r small_world = (True, d) \<longrightarrow> connected small_api (\<lambda>m. m) (\<lambda>h. h) small_context small_block d"
  using small_device_connected unfolding house_open
  by (auto simp: connected_def small_device_def DeviceSession_init_def)

lemma house_driven: "bench_driven (DeviceSession_class device_names loop_io) attached"
  unfolding bench_driven_def by (intro allI impI attached_reliable) blast

section \<open>The contracts of the engine on the program's parts\<close>

text \<open>
  The engine between the device session over the driver, the raw writer on a volume and the hasher
  over a hash provider: every locale about an acquisition holds of the classes the program passes to it.
\<close>

interpretation session_device: device_contract "DeviceSession_class device_names loop_io" small_connected
  by (rule connected_contract [OF loop.driver_connection_axioms])

interpretation engine_image: flat_acquisition "RawWriter_class steady_api" "raw_image disk_files disk_open"
    "Sha256_class hash_api" "sha_fed hk_absorbed" "\<lambda>bs. hex_of (some_digest bs)"
    "DeviceSession_class device_names loop_io" small_connected small_mem n for n
proof (intro flat_acquisition.intro flat_acquisition_axioms.intro)
  show "image_writer_contract (RawWriter_class steady_api) (raw_image disk_files disk_open)"
    by (rule steady.raw.image_writer_contract_axioms)
  show "hasher_contract (Sha256_class hash_api) (sha_fed hk_absorbed) (\<lambda>bs. hex_of (some_digest bs))"
    by (rule hash_system.hasher_contract_axioms)
  show "device_contract (DeviceSession_class device_names loop_io) small_connected"
    by (rule session_device.device_contract_axioms)
  show "rr_data r ! j = small_mem (unat (rr_physicalAddress r) + j)"
    if "small_connected d" "dev_Read (DeviceSession_class device_names loop_io) i off m d = (True, r, d')"
      "j < length (rr_data r)" for d i off m r d' j
    using connected_frozen [OF loop.driver_connection_axioms small_block_session] that unfolding frozen_memory_def by blast
qed

interpretation engine_progress: reliable_acquisition "DeviceSession_class device_names loop_io"
    "evidence_writer_class steady_api" "Sha256_class hash_api" attached "\<lambda>v. \<exists>w. v = WRaw w \<and> raw_serving n p w"
    hash_live 24 12 bench_runs for n p
  by (rule driven_reliable [OF house_driven])

interpretation bundle_staging: staged_writer "evidence_writer_class steady_api" disk_files writer_sys ew_ready
    "ew_working disk_files disk_open"
  by (rule win32_files.staged_contract [OF steady.win32_files_axioms])

section \<open>The run\<close>

lemma house_runs:
  "\<exists>code w'. RunCapture small_program small_options small_world = (code, w') \<and> code \<noteq> 1"
proof -
  obtain e r where st: "start_runtime small_program small_world = (True, e, r)" "roomy 2 (fst (dr_st r))"
      "\<forall>n. \<not> h_cancel (snd (dr_st r)) n" "dr_serviceStarted r" using house_starts by blast
  let ?d = "(DeviceSession_init small_machine_0) \<lparr> ds_handle := 1, ds_sys := small_opened \<rparr>"
  have d: "attached ?d" by (simp add: attached_def)
  obtain result d' s k host where cap: "CaptureEvidenceToFile (DeviceSession_class device_names loop_io) steady_api hash_api
      bench_conv bench_out bench_config ?d (fst (dr_st r)) bench_cng (snd (dr_st r)) = (result, d', s, k, host)"
      "HasFinalizedBundle result" using driven_capture_final [OF house_driven d st(3,2), of bench_config] by (auto simp: bench_config_def)
  have out: "cl_outputPath small_options = bench_out" "wd_hash small_world = bench_cng"
    by (simp_all add: small_options_def small_world_def)
  have "disk_files s (dr_extractedDriverPath r) \<noteq> None"
    using house.capture_between(1) [OF st(1)] cap(1) by (fastforce simp: house.device_def)
  then obtain r' where stop: "DriverRuntime_Stop steady_api house_scm (r \<lparr> dr_st := (s, host) \<rparr>) = (ERROR_SUCCESS, r')"
    using house_stops [of "r \<lparr> dr_st := (s, host) \<rparr>"] st(4) by auto
  obtain c v where rep: "ReportCapture (cl_quiet small_options) result ERROR_SUCCESS (small_world \<lparr> wd_hash := k \<rparr>) = (c, v)"
    by fastforce
  have "c \<noteq> 1"
    using ReportCapture_code [of "cl_quiet small_options" result ERROR_SUCCESS "small_world \<lparr> wd_hash := k \<rparr>"] rep cap(2)
    by (auto simp: exit_code_def split: if_splits)
  then show ?thesis
    using st(1) house_open [of r] cap(1) stop rep out by (simp add: RunCapture_def Let_def)
qed


text \<open>The run leaves its bundle behind.\<close>

lemma house_run_writes:
  assumes "RunCapture small_program small_options small_world = (code, w')" and "code \<noteq> 1"
  shows "disk_files (wd_sys w') \<noteq> disk_files (wd_sys small_world)"
proof -
  have cng: "cng (ca_cng small_program) hk_absorbed some_digest"
    and conn: "driver_connection small_api (ca_io small_program) (\<lambda>m. m) (\<lambda>h. h) small_mem"
    using hash_system.cng_axioms loop.driver_connection_axioms by simp_all
  have fits: "format_fits (ca_api small_program) disk_open
      (chosen_format (cl_format small_options) (cl_outputPath small_options)) (cl_metadata small_options) R" for R
    by (simp add: small_options_def CliOptions_default_def bench_raw format_fits_def)
  obtain p q r x y z where "disk_files (wd_sys w') = (disk_files (wd_sys small_world))(p \<mapsto> x, q \<mapsto> y, r \<mapsto> z)"
    using house.run_capture [OF cng conn small_block_session house_connected fits assms(1), THEN conjunct2, THEN conjunct2,
        rule_format, OF assms(2)] unfolding Let_def by (elim exE conjE)
  then have "disk_files (wd_sys w') r = Some z" by simp
  moreover have "disk_files (wd_sys small_world) = Map.empty" using blank_idle(1) by (simp add: small_world_def)
  ultimately show ?thesis by auto
qed

definition house_arguments :: "wstring list" where
  "house_arguments = [wide ''phylaram'', wide ''--quiet'', bench_out]"

lemma house_parses: "ParseCommandLine house_arguments CliOptions_default = Inr small_options"
  by (simp add: house_arguments_def small_options_def bench_out_def ParseCommandLine_def ChooseCommand_def
      CliOptions_default_def wide_def Let_def)

lemma house_platform: "quiet_platform (ca_platform small_program) disk_files"
  by (simp add: quiet_platform_def small_program_def)

lemma house_wmain:
  "\<exists>code w'. wmain small_program house_arguments small_world = (code, w') \<and> code \<noteq> 1 \<and>
     disk_files (wd_sys w') \<noteq> disk_files (wd_sys small_world)"
proof -
  have "IsAdministrator (ca_platform small_program) s = (True, s)" "IsSupportedWindows (ca_platform small_program) s = None"
    "pf_SetConsoleCtrlHandler (ca_platform small_program) s = (True, s)" for s
    by (simp_all add: small_program_def IsAdministrator_def IsSupportedWindows_def Let_def)
  moreover have "cl_command small_options = Capture" "length house_arguments \<noteq> 1"
    by (simp_all add: small_options_def CliOptions_default_def house_arguments_def)
  ultimately have "wmain small_program house_arguments small_world = RunCapture small_program small_options small_world"
    by (simp add: wmain_def house_parses Let_def)
  then show ?thesis using house_runs house_run_writes by metis
qed

lemma house_dry_run:
  "\<exists>code w'. RunDryRun small_program True small_world = (code, w') \<and> code \<noteq> 1"
proof -
  obtain e r where st: "start_runtime small_program small_world = (True, e, r)" "dr_serviceStarted r"
    using house_starts by blast
  let ?d = "(DeviceSession_init small_machine_0) \<lparr> ds_handle := 1, ds_sys := small_opened \<rparr>"
  have d: "attached ?d" by (simp add: attached_def)
  obtain hintsOk hints d2 where h: "DeviceSession_QueryHints device_names loop_io ?d = (hintsOk, hints, d2)" "attached d2"
    using attached_hints [OF d, of device_names] by (metis prod_cases3 snd_conv)
  obtain changed d3 where n: "DeviceSession_End device_names loop_io d2 = (True, changed, d3)"
    using small_device_end [of d2 device_names] h(2) by (auto simp: attached_def)
  obtain r' where stop: "DriverRuntime_Stop steady_api house_scm r = (ERROR_SUCCESS, r')"
    using house_stops [OF st(2)] house.start_runtime_files [OF st(1)] by auto
  show ?thesis
    using st(1) house_open [of r] attached_query [OF d, of device_names] h(1) n stop by (simp add: RunDryRun_def Let_def)
qed

end
