(* ===== verification/GuiWindow.thy ===== *)
theory GuiWindow
  imports MainProgram
begin

text \<open>
  The graphical interface (\<open>cli/gui.cpp\<close>): the texts it shows, the state of its window, the body of
  the worker thread, and the handlers of the messages that change the state. What the window system
  holds for the program (the text and the enabled flag of a control, the selection of the rate list,
  the message boxes shown so far, whether the window still exists) is part of the window's state.
\<close>

section \<open>Texts\<close>

text \<open>
  \<open>std::fixed << std::setprecision(k)\<close> on a non-negative number: the exact value of the double,
  rounded to \<open>k\<close> decimals, a tie to the even neighbour.
\<close>

definition half_even :: "rat \<Rightarrow> nat" where
  "half_even x =
     (let f = \<lfloor>x\<rfloor>; r = x - of_int f
      in nat (if r < 1 / 2 then f else if r > 1 / 2 then f + 1 else if even f then f else f + 1))"

definition fixed_text :: "nat \<Rightarrow> rat \<Rightarrow> string" where
  "fixed_text k x =
     (let n = half_even (x * 10 ^ k) in dec (n div 10 ^ k) @ ''.'' @ setw k (CHR ''0'') (dec (n mod 10 ^ k)))"

text \<open>\<open>rnd\<close> rounds to the nearest double.\<close>

definition FormatBytes :: "(rat \<Rightarrow> rat) \<Rightarrow> u64 \<Rightarrow> wstring" where
  "FormatBytes rnd bytes =
     (let x = rnd (of_nat (unat bytes))
      in wide (if bytes \<ge> 1024 * 1024 * 1024 then fixed_text 2 (rnd (x / (1024 * 1024 * 1024))) @ '' GiB''
               else if bytes \<ge> 1024 * 1024 then fixed_text 2 (rnd (x / (1024 * 1024))) @ '' MiB''
               else if bytes \<ge> 1024 then fixed_text 2 (rnd (x / 1024)) @ '' KiB''
               else dec (unat bytes) @ '' B''))"

definition bullet :: wstring where "bullet = 0x2022 # wide '' ''"
definition dash :: wstring where "dash = 0x2014 # wide '' ''"

definition ToWide :: "string \<Rightarrow> wstring" where "ToWide text = wide text"

text \<open>
  The path offered at the start: the computer's name, if it can be had, and the local time. The
  function also creates the directory of that path; directories are not part of the modelled volume.
\<close>

record local_time =
  tm_year :: nat
  tm_mon :: nat
  tm_mday :: nat
  tm_hour :: nat
  tm_min :: nat
  tm_sec :: nat

definition timestamp :: "local_time \<Rightarrow> wstring" where
  "timestamp t =
     wide (setw 4 (CHR ''0'') (dec (tm_year t)) @ setw 2 (CHR ''0'') (dec (tm_mon t)) @ setw 2 (CHR ''0'') (dec (tm_mday t)) @
       ''_'' @ setw 2 (CHR ''0'') (dec (tm_hour t)) @ setw 2 (CHR ''0'') (dec (tm_min t)) @ setw 2 (CHR ''0'') (dec (tm_sec t)))"

definition DefaultEvidencePath :: "wstring option \<Rightarrow> local_time \<Rightarrow> wstring" where
  "DefaultEvidencePath computerName localTime =
     wide (''C:'' @ [CHR 0x5C] @ ''Evidence'' @ [CHR 0x5C] @ ''mem_'') @
     (case computerName of None \<Rightarrow> wide ''HOST'' | Some n \<Rightarrow> n) @ wide ''_'' @ timestamp localTime @ wide ''.raw''"

section \<open>The window\<close>

datatype WorkerOperation = CaptureOperation | DryRunOperation

record ProgressPayload =
  pp_completedBytes :: u64
  pp_totalBytes :: u64
  pp_speedMBps :: rat
  pp_etaSeconds :: u32

record WorkerResult =
  wk_operation :: WorkerOperation
  wk_capture :: EvidenceCaptureResult
  wk_dryRunSucceeded :: bool
  wk_highestPhysicalEnd :: u64
  wk_totalPhysicalBytes :: u64
  wk_ranges :: "MemoryRun list"
  wk_hints :: KernelHints
  wk_topologyChanged :: bool
  wk_error :: wstring
  wk_cleanupError :: u32

definition WorkerResult_default :: WorkerResult where
  "WorkerResult_default = \<lparr> wk_operation = CaptureOperation, wk_capture = EvidenceCaptureResult_default,
     wk_dryRunSucceeded = False, wk_highestPhysicalEnd = 0, wk_totalPhysicalBytes = 0, wk_ranges = [],
     wk_hints = KernelHints_default, wk_topologyChanged = False, wk_error = [], wk_cleanupError = ERROR_SUCCESS \<rparr>"

datatype control = DestinationEdit | BrowseButton | StartButton | DryRunButton | CancelButton | RateList

datatype box_icon = Information | Warning | Error

record message_box =
  mb_text :: wstring
  mb_caption :: wstring
  mb_icon :: box_icon

text \<open>
  \<open>mw_text\<close> is the text of the edit control, \<open>mw_rates\<close> the item data of the list of rates and
  \<open>mw_rate\<close> its selection (\<open>None\<close> is \<open>CB_ERR\<close>); \<open>mw_worker\<close> is \<open>worker_.joinable()\<close>.
\<close>

record MainWindow =
  mw_text :: wstring
  mw_rates :: "int list"
  mw_rate :: "nat option"
  mw_enabled :: "control \<Rightarrow> bool"
  mw_boxes :: "message_box list"
  mw_destroyed :: bool
  mw_worker :: bool
  mw_cancelled :: bool
  mw_working :: bool
  mw_closing :: bool
  mw_progressPercent :: rat
  mw_completedBytes :: u64
  mw_totalBytes :: u64
  mw_currentSpeedMBps :: rat
  mw_currentEtaSec :: u32
  mw_statusText :: wstring
  mw_dtbText :: wstring
  mw_kbaseText :: wstring
  mw_rangesText :: wstring

definition MessageBox :: "wstring \<Rightarrow> wstring \<Rightarrow> box_icon \<Rightarrow> MainWindow \<Rightarrow> MainWindow" where
  "MessageBox body caption icon w =
     w \<lparr> mw_boxes := mw_boxes w @ [\<lparr> mb_text = body, mb_caption = caption, mb_icon = icon \<rparr>] \<rparr>"

definition EnableWindow :: "control \<Rightarrow> bool \<Rightarrow> MainWindow \<Rightarrow> MainWindow" where
  "EnableWindow c enable w = w \<lparr> mw_enabled := (mw_enabled w)(c := enable) \<rparr>"

text \<open>\<open>DestroyWindow\<close> sends \<open>WM_DESTROY\<close>, whose handler posts the quit message.\<close>

definition DestroyWindow :: "MainWindow \<Rightarrow> MainWindow" where
  "DestroyWindow w = w \<lparr> mw_destroyed := True \<rparr>"

definition SetWorking :: "bool \<Rightarrow> MainWindow \<Rightarrow> MainWindow" where
  "SetWorking working w =
     EnableWindow CancelButton working
       (EnableWindow RateList (\<not> working)
         (EnableWindow DryRunButton (\<not> working)
           (EnableWindow StartButton (\<not> working)
             (EnableWindow BrowseButton (\<not> working)
               (EnableWindow DestinationEdit (\<not> working) (w \<lparr> mw_working := working \<rparr>))))))"

definition SetStatus :: "wstring \<Rightarrow> MainWindow \<Rightarrow> MainWindow" where
  "SetStatus message w = w \<lparr> mw_statusText := message \<rparr>"

text \<open>The list of rates; an item the list box cannot take (\<open>CB_ERR\<close>, \<open>CB_ERRSPACE\<close>) is skipped.\<close>

definition rateChoices :: "(wstring \<times> u32) list" where
  "rateChoices = [(wide ''Unlimited'', 0), (wide ''500 MiB/s'', 500), (wide ''250 MiB/s'', 250),
     (wide ''100 MiB/s'', 100), (wide ''25 MiB/s'', 25), (wide ''1 MiB/s'', 1)]"

definition CreateControls :: "wstring \<Rightarrow> (wstring \<Rightarrow> bool) \<Rightarrow> MainWindow \<Rightarrow> MainWindow" where
  "CreateControls path added w =
     (let items = filter (\<lambda>(label, _). added label) rateChoices
      in SetWorking False (w \<lparr> mw_text := path, mw_rates := map (\<lambda>(_, v). uint v) items,
           mw_rate := (if items = [] then None else Some 0) \<rparr>))"

definition SelectedRateLimit :: "MainWindow \<Rightarrow> u32" where
  "SelectedRateLimit w =
     (case mw_rate w of
        None \<Rightarrow> 0
      | Some selected \<Rightarrow>
          (let value = (if selected < length (mw_rates w) then mw_rates w ! selected else -1)
           in if value < 0 then 0 else word_of_int value))"

text \<open>The window as its constructor leaves it.\<close>

definition MainWindow_init :: MainWindow where
  "MainWindow_init = \<lparr> mw_text = [], mw_rates = [], mw_rate = None, mw_enabled = (\<lambda>_. True), mw_boxes = [],
     mw_destroyed = False, mw_worker = False, mw_cancelled = False, mw_working = False, mw_closing = False,
     mw_progressPercent = 0, mw_completedBytes = 0, mw_totalBytes = 0, mw_currentSpeedMBps = 0, mw_currentEtaSec = 0,
     mw_statusText = wide ''Ready. Physical memory topology verified.'', mw_dtbText = wide ''--'',
     mw_kbaseText = wide ''--'', mw_rangesText = wide ''--'' \<rparr>"


section \<open>The worker thread\<close>

text \<open>
  The body of the thread in its four parts: the checks, start and open, the operation, and the way
  out, with the destructors of \<open>DeviceSession\<close> and \<open>DriverRuntime\<close> at its end.
\<close>

definition gui_config :: "u32 \<Rightarrow> AcquisitionConfig" where
  "gui_config rateLimit = \<lparr> cfg_quiet = True, cfg_rateLimitMBps = rateLimit, cfg_format = Raw,
     cfg_metadata = EvidenceMetadata_default, cfg_onProgress = True \<rparr>"

definition worker_checks :: "('s, 'k, 'c) calls \<Rightarrow> ('s, 'k, 'c) world \<Rightarrow> wstring \<times> ('s, 'k, 'c) world" where
  "worker_checks P w =
     (case IsAdministrator (ca_platform P) (wd_sys w) of (admin, s) \<Rightarrow>
        (let w = w \<lparr> wd_sys := s \<rparr>
         in (if \<not> admin then wide ''PhylaRAM requires Administrator privileges.''
             else (case IsSupportedWindows (ca_platform P) (wd_sys w) of None \<Rightarrow> [] | Some supportError \<Rightarrow> supportError), w)))"

definition worker_open ::
  "('s, 'k, 'c) calls \<Rightarrow> wstring \<Rightarrow> ('s, 'k, 'c) world \<Rightarrow> wstring \<times> 's DriverRuntime \<times> 'k DeviceSession" where
  "worker_open P error w =
     (if error = []
      then
        (case start_runtime P w of
           (False, runtimeError, r) \<Rightarrow> (runtimeError, r, DeviceSession_init (wd_dev w))
         | (True, runtimeError, r) \<Rightarrow>
             (case open_device P r w of
                (True, d) \<Rightarrow> ([], r, d)
              | (False, d) \<Rightarrow>
                  (wide ''Unable to open '' @ PHYLA_USER_DEVICE_NAME @ wide '' (Error '' @ num (ds_lastError d) @ wide '').'',
                   r, d)))
      else (error, DriverRuntime_init (wd_sys w, wd_host w), DeviceSession_init (wd_dev w)))"

definition worker_dry_run ::
  "('s, 'k, 'c) calls \<Rightarrow> 'k DeviceSession \<Rightarrow> WorkerResult \<Rightarrow> WorkerResult \<times> 'k DeviceSession" where
  "worker_dry_run P d result =
     (case DeviceSession_Query (ca_dev P) (ca_io P) d of (queryOk, (highestPhysicalEnd, totalPhysicalBytes, ranges), d) \<Rightarrow>
      case DeviceSession_QueryHints (ca_dev P) (ca_io P) d of (hintsOk, hints, d) \<Rightarrow>
      case DeviceSession_End (ca_dev P) (ca_io P) d of (endOk, topologyChanged, d) \<Rightarrow>
        (let result = result \<lparr> wk_highestPhysicalEnd := highestPhysicalEnd, wk_totalPhysicalBytes := totalPhysicalBytes,
               wk_ranges := ranges, wk_hints := (if \<not> hintsOk then KernelHints_default else hints),
               wk_topologyChanged := topologyChanged \<rparr>
         in (if \<not> queryOk \<or> \<not> endOk
             then result \<lparr> wk_error := wide ''Dry-run topology inspection failed. (Error '' @ num (ds_lastError d) @ wide '').'' \<rparr>
             else result \<lparr> wk_dryRunSucceeded := True \<rparr>, d)))"

definition worker_operation ::
  "('s, 'k, 'c) calls \<Rightarrow> WorkerOperation \<Rightarrow> wstring \<Rightarrow> u32 \<Rightarrow> WorkerResult \<Rightarrow> 's DriverRuntime \<Rightarrow> 'k DeviceSession \<Rightarrow>
   ('s, 'k, 'c) world \<Rightarrow> WorkerResult \<times> 's DriverRuntime \<times> 'k DeviceSession \<times> ('s, 'k, 'c) world" where
  "worker_operation P operation outputPath rateLimit result r d w =
     (if wk_error result \<noteq> [] then (result, r, d, w)
      else if operation = DryRunOperation
      then (case worker_dry_run P d result of (result, d) \<Rightarrow> (result, r, d, w))
      else
        (case CaptureEvidenceToFile (DeviceSession_class (ca_dev P) (ca_io P)) (ca_api P) (ca_cng P) (ca_utf8 P)
                outputPath (gui_config rateLimit) d (fst (dr_st r)) (wd_hash w) (snd (dr_st r)) of
           (capture, d, s, k, host) \<Rightarrow>
             (result \<lparr> wk_capture := capture \<rparr>, r \<lparr> dr_st := (s, host) \<rparr>, d, w \<lparr> wd_hash := k \<rparr>)))"

definition worker_body ::
  "('s, 'k, 'c) calls \<Rightarrow> WorkerOperation \<Rightarrow> wstring \<Rightarrow> u32 \<Rightarrow> ('s, 'k, 'c) world \<Rightarrow> WorkerResult \<times> ('s, 'k, 'c) world" where
  "worker_body P operation outputPath rateLimit w =
     (case worker_checks P w of (error, w) \<Rightarrow>
      case worker_open P error w of (error, r, d) \<Rightarrow>
      case worker_operation P operation outputPath rateLimit
             (WorkerResult_default \<lparr> wk_operation := operation, wk_error := error \<rparr>) r d w of (result, r, d, w) \<Rightarrow>
        (let d = DeviceSession_Close (ca_dev P) d
         in case DriverRuntime_Stop (ca_api P) (ca_scm P) r of (cleanupError, r) \<Rightarrow>
              (result \<lparr> wk_cleanupError := cleanupError \<rparr>, stop_runtime P r (close_device P d w))))"

section \<open>The handlers\<close>

text \<open>The operation, the path and the rate the new thread captures, when one is started.\<close>

definition StartWorker ::
  "WorkerOperation \<Rightarrow> MainWindow \<Rightarrow> MainWindow \<times> (WorkerOperation \<times> wstring \<times> u32) option" where
  "StartWorker operation w =
     (if mw_working w then (w, None)
      else
        (let w = w \<lparr> mw_worker := False \<rparr>;
             outputPath = mw_text w
         in if operation = CaptureOperation \<and> outputPath = []
            then (MessageBox (wide ''Please select an evidence destination file path.'') (wide ''PhylaRAM'') Warning w, None)
            else
              (let rateLimit = SelectedRateLimit w;
                   w = w \<lparr> mw_cancelled := False, mw_progressPercent := 0, mw_completedBytes := 0, mw_totalBytes := 0,
                           mw_currentSpeedMBps := 0, mw_currentEtaSec := 0 \<rparr>;
                   w = SetStatus (if operation = CaptureOperation
                                  then wide ''Acquiring physical memory via Ring 0 driver...''
                                  else wide ''Inspecting physical-memory topology...'') (SetWorking True w)
               in (w \<lparr> mw_worker := True \<rparr>, Some (operation, outputPath, rateLimit)))))"

definition cleanup_note :: "u32 \<Rightarrow> wstring" where
  "cleanup_note cleanupError =
     (if cleanupError \<noteq> ERROR_SUCCESS
      then wide (nl @ nl @ ''Driver cleanup returned code '') @ num cleanupError @ wide ''.'' else [])"

definition complete_text :: "(rat \<Rightarrow> rat) \<Rightarrow> wstring \<Rightarrow> AcquisitionSummary \<Rightarrow> wstring" where
  "complete_text rnd outputPath summary =
     wide (''Physical memory evidence bundle finalized.'' @ nl @ nl) @
     wide ''Acquired: '' @ FormatBytes rnd (as_acquiredBytes summary) @ wide '' ('' @ num (as_acquiredBytes summary) @
       wide ('' bytes)'' @ nl) @
     wide ''Logical RAW Size: '' @ FormatBytes rnd (as_logicalSize summary) @ wide nl @
     wide ''SHA-256: '' @ ToWide (as_sha256 summary) @ wide (nl @ nl) @
     wide (''Files generated:'' @ nl) @
     bullet @ outputPath @ wide nl @
     bullet @ outputPath @ wide (''.map.json'' @ nl) @
     bullet @ outputPath @ wide (''.sha256'' @ nl @ nl) @
     wide ''Independent verification with phylaram-verify is recommended.''"

definition ShowCaptureResult :: "(rat \<Rightarrow> rat) \<Rightarrow> WorkerResult \<Rightarrow> MainWindow \<Rightarrow> MainWindow" where
  "ShowCaptureResult rnd result w =
     (let capture = wk_capture result; summary = ec_summary capture; cleanupError = wk_cleanupError result
      in if ec_status capture = Complete
         then MessageBox (complete_text rnd (mw_text w) summary @ cleanup_note cleanupError)
                (wide ''PhylaRAM '' @ dash @ wide ''Capture Finalized'')
                (if cleanupError = ERROR_SUCCESS then Information else Warning)
                (SetStatus (wide ''Capture complete and cryptographically finalized.'') w)
         else if ec_status capture = Incomplete
         then MessageBox
                (wide (''Evidence bundle finalized as INCOMPLETE.'' @ nl @ nl) @
                 wide ''Unreadable: '' @ num (as_unreadableBytes summary) @ wide ('' bytes'' @ nl) @
                 wide ''Topology changed: '' @ wide (if as_topologyChanged summary then ''Yes'' else ''No'') @ wide (nl @ nl) @
                 wide ''The map preserves these conditions. Review map before analysis.'' @ cleanup_note cleanupError)
                (wide ''PhylaRAM '' @ dash @ wide ''Incomplete Capture'') Warning
                (SetStatus (wide ''Capture finalized as incomplete; review provenance map.'') w)
         else MessageBox
                ((if ec_error capture = [] then wide ''The capture did not produce a finalized evidence bundle.''
                  else ec_error capture) @
                 (if ec_systemError capture \<noteq> ERROR_SUCCESS
                  then wide (nl @ ''System error: '') @ num (ec_systemError capture) @ wide ''.'' else []) @
                 (if cleanupError \<noteq> ERROR_SUCCESS
                  then wide (nl @ ''Driver cleanup error: '') @ num cleanupError @ wide ''.'' else []))
                (wide ''PhylaRAM '' @ dash @ wide ''Status'')
                (if ec_status capture = Cancelled then Warning else Error)
                (SetStatus (if ec_status capture = Cancelled
                            then wide ''Acquisition cancelled by user. Partial files cleaned.''
                            else wide ''Acquisition failed. No evidence files produced.'') w))"

definition dry_run_text :: "(rat \<Rightarrow> rat) \<Rightarrow> WorkerResult \<Rightarrow> wstring \<Rightarrow> wstring \<Rightarrow> wstring" where
  "dry_run_text rnd result dtbText kbaseText =
     wide (''Physical Memory Topology:'' @ nl) @
     bullet @ wide ''Total RAM: '' @ FormatBytes rnd (wk_totalPhysicalBytes result) @ wide '' ('' @
       num (wk_totalPhysicalBytes result) @ wide ('' bytes)'' @ nl) @
     bullet @ wide ''Highest Physical End: 0x'' @ hexu (wk_highestPhysicalEnd result) @ wide nl @
     bullet @ wide ''Memory Ranges: '' @ wide (dec (length (wk_ranges result))) @ wide nl @
     bullet @ wide ''Topology Stability: '' @
       wide (if wk_topologyChanged result then ''Modified during session'' else ''Stable'') @ wide (nl @ nl) @
     (if kh_available (wk_hints result)
      then wide (''Kernel Hints:'' @ nl) @
           bullet @ wide ''System DTB (CR3): '' @ dtbText @ wide nl @
           bullet @ wide ''Kernel Base: '' @ kbaseText @ wide nl @
           bullet @ wide ''Build Number: '' @ num (kh_buildNumber (wk_hints result)) @ wide nl
      else [])"

definition ShowDryRunResult :: "(rat \<Rightarrow> rat) \<Rightarrow> WorkerResult \<Rightarrow> MainWindow \<Rightarrow> MainWindow" where
  "ShowDryRunResult rnd result w =
     (if \<not> wk_dryRunSucceeded result \<or> wk_error result \<noteq> []
      then MessageBox
             ((if wk_error result = [] then wide ''Dry-run inspection failed.'' else wk_error result) @
              (if wk_cleanupError result \<noteq> ERROR_SUCCESS
               then wide (nl @ ''Driver cleanup error: '') @ num (wk_cleanupError result) @ wide ''.'' else []))
             (wide ''PhylaRAM '' @ dash @ wide ''Inspection Failed'') Error
             (SetStatus (wide ''Topology inspection failed.'') w)
      else
        (let w = w \<lparr> mw_dtbText := wide ''0x'' @ hexu (kh_directoryTableBase (wk_hints result)),
                     mw_kbaseText := wide ''0x'' @ hexu (kh_kernelBase (wk_hints result)),
                     mw_rangesText := wide (dec (length (wk_ranges result))) @ wide '' ranges ('' @
                       FormatBytes rnd (wk_totalPhysicalBytes result) @ wide '')'' \<rparr>
         in MessageBox (dry_run_text rnd result (mw_dtbText w) (mw_kbaseText w))
              (wide ''PhylaRAM '' @ dash @ wide ''Inspection Complete'')
              (if wk_topologyChanged result \<or> wk_cleanupError result \<noteq> ERROR_SUCCESS then Warning else Information)
              (SetStatus (if wk_topologyChanged result
                          then wide ''Inspection complete; topology changed during session.''
                          else wide ''Inspection complete. Physical topology and hints verified.'') w)))"

definition HandleWorkerDone :: "(rat \<Rightarrow> rat) \<Rightarrow> WorkerResult \<Rightarrow> MainWindow \<Rightarrow> MainWindow" where
  "HandleWorkerDone rnd result w =
     (let w = SetWorking False (w \<lparr> mw_worker := False \<rparr>)
      in if mw_closing w then DestroyWindow w
         else
           (let result =
                  (if wk_error result \<noteq> [] \<and> wk_operation result = CaptureOperation \<and> ec_error (wk_capture result) = []
                   then result \<lparr> wk_capture := (wk_capture result) \<lparr> ec_status := Failed, ec_error := wk_error result \<rparr> \<rparr>
                   else result)
            in if wk_operation result = CaptureOperation
               then ShowCaptureResult rnd result
                      (if ec_status (wk_capture result) = Complete then w \<lparr> mw_progressPercent := 100 \<rparr> else w)
               else ShowDryRunResult rnd result w))"

definition ShowProgress :: "(rat \<Rightarrow> rat) \<Rightarrow> ProgressPayload \<Rightarrow> MainWindow \<Rightarrow> MainWindow" where
  "ShowProgress rnd payload w =
     w \<lparr> mw_completedBytes := pp_completedBytes payload, mw_totalBytes := pp_totalBytes payload,
         mw_currentSpeedMBps := pp_speedMBps payload, mw_currentEtaSec := pp_etaSeconds payload,
         mw_progressPercent :=
           (if pp_totalBytes payload > 0
            then rnd (rnd (rnd (of_nat (unat (pp_completedBytes payload))) * 100) / rnd (of_nat (unat (pp_totalBytes payload))))
            else mw_progressPercent w),
         mw_statusText := wide ''Acquiring: '' @ FormatBytes rnd (pp_completedBytes payload) @ wide '' / '' @
           FormatBytes rnd (pp_totalBytes payload) @ wide '' ('' @ wide (fixed_text 1 (pp_speedMBps payload)) @ wide '' MiB/s)'' \<rparr>"

text \<open>
  The messages that change the state. \<open>dialog\<close> is the answer of \<open>GetSaveFileNameW\<close> on the current
  path. The other messages are answered by drawing or by the default procedure.
\<close>

datatype gui_message =
    Clicked control
  | ProgressMessage ProgressPayload
  | WorkerDoneMessage WorkerResult
  | CloseMessage

definition BrowseForDestination :: "(wstring \<Rightarrow> wstring option) \<Rightarrow> MainWindow \<Rightarrow> MainWindow" where
  "BrowseForDestination dialog w =
     (case dialog (mw_text w) of None \<Rightarrow> w | Some path \<Rightarrow> w \<lparr> mw_text := path \<rparr>)"

definition HandleClick ::
  "(wstring \<Rightarrow> wstring option) \<Rightarrow> control \<Rightarrow> MainWindow \<Rightarrow> MainWindow \<times> (WorkerOperation \<times> wstring \<times> u32) option" where
  "HandleClick dialog c w =
     (case c of
        BrowseButton \<Rightarrow> (BrowseForDestination dialog w, None)
      | StartButton \<Rightarrow> StartWorker CaptureOperation w
      | DryRunButton \<Rightarrow> StartWorker DryRunOperation w
      | CancelButton \<Rightarrow>
          (if mw_working w
           then SetStatus (wide ''Cancelling in-flight operation...'') (EnableWindow CancelButton False (w \<lparr> mw_cancelled := True \<rparr>))
           else w, None)
      | _ \<Rightarrow> (w, None))"

definition HandleClose :: "MainWindow \<Rightarrow> MainWindow" where
  "HandleClose w =
     (if mw_working w
      then SetStatus (wide ''Cancelling active acquisition before exit...'')
             (EnableWindow CancelButton False (w \<lparr> mw_closing := True, mw_cancelled := True \<rparr>))
      else DestroyWindow w)"

definition HandleMessage ::
  "(rat \<Rightarrow> rat) \<Rightarrow> (wstring \<Rightarrow> wstring option) \<Rightarrow> gui_message \<Rightarrow> MainWindow \<Rightarrow>
   MainWindow \<times> (WorkerOperation \<times> wstring \<times> u32) option" where
  "HandleMessage rnd dialog message w =
     (case message of
        Clicked c \<Rightarrow> HandleClick dialog c w
      | ProgressMessage payload \<Rightarrow> (ShowProgress rnd payload w, None)
      | WorkerDoneMessage result \<Rightarrow> (HandleWorkerDone rnd result w, None)
      | CloseMessage \<Rightarrow> (HandleClose w, None))"

section \<open>Painting\<close>

text \<open>What \<open>Paint\<close> computes before it draws: the rows of the two columns, and the filled width.\<close>

definition eta_text :: "u32 \<Rightarrow> wstring" where
  "eta_text eta =
     (if eta > 0 then wide (dec (unat (eta div 60)) @ '':'' @ setw 2 (CHR ''0'') (dec (unat (eta mod 60))))
      else wide ''--:--'')"

definition telemetry_rows :: "(rat \<Rightarrow> rat) \<Rightarrow> MainWindow \<Rightarrow> (wstring \<times> wstring) list" where
  "telemetry_rows rnd w =
     [(wide ''Status:'', wide (if mw_working w then ''Acquiring'' else ''Ready'')),
      (wide ''Throughput:'', wide (fixed_text 1 (mw_currentSpeedMBps w)) @ wide '' MiB/s''),
      (wide ''Progress:'', wide (fixed_text 1 (mw_progressPercent w)) @ wide ''% ('' @ FormatBytes rnd (mw_completedBytes w) @
         wide '' / '' @ FormatBytes rnd (mw_totalBytes w) @ wide '')''),
      (wide ''ETA:'', eta_text (mw_currentEtaSec w)),
      (wide ''System DTB:'', mw_dtbText w),
      (wide ''Kernel Base:'', mw_kbaseText w),
      (wide ''Topology:'', mw_rangesText w)]"

definition fill_width :: "(rat \<Rightarrow> rat) \<Rightarrow> nat \<Rightarrow> rat \<Rightarrow> nat" where
  "fill_width rnd trackWidth percent =
     (if percent > 0 then nat \<lfloor>rnd (of_nat trackWidth * min (rnd (percent / 100)) 1)\<rfloor> else 0)"

end
