(* ===== verification/GuiContract.thy ===== *)
theory GuiContract
  imports GuiWindow ProgramContract
begin

text \<open>
  What the graphical interface relies on: the clock and the cancellation flag on their way through a
  whole run of the worker, what a run of the worker leaves on the volume, and the invariant of the
  window and its worker.
\<close>

section \<open>The host along a capture\<close>

lemma acq_primitives_host [simp]:
  "a_host (snd (hashZerosTo H p s)) = a_host s"
  "a_host (snd (write_data W p xs s)) = a_host s"
  "a_host (snd (hash_data H xs s)) = a_host s"
  "a_host (snd (add_hashPosition n s)) = a_host s"
  "a_host (snd (add_offset n s)) = a_host s"
  "a_host (snd (add_processed n s)) = a_host s"
  "a_host (snd (add_acquired n s)) = a_host s"
  "a_host (snd (add_transferred n s)) = a_host s"
  "a_host (snd (snd (read_run D i off m e s))) = a_host s"
  by (auto simp: hashZerosTo_def write_data_def hash_data_def read_run_def
      add_hashPosition_def add_offset_def add_processed_def add_acquired_def add_transferred_def
      split: prod.splits option.splits bool.splits)

lemma clock_now_after: "clock_now h = (t, h') \<Longrightarrow> host_after h h'"
  by (auto dest: clock_nowD)

lemma cancel_load_after: "cancel_load h = (c, h') \<Longrightarrow> host_after h h'"
  by (auto simp: cancel_load_def)

lemma pace_host: "host_after (a_host s) (a_host (snd (pace cfg s)))"
proof -
  have "host_after h (snd (PaceTransfer n r t h))" for n r t h
  proof (cases "r = 0")
    case False
    obtain ok h' where "PaceLoop (word_of_int t + pace_target_ns (h_round h) n r) h = (ok, h')" by fastforce
    then show ?thesis using PaceLoop_result [of _ h ok h'] False by (simp add: PaceTransfer_def)
  qed (simp add: PaceTransfer_def)
  then show ?thesis by (simp add: pace_def split: prod.splits) (metis snd_conv)
qed

lemma all_ok_host:
  assumes "\<And>f s. f \<in> set fs \<Longrightarrow> host_after (a_host s) (a_host (snd (f s)))"
  shows "host_after (a_host s) (a_host (snd (all_ok fs s)))"
proof (rule all_ok_preserves [where I = "\<lambda>t. host_after (a_host s) (a_host t)"])
  show "all_ok fs s = (fst (all_ok fs s), snd (all_ok fs s))" by simp
  show "host_after (a_host s) (a_host s')"
    if "f \<in> set fs" "f t = (r, s')" "host_after (a_host s) (a_host t)" for f t r s'
    using assms [OF that(1), of t] that host_after_trans by auto
qed simp

lemma StoreCopied_host: "host_after (a_host s) (a_host (snd (StoreCopied W H cfg r s)))"
  unfolding StoreCopied_def by (rule all_ok_host) (auto simp: pace_host)

lemma acquire_path_host: "path_invariant D W H cfg run (\<lambda>s :: ('d, 'w, 'h) acq. host_after h (a_host s))"
proof (rule path_invariantI)
  fix s :: "('d, 'w, 'h) acq" and r assume "host_after h (a_host s)"
  then show "host_after h (a_host (snd (StoreCopied W H cfg r s)))" using StoreCopied_host host_after_trans by blast
qed (auto simp: load_cancelled_def cancel_load_def ReportProgress_def clock_now_def Let_def
    intro: host_after_trans split: prod.splits)

lemma Acquire_host: "host_after host (ar_host (snd (Acquire D W H cfg d w h host)))"
proof -
  obtain ok hi tot runs d1 where q: "dev_Query D d = (ok, (hi, tot, runs), d1)" by (metis prod.exhaust)
  obtain hok hints d2 where hq: "dev_QueryHints D d1 = (hok, hints, d2)" by (metis prod.collapse)
  obtain t host1 where c: "clock_now host = (t, host1)" by fastforce
  let ?summary = "(if hok then AcquisitionSummary_default\<lparr> as_hints := hints \<rparr>
                   else AcquisitionSummary_default)
      \<lparr> as_logicalSize := hi, as_physicalBytes := tot, as_ranges := runs \<rparr>"
  let ?st0 = "(acq_start ?summary d2 w h host1)\<lparr> a_startedAt := t \<rparr>"
  obtain b st1 where ar: "AcquireRuns D W H cfg runs ?st0 = (b, st1)" by fastforce
  have st1: "host_after host (a_host st1)"
    by (rule AcquireRuns_path [where I = "\<lambda>s. host_after host (a_host s)", OF acquire_path_host _ _ ar])
      (simp_all add: acq_start_def clock_now_after [OF c])
  obtain b2 st2 where hz: "hashZerosTo H (as_logicalSize (a_summary st1)) st1 = (b2, st2)" by fastforce
  then have "a_host st2 = a_host st1"
    using acq_primitives_host(1) [of H "as_logicalSize (a_summary st1)" st1] by simp
  then have "a_host (snd (FinishAcquire D H st1)) = a_host st1"
    using hz by (auto simp: FinishAcquire_def Let_def split: prod.splits bool.splits)
  then show ?thesis
    using q hq c ar st1
    by (auto simp: Acquire_def Let_def acq_out_def acq_start_def split: prod.splits bool.splits)
qed

section \<open>The host along the service calls\<close>

lemma sleep_after: "host_after h (sleep_for d (host_tick h))"
  by (meson host_after_sleep host_after_tick host_after_trans)

lemma WaitLoop_after: "WaitLoop M service desired deadline s h = (ok, st') \<Longrightarrow> host_after h (snd st')"
proof (induction "nat (deadline - h_now h)" arbitrary: s h rule: less_induct)
  case less
  obtain t h1 where c: "clock_now h = (t, h1)" by fastforce
  obtain q state s1 where q: "sc_QueryServiceStatusEx M service s = (q, state, s1)" by (metis prod_cases3)
  have h1: "host_after h h1" "host_after h (sleep_for kServicePollInterval h1)"
    using clock_now_after [OF c] host_after_trans by auto
  show ?case
  proof (cases "t < deadline \<and> q \<and> state \<noteq> desired")
    case True
    then have "host_after (sleep_for kServicePollInterval h1) (snd st')"
      using less.prems c q wait_step_decreases [OF c, of deadline] less.hyps [of "sleep_for kServicePollInterval h1" s1]
      by (subst (asm) WaitLoop.simps) simp
    then show ?thesis using h1(2) host_after_trans by blast
  next
    case False
    then show ?thesis using less.prems c q h1(1) by (subst (asm) WaitLoop.simps) (auto split: if_splits)
  qed
qed

lemma Wait_after: "WaitForServiceState M service desired ms st = (ok, st') \<Longrightarrow> host_after (snd st) (snd st')"
  by (auto simp: WaitForServiceState_def split: prod.splits dest!: WaitLoop_after clock_now_after)
    (metis host_after_trans)+

lemma service_reset_host [simp]: "snd (service_reset M h st) = snd st"
  by (simp add: service_reset_def)

lemma Stop_running_after: "StopServiceIfRunning api M service st = (ok, st') \<Longrightarrow> host_after (snd st) (snd st')"
  by (auto simp: StopServiceIfRunning_def split: prod.splits if_splits dest!: Wait_after)

lemma DeletedLoop_after: "DeletedLoop api M scm n st = (ok, st') \<Longrightarrow> host_after (snd st) (snd st')"
proof (induction n arbitrary: st)
  case (Suc n)
  obtain probe s where p: "sc_OpenServiceW M scm SERVICE_QUERY_STATUS (fst st) = (probe, s)" by fastforce
  show ?case
  proof (cases "probe = 0")
    case False
    then have "host_after (sleep_for kDeleteFileRetryInterval (snd st)) (snd st')"
      using Suc.IH [of "service_reset M probe (s, sleep_for kDeleteFileRetryInterval (snd st))"] Suc.prems p by simp
    then show ?thesis using host_after_sleep host_after_trans by blast
  qed (use Suc.prems p in auto)
qed simp

lemma Remove_after: "RemoveExistingService api M scm st = (ok, st') \<Longrightarrow> host_after (snd st) (snd st')"
  by (auto simp: RemoveExistingService_def WaitUntilServiceIsDeleted_def
      split: prod.splits if_splits bool.splits dest!: Stop_running_after DeletedLoop_after)
    (metis host_after_trans)+

lemma BestEffort_after: "BestEffortDeleteService api M service st = st' \<Longrightarrow> host_after (snd st) (snd st')"
  by (auto simp: BestEffortDeleteService_def split: prod.splits dest!: Stop_running_after)

lemma DeleteFileLoop_after: "DeleteFileLoop api path n st = (e, st') \<Longrightarrow> host_after (snd st) (snd st')"
proof (induction n arbitrary: st)
  case (Suc n)
  obtain ok s where d: "w_DeleteFileW api path (fst st) = (ok, s)" by fastforce
  have "DeleteFileLoop api path n (s, sleep_for kDeleteFileRetryInterval (snd st)) = (e, st') \<or> snd st' = snd st"
    using Suc.prems d by (auto simp: Let_def split: if_splits)
  then show ?case
    using Suc.IH [of "(s, sleep_for kDeleteFileRetryInterval (snd st))"] host_after_sleep host_after_trans
    by (metis host_after_refl snd_conv)
qed simp

lemma DeleteExtracted_after: "DeleteExtractedDriver api path st = (e, st') \<Longrightarrow> host_after (snd st) (snd st')"
  by (auto simp: DeleteExtractedDriver_def split: if_splits dest: DeleteFileLoop_after)

lemma StartInstalled_after:
  assumes start: "StartInstalled api M service st = (ok, e, st')"
  shows "host_after (snd st) (snd st')"
proof -
  obtain started s where s: "sc_StartServiceW M service (fst st) = (started, s)" by fastforce
  obtain w st1 where w: "WaitForServiceState M service SERVICE_RUNNING kServiceTransitionTimeoutMs (s, snd st) = (w, st1)"
    by (metis surj_pair)
  have "st' = BestEffortDeleteService api M service (s, snd st) \<or> st' = st1 \<or> st' = BestEffortDeleteService api M service st1"
    using start s w by (auto simp: StartInstalled_def Let_def split: if_splits bool.splits)
  then show ?thesis
    using BestEffort_after [OF refl] Wait_after [OF w] host_after_trans by (metis snd_conv)
qed

lemma Install_after: "InstallAndStartDriver api M path st = (ok, e, st') \<Longrightarrow> host_after (snd st) (snd st')"
  by (auto simp: InstallAndStartDriver_def split: prod.splits if_splits bool.splits dest!: Remove_after StartInstalled_after)
    (metis host_after_trans)+

lemma StopAndDelete_after: "StopAndDeleteDriver api M st = (e, st') \<Longrightarrow> host_after (snd st) (snd st')"
  by (auto simp: StopAndDeleteDriver_def Let_def split: prod.splits if_splits bool.splits dest!: Stop_running_after)

lemma Runtime_Start_after:
  assumes start: "DriverRuntime_Start api G M r = (ok, e, r')"
  shows "host_after (snd (dr_st r)) (snd (dr_st r'))"
proof -
  obtain x path s where x: "ExtractEmbeddedDriver api G (fst (dr_st r)) = (x, path, s)" by (metis prod_cases3)
  obtain i e1 st1 where i: "InstallAndStartDriver api M path (s, snd (dr_st r)) = (i, e1, st1)" by (metis prod_cases3)
  obtain e2 st2 where d: "DeleteExtractedDriver api path st1 = (e2, st2)" by (metis surj_pair)
  have "snd (dr_st r') \<in> {snd (dr_st r), snd st1, snd st2}"
    using start x i d by (auto simp: DriverRuntime_Start_def Let_def split: if_splits bool.splits)
  then show ?thesis
    using Install_after [OF i] DeleteExtracted_after [OF d] host_after_trans by auto
qed

lemma Runtime_Stop_after:
  "DriverRuntime_Stop api M r = (e, r') \<Longrightarrow> host_after (snd (dr_st r)) (snd (dr_st r'))"
  by (auto simp: DriverRuntime_Stop_def split: prod.splits if_splits dest!: StopAndDelete_after DeleteExtracted_after)
    (metis host_after_trans)+


section \<open>Cancellation\<close>

text \<open>A capture reports that it was cancelled only after it has seen the flag.\<close>

definition saw_flag :: "host \<Rightarrow> host \<Rightarrow> bool" where
  "saw_flag h h' \<longleftrightarrow> (\<exists>n. h_step h \<le> n \<and> n < h_step h' \<and> h_cancel h n)"

lemma saw_flag_wider: "host_after h h1 \<Longrightarrow> saw_flag h1 h2 \<Longrightarrow> host_after h2 h3 \<Longrightarrow> saw_flag h h3"
  by (auto simp: saw_flag_def host_after_def) (meson le_trans less_le_trans)

lemma give_up_status: "give_up api ps m e c = (r, c') \<Longrightarrow> ec_status r = Failed \<and> cp_host c' = cp_host c"
  by (auto simp: give_up_def Failure_def with_sys_def)

lemma publish_status: "publish api ps summary s = (r, s') \<Longrightarrow> ec_status r \<noteq> Cancelled"
  by (auto simp: publish_def Failure_def split: prod.splits bool.splits if_splits)

lemma seal_status:
  "seal api provider conv out summary c = (r, c') \<Longrightarrow> ec_status r \<noteq> Cancelled \<and> cp_host c' = cp_host c"
  by (auto simp: seal_def Let_def with_sys_def split: prod.splits bool.splits if_splits
      dest!: give_up_status publish_status)

lemma capture_with_status:
  assumes "capture_with D api provider conv out config hi tot c = (r, c')"
  shows "host_after (cp_host c) (cp_host c') \<and> (ec_status r = Cancelled \<longrightarrow> saw_flag (cp_host c) (cp_host c'))"
proof -
  let ?W = "evidence_writer_class api"
  obtain ok w where p: "wr_PreflightAndOpen ?W (ep_rawPartial (BuildEvidencePaths out)) hi tot (cp_wr c) = (ok, w)" by fastforce
  obtain b a where a: "Acquire D ?W (Sha256_class provider) config (cp_dev c) w (cp_hash c) (cp_host c) = (b, a)" by fastforce
  have host: "host_after (cp_host c) (ar_host a)"
    using Acquire_host [of "cp_host c" D ?W "Sha256_class provider" config "cp_dev c" w "cp_hash c"] a by simp
  let ?c = "c\<lparr> cp_dev := ar_dev a, cp_wr := ar_wr a, cp_hash := ar_hash a, cp_host := ar_host a \<rparr>"
  consider (refused) "r = Failure Failed (wide ''Unable to create and preflight the staged evidence image.'') (wr_LastError ?W w)" "cp_host c' = cp_host c"
    | (aborted) "abort_capture D api (BuildEvidencePaths out) (ar_summary a) ?c = (r, c')"
    | (sealed) "seal api provider conv out (ar_summary a) ?c = (r, c')"
    using assms p a by (auto simp: capture_with_def Let_def split: bool.splits if_splits)
  then show ?thesis
  proof cases
    case refused
    then show ?thesis by (simp add: Failure_def)
  next
    case aborted
    then have c': "cp_host c' = host_tick (host_tick (ar_host a))"
        "ec_status r = (if h_cancel (ar_host a) (h_step (ar_host a)) then Cancelled else Failed)"
      by (auto simp: abort_capture_def cancel_load_def with_sys_def Let_def)
    have after: "host_after (ar_host a) (cp_host c')"
      unfolding c'(1) by (meson host_after_tick host_after_trans)
    have "ec_status r = Cancelled \<Longrightarrow> saw_flag (ar_host a) (cp_host c')"
      unfolding saw_flag_def c' by (rule exI [of _ "h_step (ar_host a)"]) (simp split: if_splits)
    then show ?thesis
      using host after host_after_trans saw_flag_wider [OF host _ host_after_refl] by blast
  next
    case sealed
    then show ?thesis using seal_status [OF sealed] host by simp
  qed
qed

lemma capture_status:
  assumes "CaptureEvidenceToFile D api provider conv out config d s k host = (r, d', s', k', host')"
  shows "host_after host host' \<and> (ec_status r = Cancelled \<longrightarrow> saw_flag host host')"
proof -
  have "(ec_status r = Failed \<and> host' = host) \<or>
    (\<exists>c c' hi tot. capture_with D api provider conv out config hi tot c = (r, c') \<and> cp_host c = host \<and> cp_host c' = host')"
    using assms
    by (auto simp: CaptureEvidenceToFile_def release_def Failure_def Let_def split: prod.splits bool.splits if_splits)
      (metis capture.select_convs(4))+
  then show ?thesis using capture_with_status by fastforce
qed


section \<open>A run of the worker\<close>

lemma Start_error: "DriverRuntime_Start api G M r = (False, e, r') \<Longrightarrow> e \<noteq> []"
  by (auto simp: DriverRuntime_Start_def InstallAndStartDriver_def StartInstalled_def Let_def wide_def
      split: prod.splits bool.splits if_splits)

lemma supported_error: "IsSupportedWindows F s = Some e \<Longrightarrow> e \<noteq> []"
  by (auto simp: IsSupportedWindows_def Let_def wide_def split: if_splits prod.splits)

lemma worker_checks_result:
  assumes "worker_checks P w = (error, w1)"
  obtains s where "w1 = w \<lparr> wd_sys := s \<rparr>" "quiet_platform (ca_platform P) files \<Longrightarrow> files s = files (wd_sys w)"
proof -
  obtain admin s where a: "IsAdministrator (ca_platform P) (wd_sys w) = (admin, s)" by fastforce
  show thesis
    by (rule that [of s]) (use assms a IsAdministrator_files in \<open>auto simp: worker_checks_def Let_def\<close>)
qed

lemma worker_dry_run_capture:
  "worker_dry_run P d result = (result', d') \<Longrightarrow>
   wk_capture result' = wk_capture result \<and> wk_operation result' = wk_operation result"
  by (auto simp: worker_dry_run_def Let_def split: prod.splits if_splits)

lemma stop_runtime_host:
  "wd_host (stop_runtime P r w) = snd (dr_st (snd (DriverRuntime_Stop (ca_api P) (ca_scm P) r)))"
  by (simp add: stop_runtime_def split: prod.splits)

text \<open>The runtime ends as it was stopped, twice; the second stop finds it idle.\<close>

lemma worker_end:
  assumes "worker_body P op out rate w = (result, w')" and "worker_checks P w = (error, w1)"
    and "worker_open P error w1 = (error', r, d)"
    and "worker_operation P op out rate (WorkerResult_default \<lparr> wk_operation := op, wk_error := error' \<rparr>) r d w1 =
      (result1, r1, d1, w2)"
  obtains cleanupError r2 u where "DriverRuntime_Stop (ca_api P) (ca_scm P) r1 = (cleanupError, r2)"
    "result = result1 \<lparr> wk_cleanupError := cleanupError \<rparr>" "w' = stop_runtime P r2 u"
  using assms by (auto simp: worker_body_def Let_def split: prod.splits)

text \<open>How a run of the worker ends: without a capture, or with one between start and stop.\<close>

lemma worker_cases:
  assumes "worker_body P op out rate w = (result, w')"
  obtains (no_capture) error w1 error' r d cleanupError r2 u where
      "worker_checks P w = (error, w1)" "worker_open P error w1 = (error', r, d)"
      "DriverRuntime_Stop (ca_api P) (ca_scm P) r = (cleanupError, r2)" "w' = stop_runtime P r2 u"
      "wk_capture result = EvidenceCaptureResult_default" "op = DryRunOperation \<or> wk_error result \<noteq> []"
      "wk_operation result = op"
  | (captured) w1 e r d capture d' s k host cleanupError r2 u where
      "op = CaptureOperation" "worker_checks P w = ([], w1)" "start_runtime P w1 = (True, e, r)"
      "open_device P r w1 = (True, d)"
      "CaptureEvidenceToFile (DeviceSession_class (ca_dev P) (ca_io P)) (ca_api P) (ca_cng P) (ca_utf8 P) out
         (gui_config rate) d (fst (dr_st r)) (wd_hash w1) (snd (dr_st r)) = (capture, d', s, k, host)"
      "DriverRuntime_Stop (ca_api P) (ca_scm P) (r \<lparr> dr_st := (s, host) \<rparr>) = (cleanupError, r2)"
      "w' = stop_runtime P r2 u" "wk_capture result = capture" "wk_error result = []" "wk_operation result = op"
proof -
  obtain error w1 where c: "worker_checks P w = (error, w1)" by fastforce
  obtain error' r d where o: "worker_open P error w1 = (error', r, d)" by (metis prod_cases3)
  obtain result1 r1 d1 w2 where n: "worker_operation P op out rate
      (WorkerResult_default \<lparr> wk_operation := op, wk_error := error' \<rparr>) r d w1 = (result1, r1, d1, w2)" by (metis prod_cases4)
  obtain cleanupError r2 u where z: "DriverRuntime_Stop (ca_api P) (ca_scm P) r1 = (cleanupError, r2)"
    "result = result1 \<lparr> wk_cleanupError := cleanupError \<rparr>" "w' = stop_runtime P r2 u"
    using worker_end [OF assms c o n] .
  show thesis
  proof (cases "error' = [] \<and> op = CaptureOperation")
    case False
    then have "wk_capture result1 = EvidenceCaptureResult_default \<and> r1 = r \<and> wk_operation result1 = op \<and>
        (op = DryRunOperation \<or> wk_error result1 \<noteq> [])"
      using n by (cases op) (auto simp: worker_operation_def WorkerResult_default_def split: if_splits prod.splits
          dest: worker_dry_run_capture)
    then show thesis using no_capture [OF c o] z by simp
  next
    case True
    obtain ok e r' where st: "start_runtime P w1 = (ok, e, r')" by (metis prod_cases3)
    obtain opn d' where op: "open_device P r' w1 = (opn, d')" by fastforce
    have error: "error = []" "ok" "opn" "r' = r" "d' = d"
      using o True st op Start_error [of "ca_api P" "ca_staging P" "ca_scm P" _ e r'] start_runtime_def [of P w1]
      by (auto simp: worker_open_def wide_def split: if_splits bool.splits)
    obtain capture d2 s k host where cap: "CaptureEvidenceToFile (DeviceSession_class (ca_dev P) (ca_io P)) (ca_api P)
        (ca_cng P) (ca_utf8 P) out (gui_config rate) d (fst (dr_st r)) (wd_hash w1) (snd (dr_st r)) = (capture, d2, s, k, host)"
      by (metis prod_cases5)
    have "result1 = WorkerResult_default \<lparr> wk_operation := op, wk_error := error', wk_capture := capture \<rparr> \<and>
        r1 = r \<lparr> dr_st := (s, host) \<rparr>"
      using n cap True by (auto simp: worker_operation_def)
    then show thesis
      using captured [of w1 e r d] True c st op error cap z by simp
  qed
qed

text \<open>The flag of a run that reports a cancellation was seen between its first and its last look at the host.\<close>

lemma worker_cancelled:
  assumes "worker_body P op out rate w = (result, w')" and "ec_status (wk_capture result) = Cancelled"
  shows "saw_flag (wd_host w) (wd_host w')"
  using assms(1)
proof (cases rule: worker_cases)
  case no_capture
  then show ?thesis using assms(2) by (simp add: EvidenceCaptureResult_default_def)
next
  case (captured w1 e r d capture d' s k host cleanupError r2 u)
  have w1: "wd_host w1 = wd_host w"
    using captured(2) by (auto elim: worker_checks_result)
  have start: "host_after (wd_host w) (snd (dr_st r))"
    using Runtime_Start_after captured(3) w1 by (fastforce simp: start_runtime_def DriverRuntime_init_def)
  obtain e3 r3 where s3: "DriverRuntime_Stop (ca_api P) (ca_scm P) r2 = (e3, r3)" by fastforce
  have "host_after host (snd (dr_st r2))" using Runtime_Stop_after [OF captured(6)] by simp
  then have finish: "host_after host (wd_host w')"
    using Runtime_Stop_after [OF s3] s3 captured(7) host_after_trans by (simp add: stop_runtime_host)
  show ?thesis
    using capture_status [OF captured(5)] captured(8) assms(2) saw_flag_wider [OF start _ finish] by simp
qed

context capture_program
begin

lemma worker_open_files:
  assumes "worker_open P error w = (error', r, d)"
  shows "if dr_extractedDriverPath r = [] then files (fst (dr_st r)) = files (wd_sys w)
    else files (wd_sys w) (dr_extractedDriverPath r) = None \<and>
      (\<exists>driver. files (fst (dr_st r)) = (files (wd_sys w))(dr_extractedDriverPath r \<mapsto> driver))"
proof (cases "error = []")
  case True
  obtain ok e r' where st: "start_runtime P w = (ok, e, r')" by (metis prod_cases3)
  have "r = r'" using assms st True by (auto simp: worker_open_def split: bool.splits prod.splits)
  then show ?thesis using start_runtime_files [OF st] by (auto split: if_splits)
next
  case False
  then show ?thesis using assms by (auto simp: worker_open_def DriverRuntime_init_def)
qed

lemma uncaptured_files:
  assumes "quiet_platform (ca_platform P) files" and "worker_checks P w = (error, w1)"
    and "worker_open P error w1 = (error', r, d)" and "DriverRuntime_Stop (ca_api P) (ca_scm P) r = (cleanupError, r2)"
  shows "files (wd_sys (stop_runtime P r2 u)) = files (wd_sys w)"
proof -
  have w1: "files (wd_sys w1) = files (wd_sys w)"
    using assms(1,2) by (auto elim: worker_checks_result)
  show ?thesis
  proof (cases "dr_extractedDriverPath r = []")
    case True
    then have "dr_extractedDriverPath r2 = []" "files (fst (dr_st r2)) = files (fst (dr_st r))"
      using Stop_runtime_files [OF deletes assms(4)] by simp_all
    then show ?thesis using idle_stop_files worker_open_files [OF assms(3)] True w1 by simp
  next
    case False
    then show ?thesis
      using stop_twice_files [OF assms(4) False] worker_open_files [OF assms(3)] w1
      by (auto simp: fun_upd_idem)
  qed
qed

text \<open>A run that writes is a capture, and it found its user and its system authorised.\<close>

lemma checks_passed:
  assumes "worker_checks P w = ([], w1)"
  shows "\<exists>s. IsAdministrator (ca_platform P) (wd_sys w) = (True, s) \<and> IsSupportedWindows (ca_platform P) s = None"
proof -
  obtain admin s where a: "IsAdministrator (ca_platform P) (wd_sys w) = (admin, s)" by fastforce
  have "IsSupportedWindows (ca_platform P) s \<noteq> Some []"
    by (auto simp: IsSupportedWindows_def wide_def Let_def split: prod.splits)
  then show ?thesis
    using assms a by (auto simp: worker_checks_def wide_def Let_def split: if_splits option.splits)
qed

lemma worker_writes:
  assumes "quiet_platform (ca_platform P) files" and "worker_body P op out rate w = (result, w')"
    and "files (wd_sys w') \<noteq> files (wd_sys w)"
  shows "op = CaptureOperation \<and>
    (\<exists>s. IsAdministrator (ca_platform P) (wd_sys w) = (True, s) \<and> IsSupportedWindows (ca_platform P) s = None)"
  using assms(2)
proof (cases rule: worker_cases)
  case (no_capture error w1 error' r d cleanupError r2 u)
  then show ?thesis using uncaptured_files [OF assms(1) no_capture(1-3), of u] assms(3) by simp
next
  case (captured w1 e r d capture d' s k host cleanupError r2 u)
  then show ?thesis using checks_passed by simp
qed

lemma worker_files:
  assumes "quiet_platform (ca_platform P) files" and "worker_body P op out rate w = (result, w')"
  shows "(\<forall>q. files (wd_sys w) q \<noteq> None \<longrightarrow> files (wd_sys w') q = files (wd_sys w) q) \<and>
    (op = DryRunOperation \<longrightarrow> files (wd_sys w') = files (wd_sys w))"
  using assms(2)
proof (cases rule: worker_cases)
  case (no_capture error w1 error' r d cleanupError r2 u)
  then show ?thesis using uncaptured_files [OF assms(1) no_capture(1-3), of u] by simp
next
  case (captured w1 e r d capture d' s k host cleanupError r2 u)
  have w1: "files (wd_sys w1) = files (wd_sys w)"
    using captured(2) assms(1) by (auto elim: worker_checks_result)
  note between = capture_between [OF captured(3,5) [folded device_def]]
  have after: "files (wd_sys w') = (files s)(dr_extractedDriverPath r := None)"
    using stop_twice_files [OF captured(6), of u] between(1) start_runtime_files [OF captured(3)] captured(7) by simp
  have "files (wd_sys w') q = files (wd_sys w) q" if "files (wd_sys w) q \<noteq> None" for q
  proof (cases "HasFinalizedBundle capture")
    case True
    obtain img map hash where "files (wd_sys w') = (files (wd_sys w1))(ep_mapFinal (BuildEvidencePaths out) \<mapsto> map,
        ep_hashFinal (BuildEvidencePaths out) \<mapsto> hash, ep_rawFinal (BuildEvidencePaths out) \<mapsto> img)"
        "\<forall>q \<in> set (path_list (BuildEvidencePaths out)). files (wd_sys w1) q = None"
      using between(2) [OF True] unfolding after by blast
    then show ?thesis using that w1 by (auto simp: path_list_def)
  next
    case False
    then show ?thesis using between(3) that after w1 by simp
  qed
  then show ?thesis using captured(1) by simp
qed

text \<open>A bundle the worker reports.\<close>

lemma worker_bundle:
  fixes runs out summary and c :: PHYLA_FILE_CONTEXT and arr :: "PHYSICAL_MEMORY_RANGE list"
  defines "fmt \<equiv> chosen_format Raw out" and "ps \<equiv> BuildEvidencePaths out" and "runs \<equiv> driver_runs (range_entries arr)"
    and "A \<equiv> ranges_addresses runs - spans_addresses (as_unreadable summary)"
  assumes "quiet_platform (ca_platform P) files" and "cng (ca_cng P) absorbed sha256_digest"
    and "driver_connection K (ca_io P) mach fobj mem" and "session_over arr c"
    and "\<forall>r d. open_device P r w = (True, d) \<longrightarrow> connected K mach fobj c arr d"
    and "format_fits (ca_api P) opened fmt EvidenceMetadata_default runs"
    and "worker_body P op out rate w = (result, w')"
    and "HasFinalizedBundle (wk_capture result)" and "ec_summary (wk_capture result) = summary"
  shows "wk_error result = [] \<and> wk_operation result = CaptureOperation \<and> (\<exists>img hints doc.
    files (wd_sys w') = (files (wd_sys w))(ep_mapFinal ps \<mapsto> ascii doc,
      ep_hashFinal ps \<mapsto> ascii (sidecar_text (as_sha256 summary) (NarrowUtf8 (ca_utf8 P) (path_filename out))),
      ep_rawFinal ps \<mapsto> img) \<and>
    image_content fmt mem (fc_HighestPhysicalEnd c) (fc_TotalBytes c) runs hints EvidenceMetadata_default A img \<and>
    unhex (as_sha256 summary) = Some (sha256_digest (image_of mem A (unat (fc_HighestPhysicalEnd c)))) \<and>
    read_map doc = Some (reported summary) \<and> as_ranges summary = runs \<and>
    unat (as_acquiredBytes summary) + unat (as_unreadableBytes summary) = unat (fc_TotalBytes c) \<and>
    (ec_status (wk_capture result) = Complete \<longleftrightarrow> \<not> as_topologyChanged summary \<and> as_unreadableBytes summary = 0))"
  using assms(11)
proof (cases rule: worker_cases)
  case no_capture
  then show ?thesis using assms(12) by (simp add: EvidenceCaptureResult_default_def HasFinalizedBundle_def)
next
  case (captured w1 e r d capture d' s k host cleanupError r2 u)
  obtain s1 where w1: "w1 = w \<lparr> wd_sys := s1 \<rparr>" "files s1 = files (wd_sys w)"
    using captured(2) assms(5) by (auto elim: worker_checks_result)
  have conn: "connected K mach fobj c arr d"
    using assms(9) captured(4) w1(1) by (simp add: open_device_def)
  note between = capture_between [OF captured(3,5) [folded device_def]]
  have after: "files (wd_sys w') = (files s)(dr_extractedDriverPath r := None)"
    using stop_twice_files [OF captured(6), of u] between(1) start_runtime_files [OF captured(3)] captured(7) by simp
  have contract: "device_contract device (connected K mach fobj c arr)"
    and frozen: "frozen_memory device (connected K mach fobj c arr) mem (fc_HighestPhysicalEnd c) (fc_TotalBytes c) runs"
    using connected_contract [OF assms(7)] connected_frozen [OF assms(7,8)] unfolding device_def runs_def by blast+
  have cfg: "cfg_format (gui_config rate) = Raw" "cfg_metadata (gui_config rate) = EvidenceMetadata_default"
    by (simp_all add: gui_config_def)
  note done_bundle = finalized_bundle [OF assms(6) contract frozen conn _ captured(3,5) [folded device_def] _ refl, unfolded cfg]
  show ?thesis
    using done_bundle [OF assms(10) [unfolded fmt_def]] assms(12,13) captured(1,8-10) w1 
    unfolding after A_def fmt_def ps_def by simp
qed

end

end
