(* ===== verification/GuiLoop.thy ===== *)
theory GuiLoop
  imports GuiContract
begin

text \<open>
  The window and its worker as a state machine: the user's input, the worker's posts, and the message
  loop that dispatches them, in every interleaving. A run of the worker is one step at its end; its
  reads of the cancellation flag fall between its start and that step, which the rules say.
\<close>

section \<open>Steps\<close>

record ('s, 'k, 'c) gui =
  gu_window :: MainWindow
  gu_queue :: "gui_message list"
  gu_thread :: "(WorkerOperation \<times> wstring \<times> u32) option"
  gu_world :: "('s, 'k, 'c) world"

text \<open>A message reaches the window; a thread it starts runs from then on.\<close>

definition deliver ::
  "(rat \<Rightarrow> rat) \<Rightarrow> (wstring \<Rightarrow> wstring option) \<Rightarrow> gui_message \<Rightarrow> ('s, 'k, 'c) gui \<Rightarrow> ('s, 'k, 'c) gui" where
  "deliver rnd dialog m g =
     (case HandleMessage rnd dialog m (gu_window g) of (w, started) \<Rightarrow>
        g \<lparr> gu_window := w, gu_thread := (if started = None then gu_thread g else started) \<rparr>)"

text \<open>
  The worker at its end. What the run saw of the flag was stored by the window before: a flag that a
  run has seen raised is raised when it ends.
\<close>

definition worker_ends ::
  "('s, 'k, 'c) calls \<Rightarrow> ('s, 'k, 'c) gui \<Rightarrow> WorkerResult \<Rightarrow> ('s, 'k, 'c) world \<Rightarrow> bool" where
  "worker_ends P g result v \<longleftrightarrow>
     (\<exists>op out rate. gu_thread g = Some (op, out, rate) \<and> worker_body P op out rate (gu_world g) = (result, v) \<and>
        (saw_flag (wd_host (gu_world g)) (wd_host v) \<longrightarrow> mw_cancelled (gu_window g)))"

inductive gui_step :: "('s, 'k, 'c) calls \<Rightarrow> (rat \<Rightarrow> rat) \<Rightarrow> ('s, 'k, 'c) gui \<Rightarrow> ('s, 'k, 'c) gui \<Rightarrow> bool"
  for P :: "('s, 'k, 'c) calls" and rnd :: "rat \<Rightarrow> rat" where
  user_edits: "\<not> mw_destroyed (gu_window g) \<Longrightarrow> mw_enabled (gu_window g) DestinationEdit \<Longrightarrow>
     gui_step P rnd g (g \<lparr> gu_window := (gu_window g) \<lparr> mw_text := path \<rparr> \<rparr>)"
| user_selects: "\<not> mw_destroyed (gu_window g) \<Longrightarrow> mw_enabled (gu_window g) RateList \<Longrightarrow>
     gui_step P rnd g (g \<lparr> gu_window := (gu_window g) \<lparr> mw_rate := Some i \<rparr> \<rparr>)"
| user_clicks: "\<not> mw_destroyed (gu_window g) \<Longrightarrow> gui_step P rnd g (deliver rnd dialog (Clicked c) g)"
| user_closes: "\<not> mw_destroyed (gu_window g) \<Longrightarrow> gui_step P rnd g (deliver rnd dialog CloseMessage g)"
| progress_posted: "gu_thread g = Some (CaptureOperation, out, rate) \<Longrightarrow>
     gui_step P rnd g (g \<lparr> gu_queue := gu_queue g @ [ProgressMessage payload] \<rparr>)"
| result_posted: "worker_ends P g result v \<Longrightarrow>
     gui_step P rnd g (g \<lparr> gu_thread := None, gu_world := v, gu_queue := gu_queue g @ [WorkerDoneMessage result] \<rparr>)"
| result_lost: "worker_ends P g result v \<Longrightarrow>
     gui_step P rnd g (g \<lparr> gu_thread := None, gu_world := v \<rparr>)"
| dispatched: "\<not> mw_destroyed (gu_window g) \<Longrightarrow> gu_queue g = m # ms \<Longrightarrow>
     gui_step P rnd g (deliver rnd dialog m (g \<lparr> gu_queue := ms \<rparr>))"

definition gui_initial :: "wstring \<Rightarrow> (wstring \<Rightarrow> bool) \<Rightarrow> ('s, 'k, 'c) world \<Rightarrow> ('s, 'k, 'c) gui" where
  "gui_initial path added v = \<lparr> gu_window = CreateControls path added MainWindow_init, gu_queue = [], gu_thread = None,
     gu_world = v \<rparr>"

inductive gui_reachable :: "('s, 'k, 'c) calls \<Rightarrow> (rat \<Rightarrow> rat) \<Rightarrow> ('s, 'k, 'c) gui \<Rightarrow> bool"
  for P :: "('s, 'k, 'c) calls" and rnd :: "rat \<Rightarrow> rat" where
  gui_start: "gui_reachable P rnd (gui_initial path added v)"
| gui_next: "gui_reachable P rnd g \<Longrightarrow> gui_step P rnd g g' \<Longrightarrow> gui_reachable P rnd g'"

text \<open>Only the end of a run of the worker touches what lies outside the window.\<close>

lemma step_world:
  assumes "gui_step P rnd g g'"
  shows "gu_world g' = gu_world g \<or> (\<exists>result. worker_ends P g result (gu_world g'))"
  using assms by cases (auto simp: deliver_def split: prod.splits)

section \<open>The invariant\<close>

definition is_done :: "gui_message \<Rightarrow> bool" where
  "is_done m \<longleftrightarrow> (case m of WorkerDoneMessage _ \<Rightarrow> True | _ \<Rightarrow> False)"

lemma is_done_simps [simp]:
  "\<not> is_done (Clicked c)" "\<not> is_done (ProgressMessage p)" "is_done (WorkerDoneMessage r)" "\<not> is_done CloseMessage"
  by (simp_all add: is_done_def)

text \<open>The runs of the worker whose result has not been shown yet.\<close>

definition outstanding :: "('s, 'k, 'c) gui \<Rightarrow> nat" where
  "outstanding g = of_bool (gu_thread g \<noteq> None) + length (filter is_done (gu_queue g))"

definition window_ok :: "MainWindow \<Rightarrow> bool" where
  "window_ok w \<longleftrightarrow>
     (\<forall>c. mw_enabled w c = (if c = CancelButton then mw_working w \<and> \<not> mw_cancelled w else \<not> mw_working w)) \<and>
     mw_worker w = mw_working w \<and> (mw_working w \<longrightarrow> \<not> mw_destroyed w) \<and>
     (mw_closing w \<longrightarrow> mw_cancelled w \<and> (mw_working w \<or> mw_destroyed w))"

definition gui_inv :: "('s, 'k, 'c) gui \<Rightarrow> bool" where
  "gui_inv g \<longleftrightarrow> window_ok (gu_window g) \<and> outstanding g \<le> of_bool (mw_working (gu_window g)) \<and>
     (\<forall>r. WorkerDoneMessage r \<in> set (gu_queue g) \<longrightarrow> ec_status (wk_capture r) = Cancelled \<longrightarrow> mw_cancelled (gu_window g))"

lemmas window_steps = SetWorking_def EnableWindow_def SetStatus_def MessageBox_def DestroyWindow_def

lemma show_results_frame [simp]:
  "mw_enabled (ShowCaptureResult rnd r w) = mw_enabled w" "mw_working (ShowCaptureResult rnd r w) = mw_working w"
  "mw_worker (ShowCaptureResult rnd r w) = mw_worker w" "mw_cancelled (ShowCaptureResult rnd r w) = mw_cancelled w"
  "mw_closing (ShowCaptureResult rnd r w) = mw_closing w" "mw_destroyed (ShowCaptureResult rnd r w) = mw_destroyed w"
  "mw_enabled (ShowDryRunResult rnd r w) = mw_enabled w" "mw_working (ShowDryRunResult rnd r w) = mw_working w"
  "mw_worker (ShowDryRunResult rnd r w) = mw_worker w" "mw_cancelled (ShowDryRunResult rnd r w) = mw_cancelled w"
  "mw_closing (ShowDryRunResult rnd r w) = mw_closing w" "mw_destroyed (ShowDryRunResult rnd r w) = mw_destroyed w"
  by (simp_all add: ShowCaptureResult_def ShowDryRunResult_def window_steps Let_def)

lemma HandleWorkerDone_window:
  "mw_enabled (HandleWorkerDone rnd r w) c = (c \<noteq> CancelButton)" "\<not> mw_working (HandleWorkerDone rnd r w)"
  "\<not> mw_worker (HandleWorkerDone rnd r w)" "mw_cancelled (HandleWorkerDone rnd r w) = mw_cancelled w"
  "mw_closing (HandleWorkerDone rnd r w) = mw_closing w"
  "mw_destroyed (HandleWorkerDone rnd r w) = (mw_closing w \<or> mw_destroyed w)"
  by (cases c; simp add: HandleWorkerDone_def window_steps Let_def)
    (simp_all add: HandleWorkerDone_def window_steps Let_def)

lemma StartWorker_window:
  assumes "StartWorker op w = (w', started)"
  shows "mw_working w \<Longrightarrow> w' = w \<and> started = None"
    and "\<not> mw_working w \<Longrightarrow> started = None \<Longrightarrow> mw_enabled w' = mw_enabled w \<and> \<not> mw_working w' \<and> \<not> mw_worker w' \<and>
      mw_cancelled w' = mw_cancelled w \<and> mw_closing w' = mw_closing w \<and> mw_destroyed w' = mw_destroyed w"
    and "started \<noteq> None \<Longrightarrow> \<not> mw_working w \<and> mw_working w' \<and> mw_worker w' \<and> \<not> mw_cancelled w' \<and>
      mw_closing w' = mw_closing w \<and> mw_destroyed w' = mw_destroyed w \<and> (\<forall>c. mw_enabled w' c = (c = CancelButton))"
proof -
  have on: "mw_enabled (SetWorking True v) c = (c = CancelButton)" for v c
    by (cases c) (simp_all add: SetWorking_def EnableWindow_def)
  show "mw_working w \<Longrightarrow> w' = w \<and> started = None"
    using assms by (simp add: StartWorker_def)
  show "\<not> mw_working w \<Longrightarrow> started = None \<Longrightarrow> mw_enabled w' = mw_enabled w \<and> \<not> mw_working w' \<and> \<not> mw_worker w' \<and>
      mw_cancelled w' = mw_cancelled w \<and> mw_closing w' = mw_closing w \<and> mw_destroyed w' = mw_destroyed w"
    using assms by (auto simp: StartWorker_def MessageBox_def Let_def split: if_splits)
  show "started \<noteq> None \<Longrightarrow> \<not> mw_working w \<and> mw_working w' \<and> mw_worker w' \<and> \<not> mw_cancelled w' \<and>
      mw_closing w' = mw_closing w \<and> mw_destroyed w' = mw_destroyed w \<and> (\<forall>c. mw_enabled w' c = (c = CancelButton))"
    using assms on by (auto simp: StartWorker_def SetStatus_def Let_def split: if_splits)
      (simp_all add: SetWorking_def EnableWindow_def)
qed

text \<open>What handling a message means for the window.\<close>

definition handled :: "gui_message \<Rightarrow> MainWindow \<Rightarrow> MainWindow \<Rightarrow> bool \<Rightarrow> bool" where
  "handled m w w' started \<longleftrightarrow> window_ok w' \<and>
     (started \<longrightarrow> \<not> mw_working w \<and> mw_working w' \<and> \<not> mw_cancelled w') \<and>
     (\<not> is_done m \<longrightarrow> mw_working w \<longrightarrow> mw_working w' \<and> (mw_cancelled w \<longrightarrow> mw_cancelled w')) \<and>
     (is_done m \<longrightarrow> \<not> started \<and> \<not> mw_working w' \<and> mw_cancelled w' = mw_cancelled w)"

lemma handle_window_ok:
  assumes ok: "window_ok w" "\<not> mw_destroyed w" and h: "HandleMessage rnd dialog m w = (w', started)"
  shows "handled m w w' (started \<noteq> None)"
proof (cases m)
  case (Clicked c)
  have start: "handled m w w' (started \<noteq> None)" if "StartWorker op w = (w', started)" for op
    using StartWorker_window [OF that] ok Clicked
    by (cases "mw_working w"; cases "started = None") (simp_all add: handled_def window_ok_def)
  note h = h [unfolded Clicked HandleMessage_def HandleClick_def, simplified]
  show ?thesis
  proof (cases c)
    case StartButton
    then show ?thesis using h start by simp
  next
    case DryRunButton
    then show ?thesis using h start by simp
  next
    case CancelButton
    then have "started = None" "w' = (if mw_working w then SetStatus (wide ''Cancelling in-flight operation...'')
        (EnableWindow CancelButton False (w \<lparr> mw_cancelled := True \<rparr>)) else w)" using h by simp_all
    then show ?thesis using ok Clicked by (auto simp: handled_def window_ok_def SetStatus_def EnableWindow_def)
  next
    case BrowseButton
    then have "started = None" and w': "w' = BrowseForDestination dialog w" using h by simp_all
    moreover have "window_ok w' \<and> mw_working w' = mw_working w \<and> mw_cancelled w' = mw_cancelled w"
      using ok by (simp add: w' BrowseForDestination_def window_ok_def split: option.split)
    ultimately show ?thesis using Clicked by (simp add: handled_def)
  qed (use h ok Clicked in \<open>simp_all add: handled_def\<close>)
next
  case (WorkerDoneMessage r)
  then show ?thesis
    using assms HandleWorkerDone_window [of rnd r w] by (auto simp: HandleMessage_def handled_def window_ok_def)
next
  case (ProgressMessage p)
  have "mw_enabled w' = mw_enabled w \<and> mw_working w' = mw_working w \<and> mw_worker w' = mw_worker w \<and>
      mw_cancelled w' = mw_cancelled w \<and> mw_closing w' = mw_closing w \<and> mw_destroyed w' = mw_destroyed w \<and> started = None"
    using h ProgressMessage by (auto simp: HandleMessage_def ShowProgress_def)
  then show ?thesis using ok ProgressMessage by (simp add: handled_def window_ok_def)
next
  case CloseMessage
  then have w': "started = None" "w' = HandleClose w" using h by (simp_all add: HandleMessage_def)
  show ?thesis
  proof (cases "mw_working w")
    case True
    then show ?thesis
      using ok w' CloseMessage by (simp add: HandleClose_def handled_def window_ok_def SetStatus_def EnableWindow_def)
  next
    case False
    then show ?thesis
      using ok w' CloseMessage by (auto simp: HandleClose_def handled_def window_ok_def DestroyWindow_def)
  qed
qed

text \<open>Delivering a message keeps the invariant; \<open>g\<close> is the state before it leaves the queue.\<close>

lemma deliver_inv:
  assumes "window_ok (gu_window g)" and "\<not> mw_destroyed (gu_window g)"
    and "outstanding g + of_bool (is_done m) \<le> of_bool (mw_working (gu_window g))"
    and "\<forall>r. WorkerDoneMessage r \<in> set (gu_queue g) \<longrightarrow> ec_status (wk_capture r) = Cancelled \<longrightarrow> mw_cancelled (gu_window g)"
  shows "gui_inv (deliver rnd dialog m g)"
proof -
  obtain w started where h: "HandleMessage rnd dialog m (gu_window g) = (w, started)" by fastforce
  note win = handle_window_ok [OF assms(1,2) h, unfolded handled_def]
  have queue: "\<not> mw_working (gu_window g) \<or> is_done m \<Longrightarrow> WorkerDoneMessage r \<notin> set (gu_queue g)" for r
  proof
    assume "\<not> mw_working (gu_window g) \<or> is_done m" and q: "WorkerDoneMessage r \<in> set (gu_queue g)"
    then have "filter is_done (gu_queue g) = []" using assms(3) by (auto simp: outstanding_def of_bool_def split: if_splits)
    then show False using q by (metis filter_empty_conv is_done_simps(3))
  qed
  have "outstanding (deliver rnd dialog m g) \<le> of_bool (mw_working w)"
    using assms(3) win h by (cases "is_done m"; cases "mw_working (gu_window g)"; cases "started = None")
      (auto simp: deliver_def outstanding_def of_bool_def split: if_splits)
  moreover have "mw_cancelled w" if "WorkerDoneMessage r \<in> set (gu_queue g)" "ec_status (wk_capture r) = Cancelled" for r
    using that win assms(4) queue [of r] by blast
  ultimately show ?thesis using win h by (auto simp: gui_inv_def deliver_def)
qed

lemma worker_ends_inv:
  assumes "gui_inv g" and "worker_ends P g result v"
  shows "gui_inv (g \<lparr> gu_thread := None, gu_world := v \<rparr>)"
    and "gui_inv (g \<lparr> gu_thread := None, gu_world := v, gu_queue := gu_queue g @ [WorkerDoneMessage result] \<rparr>)"
proof -
  obtain op out rate where e: "gu_thread g = Some (op, out, rate)" "worker_body P op out rate (gu_world g) = (result, v)"
    "saw_flag (wd_host (gu_world g)) (wd_host v) \<longrightarrow> mw_cancelled (gu_window g)"
    using assms(2) by (auto simp: worker_ends_def)
  show "gui_inv (g \<lparr> gu_thread := None, gu_world := v \<rparr>)"
    using assms(1) e(1) by (auto simp: gui_inv_def outstanding_def)
  show "gui_inv (g \<lparr> gu_thread := None, gu_world := v, gu_queue := gu_queue g @ [WorkerDoneMessage result] \<rparr>)"
    using assms(1) e worker_cancelled [OF e(2)] by (auto simp: gui_inv_def outstanding_def)
qed

lemma step_inv:
  assumes "gui_step P rnd g g'" and "gui_inv g"
  shows "gui_inv g'"
  using assms
proof (cases rule: gui_step.cases)
  case (result_posted result v)
  then show ?thesis using worker_ends_inv(2) assms(2) by blast
next
  case (result_lost result v)
  then show ?thesis using worker_ends_inv(1) assms(2) by blast
next
  case deliv: (user_clicks dialog c)
  have "gui_inv (deliver rnd dialog CloseMessage g)" "gui_inv (deliver rnd dialog (Clicked c) g)" for c
    by (intro deliver_inv; use assms(2) deliv in \<open>simp add: gui_inv_def\<close>)+
  then show ?thesis using deliv by simp
next
  case deliv: (user_closes dialog)
  have "gui_inv (deliver rnd dialog CloseMessage g)" "gui_inv (deliver rnd dialog (Clicked c) g)" for c
    by (intro deliver_inv; use assms(2) deliv in \<open>simp add: gui_inv_def\<close>)+
  then show ?thesis using deliv by simp
next
  case (dispatched m ms dialog)
  have "gui_inv (deliver rnd dialog m (g \<lparr> gu_queue := ms \<rparr>))"
    by (intro deliver_inv; use assms(2) dispatched in \<open>auto simp: gui_inv_def outstanding_def of_bool_def split: if_splits\<close>)
  then show ?thesis using dispatched by simp
qed (use assms(2) in \<open>auto simp: gui_inv_def outstanding_def window_ok_def\<close>)

lemma initial_inv: "gui_inv (gui_initial path added v)"
proof -
  have "mw_enabled (SetWorking False w) c = (c \<noteq> CancelButton)" for w c
    by (cases c) (simp_all add: SetWorking_def EnableWindow_def)
  then show ?thesis
    by (simp add: gui_initial_def gui_inv_def outstanding_def window_ok_def CreateControls_def Let_def)
      (simp add: SetWorking_def EnableWindow_def MainWindow_init_def)
qed

lemma reachable_inv: "gui_reachable P rnd g \<Longrightarrow> gui_inv g"
  by (induction rule: gui_reachable.induct) (auto intro: initial_inv step_inv)

section \<open>The message loop\<close>

text \<open>The messages of the queue in turn, until the window is gone.\<close>

fun drain :: "(rat \<Rightarrow> rat) \<Rightarrow> (wstring \<Rightarrow> wstring option) \<Rightarrow> gui_message list \<Rightarrow> MainWindow \<Rightarrow> MainWindow" where
  "drain rnd dialog [] w = w"
| "drain rnd dialog (m # ms) w =
     (if mw_destroyed w then w else drain rnd dialog ms (fst (HandleMessage rnd dialog m w)))"


lemma queue_posted:
  assumes "gui_reachable P rnd g"
  shows "\<forall>m \<in> set (gu_queue g). is_done m \<or> (\<exists>p. m = ProgressMessage p)"
  using assms
proof (induction rule: gui_reachable.induct)
  case (gui_start path added v)
  then show ?case by (simp add: gui_initial_def)
next
  case (gui_next g g')
  from gui_next.hyps(2) gui_next.IH show ?case
    by (cases rule: gui_step.cases) (auto simp: deliver_def split: prod.splits)
qed

lemma progress_frame:
  "\<forall>m \<in> set ms. \<exists>p. m = ProgressMessage p \<Longrightarrow>
   mw_enabled (drain rnd dialog ms w) = mw_enabled w \<and> mw_working (drain rnd dialog ms w) = mw_working w \<and>
   mw_closing (drain rnd dialog ms w) = mw_closing w \<and> mw_destroyed (drain rnd dialog ms w) = mw_destroyed w \<and>
   mw_boxes (drain rnd dialog ms w) = mw_boxes w"
proof (induction ms arbitrary: w)
  case (Cons m ms)
  then obtain p where "m = ProgressMessage p" by auto
  then show ?case using Cons by (simp add: HandleMessage_def ShowProgress_def)
qed simp

lemma HandleWorkerDone_box:
  "\<not> mw_closing w \<Longrightarrow> \<exists>b. mw_boxes (HandleWorkerDone rnd r w) = mw_boxes w @ [b]"
proof -
  assume "\<not> mw_closing w"
  have shown: "\<exists>b. mw_boxes (ShowCaptureResult rnd x v) = mw_boxes v @ [b]" "\<exists>b. mw_boxes (ShowDryRunResult rnd x v) = mw_boxes v @ [b]"
    for x v by (simp_all add: ShowCaptureResult_def ShowDryRunResult_def MessageBox_def SetStatus_def Let_def)
  have "mw_boxes (SetWorking False v) = mw_boxes v" "mw_closing (SetWorking False v) = mw_closing v" for v
    by (simp_all add: SetWorking_def EnableWindow_def)
  then show ?thesis
    using \<open>\<not> mw_closing w\<close> shown [of _ "SetWorking False (w \<lparr> mw_worker := False \<rparr>)"]
      shown(1) [of _ "(SetWorking False (w \<lparr> mw_worker := False \<rparr>)) \<lparr> mw_progressPercent := 100 \<rparr>"]
    by (simp add: HandleWorkerDone_def Let_def)
qed

lemma drain_shows:
  assumes "\<forall>m \<in> set ms. is_done m \<or> (\<exists>p. m = ProgressMessage p)" and "length (filter is_done ms) = 1"
    and "\<not> mw_destroyed w"
  shows "\<not> mw_working (drain rnd dialog ms w) \<and> mw_destroyed (drain rnd dialog ms w) = mw_closing w \<and>
    (\<not> mw_closing w \<longrightarrow> (\<exists>b. mw_boxes (drain rnd dialog ms w) = mw_boxes w @ [b]) \<and>
       (\<forall>c. mw_enabled (drain rnd dialog ms w) c = (c \<noteq> CancelButton)))"
  using assms
proof (induction ms arbitrary: w)
  case (Cons m ms)
  show ?case
  proof (cases "is_done m")
    case True
    then obtain r where m: "m = WorkerDoneMessage r" by (cases m) auto
    have "filter is_done ms = []" using Cons.prems(2) True by simp
    then have "\<forall>m \<in> set ms. \<exists>p. m = ProgressMessage p" using Cons.prems(1) by (auto simp: filter_empty_conv)
    then show ?thesis
      using progress_frame [of ms rnd dialog "HandleWorkerDone rnd r w"] HandleWorkerDone_window [of rnd r w]
        HandleWorkerDone_box [of w rnd r] Cons.prems(3) by (simp add: m HandleMessage_def)
  next
    case False
    then obtain p where m: "m = ProgressMessage p" using Cons.prems(1) by auto
    have "mw_destroyed (ShowProgress rnd p w) = mw_destroyed w" "mw_closing (ShowProgress rnd p w) = mw_closing w"
      "mw_boxes (ShowProgress rnd p w) = mw_boxes w" by (simp_all add: ShowProgress_def)
    then show ?thesis
      using Cons.IH [of "ShowProgress rnd p w"] Cons.prems by (simp add: m HandleMessage_def)
  qed
qed simp

section \<open>A lost result\<close>

text \<open>
  When the window's message queue refuses the result, nothing reports the end of the run: the window
  works for ever, whatever the user does, and cannot be closed.
\<close>

definition stranded :: "('s, 'k, 'c) gui \<Rightarrow> bool" where
  "stranded g \<longleftrightarrow> mw_working (gu_window g) \<and> \<not> mw_destroyed (gu_window g) \<and> outstanding g = 0"

lemma lost_result_strands:
  assumes "gui_inv g" and "worker_ends P g result v"
  shows "stranded (g \<lparr> gu_thread := None, gu_world := v \<rparr>)"
  using assms by (auto simp: gui_inv_def window_ok_def stranded_def outstanding_def worker_ends_def of_bool_def split: if_splits)

lemma deliver_stranded:
  assumes "stranded g" and "gui_inv g" and "\<not> is_done m"
  shows "stranded (deliver rnd dialog m g)"
proof -
  obtain w started where h: "HandleMessage rnd dialog m (gu_window g) = (w, started)" by fastforce
  have "handled m (gu_window g) w (started \<noteq> None)"
    by (rule handle_window_ok [OF _ _ h]) (use assms in \<open>simp_all add: stranded_def gui_inv_def\<close>)
  then show ?thesis
    using assms h by (auto simp: stranded_def handled_def window_ok_def deliver_def outstanding_def)
qed

lemma stranded_stays:
  assumes "stranded g" and "gui_inv g" and "gui_step P rnd g g'"
  shows "stranded g'"
  using assms(3)
proof (cases rule: gui_step.cases)
  case deliv: (user_clicks dialog c)
  then show ?thesis using deliver_stranded [OF assms(1,2), of "Clicked c" rnd dialog] by simp
next
  case deliv: (user_closes dialog)
  then show ?thesis using deliver_stranded [OF assms(1,2), of CloseMessage rnd dialog] by simp
next
  case (dispatched m ms dialog)
  then have "\<not> is_done m" using assms(1) by (auto simp: stranded_def outstanding_def)
  moreover have "stranded (g \<lparr> gu_queue := ms \<rparr>)" "gui_inv (g \<lparr> gu_queue := ms \<rparr>)"
    using assms(1,2) dispatched by (auto simp: stranded_def outstanding_def gui_inv_def split: if_splits)
  ultimately show ?thesis using deliver_stranded dispatched by metis
qed (use assms(1) in \<open>auto simp: stranded_def outstanding_def worker_ends_def\<close>)

end
