(* ===== verification/ProgramTheorems.thy ===== *)
theory ProgramTheorems
  imports ProgramBench GuiLoop
begin

text \<open>
  The properties of the program as a whole: what the exit code of a capture says about the volume
  and the memory, through the runtime, the driver, the device session, the acquisition engine, the
  writers and the evidence transaction; and what \<open>wmain\<close> refuses.
\<close>

section \<open>The capture\<close>

text \<open>
  C1: The exit code of a capture can be trusted. Whatever happens, no file that existed is changed
  or removed. When the program exits with 0 or 2, the volume has gained exactly the three files of a
  bundle and nothing else, the driver's own file included: the image holds every byte of physical
  memory that was read, at its place in the format; the digest is that of the flat image; the hash
  file and the map say so; the counts add up to the memory the kernel reported; and the code is 0
  exactly when nothing was unreadable and the topology did not change. Any other outcome is code 1.
\<close>

theorem exit_code_is_evidence:
  assumes "capture_program P files opened" and "cng (ca_cng P) absorbed sha256_digest"
    and "driver_connection K (ca_io P) mach fobj mem" and "session_over arr c"
    and "\<forall>r d. open_device P r w = (True, d) \<longrightarrow> connected K mach fobj c arr d"
    and "format_fits (ca_api P) opened (chosen_format (cl_format options) (cl_outputPath options))
      (cl_metadata options) (driver_runs (range_entries arr))"
    and "RunCapture P options w = (code, w')"
  defines "runs \<equiv> driver_runs (range_entries arr)" and "ps \<equiv> BuildEvidencePaths (cl_outputPath options)"
    and "before \<equiv> files (wd_sys w)" and "after \<equiv> files (wd_sys w')"
  shows "code \<in> {0, 1, 2} \<and> (\<forall>q. before q \<noteq> None \<longrightarrow> after q = before q) \<and>
    (code \<noteq> 1 \<longrightarrow> (\<exists>summary img hints text.
      (let A = ranges_addresses runs - spans_addresses (as_unreadable summary) in
       after = before(ep_mapFinal ps \<mapsto> ascii text,
         ep_hashFinal ps \<mapsto> ascii (sidecar_text (as_sha256 summary) (NarrowUtf8 (ca_utf8 P) (path_filename (cl_outputPath options)))),
         ep_rawFinal ps \<mapsto> img) \<and>
       image_content (chosen_format (cl_format options) (cl_outputPath options)) mem
         (fc_HighestPhysicalEnd c) (fc_TotalBytes c) runs hints (cl_metadata options) A img \<and>
       unhex (as_sha256 summary) = Some (sha256_digest (image_of mem A (unat (fc_HighestPhysicalEnd c)))) \<and>
       read_map text = Some (reported summary) \<and> as_ranges summary = runs \<and>
       unat (as_acquiredBytes summary) + unat (as_unreadableBytes summary) = unat (fc_TotalBytes c) \<and>
       (code = 0 \<longleftrightarrow> \<not> as_topologyChanged summary \<and> as_unreadableBytes summary = 0))))"
  unfolding runs_def ps_def before_def after_def
  by (rule capture_program.run_capture [OF assms(1-7)])

text \<open>On the machine of the bench the run does not end with 1, so the bundle is there.\<close>

theorem exit_code_is_evidence_witness:
  "\<exists>code w'. RunCapture small_program small_options small_world = (code, w') \<and> code \<in> {0, 2} \<and>
     (\<exists>doc. disk_files (wd_sys w') (ep_mapFinal (BuildEvidencePaths bench_out)) = Some (ascii doc) \<and> read_map doc \<noteq> None)"
proof -
  obtain code w' where run: "RunCapture small_program small_options small_world = (code, w')" "code \<noteq> 1"
    using house_runs by blast
  have out: "cl_outputPath small_options = bench_out" "cl_format small_options = Raw"
    by (simp_all add: small_options_def CliOptions_default_def)
  have fits: "format_fits (ca_api small_program) disk_open
      (chosen_format (cl_format small_options) (cl_outputPath small_options)) (cl_metadata small_options) R" for R
    by (simp add: out bench_raw format_fits_def)
  have names: "ep_mapFinal (BuildEvidencePaths bench_out) \<noteq> ep_hashFinal (BuildEvidencePaths bench_out)"
    "ep_mapFinal (BuildEvidencePaths bench_out) \<noteq> ep_rawFinal (BuildEvidencePaths bench_out)"
    by (simp_all add: BuildEvidencePaths_def bench_out_def wide_def)
  have cng: "cng (ca_cng small_program) hk_absorbed some_digest"
    and conn: "driver_connection small_api (ca_io small_program) (\<lambda>m. m) (\<lambda>h. h) small_mem"
    using hash_system.cng_axioms loop.driver_connection_axioms by simp_all
  note claim = exit_code_is_evidence [OF house.capture_program_axioms cng conn small_block_session house_connected fits run(1)]
  have "code \<in> {0, 2}" using claim [THEN conjunct1] run(2) by auto
  moreover obtain doc summary img hash where "disk_files (wd_sys w') = (disk_files (wd_sys small_world))
      (ep_mapFinal (BuildEvidencePaths bench_out) \<mapsto> ascii doc, ep_hashFinal (BuildEvidencePaths bench_out) \<mapsto> hash,
       ep_rawFinal (BuildEvidencePaths bench_out) \<mapsto> img)" "read_map doc = Some (reported summary)"
    using claim [THEN conjunct2, THEN conjunct2, rule_format, OF run(2)] unfolding out(1) Let_def by (elim exE conjE)
  ultimately show ?thesis using run(1) names by auto
qed


section \<open>The dry run\<close>



section \<open>Authority\<close>

text \<open>The command lines that open the window: no argument at all, or options that ask for it.\<close>

definition asks_for_window :: "wstring list \<Rightarrow> bool" where
  "asks_for_window argv \<longleftrightarrow> length argv = 1 \<or>
     (case ParseCommandLine argv CliOptions_default of Inl e \<Rightarrow> False | Inr options \<Rightarrow> cl_command options = Gui)"

text \<open>
  C39: No file changes without authority. A command line that asks for the window does what the window
  does and nothing else. Any other changes no file unless it asked for a capture, in the grammar, from
  an elevated administrator and on a supported Windows: on every other path of \<open>wmain\<close> (an error in
  the arguments, the help, a dry run, a missing privilege, an old system, a console handler that
  cannot be installed) the volume is as it was; and the exit code is 0, 1 or 2. In the window no step
  of the user, the message loop or the worker changes a file, except the end of a run of the worker
  that was started for a capture and found an elevated administrator and a supported Windows.
\<close>

theorem only_authorised_captures_write:
  assumes "capture_program P files opened" and "quiet_platform (ca_platform P) files" and "wmain P argv w = (code, w')"
  defines "authorised \<equiv> \<lambda>s. \<exists>t. IsAdministrator (ca_platform P) s = (True, t) \<and> IsSupportedWindows (ca_platform P) t = None"
  shows "(if asks_for_window argv then (code, w') = ca_gui P w
     else code \<in> {0, 1, 2} \<and> (files (wd_sys w') \<noteq> files (wd_sys w) \<longrightarrow> authorised (wd_sys w) \<and>
       (\<exists>options. ParseCommandLine argv CliOptions_default = Inr options \<and> cl_command options = Capture))) \<and>
    (\<forall>rnd g g'. gui_step P rnd g g' \<longrightarrow> files (wd_sys (gu_world g')) \<noteq> files (wd_sys (gu_world g)) \<longrightarrow>
       authorised (wd_sys (gu_world g)) \<and> (\<exists>out rate. gu_thread g = Some (CaptureOperation, out, rate)))"
proof -
  have "(code, w') = ca_gui P w" if "asks_for_window argv"
    using that assms(3) by (auto simp: asks_for_window_def wmain_def split: if_splits sum.splits)
  moreover have "code \<in> {0, 1, 2} \<and> (files (wd_sys w') \<noteq> files (wd_sys w) \<longrightarrow> authorised (wd_sys w) \<and>
       (\<exists>options. ParseCommandLine argv CliOptions_default = Inr options \<and> cl_command options = Capture))"
    if "\<not> asks_for_window argv"
  proof -
    have "length argv \<noteq> 1" "\<And>options. ParseCommandLine argv CliOptions_default = Inr options \<Longrightarrow> cl_command options \<noteq> Gui"
      using that by (auto simp: asks_for_window_def)
    from capture_program.wmain_writes [OF assms(1,2) this assms(3)] show ?thesis
      unfolding authorised_def by blast
  qed
  moreover have "authorised (wd_sys (gu_world g)) \<and> (\<exists>out rate. gu_thread g = Some (CaptureOperation, out, rate))"
    if "gui_step P rnd g g'" "files (wd_sys (gu_world g')) \<noteq> files (wd_sys (gu_world g))" for rnd g g'
    using step_world [OF that(1)] that(2) capture_program.worker_writes [OF assms(1,2)]
    unfolding worker_ends_def authorised_def by metis
  ultimately show ?thesis by simp
qed

theorem only_authorised_captures_write_witness:
  "\<exists>code w' s. wmain small_program house_arguments small_world = (code, w') \<and> code \<in> {0, 2} \<and>
     disk_files (wd_sys w') \<noteq> disk_files (wd_sys small_world) \<and>
     IsAdministrator (ca_platform small_program) (wd_sys small_world) = (True, s)"
proof -
  obtain code w' where run: "wmain small_program house_arguments small_world = (code, w')" "code \<noteq> 1"
      "disk_files (wd_sys w') \<noteq> disk_files (wd_sys small_world)" using house_wmain by blast
  have "\<not> asks_for_window house_arguments"
    using house_parses by (simp add: asks_for_window_def small_options_def CliOptions_default_def house_arguments_def)
  then have "code \<in> {0, 1, 2} \<and> (\<exists>s. IsAdministrator (ca_platform small_program) (wd_sys small_world) = (True, s))"
    using only_authorised_captures_write [OF house.capture_program_axioms house_platform run(1)] run(3) by auto
  then show ?thesis using run by auto
qed

end
