(* ===== verification/GuiTheorems.thy ===== *)
theory GuiTheorems
  imports GuiLoop ProgramBench
begin

text \<open>
  The properties of the graphical interface: what its reports mean for the volume and the memory, and
  what holds of the window in every interleaving of the user, the worker and the message loop.
\<close>

section \<open>The machine of the bench\<close>

definition house_gui :: "(disk, small_kernel machine, hash_system) gui" where
  "house_gui = gui_initial bench_out (\<lambda>_. True) small_world"

definition house_working :: "(disk, small_kernel machine, hash_system) gui" where
  "house_working = deliver id (\<lambda>_. None) (Clicked StartButton) house_gui"

lemma bench_out_ne: "bench_out \<noteq> []"
  by (simp add: bench_out_def wide_def)

lemma house_started:
  "gu_thread house_working = Some (CaptureOperation, bench_out, 0)" "gu_world house_working = small_world"
  "gu_queue house_working = []" "mw_closing (gu_window house_working) = False" "mw_boxes (gu_window house_working) = []"
  using bench_out_ne
  by (simp_all add: house_working_def house_gui_def gui_initial_def deliver_def HandleMessage_def HandleClick_def
      StartWorker_def CreateControls_def MainWindow_init_def SetWorking_def EnableWindow_def SetStatus_def
      SelectedRateLimit_def rateChoices_def Let_def)

lemma house_working_reachable: "gui_reachable small_program id house_working"
proof -
  have "gui_reachable small_program id house_gui" unfolding house_gui_def by (rule gui_start)
  moreover have "\<not> mw_destroyed (gu_window house_gui)"
    by (simp add: house_gui_def gui_initial_def CreateControls_def MainWindow_init_def SetWorking_def EnableWindow_def Let_def)
  ultimately show ?thesis unfolding house_working_def by (blast intro: gui_next user_clicks)
qed

lemma house_worker:
  "\<exists>result v. worker_body small_program CaptureOperation bench_out 0 small_world = (result, v) \<and>
     HasFinalizedBundle (wk_capture result)"
proof -
  obtain e r where st: "start_runtime small_program small_world = (True, e, r)" "roomy 2 (fst (dr_st r))"
      "\<forall>n. \<not> h_cancel (snd (dr_st r)) n" "dr_serviceStarted r" using house_starts by blast
  let ?d = "(DeviceSession_init small_machine_0) \<lparr> ds_handle := 1, ds_sys := small_opened \<rparr>"
  have d: "attached ?d" by (simp add: attached_def)
  have cfg: "cfg_format (gui_config 0) = Raw" by (simp add: gui_config_def)
  obtain capture d' s k host where cap: "CaptureEvidenceToFile (DeviceSession_class device_names loop_io) steady_api hash_api
      bench_conv bench_out (gui_config 0) ?d (fst (dr_st r)) bench_cng (snd (dr_st r)) = (capture, d', s, k, host)"
      "HasFinalizedBundle capture" using driven_capture_final [OF house_driven d st(3,2) cfg] by blast
  have hash: "wd_hash small_world = bench_cng" by (simp add: small_world_def)
  have checks: "worker_checks small_program small_world = ([], small_world)"
    by (simp add: worker_checks_def small_program_def IsAdministrator_def IsSupportedWindows_def Let_def)
  have opn: "worker_open small_program [] small_world = ([], r, ?d)"
    using st(1) house_open [of r] by (simp add: worker_open_def)
  show ?thesis
    using checks opn cap hash
    by (simp add: worker_body_def worker_operation_def WorkerResult_default_def Let_def split: prod.splits)
qed

lemma small_never_cancelled: "\<not> saw_flag (wd_host small_world) h"
  by (simp add: saw_flag_def small_world_def bench_host_def)

section \<open>What a report means\<close>

abbreviation complete_status :: wstring where
  "complete_status \<equiv> wide ''Capture complete and cryptographically finalized.''"

abbreviation incomplete_status :: wstring where
  "incomplete_status \<equiv> wide ''Capture finalized as incomplete; review provenance map.''"

abbreviation cancelled_status :: wstring where
  "cancelled_status \<equiv> wide ''Acquisition cancelled by user. Partial files cleaned.''"

abbreviation failed_status :: wstring where
  "failed_status \<equiv> wide ''Acquisition failed. No evidence files produced.''"

lemma capture_status_text:
  "mw_statusText (ShowCaptureResult rnd r w) =
    (case ec_status (wk_capture r) of Complete \<Rightarrow> complete_status | Incomplete \<Rightarrow> incomplete_status
     | Cancelled \<Rightarrow> cancelled_status | Failed \<Rightarrow> failed_status)"
  by (simp add: ShowCaptureResult_def SetStatus_def MessageBox_def Let_def split: EvidenceCaptureStatus.split)

lemma dry_run_status_text:
  "mw_statusText (ShowDryRunResult rnd r w) =
    (if \<not> wk_dryRunSucceeded r \<or> wk_error r \<noteq> [] then wide ''Topology inspection failed.''
     else if wk_topologyChanged r then wide ''Inspection complete; topology changed during session.''
     else wide ''Inspection complete. Physical topology and hints verified.'')"
  by (simp add: ShowDryRunResult_def SetStatus_def MessageBox_def Let_def)

lemma status_texts:
  "complete_status \<noteq> incomplete_status" "cancelled_status \<noteq> complete_status" "cancelled_status \<noteq> incomplete_status"
  "failed_status \<noteq> complete_status" "failed_status \<noteq> incomplete_status"
  "wide ''Topology inspection failed.'' \<noteq> complete_status" "wide ''Topology inspection failed.'' \<noteq> incomplete_status"
  "wide ''Inspection complete; topology changed during session.'' \<noteq> complete_status"
  "wide ''Inspection complete; topology changed during session.'' \<noteq> incomplete_status"
  "wide ''Inspection complete. Physical topology and hints verified.'' \<noteq> complete_status"
  "wide ''Inspection complete. Physical topology and hints verified.'' \<noteq> incomplete_status"
  by (simp_all add: wide_def)

lemma dry_run_not_final:
  "mw_statusText (ShowDryRunResult rnd r w) \<noteq> complete_status" "mw_statusText (ShowDryRunResult rnd r w) \<noteq> incomplete_status"
  unfolding dry_run_status_text using status_texts by presburger+

lemma HandleWorkerDone_shows:
  assumes "\<not> mw_closing w"
  obtains (dry) x v where "HandleWorkerDone rnd result w = ShowDryRunResult rnd x v"
  | (same) v where "HandleWorkerDone rnd result w = ShowCaptureResult rnd result v"
  | (failed) x v where "HandleWorkerDone rnd result w = ShowCaptureResult rnd x v" "ec_status (wk_capture x) = Failed"
proof -
  have "\<not> mw_closing (SetWorking False (w \<lparr> mw_worker := False \<rparr>))"
    using assms by (simp add: SetWorking_def EnableWindow_def)
  then show thesis
    using dry same failed
    by (cases "wk_operation result = CaptureOperation"; cases "wk_error result \<noteq> [] \<and> ec_error (wk_capture result) = []")
      (auto simp: HandleWorkerDone_def Let_def)
qed

lemma shown_status:
  assumes "\<not> mw_closing w" and "mw_statusText (HandleWorkerDone rnd result w) \<in> {complete_status, incomplete_status}"
  shows "HasFinalizedBundle (wk_capture result) \<and>
    (mw_statusText (HandleWorkerDone rnd result w) = complete_status \<longleftrightarrow> ec_status (wk_capture result) = Complete)"
  using assms(1)
proof (rule HandleWorkerDone_shows [of w rnd result])
  fix x v assume dry: "HandleWorkerDone rnd result w = ShowDryRunResult rnd x v"
  then show ?thesis using assms(2) dry_run_not_final [of rnd x v] by fastforce
next
  fix v assume same: "HandleWorkerDone rnd result w = ShowCaptureResult rnd result v"
  have "ec_status (wk_capture result) = Complete \<and> mw_statusText (HandleWorkerDone rnd result w) = complete_status \<or>
      ec_status (wk_capture result) = Incomplete \<and> mw_statusText (HandleWorkerDone rnd result w) = incomplete_status"
    using assms(2) status_texts(2-5) unfolding same capture_status_text
    by (cases "ec_status (wk_capture result)") (simp_all only: EvidenceCaptureStatus.case insert_iff empty_iff, blast+)
  then show ?thesis using status_texts(1) unfolding HasFinalizedBundle_def by (metis EvidenceCaptureStatus.distinct(1))
next
  fix x v assume failed: "HandleWorkerDone rnd result w = ShowCaptureResult rnd x v" "ec_status (wk_capture x) = Failed"
  have "mw_statusText (HandleWorkerDone rnd result w) = failed_status"
    unfolding failed(1) capture_status_text failed(2) by (simp only: EvidenceCaptureStatus.case)
  then show ?thesis using assms(2) status_texts(4,5) by (metis empty_iff insert_iff)
qed

text \<open>
  C7: The window tells the truth about a capture. Whatever the worker does, no file that existed is
  changed or removed, and an inspection changes none at all. When the window reports a finalized
  bundle, complete or incomplete, the volume has gained exactly the three files of a bundle at the
  path the run was started with: the image holds every byte of physical memory that was read, the
  digest is that of the flat image, the hash file and the map say so, the counts add up to the memory
  the kernel reported; and the report is \<open>complete\<close> exactly when nothing was unreadable and the
  topology did not change.
\<close>

theorem gui_reports_evidence:
  fixes rnd :: "rat \<Rightarrow> rat"
  assumes "capture_program P files opened" and "quiet_platform (ca_platform P) files"
    and "cng (ca_cng P) absorbed sha256_digest"
    and "driver_connection K (ca_io P) mach fobj mem" and "session_over arr c"
    and "\<forall>r d. open_device P r v = (True, d) \<longrightarrow> connected K mach fobj c arr d"
    and "format_fits (ca_api P) opened (chosen_format Raw out) EvidenceMetadata_default (driver_runs (range_entries arr))"
    and "worker_body P op out rate v = (result, v')" and "\<not> mw_closing w"
  defines "runs \<equiv> driver_runs (range_entries arr)" and "ps \<equiv> BuildEvidencePaths out"
    and "before \<equiv> files (wd_sys v)" and "after \<equiv> files (wd_sys v')"
    and "shown \<equiv> mw_statusText (HandleWorkerDone rnd result w)"
  shows "(\<forall>q. before q \<noteq> None \<longrightarrow> after q = before q) \<and> (op = DryRunOperation \<longrightarrow> after = before) \<and>
    (shown \<in> {complete_status, incomplete_status} \<longrightarrow> (\<exists>summary img hints text.
      (let A = ranges_addresses runs - spans_addresses (as_unreadable summary) in
       after = before(ep_mapFinal ps \<mapsto> ascii text,
         ep_hashFinal ps \<mapsto> ascii (sidecar_text (as_sha256 summary) (NarrowUtf8 (ca_utf8 P) (path_filename out))),
         ep_rawFinal ps \<mapsto> img) \<and>
       image_content (chosen_format Raw out) mem (fc_HighestPhysicalEnd c) (fc_TotalBytes c) runs hints
         EvidenceMetadata_default A img \<and>
       unhex (as_sha256 summary) = Some (sha256_digest (image_of mem A (unat (fc_HighestPhysicalEnd c)))) \<and>
       read_map text = Some (reported summary) \<and> as_ranges summary = runs \<and>
       unat (as_acquiredBytes summary) + unat (as_unreadableBytes summary) = unat (fc_TotalBytes c) \<and>
       (shown = complete_status \<longleftrightarrow> \<not> as_topologyChanged summary \<and> as_unreadableBytes summary = 0))))"
proof -
  have "\<exists>summary img hints text.
      (let A = ranges_addresses runs - spans_addresses (as_unreadable summary) in
       after = before(ep_mapFinal ps \<mapsto> ascii text,
         ep_hashFinal ps \<mapsto> ascii (sidecar_text (as_sha256 summary) (NarrowUtf8 (ca_utf8 P) (path_filename out))),
         ep_rawFinal ps \<mapsto> img) \<and>
       image_content (chosen_format Raw out) mem (fc_HighestPhysicalEnd c) (fc_TotalBytes c) runs hints
         EvidenceMetadata_default A img \<and>
       unhex (as_sha256 summary) = Some (sha256_digest (image_of mem A (unat (fc_HighestPhysicalEnd c)))) \<and>
       read_map text = Some (reported summary) \<and> as_ranges summary = runs \<and>
       unat (as_acquiredBytes summary) + unat (as_unreadableBytes summary) = unat (fc_TotalBytes c) \<and>
       (shown = complete_status \<longleftrightarrow> \<not> as_topologyChanged summary \<and> as_unreadableBytes summary = 0))"
    if "shown \<in> {complete_status, incomplete_status}"
    using capture_program.worker_bundle [OF assms(1-8) _ refl] shown_status [OF assms(9) that [unfolded shown_def]]
    unfolding shown_def runs_def ps_def before_def after_def Let_def
    by (intro exI [of _ "ec_summary (wk_capture result)"]) simp
  then show ?thesis
    using capture_program.worker_files [OF assms(1,2,8)] unfolding before_def after_def by blast
qed


theorem gui_reports_evidence_witness:
  "\<exists>result v'. worker_body small_program CaptureOperation bench_out 0 small_world = (result, v') \<and>
     (\<exists>doc. disk_files (wd_sys v') (ep_mapFinal (BuildEvidencePaths bench_out)) = Some (ascii doc) \<and> read_map doc \<noteq> None)"
proof -
  obtain result v' where run: "worker_body small_program CaptureOperation bench_out 0 small_world = (result, v')"
      "HasFinalizedBundle (wk_capture result)" using house_worker by blast
  have cng: "cng (ca_cng small_program) hk_absorbed some_digest"
    and conn: "driver_connection small_api (ca_io small_program) (\<lambda>m. m) (\<lambda>h. h) small_mem"
    using hash_system.cng_axioms loop.driver_connection_axioms by simp_all
  have fits: "format_fits (ca_api small_program) disk_open (chosen_format Raw bench_out) EvidenceMetadata_default R" for R
    by (simp add: bench_raw format_fits_def)
  have "\<not> mw_closing MainWindow_init" by (simp add: MainWindow_init_def)
  note claim = gui_reports_evidence [OF house.capture_program_axioms house_platform cng conn small_block_session house_connected
      fits run(1) this, where rnd = id]
  have "wk_operation result = CaptureOperation \<and> wk_error result = []"
    using capture_program.worker_bundle [OF house.capture_program_axioms house_platform cng conn small_block_session house_connected fits run refl] by blast
  then have "mw_statusText (HandleWorkerDone id result MainWindow_init) \<in> {complete_status, incomplete_status}"
    using run(2) \<open>\<not> mw_closing MainWindow_init\<close>
    by (auto simp: HandleWorkerDone_def capture_status_text HasFinalizedBundle_def SetWorking_def EnableWindow_def Let_def
        simp del: insert_iff intro: insertI1 insertI2)
  note found = claim [THEN conjunct2, THEN conjunct2, THEN mp, OF this, unfolded Let_def]
  from found obtain doc summary img hash where "disk_files (wd_sys v') = (disk_files (wd_sys small_world))
      (ep_mapFinal (BuildEvidencePaths bench_out) \<mapsto> ascii doc, ep_hashFinal (BuildEvidencePaths bench_out) \<mapsto> hash,
       ep_rawFinal (BuildEvidencePaths bench_out) \<mapsto> img)" "read_map doc = Some (reported summary)"
    by (elim exE conjE) (rule that)
  moreover have "ep_mapFinal (BuildEvidencePaths bench_out) \<noteq> ep_hashFinal (BuildEvidencePaths bench_out)"
    "ep_mapFinal (BuildEvidencePaths bench_out) \<noteq> ep_rawFinal (BuildEvidencePaths bench_out)"
    by (simp_all add: BuildEvidencePaths_def bench_out_def wide_def)
  ultimately show ?thesis using run(1) by auto
qed

section \<open>The window and its worker\<close>

text \<open>
  C8: In every interleaving of the user, the worker and the message loop: at most one worker run is
  under way or waits to be shown, and only while the window is working; the window is never destroyed
  under a running worker; the buttons say what is possible (everything but \<open>Cancel\<close> exactly while
  nothing runs, \<open>Cancel\<close> exactly while a run has not been cancelled yet); a window that is being
  closed has asked its worker to stop; and a result that says it was cancelled waits only where
  somebody did ask.
\<close>

theorem gui_keeps_one_worker:
  assumes "gui_reachable P rnd g"
  defines "w \<equiv> gu_window g"
  shows "of_bool (gu_thread g \<noteq> None) + length (filter is_done (gu_queue g)) \<le> (of_bool (mw_working w) :: nat) \<and>
    (mw_working w \<longrightarrow> \<not> mw_destroyed w) \<and>
    (\<forall>c. mw_enabled w c = (if c = CancelButton then mw_working w \<and> \<not> mw_cancelled w else \<not> mw_working w)) \<and>
    (mw_closing w \<longrightarrow> mw_cancelled w \<and> (mw_working w \<or> mw_destroyed w)) \<and>
    (\<forall>r. WorkerDoneMessage r \<in> set (gu_queue g) \<longrightarrow> ec_status (wk_capture r) = Cancelled \<longrightarrow> mw_cancelled w)"
  using reachable_inv [OF assms(1)] unfolding w_def gui_inv_def window_ok_def outstanding_def by blast

theorem gui_keeps_one_worker_witness:
  "gui_reachable small_program id house_working \<and> gu_thread house_working \<noteq> None \<and>
   mw_working (gu_window house_working) \<and> \<not> mw_destroyed (gu_window house_working) \<and>
   mw_enabled (gu_window house_working) StartButton = False"
proof -
  have "mw_working (gu_window house_working)"
    using gui_keeps_one_worker [OF house_working_reachable] house_started(1) by (auto simp: of_bool_def split: if_splits)
  then show ?thesis
    using gui_keeps_one_worker [OF house_working_reachable] house_working_reachable house_started(1) by simp
qed

text \<open>
  C40: The end of a run is always shown. Once the result is in the window's queue, dispatching the
  queue ends the working state: a window that was being closed is destroyed, and any other shows
  exactly one more message box and enables everything but \<open>Cancel\<close>.
\<close>

theorem finished_worker_is_shown:
  fixes dialog :: "wstring \<Rightarrow> wstring option"
  assumes "gui_reachable P rnd g" and "WorkerDoneMessage result \<in> set (gu_queue g)"
  defines "w \<equiv> gu_window g" and "w' \<equiv> drain rnd dialog (gu_queue g) (gu_window g)"
  shows "\<not> mw_working w' \<and> mw_destroyed w' = mw_closing w \<and>
    (\<not> mw_closing w \<longrightarrow> (\<exists>b. mw_boxes w' = mw_boxes w @ [b]) \<and> (\<forall>c. mw_enabled w' c = (c \<noteq> CancelButton)))"
proof -
  note inv = reachable_inv [OF assms(1)]
  have "WorkerDoneMessage result \<in> set (filter is_done (gu_queue g))" using assms(2) by simp
  then have "filter is_done (gu_queue g) \<noteq> []" by (metis empty_iff list.set(1))
  then have "length (filter is_done (gu_queue g)) = 1" "mw_working (gu_window g)"
    using inv by (auto simp: gui_inv_def outstanding_def of_bool_def le_Suc_eq split: if_splits)
  moreover have "\<not> mw_destroyed (gu_window g)"
    using inv \<open>mw_working (gu_window g)\<close> by (simp add: gui_inv_def window_ok_def)
  ultimately show ?thesis
    unfolding w_def w'_def using drain_shows queue_posted [OF assms(1)] by blast
qed

theorem finished_worker_is_shown_witness:
  "\<exists>g result. gui_reachable small_program id g \<and> gu_queue g = [WorkerDoneMessage result] \<and>
     length (mw_boxes (drain id (\<lambda>_. None) (gu_queue g) (gu_window g))) = 1"
proof -
  obtain result v where run: "worker_body small_program CaptureOperation bench_out 0 small_world = (result, v)"
    using house_worker by blast
  let ?g = "house_working \<lparr> gu_thread := None, gu_world := v, gu_queue := gu_queue house_working @ [WorkerDoneMessage result] \<rparr>"
  have "worker_ends small_program house_working result v"
    using run house_started small_never_cancelled by (simp add: worker_ends_def)
  then have g: "gui_reachable small_program id ?g" "gu_queue ?g = [WorkerDoneMessage result]"
    using gui_next [OF house_working_reachable] result_posted house_started(3) by (blast, simp)
  then show ?thesis
    using finished_worker_is_shown [OF g(1), of result "\<lambda>_. None"] house_started(4,5) by fastforce
qed

text \<open>
  If the window's queue does not take the result, the program never learns of the end of the run: in
  every later state the window still works and still exists, so it can neither be used nor closed.
\<close>

lemma lost_result_blocks_window:
  assumes "gui_reachable P rnd g" and "worker_ends P g result v"
    and "(gui_step P rnd)\<^sup>*\<^sup>* (g \<lparr> gu_thread := None, gu_world := v \<rparr>) h"
  shows "mw_working (gu_window h) \<and> \<not> mw_destroyed (gu_window h)"
proof -
  note inv = reachable_inv [OF assms(1)]
  from assms(3) have "stranded h \<and> gui_inv h"
  proof induction
    case base
    then show ?case using lost_result_strands worker_ends_inv(1) inv assms(2) by blast
  next
    case (step y z)
    then show ?case using stranded_stays step_inv by blast
  qed
  then show ?thesis by (simp add: stranded_def)
qed

end
