(* ===== verification/Spec2Isabelle.thy ===== *)
theory Spec2Isabelle
  imports AcquireTheorems MapReader WriterTheorems E01Theorems EvidenceTheorems SessionTheorems CommandLineTheorems ServiceTheorems
    ProgramTheorems GuiTheorems
begin

text \<open>
  PhylaRAM acquires the physical memory of a live Windows machine into an evidence bundle: an image
  (flat, crash dump or EWF-E01), a provenance map in JSON and a SHA-256 sidecar. This development
  models the kernel driver and the capture program and proves what an exit code, a report of the
  window and a published bundle say about the memory of the machine.

  \<^bold>\<open>The parts and how they interact.\<close> \<open>wmain\<close> (\<open>cli/main.cpp\<close>) parses the arguments, checks the user and
  the Windows version, and runs a dry run, a capture or the window (\<open>cli/gui.cpp\<close>), whose worker thread
  does the same. A run starts the driver runtime (\<open>cli/driver_resource.cpp\<close>, \<open>cli/driver_service.cpp\<close>:
  extract the embedded driver, install and start its service), opens a device session
  (\<open>cli/device.cpp\<close>) that speaks the protocol of \<open>shared/phylaram.h\<close> with the driver (\<open>driver/*.c\<close>), and
  hands the session to the evidence transaction (\<open>cli/evidence_transaction.cpp\<close>). The transaction lets
  the engine (\<open>cli/acquire.cpp\<close>) read the ranges into one of three writers (\<open>cli/raw_writer.cpp\<close>,
  \<open>cli/zdmp_writer.cpp\<close>, \<open>cli/e01_writer.cpp\<close>) and a hasher (\<open>cli/sha256.cpp\<close>), writes the map and the
  sidecar (\<open>cli/map.cpp\<close>) and promotes the staged files to their final names.

  \<^bold>\<open>Conventions.\<close> A class is a record of its data members, each member function a definition over that
  record and the state of the system it calls; an abstract class (\<open>IDeviceSession\<close>, \<open>IRawWriter\<close>, \<open>IHasher\<close>
  of \<open>shared/interfaces.hpp\<close>) is a record of functions over an object state. Integers are words of
  their width, so that wrap-around is the program's; a \<open>double\<close> is a rational with the rounding to the
  nearest double an argument where it shows. A function that reports failure returns a flag with the
  state it left; a driver callback returns an option, where \<open>None\<close> is a fault of the kernel (a stale
  pointer, an access outside an array, a double free). Wide strings are lists of 16-bit units.

  \<^bold>\<open>Parameters.\<close> Windows is not part of the repository. Its calls are records of functions over an
  abstract state: \<open>win32\<close> (files, \<open>Win32Files\<close>), \<open>cng_api\<close> (hash provider, \<open>Sha256\<close>), \<open>kernel\<close> and \<open>wdf\<close>
  (\<open>Driver\<close>, \<open>DriverIo\<close>), \<open>staging\<close> (resources, security descriptors, random numbers, \<open>DriverResource\<close>),
  \<open>scm\<close> (services, \<open>ServiceControl\<close>), \<open>platform\<close> (tokens and versions, \<open>MainProgram\<close>), and the host's clock,
  sleep and cancellation flag (\<open>Host\<close>). What a component relies on is a locale: \<open>win32_files\<close>, \<open>cng\<close>,
  \<open>windows_kernel\<close>, \<open>staging_system\<close>, \<open>service_system\<close>, \<open>driver_connection\<close>, \<open>capture_program\<close>. Each is
  interpreted on an executable system (\<open>Volume\<close>, \<open>DriverTheorems\<close>, \<open>SessionTheorems\<close>, \<open>RuntimeTheorems\<close>,
  \<open>ProgramBench\<close>), which is also where the witnesses of the properties are evaluated.

  \<^bold>\<open>The interfaces inside the program.\<close> \<open>device_contract\<close>, \<open>hasher_contract\<close>, \<open>image_writer_contract\<close> and
  \<open>staged_writer\<close> are what the engine and the transaction expect of the classes they are given;
  \<open>acquisition\<close>, \<open>flat_acquisition\<close> and \<open>reliable_acquisition\<close> collect them for one acquisition. The
  classes of the program keep them: the sublocales of \<open>RawWriter\<close>, \<open>Sha256\<close> and \<open>EvidenceFrame\<close>, the
  lemmas \<open>connected_contract\<close> and \<open>connected_frozen\<close> of \<open>DriverSession\<close>, and the interpretations of
  \<open>DeviceContract\<close> and \<open>ProgramBench\<close>.
\<close>

section \<open>Theories and sources\<close>

text \<open>
  \<^item> \<open>Prelude\<close>, \<open>Host\<close>, \<open>Format\<close>, \<open>Layout\<close>: words, byte lists, the clock and the flag, what the program uses of
    \<open>std::ostream\<close>, little-endian layouts of packed structures.
  \<^item> \<open>Interfaces\<close>: \<open>shared/interfaces.hpp\<close>, the configuration, and the contracts.
  \<^item> \<open>Acquire\<close>: \<open>cli/acquire.cpp\<close>. \<open>AcquireAccounting\<close> (requests, byte balance), \<open>AcquireSpans\<close> (geometry of the
    unreadable spans), \<open>AcquireSafety\<close> (every path: requests, cancellation, pacing), \<open>AcquireImage\<close> (image and
    hash), \<open>AcquireProgress\<close> (completion), \<open>AcquirePacing\<close> (the deadline of the rate limit), \<open>Bench\<close> (a
    device over a given memory), \<open>AcquireTheorems\<close>.
  \<^item> \<open>Win32Files\<close>, \<open>Volume\<close>: the file API, its laws and an executable volume.
  \<^item> \<open>RawWriter\<close>, \<open>ZdmpWriter\<close>, \<open>E01Writer\<close>, \<open>Sha256\<close>, \<open>MapJson\<close>: the writers, the hasher, the text artifacts.
    \<open>MapReader\<close> is an independent JSON reader for the map. \<open>WriterTheorems\<close>, \<open>E01Theorems\<close>: a session of a
    writer against a specification of its file, and readers that get the data back.
  \<^item> \<open>Evidence\<close>: \<open>cli/evidence_transaction.cpp\<close>. \<open>EvidenceFrame\<close> (what a step can touch), \<open>EvidenceAtomic\<close>
    (all or nothing), \<open>EvidenceBench\<close>, \<open>EvidenceTheorems\<close> (what a bundle says).
  \<^item> \<open>Protocol\<close>: \<open>shared/phylaram.h\<close>. \<open>Driver\<close>: \<open>driver/session.c\<close>, \<open>driver/memory.c\<close>. \<open>DriverIo\<close>: \<open>driver/ioctl.c\<close>,
    \<open>driver/driver.c\<close>. \<open>DriverSafety\<close> (laws of the kernel, no fault), \<open>DriverLife\<close> and \<open>DriverSystem\<close> (callbacks
    as a step relation over all file objects, its invariant), \<open>DriverTheorems\<close>.
  \<^item> \<open>DeviceSession\<close>: \<open>cli/device.cpp\<close>. \<open>DeviceContract\<close> (any driver), \<open>DriverSession\<close> (over the modelled driver:
    one frozen memory), \<open>SessionTheorems\<close>.
  \<^item> \<open>DriverResource\<close>, \<open>ServiceControl\<close>: \<open>cli/driver_resource.cpp\<close>, \<open>cli/driver_service.cpp\<close>. \<open>StagingContract\<close>,
    \<open>RuntimeTheorems\<close>, \<open>ServiceTheorems\<close>: bounded waits, and no driver file left behind.
  \<^item> \<open>CommandLine\<close>, \<open>MainProgram\<close>: \<open>cli/main.cpp\<close>. \<open>CommandLineTheorems\<close>, \<open>ProgramContract\<close>, \<open>ProgramBench\<close>,
    \<open>ProgramTheorems\<close>: the parser against a printer, and the exit codes.
  \<^item> \<open>GuiWindow\<close>: \<open>cli/gui.cpp\<close>. \<open>GuiContract\<close> (what a run of the worker leaves), \<open>GuiLoop\<close> (user, worker and
    message loop as a step relation), \<open>GuiTheorems\<close>.
\<close>

section \<open>What the properties show\<close>

text \<open>
  \<^item> End to end (\<open>ProgramTheorems\<close>, \<open>GuiTheorems\<close>): an exit code of 0 or 2, or a window that reports a finalised
    capture, means that exactly one bundle was added whose image, digest, sidecar and map are those of
    the memory the driver session describes; a dry run leaves no trace; only authorised captures write.
  \<^item> Transaction: a capture adds the three files or reports failure; a published bundle is evidence.
  \<^item> Engine: image and hash, byte accounting, geometry of the spans and the coalescing they encode,
    legality of every request, pacing, completion.
  \<^item> Writers: refinement of an array for the flat image; the file of a crash dump and of an E01 container
    as functions of the data, with readers that recover it; the map read back; the digest of a stream.
  \<^item> Driver: in every reachable state no callback faults, the live pool blocks are those of the open file
    objects, control requests stay inside the caller's buffer, ended sessions refuse, a changed topology is
    reported.
  \<^item> Device session: a successful query has ordered disjoint runs whatever the driver answers, and over the
    modelled driver the session is the abstract device of the engine.
  \<^item> Runtime and command line: files restored, waits bounded, extraction atomic; rendered options are parsed
    back, accepted options are consistent.
  \<^item> Window: one worker at a time, the window outlives it, its result is always shown.
\<close>

section \<open>Bounds, termination and limits\<close>

text \<open>
  \<^item> No definition of the program carries fuel; the only fuel is that of the reader's parser in \<open>MapReader\<close>,
    the number of tokens of the text, which the round trip shows to be enough. Loops are structural
    recursions or functions with a measure, and the driver's scan for the zero entry, which leaves an
    array that has none, is a partial function whose termination \<open>count_loop_terminates\<close> states:
    the engine's loops consume the rest of a run (a turn that does not move forward fails in the code
    before it repeats); pacing and service waits end because the clock of the host is monotonic and each
    sleep advances it, which the type of \<open>host\<close> builds in; \<open>WriteFile\<close> loops end because an answer of zero
    bytes, or a short one where the code wants all, is a failure in the code. The driver's scans of a
    snapshot run on an array with a zero entry, which \<open>windows_kernel\<close> assumes of
    \<open>MmGetPhysicalMemoryRanges\<close>; without it they fault (\<open>None\<close>).
  \<^item> The deadline of the rate limit and the time left to it are 64-bit counts of nanoseconds, added and
    subtracted with wrap-around. The pacing property is stated where the start plus twice the transfer
    time stays below 2^63 ns (292 years), and its two bounds allow for the rounding of the \<open>double\<close>
    computation.
  \<^item> The chunk table of an E01 container holds 32-bit offsets; reading back is proved below that limit and
    the lemma \<open>chunk_offset_wraps\<close> shows what happens beyond it. A crash-dump header holds 32 runs.
  \<^item> The memory of the end-to-end statements is frozen: \<open>mem\<close> gives one value per address. A live machine
    changes while it is read; there the statements about spans, accounting and the hash of what was
    written remain, those about \<open>mem\<close> speak of each byte as it was read.
  \<^item> Atomicity assumes that the deletion of a file the program created succeeds, and that no other process
    works on the bundle's names during the transaction.
\<close>

section \<open>What is not modelled\<close>

text \<open>
  \<^item> Of the window: its creation, fonts and drawing, the subclass procedures of its controls, and \<open>LaunchGui\<close>,
    which only call the window system. A message box is one step: messages that its own loop dispatches
    while it is open count as dispatched after it. A thread that cannot be created, and a failing
    allocation anywhere, end the program by an exception and are left out. A run of the worker is one
    step at its end, with its progress messages before it.
  \<^item> The text of the console progress line; the figures it shows are part of the model.
  \<^item> Directories and security descriptors as states of the volume: the calls are made and their answers obeyed,
    the files are what the statements speak of.
  \<^item> Code signing, the installer files, the Rust verifier, the Python converter, the scripts and the tests.
\<close>

end
